(* ===== verification/Prelude.thy ===== *)
theory Prelude
  imports Complex_Main "HOL-Library.Word" "HOL-Library.Signed_Division"
begin

text \<open>
  Shared vocabulary of the development: the collections of definitions that the component
  proofs unfold, the model's names for Go's basic types, Go's string helpers that the engine
  calls (\<open>strings.TrimSpace\<close>, \<open>strings.ToLower\<close>, \<open>strings.TrimRight\<close>, \<open>strings.Join\<close>,
  \<open>strconv\<close>'s decimal printing and parsing), and generic lemmas on lists and maps.

  Go strings are byte strings, so a text is a \<^typ>\<open>string\<close> whose characters are the bytes of
  its UTF-8 encoding.  Go integers of type \<open>int\<close> are 64 bits wide; every counter and
  millisecond value of the modelled code stays far below that width, so they are \<^typ>\<open>int\<close> or
  \<^typ>\<open>nat\<close>.  Where a width matters (G.711 samples, WAV header fields) the value is a word.
\<close>

named_theorems go_defs \<open>Go library helpers\<close>

named_theorems chan_defs \<open>buffered channels\<close>

named_theorems timer_defs \<open>operations of the timer facility\<close>

named_theorems vad_defs \<open>operations of the voice-activity machine\<close>

named_theorems session_defs \<open>operations on a session that are not transition handlers\<close>

named_theorems handler_defs \<open>transition handlers\<close>

type_synonym byte = "8 word"

type_synonym bytes = "8 word list"

type_synonym duration = int

section \<open>Durations\<close>

text \<open>Go's \<open>time.Duration\<close> counts nanoseconds.\<close>

definition millisecond :: duration where
  "millisecond = 1000000"

definition second :: duration where
  "second = 1000000000"

section \<open>Go string helpers\<close>

text \<open>
  \<open>strings.TrimSpace\<close> removes leading and trailing white space as \<open>unicode.IsSpace\<close> defines
  it.  On the UTF-8 bytes the white-space runes are the six ASCII ones and the listed multi-byte
  sequences (U+0085, U+00A0, U+1680, U+2000 to U+200A, U+2028, U+2029, U+202F, U+205F, U+3000).
\<close>

definition space_runes :: "string list" where
  "space_runes =
     [[CHR 0x09], [CHR 0x0A], [CHR 0x0B], [CHR 0x0C], [CHR 0x0D], [CHR 0x20],
      [CHR 0xC2, CHR 0x85], [CHR 0xC2, CHR 0xA0], [CHR 0xE1, CHR 0x9A, CHR 0x80],
      [CHR 0xE2, CHR 0x80, CHR 0x80], [CHR 0xE2, CHR 0x80, CHR 0x81],
      [CHR 0xE2, CHR 0x80, CHR 0x82], [CHR 0xE2, CHR 0x80, CHR 0x83],
      [CHR 0xE2, CHR 0x80, CHR 0x84], [CHR 0xE2, CHR 0x80, CHR 0x85],
      [CHR 0xE2, CHR 0x80, CHR 0x86], [CHR 0xE2, CHR 0x80, CHR 0x87],
      [CHR 0xE2, CHR 0x80, CHR 0x88], [CHR 0xE2, CHR 0x80, CHR 0x89],
      [CHR 0xE2, CHR 0x80, CHR 0x8A], [CHR 0xE2, CHR 0x80, CHR 0xA8],
      [CHR 0xE2, CHR 0x80, CHR 0xA9], [CHR 0xE2, CHR 0x80, CHR 0xAF],
      [CHR 0xE2, CHR 0x81, CHR 0x9F], [CHR 0xE3, CHR 0x80, CHR 0x80]]"

fun has_prefix :: "'a list \<Rightarrow> 'a list \<Rightarrow> bool" where
  "has_prefix [] s = True"
| "has_prefix (p # ps) [] = False"
| "has_prefix (p # ps) (c # s) = (p = c \<and> has_prefix ps s)"

fun lead_len :: "'a list list \<Rightarrow> 'a list \<Rightarrow> nat" where
  "lead_len [] s = 0"
| "lead_len (p # ps) s = (if has_prefix p s then length p else lead_len ps s)"

function strip_front :: "'a list list \<Rightarrow> 'a list \<Rightarrow> 'a list" where
  "strip_front ps s =
     (let n = lead_len ps s in
      if n = 0 \<or> s = [] then s else strip_front ps (drop n s))"
  by pat_completeness auto
termination
  by (relation "measure (\<lambda>(ps, s). length s)") auto

declare strip_front.simps [simp del]

definition trimSpace :: "string \<Rightarrow> string" where
  "trimSpace s =
     rev (strip_front (map rev space_runes) (rev (strip_front space_runes s)))"

text \<open>
  \<open>strings.ToLower\<close> on the ASCII letters.  Its consumers compare the result with ASCII
  words none of whose letters is the lower case of a non-ASCII rune, so other bytes may stay.
\<close>

definition toLower_char :: "char \<Rightarrow> char" where
  "toLower_char c =
     (if 65 \<le> (of_char c :: nat) \<and> (of_char c :: nat) \<le> 90
      then char_of (of_char c + 32 :: nat) else c)"

definition toLower :: "string \<Rightarrow> string" where
  "toLower = map toLower_char"

definition trimRight :: "char list \<Rightarrow> string \<Rightarrow> string" where
  "trimRight cs s = rev (dropWhile (\<lambda>c. c \<in> set cs) (rev s))"

fun joinWith :: "string \<Rightarrow> string list \<Rightarrow> string" where
  "joinWith sep [] = []"
| "joinWith sep [x] = x"
| "joinWith sep (x # y # ys) = x @ sep @ joinWith sep (y # ys)"

fun nat_dec :: "nat \<Rightarrow> string" where
  "nat_dec n =
     (if n < 10 then [char_of (48 + n)] else nat_dec (n div 10) @ [char_of (48 + n mod 10)])"

declare nat_dec.simps [simp del]

definition itoa :: "int \<Rightarrow> string" where
  "itoa i = (if i < 0 then CHR ''-'' # nat_dec (nat (- i)) else nat_dec (nat i))"

section \<open>Facts about the string helpers\<close>

lemma has_prefix_iff: "has_prefix p s \<longleftrightarrow> (\<exists>t. s = p @ t)"
  by (induction p s rule: has_prefix.induct) auto

lemma lead_len_zero_nonempty:
  "[] \<notin> set ps \<Longrightarrow> lead_len ps s = 0 \<longleftrightarrow> (\<forall>p \<in> set ps. \<not> has_prefix p s)"
  by (induction ps) auto

lemma strip_front_fix: "lead_len ps s = 0 \<Longrightarrow> strip_front ps s = s"
  by (subst strip_front.simps) simp

lemma strip_front_suffix: "\<exists>u. s = u @ strip_front ps s"
proof (induction ps s rule: strip_front.induct)
  case (1 ps s)
  show ?case
  proof (cases "lead_len ps s = 0 \<or> s = []")
    case True
    then show ?thesis by (subst strip_front.simps) (auto simp: Let_def)
  next
    case False
    with 1 obtain u where "drop (lead_len ps s) s = u @ strip_front ps (drop (lead_len ps s) s)"
      by auto
    then have "s = (take (lead_len ps s) s @ u) @ strip_front ps (drop (lead_len ps s) s)"
      by (metis append_assoc append_take_drop_id)
    moreover from False have "strip_front ps s = strip_front ps (drop (lead_len ps s) s)"
      by (subst strip_front.simps) (simp add: Let_def)
    ultimately show ?thesis by metis
  qed
qed

lemma lead_len_Nil: "[] \<notin> set ps \<Longrightarrow> lead_len ps [] = 0"
  by (auto simp: lead_len_zero_nonempty has_prefix_iff)

lemma strip_front_clean:
  "[] \<notin> set ps \<Longrightarrow> lead_len ps (strip_front ps s) = 0"
proof (induction ps s rule: strip_front.induct)
  case (1 ps s)
  then show ?case
    by (subst strip_front.simps) (auto simp: Let_def lead_len_Nil)
qed

lemma lead_len_take:
  "[] \<notin> set ps \<Longrightarrow> lead_len ps (t @ u) = 0 \<Longrightarrow> lead_len ps t = 0"
  by (auto simp: lead_len_zero_nonempty has_prefix_iff)

lemma space_runes_nonempty [simp]:
  "[] \<notin> set space_runes" "[] \<notin> set (map rev space_runes)"
  by (simp_all add: space_runes_def)

text \<open>A trimmed string starts and ends with no white space, and trimming it again keeps it.\<close>

lemma trimSpace_clean:
  "lead_len space_runes (trimSpace s) = 0"
  "lead_len (map rev space_runes) (rev (trimSpace s)) = 0"
proof -
  let ?l = "strip_front space_runes s"
  obtain u where "rev ?l = u @ rev (trimSpace s)"
    using strip_front_suffix [of "rev ?l" "map rev space_runes"] by (auto simp: trimSpace_def)
  then have "?l = trimSpace s @ rev u"
    by (metis rev_append rev_rev_ident)
  with strip_front_clean [of space_runes s] show "lead_len space_runes (trimSpace s) = 0"
    by (auto intro: lead_len_take [where u = "rev u"])
  show "lead_len (map rev space_runes) (rev (trimSpace s)) = 0"
    by (simp add: trimSpace_def strip_front_clean del: set_map)
qed

lemma trimSpace_idem [simp]: "trimSpace (trimSpace s) = trimSpace s"
  using trimSpace_clean [of s] by (subst trimSpace_def) (simp add: strip_front_fix)

lemma joinWith_Cons: "joinWith sep (x # xs) = (if xs = [] then x else x @ sep @ joinWith sep xs)"
  by (cases xs) auto

section \<open>Lists\<close>

text \<open>Consecutive pieces of at most \<open>n\<close> elements: Go's \<open>for i := 0; i < len; i += n\<close>.\<close>

function chunks :: "nat \<Rightarrow> 'a list \<Rightarrow> 'a list list" where
  "chunks n xs = (if n = 0 \<or> xs = [] then [] else take n xs # chunks n (drop n xs))"
  by pat_completeness auto
termination
  by (relation "measure (\<lambda>(n, xs). length xs)") auto

declare chunks.simps [simp del]

lemma chunks_Nil [simp]: "chunks n [] = []"
  by (simp add: chunks.simps)

lemma concat_chunks: "0 < n \<Longrightarrow> concat (chunks n xs) = xs"
proof (induction n xs rule: chunks.induct)
  case (1 n xs)
  then show ?case by (simp add: chunks.simps [of n xs])
qed

lemma chunks_bound: "c \<in> set (chunks n xs) \<Longrightarrow> 0 < length c \<and> length c \<le> n"
proof (induction n xs rule: chunks.induct)
  case (1 n xs)
  show ?case
  proof (cases "n = 0 \<or> xs = []")
    case True
    with "1.prems" show ?thesis by (auto simp: chunks.simps [of n xs])
  next
    case False
    with "1.prems" have "c = take n xs \<or> c \<in> set (chunks n (drop n xs))"
      by (simp add: chunks.simps [of n xs])
    with 1 False show ?thesis by auto
  qed
qed

lemma length_chunks: "0 < n \<Longrightarrow> length (chunks n xs) = (length xs + n - 1) div n"
proof (induction n xs rule: chunks.induct)
  case (1 n xs)
  show ?case
  proof (cases "xs = []")
    case True
    with "1.prems" show ?thesis by simp
  next
    case False
    then have pos: "0 < length xs" by simp
    from 1 False have step: "length (chunks n xs) = Suc ((length xs - n + n - 1) div n)"
      by (simp add: chunks.simps [of n xs])
    show ?thesis
    proof (cases "length xs \<le> n")
      case True
      with pos "1.prems" have "(length xs - n + n - 1) div n = 0" by simp
      moreover have "n \<le> length xs + n - 1" and "length xs + n - 1 < n + n"
        using True pos "1.prems" by linarith+
      then have "(length xs + n - 1) div n = 1"
        by (intro div_nat_eqI) simp_all
      ultimately show ?thesis by (simp add: step)
    next
      case False
      then have "length xs + n - 1 = (length xs - 1) + n" and "length xs - n + n - 1 = length xs - 1"
        using "1.prems" by simp_all
      moreover have "((length xs - 1) + n) div n = Suc ((length xs - 1) div n)"
        using "1.prems" by (simp only: div_add_self2)
      ultimately show ?thesis by (simp only: step)
    qed
  qed
qed

section \<open>Integers in text\<close>

definition int64_ok :: "int \<Rightarrow> bool" where
  "int64_ok i \<longleftrightarrow> - (2 ^ 63) \<le> i \<and> i < 2 ^ 63"

definition is_digit :: "char \<Rightarrow> bool" where
  "is_digit c \<longleftrightarrow> 48 \<le> (of_char c :: nat) \<and> (of_char c :: nat) \<le> 57"

definition digits_val :: "string \<Rightarrow> int" where
  "digits_val ds = foldl (\<lambda>n c. 10 * n + (int (of_char c) - 48)) 0 ds"

text \<open>\<open>strconv.Atoi\<close>.\<close>

definition atoi :: "string \<Rightarrow> int option" where
  "atoi s =
     (let neg = (case s of c # _ \<Rightarrow> c = CHR ''-'' | [] \<Rightarrow> False);
          ds = (case s of c # cs \<Rightarrow> if c = CHR ''-'' \<or> c = CHR ''+'' then cs else s | [] \<Rightarrow> []);
          v = (if neg then - digits_val ds else digits_val ds)
      in if ds \<noteq> [] \<and> list_all is_digit ds \<and> int64_ok v then Some v else None)"

lemma digits_val_snoc: "digits_val (ds @ [c]) = 10 * digits_val ds + (int (of_char c) - 48)"
  by (simp add: digits_val_def)

lemma nat_dec_digits: "nat_dec n \<noteq> [] \<and> list_all is_digit (nat_dec n) \<and> digits_val (nat_dec n) = int n"
proof (induction n rule: nat_dec.induct)
  case (1 n)
  have d: "is_digit (char_of (48 + n mod 10 :: nat))" by (simp add: is_digit_def)
  show ?case
  proof (cases "n < 10")
    case True
    with d show ?thesis
      by (simp add: nat_dec.simps [of n] digits_val_def is_digit_def)
  next
    case False
    with 1 d have ih: "list_all is_digit (nat_dec (n div 10))" "digits_val (nat_dec (n div 10)) = int (n div 10)" by simp_all
    have "int n = 10 * int (n div 10) + int (n mod 10)" by (simp add: zdiv_int zmod_int)
    with False ih d show ?thesis
      by (simp add: nat_dec.simps [of n] digits_val_snoc)
  qed
qed

lemma nat_dec_head: "nat_dec n = c # cs \<Longrightarrow> c \<noteq> CHR ''-'' \<and> c \<noteq> CHR ''+''"
  using nat_dec_digits [of n] by (auto simp: is_digit_def)

lemma atoi_itoa: "int64_ok i \<Longrightarrow> atoi (itoa i) = Some i"
proof -
  assume ok: "int64_ok i"
  show ?thesis
  proof (cases "i < 0")
    case True
    with ok nat_dec_digits [of "nat (- i)"] show ?thesis by (simp add: atoi_def itoa_def Let_def)
  next
    case False
    obtain c cs where c: "nat_dec (nat i) = c # cs" using nat_dec_digits [of "nat i"] by (cases "nat_dec (nat i)") auto
    with False ok nat_dec_digits [of "nat i"] nat_dec_head [OF c] show ?thesis
      by (simp add: atoi_def itoa_def Let_def)
  qed
qed

end
