(* ===== verification/Service.thy ===== *)
theory Service
  imports Prelude
begin

text \<open>
  The service plumbing of \<open>telephony/service.go\<close>: the audio constants every component derives
  its timing from, \<open>MuLawDuration\<close>, \<open>ComputeDepth\<close>, and the buffered channel behind the
  \<open>ServiceInput\<close>/\<open>ServiceOutput\<close> planes.

  A buffered channel is its capacity and its queued values, oldest first.  The engine sends on it
  in two ways: \<open>BufferedChan.Send\<close> blocks until there is room or the context is done (a
  relation, because Go's \<open>select\<close> picks any ready case), and the sequencer's
  \<open>select { case ch <- v: default: }\<close> takes the value or drops it at once (\<open>trySend\<close>).
\<close>

section \<open>Audio constants and conversions\<close>

definition DataPlaneBufferMS :: int where
  "DataPlaneBufferMS = 80"

definition MuLawFrameMS :: int where
  "MuLawFrameMS = 20"

definition SampleRateHz :: int where
  "SampleRateHz = 8000"

lemmas audio_consts = DataPlaneBufferMS_def MuLawFrameMS_def SampleRateHz_def

text \<open>One byte per sample at \<^const>\<open>SampleRateHz\<close>, in nanoseconds.\<close>

definition MuLawDuration :: "int \<Rightarrow> duration" where
  "MuLawDuration n = (n * second) sdiv SampleRateHz"

text \<open>\<open>ceil(bufferMS / frameMS)\<close>; the engine calls it with positive arguments only.\<close>

definition ComputeDepth :: "int \<Rightarrow> int \<Rightarrow> int" where
  "ComputeDepth bufferMS frameMS = - ((- bufferMS) div frameMS)"

section \<open>Buffered channels\<close>

record 'a bufferedChan =
  chan_cap :: nat
  chan_buf :: "'a list"

definition newBufferedChan :: "nat \<Rightarrow> 'a bufferedChan" where
  "newBufferedChan depth = \<lparr>chan_cap = depth, chan_buf = []\<rparr>"

definition chan_room :: "'a bufferedChan \<Rightarrow> bool" where
  "chan_room c \<longleftrightarrow> length (chan_buf c) < chan_cap c"

definition trySend :: "'a bufferedChan \<Rightarrow> 'a \<Rightarrow> 'a bufferedChan option" where
  "trySend c v = (if chan_room c then Some (c\<lparr>chan_buf := chan_buf c @ [v]\<rparr>) else None)"

definition tryRecv :: "'a bufferedChan \<Rightarrow> ('a \<times> 'a bufferedChan) option" where
  "tryRecv c = (case chan_buf c of [] \<Rightarrow> None | v # vs \<Rightarrow> Some (v, c\<lparr>chan_buf := vs\<rparr>))"

datatype chan_error = SendCancelled | RecvCancelled

text \<open>
  \<open>Send\<close> and \<open>Recv\<close> under a context: \<open>done\<close> says whether the context is cancelled.  A call that
  matches no rule is blocked.
\<close>

inductive chan_Send :: "bool \<Rightarrow> 'a bufferedChan \<Rightarrow> 'a \<Rightarrow> chan_error + 'a bufferedChan \<Rightarrow> bool" where
  sent: "trySend c v = Some c' \<Longrightarrow> chan_Send ctx_done c v (Inr c')"
| send_cancelled: "ctx_done \<Longrightarrow> chan_Send ctx_done c v (Inl SendCancelled)"

inductive chan_Recv :: "bool \<Rightarrow> 'a bufferedChan \<Rightarrow> chan_error + ('a \<times> 'a bufferedChan) \<Rightarrow> bool" where
  received: "tryRecv c = Some (v, c') \<Longrightarrow> chan_Recv ctx_done c (Inr (v, c'))"
| recv_cancelled: "ctx_done \<Longrightarrow> chan_Recv ctx_done c (Inl RecvCancelled)"

inductive_simps chan_Send_Inr: "chan_Send d c v (Inr c')"
inductive_simps chan_Send_Inl: "chan_Send d c v (Inl e)"
inductive_simps chan_Recv_Inr: "chan_Recv d c (Inr r)"
inductive_simps chan_Recv_Inl: "chan_Recv d c (Inl e)"

text \<open>A live context and a full channel: \<open>Send\<close> has no outcome, it waits.\<close>

lemma chan_Send_blocks:
  "\<not> chan_room c \<Longrightarrow> \<not> chan_Send False c v r"
  by (cases r) (auto simp: chan_Send_Inr chan_Send_Inl trySend_def)

lemma chan_Send_succeeds_iff:
  "(\<exists>c'. chan_Send d c v (Inr c')) \<longleftrightarrow> chan_room c"
  by (auto simp: chan_Send_Inr trySend_def)

section \<open>The channel interface\<close>

text \<open>
  What a client of a bounded channel relies on.  A client runs a sequence of attempted sends and
  receives; \<open>chan_ops\<close> collects what was accepted and what was received.
\<close>

datatype 'a chan_op = SendOp 'a | RecvOp

fun chan_ops :: "('c \<Rightarrow> 'a \<Rightarrow> 'c option) \<Rightarrow> ('c \<Rightarrow> ('a \<times> 'c) option) \<Rightarrow> 'a chan_op list \<Rightarrow> 'c \<Rightarrow>
    'a list \<times> 'a list \<times> 'c" where
  "chan_ops snd_op rcv_op [] c = ([], [], c)"
| "chan_ops snd_op rcv_op (SendOp v # ops) c =
     (case snd_op c v of
        None \<Rightarrow> chan_ops snd_op rcv_op ops c
      | Some c' \<Rightarrow> (case chan_ops snd_op rcv_op ops c' of (acc, rcvd, d) \<Rightarrow> (v # acc, rcvd, d)))"
| "chan_ops snd_op rcv_op (RecvOp # ops) c =
     (case rcv_op c of
        None \<Rightarrow> chan_ops snd_op rcv_op ops c
      | Some (v, c') \<Rightarrow> (case chan_ops snd_op rcv_op ops c' of (acc, rcvd, d) \<Rightarrow> (acc, v # rcvd, d)))"

locale bounded_fifo =
  fixes snd_op :: "'c \<Rightarrow> 'a \<Rightarrow> 'c option"
    and rcv_op :: "'c \<Rightarrow> ('a \<times> 'c) option"
    and contents :: "'c \<Rightarrow> 'a list"
    and capacity :: "'c \<Rightarrow> nat"
  assumes snd_Some: "snd_op c v = Some c' \<Longrightarrow>
      length (contents c) < capacity c \<and> contents c' = contents c @ [v] \<and> capacity c' = capacity c"
    and snd_None: "snd_op c v = None \<Longrightarrow> capacity c \<le> length (contents c)"
    and rcv_Some: "rcv_op c = Some (v, c') \<Longrightarrow> contents c = v # contents c' \<and> capacity c' = capacity c"
    and rcv_None: "rcv_op c = None \<Longrightarrow> contents c = []"
begin

lemma fifo_conservation:
  "chan_ops snd_op rcv_op ops c = (acc, rcvd, d) \<Longrightarrow> rcvd @ contents d = contents c @ acc"
proof (induction ops arbitrary: c acc rcvd d)
  case Nil
  then show ?case by simp
next
  case (Cons x ops)
  then show ?case
    by (cases x) (fastforce split: option.splits prod.splits dest: snd_Some rcv_Some)+
qed

lemma bounded_contents:
  "chan_ops snd_op rcv_op ops c = (acc, rcvd, d) \<Longrightarrow> length (contents c) \<le> capacity c \<Longrightarrow>
     length (contents d) \<le> capacity d \<and> capacity d = capacity c"
proof (induction ops arbitrary: c acc rcvd d)
  case Nil
  then show ?case by simp
next
  case (Cons x ops)
  show ?case
  proof (cases x)
    case (SendOp v)
    with Cons show ?thesis
      by (fastforce split: option.splits prod.splits dest: snd_Some)
  next
    case RecvOp
    with Cons show ?thesis
      by (fastforce split: option.splits prod.splits dest: rcv_Some)
  qed
qed

lemma full_drops: "length (contents c) = capacity c \<Longrightarrow> snd_op c v = None"
  using snd_Some by (cases "snd_op c v") fastforce+

end

interpretation bchan: bounded_fifo trySend tryRecv chan_buf chan_cap
  by unfold_locales (auto simp: trySend_def tryRecv_def chan_room_def split: if_splits list.splits)

end
