(* ===== verification/Timer.thy ===== *)
theory Timer
  imports Service "HOL-Library.Sublist"
begin

text \<open>
  The timer facility of \<open>telephony/timer.go\<close>: named timers with generation counters, served by
  one run loop.  A state holds the loop's variables, the goroutine of every armed timer that has
  not ended, the set of cancelled timer contexts, the buffered \<open>completions\<close> channel (capacity
  one) and, in \<open>sending\<close>, the completion the loop is blocked on while that channel is full.
  A cancel function is identified by the generation whose context it cancels.

  \<open>tf_step\<close> is every move of the loop, of the timer goroutines and of the client; the invariant
  \<open>tf_inv\<close> holds in every reachable state.  The \<open>timer_service\<close> locale is what a client relies on.
\<close>

section \<open>State\<close>

record TimerCompletion =
  tcName :: string
  tcTimerID :: int
  tcDuration :: duration

record TimerFacility =
  nextTimerID :: int
  activeTimers :: "string \<rightharpoonup> int"
  cancelFuncs :: "string \<rightharpoonup> int"
  settledTimers :: "(string \<times> int) list"
  goroutines :: "(string \<times> int \<times> duration) list"
  cancelledCtxs :: "int set"
  completions :: "TimerCompletion bufferedChan"
  sending :: "TimerCompletion option"

definition maxSettledTimers :: nat where
  "maxSettledTimers = 1024"

definition newTimerFacility :: TimerFacility where
  "newTimerFacility = \<lparr>nextTimerID = 1, activeTimers = Map.empty, cancelFuncs = Map.empty,
     settledTimers = [], goroutines = [], cancelledCtxs = {},
     completions = newBufferedChan 1, sending = None\<rparr>"

text \<open>Reading a Go map of integers: a missing key reads as 0.\<close>

definition map_read :: "('k \<rightharpoonup> int) \<Rightarrow> 'k \<Rightarrow> int" where
  "map_read m k = (case m k of None \<Rightarrow> 0 | Some v \<Rightarrow> v)"

section \<open>Commands\<close>

definition cancelExisting :: "string \<Rightarrow> TimerFacility \<Rightarrow> TimerFacility" where
  "cancelExisting name tf =
     (case cancelFuncs tf name of
        None \<Rightarrow> tf
      | Some g \<Rightarrow> tf\<lparr>cancelledCtxs := insert g (cancelledCtxs tf),
                     cancelFuncs := (cancelFuncs tf)(name := None)\<rparr>)"

definition handleArm :: "string \<Rightarrow> duration \<Rightarrow> TimerFacility \<Rightarrow> int \<times> TimerFacility" where
  "handleArm name dur tf0 =
     (let tf = cancelExisting name tf0;
          timerId = nextTimerID tf + 1
      in (timerId, tf\<lparr>nextTimerID := timerId,
            activeTimers := (activeTimers tf)(name \<mapsto> timerId),
            cancelFuncs := (cancelFuncs tf)(name \<mapsto> timerId),
            goroutines := goroutines tf @ [(name, timerId, dur)]\<rparr>))"

definition handleCancel :: "string \<Rightarrow> TimerFacility \<Rightarrow> TimerFacility" where
  "handleCancel name tf0 =
     (let tf = cancelExisting name tf0 in tf\<lparr>activeTimers := (activeTimers tf)(name := None)\<rparr>)"

fun evictLoop :: "(string \<times> int) list \<Rightarrow> (string \<rightharpoonup> int) \<Rightarrow> (string \<times> int) list \<times> (string \<rightharpoonup> int)" where
  "evictLoop [] act = ([], act)"
| "evictLoop ((name, gen) # rest) act =
     (if length ((name, gen) # rest) > maxSettledTimers
      then evictLoop rest (if map_read act name = gen then act(name := None) else act)
      else ((name, gen) # rest, act))"

definition evictSettledTimers :: "TimerFacility \<Rightarrow> TimerFacility" where
  "evictSettledTimers tf =
     (case evictLoop (settledTimers tf) (activeTimers tf) of
        (settled, act) \<Rightarrow> tf\<lparr>settledTimers := settled, activeTimers := act\<rparr>)"

definition handleIsCurrent :: "TimerCompletion \<Rightarrow> TimerFacility \<Rightarrow> bool" where
  "handleIsCurrent c tf \<longleftrightarrow> map_read (activeTimers tf) (tcName c) = tcTimerID c"

text \<open>
  The fire command.  After the bookkeeping the loop sends the completion; the send is a move of
  its own (\<open>deliverCompletion\<close>), because the channel may be full.
\<close>

definition handleFireTimerIfCurrent :: "string \<Rightarrow> int \<Rightarrow> duration \<Rightarrow> TimerFacility \<Rightarrow> TimerFacility" where
  "handleFireTimerIfCurrent name timerID dur tf =
     (if map_read (activeTimers tf) name = timerID then
        (let tf = tf\<lparr>settledTimers := settledTimers tf @ [(name, timerID)]\<rparr>;
             tf = evictSettledTimers tf;
             tf = tf\<lparr>cancelFuncs := (cancelFuncs tf)(name := None)\<rparr>
         in tf\<lparr>sending := Some \<lparr>tcName = name, tcTimerID = timerID, tcDuration = dur\<rparr>\<rparr>)
      else tf)"

definition deliverCompletion :: "TimerFacility \<Rightarrow> TimerFacility option" where
  "deliverCompletion tf =
     (case sending tf of
        None \<Rightarrow> None
      | Some c \<Rightarrow> (case trySend (completions tf) c of
          None \<Rightarrow> None
        | Some ch \<Rightarrow> Some (tf\<lparr>completions := ch, sending := None\<rparr>)))"

text \<open>The end of a timer goroutine, after firing or on a cancelled context.\<close>

definition endGoroutine :: "string \<times> int \<times> duration \<Rightarrow> TimerFacility \<Rightarrow> TimerFacility" where
  "endGoroutine t tf = tf\<lparr>goroutines := remove1 t (goroutines tf)\<rparr>"

section \<open>The running facility\<close>

text \<open>
  The loop takes a command only at its \<open>select\<close>, that is when it is not \<open>sending\<close>.  A goroutine
  whose context is cancelled may still get its fire command accepted: both cases of its
  \<open>select\<close> are ready.
\<close>

inductive tf_step :: "TimerFacility \<Rightarrow> TimerFacility \<Rightarrow> bool" where
  arm: "sending tf = None \<Longrightarrow> tf_step tf (snd (handleArm name dur tf))"
| cancel: "sending tf = None \<Longrightarrow> tf_step tf (handleCancel name tf)"
| fire: "(name, g, dur) \<in> set (goroutines tf) \<Longrightarrow> sending tf = None \<Longrightarrow>
     tf_step tf (handleFireTimerIfCurrent name g dur (endGoroutine (name, g, dur) tf))"
| quit: "(name, g, dur) \<in> set (goroutines tf) \<Longrightarrow> g \<in> cancelledCtxs tf \<Longrightarrow>
     tf_step tf (endGoroutine (name, g, dur) tf)"
| deliver: "deliverCompletion tf = Some tf' \<Longrightarrow> tf_step tf tf'"
| receive: "tryRecv (completions tf) = Some (c, ch) \<Longrightarrow> tf_step tf (tf\<lparr>completions := ch\<rparr>)"

inductive tf_reach :: "TimerFacility \<Rightarrow> TimerFacility \<Rightarrow> bool" where
  start: "tf_reach tf tf"
| more: "tf_reach tf tf' \<Longrightarrow> tf_step tf' tf'' \<Longrightarrow> tf_reach tf tf''"

lemmas timer_op_defs = cancelExisting_def handleArm_def handleCancel_def deliverCompletion_def
  endGoroutine_def Let_def

section \<open>Invariant\<close>

text \<open>The completions that were fired and not yet received, oldest first.\<close>

definition undelivered :: "TimerFacility \<Rightarrow> TimerCompletion list" where
  "undelivered tf = chan_buf (completions tf) @ (case sending tf of None \<Rightarrow> [] | Some c \<Rightarrow> [c])"

definition tc_key :: "TimerCompletion \<Rightarrow> string \<times> int" where
  "tc_key c = (tcName c, tcTimerID c)"

definition go_key :: "string \<times> int \<times> duration \<Rightarrow> string \<times> int" where
  "go_key t = (fst t, fst (snd t))"

text \<open>
  \<^item> generations are at least 2 and never above the counter;
  \<^item> an active timer either has its goroutine running, under a context that is not cancelled and
    registered under its name, or has fired and is settled;
  \<^item> generations of running goroutines and settled timers are pairwise different;
  \<^item> the completions on their way are the last settled timers, and the settled queue is bounded.
\<close>

definition timer_keys :: "TimerFacility \<Rightarrow> (string \<times> int) list" where
  "timer_keys tf = map go_key (goroutines tf) @ settledTimers tf"

definition gens_ok :: "TimerFacility \<Rightarrow> bool" where
  "gens_ok tf \<longleftrightarrow> 1 \<le> nextTimerID tf \<and> distinct (map snd (timer_keys tf)) \<and>
     (\<forall>g \<in> set (map snd (timer_keys tf)). 2 \<le> g \<and> g \<le> nextTimerID tf)"

definition owners_ok :: "TimerFacility \<Rightarrow> bool" where
  "owners_ok tf \<longleftrightarrow>
     (\<forall>n g. cancelFuncs tf n = Some g \<longrightarrow>
        activeTimers tf n = Some g \<and> (n, g) \<in> set (map go_key (goroutines tf))) \<and>
     (\<forall>n g. activeTimers tf n = Some g \<longrightarrow>
        cancelFuncs tf n = Some g \<or> (n, g) \<in> set (settledTimers tf)) \<and>
     (\<forall>g \<in> cancelledCtxs tf. g \<le> nextTimerID tf \<and> (\<forall>n. activeTimers tf n \<noteq> Some g))"

definition queue_ok :: "TimerFacility \<Rightarrow> bool" where
  "queue_ok tf \<longleftrightarrow> suffix (map tc_key (undelivered tf)) (settledTimers tf) \<and>
     length (settledTimers tf) \<le> maxSettledTimers \<and>
     chan_cap (completions tf) = 1 \<and> length (chan_buf (completions tf)) \<le> 1"

definition tf_inv :: "TimerFacility \<Rightarrow> bool" where
  "tf_inv tf \<longleftrightarrow> gens_ok tf \<and> owners_ok tf \<and> queue_ok tf"

lemma owners_okD:
  assumes "owners_ok tf"
  shows "cancelFuncs tf n = Some g \<Longrightarrow> activeTimers tf n = Some g"
    "cancelFuncs tf n = Some g \<Longrightarrow> (n, g) \<in> set (map go_key (goroutines tf))"
    "activeTimers tf n = Some g \<Longrightarrow> cancelFuncs tf n = Some g \<or> (n, g) \<in> set (settledTimers tf)"
    "g \<in> cancelledCtxs tf \<Longrightarrow> g \<le> nextTimerID tf"
    "g \<in> cancelledCtxs tf \<Longrightarrow> activeTimers tf n \<noteq> Some g"
  using assms unfolding owners_ok_def by blast+

lemma owners_okI:
  assumes "\<And>n g. cancelFuncs tf n = Some g \<Longrightarrow> activeTimers tf n = Some g"
    "\<And>n g. cancelFuncs tf n = Some g \<Longrightarrow> (n, g) \<in> set (map go_key (goroutines tf))"
    "\<And>n g. activeTimers tf n = Some g \<Longrightarrow> cancelFuncs tf n = Some g \<or> (n, g) \<in> set (settledTimers tf)"
    "\<And>g. g \<in> cancelledCtxs tf \<Longrightarrow> g \<le> nextTimerID tf"
    "\<And>g n. g \<in> cancelledCtxs tf \<Longrightarrow> activeTimers tf n \<noteq> Some g"
  shows "owners_ok tf"
  using assms unfolding owners_ok_def by blast

lemma tf_invD:
  assumes "tf_inv tf"
  shows "gens_ok tf" "owners_ok tf" "queue_ok tf"
  using assms by (simp_all add: tf_inv_def)

lemma map_read_eq: "g \<noteq> 0 \<Longrightarrow> map_read m k = g \<longleftrightarrow> m k = Some g"
  by (auto simp: map_read_def split: option.splits)

lemma evictLoop_eq:
  "evictLoop s act = (drop (length s - maxSettledTimers) s,
     \<lambda>n. case act n of None \<Rightarrow> None
        | Some g \<Rightarrow> if (n, g) \<in> set (take (length s - maxSettledTimers) s) then None else Some g)"
proof (induction s act rule: evictLoop.induct)
  case (1 act)
  then show ?case by (auto split: option.split)
next
  case (2 name gen rest act)
  show ?case
  proof (cases "length ((name, gen) # rest) > maxSettledTimers")
    case True
    then have l: "length ((name, gen) # rest) - maxSettledTimers = Suc (length rest - maxSettledTimers)"
      by simp
    show ?thesis unfolding l using True 2
      by (auto simp: map_read_def fun_eq_iff split: option.splits if_splits)
  next
    case False
    then show ?thesis by (auto split: option.split)
  qed
qed

text \<open>An active timer's key is among the keys, and two timers never share a generation.\<close>

lemma active_key:
  "owners_ok tf \<Longrightarrow> activeTimers tf n = Some g \<Longrightarrow> (n, g) \<in> set (timer_keys tf)"
  unfolding owners_ok_def timer_keys_def by (metis UnCI set_append)

lemma key_unique:
  "distinct (map snd ks) \<Longrightarrow> (n, g) \<in> set ks \<Longrightarrow> (n', g) \<in> set ks \<Longrightarrow> n = n'"
  by (metis distinct_map inj_onD prod.inject snd_conv)

lemma tf_inv_active_inj:
  "tf_inv tf \<Longrightarrow> activeTimers tf n = Some g \<Longrightarrow> activeTimers tf n' = Some g \<Longrightarrow> n = n'"
  unfolding tf_inv_def gens_ok_def by (metis active_key key_unique)

lemma active_gen:
  "tf_inv tf \<Longrightarrow> activeTimers tf n = Some g \<Longrightarrow> 2 \<le> g \<and> g \<le> nextTimerID tf"
  unfolding tf_inv_def gens_ok_def by (metis active_key image_eqI list.set_map snd_conv)

lemma tf_inv_init: "tf_inv newTimerFacility"
  by (simp add: tf_inv_def gens_ok_def owners_ok_def queue_ok_def timer_keys_def newTimerFacility_def
      undelivered_def newBufferedChan_def)

lemma cancelExisting_simps [simp]:
  "cancelledCtxs (cancelExisting n tf) = cancelledCtxs tf \<union> set_option (cancelFuncs tf n)"
  "cancelFuncs (cancelExisting n tf) = (cancelFuncs tf)(n := None)"
  "activeTimers (cancelExisting n tf) = activeTimers tf"
  "nextTimerID (cancelExisting n tf) = nextTimerID tf"
  "goroutines (cancelExisting n tf) = goroutines tf"
  "settledTimers (cancelExisting n tf) = settledTimers tf"
  "completions (cancelExisting n tf) = completions tf"
  "sending (cancelExisting n tf) = sending tf"
  by (auto simp: cancelExisting_def split: option.splits)

lemma handleArm_simps [simp]:
  "fst (handleArm n dur tf) = nextTimerID tf + 1"
  "nextTimerID (snd (handleArm n dur tf)) = nextTimerID tf + 1"
  "activeTimers (snd (handleArm n dur tf)) = (activeTimers tf)(n \<mapsto> nextTimerID tf + 1)"
  "cancelFuncs (snd (handleArm n dur tf)) = (cancelFuncs tf)(n \<mapsto> nextTimerID tf + 1)"
  "goroutines (snd (handleArm n dur tf)) = goroutines tf @ [(n, nextTimerID tf + 1, dur)]"
  "settledTimers (snd (handleArm n dur tf)) = settledTimers tf"
  "cancelledCtxs (snd (handleArm n dur tf)) = cancelledCtxs tf \<union> set_option (cancelFuncs tf n)"
  "completions (snd (handleArm n dur tf)) = completions tf"
  "sending (snd (handleArm n dur tf)) = sending tf"
  by (simp_all add: handleArm_def Let_def)

lemma handleCancel_simps [simp]:
  "nextTimerID (handleCancel n tf) = nextTimerID tf"
  "activeTimers (handleCancel n tf) = (activeTimers tf)(n := None)"
  "cancelFuncs (handleCancel n tf) = (cancelFuncs tf)(n := None)"
  "goroutines (handleCancel n tf) = goroutines tf"
  "settledTimers (handleCancel n tf) = settledTimers tf"
  "cancelledCtxs (handleCancel n tf) = cancelledCtxs tf \<union> set_option (cancelFuncs tf n)"
  "completions (handleCancel n tf) = completions tf"
  "sending (handleCancel n tf) = sending tf"
  by (simp_all add: handleCancel_def Let_def)

lemma undelivered_arm_cancel [simp]:
  "undelivered (snd (handleArm n dur tf)) = undelivered tf"
  "undelivered (handleCancel n tf) = undelivered tf"
  by (simp_all add: undelivered_def)

lemma cancelFunc_gen:
  "tf_inv tf \<Longrightarrow> cancelFuncs tf n = Some g \<Longrightarrow> activeTimers tf n = Some g \<and> g \<le> nextTimerID tf"
  using active_gen unfolding tf_inv_def owners_ok_def by blast

text \<open>Retiring the generation a name holds keeps the context part of the invariant.\<close>

lemma cancelled_retired:
  assumes inv: "tf_inv tf" and g: "g \<in> cancelledCtxs tf \<union> set_option (cancelFuncs tf n)"
    and v: "v = None \<or> v = Some (nextTimerID tf + 1)"
  shows "g \<le> nextTimerID tf \<and> (\<forall>m. ((activeTimers tf)(n := v)) m \<noteq> Some g)"
proof -
  from g consider "g \<in> cancelledCtxs tf" | "cancelFuncs tf n = Some g"
    by (cases "cancelFuncs tf n") auto
  then show ?thesis
  proof cases
    case 1
    then have "g \<le> nextTimerID tf" "\<forall>m. activeTimers tf m \<noteq> Some g"
      using inv unfolding tf_inv_def owners_ok_def by blast+
    with v show ?thesis by auto
  next
    case 2
    then have c: "activeTimers tf n = Some g" "g \<le> nextTimerID tf"
      using cancelFunc_gen [OF inv] by simp_all
    have "m = n" if "activeTimers tf m = Some g" for m
      using tf_inv_active_inj [OF inv that c(1)] .
    with c(2) v show ?thesis by auto
  qed
qed

lemma gens_insert:
  fixes N :: int
  assumes "distinct (A @ B)" "\<forall>g \<in> set (A @ B). 2 \<le> g \<and> g \<le> N" "1 \<le> N"
  shows "distinct (A @ (N + 1) # B)" "\<forall>g \<in> set (A @ (N + 1) # B). 2 \<le> g \<and> g \<le> N + 1"
proof -
  have new: "N + 1 \<notin> set (A @ B)"
  proof
    assume "N + 1 \<in> set (A @ B)"
    with assms(2) have "N + 1 \<le> N" by blast
    then show False by simp
  qed
  with assms(1) show "distinct (A @ (N + 1) # B)" by simp
  show "\<forall>g \<in> set (A @ (N + 1) # B). 2 \<le> g \<and> g \<le> N + 1"
  proof
    fix g assume "g \<in> set (A @ (N + 1) # B)"
    then have "g = N + 1 \<or> g \<in> set (A @ B)" by auto
    then have "g = N + 1 \<or> 2 \<le> g \<and> g \<le> N" using assms(2) by blast
    with assms(3) show "2 \<le> g \<and> g \<le> N + 1" by linarith
  qed
qed

lemma tf_inv_handleArm:
  assumes inv: "tf_inv tf"
  shows "tf_inv (snd (handleArm n dur tf))"
proof -
  let ?g = "nextTimerID tf + 1"
  have g: "1 \<le> nextTimerID tf" "distinct (map snd (map go_key (goroutines tf) @ settledTimers tf))"
    "\<forall>g \<in> set (map snd (map go_key (goroutines tf) @ settledTimers tf)). 2 \<le> g \<and> g \<le> nextTimerID tf"
    using inv unfolding tf_inv_def gens_ok_def timer_keys_def by blast+
  have "map snd (timer_keys (snd (handleArm n dur tf))) =
      map snd (map go_key (goroutines tf)) @ ?g # map snd (settledTimers tf)"
    by (simp add: timer_keys_def go_key_def)
  with g(1) gens_insert [OF g(2,3) [unfolded map_append] g(1)] have "gens_ok (snd (handleArm n dur tf))"
    unfolding gens_ok_def by simp
  moreover have "owners_ok (snd (handleArm n dur tf))"
    unfolding owners_ok_def
  proof (intro conjI allI impI ballI)
    fix m g assume "cancelFuncs (snd (handleArm n dur tf)) m = Some g"
    then show "activeTimers (snd (handleArm n dur tf)) m = Some g"
      and "(m, g) \<in> set (map go_key (goroutines (snd (handleArm n dur tf))))"
      using inv unfolding tf_inv_def owners_ok_def by (auto simp: go_key_def split: if_splits)
  next
    fix m g assume "activeTimers (snd (handleArm n dur tf)) m = Some g"
    then show "cancelFuncs (snd (handleArm n dur tf)) m = Some g \<or>
        (m, g) \<in> set (settledTimers (snd (handleArm n dur tf)))"
      using inv unfolding tf_inv_def owners_ok_def by (auto split: if_splits)
  next
    fix g m assume "g \<in> cancelledCtxs (snd (handleArm n dur tf))"
    with cancelled_retired [OF inv, of g n "Some ?g"]
    show "g \<le> nextTimerID (snd (handleArm n dur tf))"
      and "activeTimers (snd (handleArm n dur tf)) m \<noteq> Some g" by auto
  qed
  moreover have "queue_ok (snd (handleArm n dur tf))"
    using inv by (simp add: tf_inv_def queue_ok_def)
  ultimately show ?thesis by (simp add: tf_inv_def)
qed

lemma tf_inv_handleCancel:
  assumes inv: "tf_inv tf"
  shows "tf_inv (handleCancel n tf)"
proof -
  have "owners_ok (handleCancel n tf)"
    unfolding owners_ok_def
  proof (intro conjI allI impI ballI)
    fix g m assume "g \<in> cancelledCtxs (handleCancel n tf)"
    with cancelled_retired [OF inv, of g n None]
    show "g \<le> nextTimerID (handleCancel n tf)" and "activeTimers (handleCancel n tf) m \<noteq> Some g" by auto
  qed (use inv in \<open>auto simp: tf_inv_def owners_ok_def split: if_splits\<close>)
  moreover have "gens_ok (handleCancel n tf)" "queue_ok (handleCancel n tf)"
    using inv by (simp_all add: tf_inv_def gens_ok_def queue_ok_def timer_keys_def)
  ultimately show ?thesis by (simp add: tf_inv_def)
qed

text \<open>Firing.  The eviction removes settled timers from the front only, so it never touches the
  timer that fires or a completion that is still on its way.\<close>

lemma evictSettledTimers_simps [simp]:
  "nextTimerID (evictSettledTimers tf) = nextTimerID tf"
  "cancelFuncs (evictSettledTimers tf) = cancelFuncs tf"
  "goroutines (evictSettledTimers tf) = goroutines tf"
  "cancelledCtxs (evictSettledTimers tf) = cancelledCtxs tf"
  "completions (evictSettledTimers tf) = completions tf"
  "sending (evictSettledTimers tf) = sending tf"
  "settledTimers (evictSettledTimers tf) =
     drop (length (settledTimers tf) - maxSettledTimers) (settledTimers tf)"
  by (simp_all add: evictSettledTimers_def evictLoop_eq)

lemma evict_active:
  "activeTimers (evictSettledTimers tf) n = Some g \<longleftrightarrow>
     activeTimers tf n = Some g \<and>
     (n, g) \<notin> set (take (length (settledTimers tf) - maxSettledTimers) (settledTimers tf))"
  by (auto simp: evictSettledTimers_def evictLoop_eq split: option.splits if_splits)

definition fired :: "string \<Rightarrow> int \<Rightarrow> duration \<Rightarrow> TimerFacility \<Rightarrow> TimerFacility" where
  "fired n g dur tf = handleFireTimerIfCurrent n g dur (endGoroutine (n, g, dur) tf)"

lemma fired_stale:
  "tf_inv tf \<Longrightarrow> 2 \<le> g \<Longrightarrow> activeTimers tf n \<noteq> Some g \<Longrightarrow> fired n g dur tf = endGoroutine (n, g, dur) tf"
  by (simp add: fired_def handleFireTimerIfCurrent_def endGoroutine_def map_read_eq)

lemma fired_current:
  assumes "2 \<le> g" "activeTimers tf n = Some g"
  defines "st \<equiv> settledTimers tf @ [(n, g)]"
  defines "k \<equiv> length st - maxSettledTimers"
  shows "nextTimerID (fired n g dur tf) = nextTimerID tf"
    "goroutines (fired n g dur tf) = remove1 (n, g, dur) (goroutines tf)"
    "settledTimers (fired n g dur tf) = drop k st"
    "cancelFuncs (fired n g dur tf) = (cancelFuncs tf)(n := None)"
    "cancelledCtxs (fired n g dur tf) = cancelledCtxs tf"
    "completions (fired n g dur tf) = completions tf"
    "sending (fired n g dur tf) = Some \<lparr>tcName = n, tcTimerID = g, tcDuration = dur\<rparr>"
    "activeTimers (fired n g dur tf) m = Some h \<longleftrightarrow> activeTimers tf m = Some h \<and> (m, h) \<notin> set (take k st)"
  using assms(1,2)
  by (simp_all add: fired_def handleFireTimerIfCurrent_def endGoroutine_def map_read_eq evict_active
      st_def k_def Let_def)

lemma tf_inv_gens:
  assumes "tf_inv tf"
  shows "1 \<le> nextTimerID tf" "distinct (map snd (map go_key (goroutines tf)) @ map snd (settledTimers tf))"
    "g \<in> set (map snd (map go_key (goroutines tf))) \<union> set (map snd (settledTimers tf)) \<Longrightarrow>
       2 \<le> g \<and> g \<le> nextTimerID tf"
  using assms unfolding tf_inv_def gens_ok_def timer_keys_def map_append set_append by blast+

lemma go_gen_mem:
  "(n, g, dur) \<in> set gs \<Longrightarrow> g \<in> set (map snd (map go_key gs))"
  "(n, g, dur) \<in> set gs \<Longrightarrow> (n, g) \<in> set (map go_key gs)"
  by (force simp: go_key_def)+

lemma goroutine_gen:
  "tf_inv tf \<Longrightarrow> (n, g, dur) \<in> set (goroutines tf) \<Longrightarrow> 2 \<le> g \<and> g \<le> nextTimerID tf"
  using tf_inv_gens(3) go_gen_mem(1) by blast

text \<open>Removing a goroutine removes its generation and no other key.\<close>

lemma remove_goroutine:
  assumes d: "distinct (map snd (map go_key gs))" and t: "(n, g, dur) \<in> set gs"
  shows "distinct (map snd (map go_key (remove1 (n, g, dur) gs)))"
    "g \<notin> set (map snd (map go_key (remove1 (n, g, dur) gs)))"
    "set (map snd (map go_key (remove1 (n, g, dur) gs))) \<subseteq> set (map snd (map go_key gs))"
    "k \<in> set (map go_key gs) \<Longrightarrow> k \<noteq> (n, g) \<Longrightarrow> k \<in> set (map go_key (remove1 (n, g, dur) gs))"
proof -
  have dg: "distinct gs" and inj: "inj_on (snd \<circ> go_key) (set gs)"
    using d by (simp_all add: distinct_map)
  have sub: "set (remove1 (n, g, dur) gs) = set gs - {(n, g, dur)}"
    using dg by simp
  show "distinct (map snd (map go_key (remove1 (n, g, dur) gs)))"
    using dg inj by (simp add: distinct_map sub inj_on_diff)
  show "g \<notin> set (map snd (map go_key (remove1 (n, g, dur) gs)))"
  proof
    assume "g \<in> set (map snd (map go_key (remove1 (n, g, dur) gs)))"
    then obtain x where x: "x \<in> set gs" "x \<noteq> (n, g, dur)" "(snd \<circ> go_key) x = g"
      by (auto simp: sub)
    then have "(snd \<circ> go_key) x = (snd \<circ> go_key) (n, g, dur)" by (simp add: go_key_def)
    with inj x t show False by (meson inj_onD)
  qed
  show "set (map snd (map go_key (remove1 (n, g, dur) gs))) \<subseteq> set (map snd (map go_key gs))"
    by (auto simp: sub)
  assume "k \<in> set (map go_key gs)" "k \<noteq> (n, g)"
  then obtain x where x: "x \<in> set gs" "k = go_key x" by auto
  with \<open>k \<noteq> (n, g)\<close> have "x \<noteq> (n, g, dur)" by (auto simp: go_key_def)
  with x show "k \<in> set (map go_key (remove1 (n, g, dur) gs))" by (simp add: sub)
qed

text \<open>Dropping a finished goroutine keeps the invariant unless it was the registered one.\<close>

lemma tf_inv_endGoroutine:
  assumes inv: "tf_inv tf" and go: "(n, g, dur) \<in> set (goroutines tf)" and old: "activeTimers tf n \<noteq> Some g"
  shows "tf_inv (endGoroutine (n, g, dur) tf)"
proof -
  let ?gs = "remove1 (n, g, dur) (goroutines tf)"
  note rem = remove_goroutine [OF _ go]
  have d: "distinct (map snd (map go_key (goroutines tf)))" using tf_inv_gens(2) [OF inv] by simp
  have "gens_ok (endGoroutine (n, g, dur) tf)"
  proof -
    have "distinct (map snd (map go_key ?gs) @ map snd (settledTimers tf))"
      using tf_inv_gens(2) [OF inv] rem(1,3) [OF d] unfolding distinct_append by blast
    moreover have "2 \<le> h \<and> h \<le> nextTimerID tf"
      if "h \<in> set (map snd (map go_key ?gs) @ map snd (settledTimers tf))" for h
      using tf_inv_gens(3) [OF inv, of h] rem(3) [OF d] that unfolding set_append by blast
    ultimately show ?thesis
      using tf_inv_gens(1) [OF inv] by (simp add: gens_ok_def timer_keys_def endGoroutine_def)
  qed
  moreover have "owners_ok (endGoroutine (n, g, dur) tf)"
  proof (rule owners_okI)
    fix m h assume "cancelFuncs (endGoroutine (n, g, dur) tf) m = Some h"
    then have c: "cancelFuncs tf m = Some h" by (simp add: endGoroutine_def)
    note a = owners_okD(1) [OF tf_invD(2) [OF inv] c]
    then show "activeTimers (endGoroutine (n, g, dur) tf) m = Some h" by (simp add: endGoroutine_def)
    from a old have "(m, h) \<noteq> (n, g)" by auto
    with rem(4) [OF d owners_okD(2) [OF tf_invD(2) [OF inv] c]]
    show "(m, h) \<in> set (map go_key (goroutines (endGoroutine (n, g, dur) tf)))"
      by (simp add: endGoroutine_def)
  qed (use owners_okD(3-5) [OF tf_invD(2) [OF inv]] in \<open>simp_all add: endGoroutine_def\<close>)
  moreover have "queue_ok (endGoroutine (n, g, dur) tf)"
    using inv by (simp add: tf_inv_def queue_ok_def endGoroutine_def undelivered_def)
  ultimately show ?thesis by (simp add: tf_inv_def)
qed

lemma tf_inv_fired_current:
  assumes inv: "tf_inv tf" and go: "(n, g, dur) \<in> set (goroutines tf)" and idle: "sending tf = None"
    and cur: "activeTimers tf n = Some g"
  shows "tf_inv (fired n g dur tf)"
proof -
  define st where "st = settledTimers tf @ [(n, g)]"
  define k where "k = length st - maxSettledTimers"
  have g2: "2 \<le> g" "g \<le> nextTimerID tf" using goroutine_gen [OF inv go] by simp_all
  note f = fired_current [OF g2(1) cur, of dur, folded st_def k_def]
  note gens = tf_inv_gens [OF inv]
  have d: "distinct (map snd (map go_key (goroutines tf)))" using gens(2) by simp
  note rem = remove_goroutine [OF d go]
  have gset: "g \<notin> set (map snd (settledTimers tf))" using gens(2) go_gen_mem(1) [OF go] by auto
  have split_st: "set st = set (take k st) \<union> set (drop k st)"
    by (metis append_take_drop_id set_append)
  have dst: "distinct (map snd st)" using gens(2) gset by (simp add: st_def)
  have sub: "set (map snd (drop k st)) \<subseteq> set (map snd (settledTimers tf)) \<union> {g}"
    using set_drop_subset [of k st] by (auto simp: st_def)
  have "gens_ok (fired n g dur tf)"
    using gens rem(1-3) dst sub g2 distinct_drop [of "map snd st" k]
    unfolding gens_ok_def timer_keys_def f(1-3) map_append distinct_append set_append drop_map [symmetric]
    by blast
  moreover have "owners_ok (fired n g dur tf)"
    unfolding owners_ok_def f(2,4,5) f(1,3)
  proof (intro conjI allI impI ballI)
    fix m h assume "((cancelFuncs tf)(n := None)) m = Some h"
    then have m: "m \<noteq> n" "cancelFuncs tf m = Some h" by (auto split: if_splits)
    note a = owners_okD(1,2) [OF tf_invD(2) [OF inv] m(2)]
    from a(2) have "h \<in> set (map snd (map go_key (goroutines tf)))"
      by (metis image_eqI list.set_map snd_conv)
    with gens(2) have "h \<notin> set (map snd (settledTimers tf))" by auto
    then have "(m, h) \<notin> set st" using m(1) by (force simp: st_def)
    with a(1) split_st show "activeTimers (fired n g dur tf) m = Some h" by (simp add: f(8))
    show "(m, h) \<in> set (map go_key (remove1 (n, g, dur) (goroutines tf)))"
      using rem(4) [OF a(2)] m(1) by simp
  next
    fix m h assume "activeTimers (fired n g dur tf) m = Some h"
    then have a: "activeTimers tf m = Some h" "(m, h) \<notin> set (take k st)" by (simp_all add: f(8))
    then have dr: "(m, h) \<in> set st \<Longrightarrow> (m, h) \<in> set (drop k st)" using split_st by blast
    show "((cancelFuncs tf)(n := None)) m = Some h \<or> (m, h) \<in> set (drop k st)"
    proof (cases "m = n")
      case True
      with a(1) cur have "(m, h) \<in> set st" by (simp add: st_def)
      with dr show ?thesis by blast
    next
      case False
      with owners_okD(3) [OF tf_invD(2) [OF inv] a(1)] dr show ?thesis by (auto simp: st_def)
    qed
  next
    fix h m assume "h \<in> cancelledCtxs tf"
    then show "h \<le> nextTimerID tf" "activeTimers (fired n g dur tf) m \<noteq> Some h"
      using owners_okD(4,5) [OF tf_invD(2) [OF inv], of h] by (simp_all add: f(8))
  qed
  moreover have "queue_ok (fired n g dur tf)"
  proof -
    from inv idle have q: "suffix (map tc_key (chan_buf (completions tf))) (settledTimers tf)"
      "chan_cap (completions tf) = 1" "length (chan_buf (completions tf)) \<le> 1"
      unfolding tf_inv_def queue_ok_def undelivered_def by simp_all
    let ?u = "map tc_key (undelivered (fired n g dur tf))"
    have u: "?u = map tc_key (chan_buf (completions tf)) @ [(n, g)]"
      by (simp add: undelivered_def f(6,7) tc_key_def)
    have "suffix ?u st" using q(1) by (simp add: u st_def)
    moreover have "suffix (drop k st) st" by (simp add: suffix_drop)
    moreover have "length ?u \<le> length (drop k st)"
      using q(3) suffix_length_le [OF \<open>suffix ?u st\<close>] by (simp add: u k_def maxSettledTimers_def)
    ultimately have "suffix ?u (drop k st)" by (rule suffix_length_suffix)
    moreover have "length (drop k st) \<le> maxSettledTimers" by (simp add: k_def)
    ultimately show ?thesis using q(2,3) by (simp add: queue_ok_def f(3,6))
  qed
  ultimately show ?thesis by (simp add: tf_inv_def)
qed

lemma tf_inv_fired:
  "tf_inv tf \<Longrightarrow> (n, g, dur) \<in> set (goroutines tf) \<Longrightarrow> sending tf = None \<Longrightarrow> tf_inv (fired n g dur tf)"
  using tf_inv_fired_current tf_inv_endGoroutine fired_stale goroutine_gen by metis

lemma channel_frame [simp]:
  "gens_ok (tf\<lparr>completions := ch\<rparr>) = gens_ok tf" "owners_ok (tf\<lparr>completions := ch\<rparr>) = owners_ok tf"
  "gens_ok (tf\<lparr>completions := ch, sending := x\<rparr>) = gens_ok tf"
  "owners_ok (tf\<lparr>completions := ch, sending := x\<rparr>) = owners_ok tf"
  by (simp_all add: gens_ok_def owners_ok_def timer_keys_def)

lemma undelivered_deliver: "deliverCompletion tf = Some tf' \<Longrightarrow> undelivered tf' = undelivered tf"
  by (auto simp: deliverCompletion_def undelivered_def trySend_def split: option.splits if_splits)

lemma tf_inv_deliver:
  assumes inv: "tf_inv tf" and d: "deliverCompletion tf = Some tf'"
  shows "tf_inv tf'"
proof -
  obtain ch where ch: "trySend (completions tf) (the (sending tf)) = Some ch"
    "tf' = tf\<lparr>completions := ch, sending := None\<rparr>"
    using d by (auto simp: deliverCompletion_def split: option.splits)
  then have "gens_ok tf'" "owners_ok tf'"
    using tf_invD [OF inv] by simp_all
  moreover have "chan_cap ch = chan_cap (completions tf)" "length (chan_buf ch) \<le> chan_cap ch"
    using ch(1) by (auto simp: trySend_def chan_room_def split: if_splits)
  then have "queue_ok tf'"
    using inv undelivered_deliver [OF d] ch(2) by (simp add: tf_inv_def queue_ok_def)
  ultimately show ?thesis by (simp add: tf_inv_def)
qed

lemma undelivered_receive:
  "tryRecv (completions tf) = Some (c, ch) \<Longrightarrow> undelivered tf = c # undelivered (tf\<lparr>completions := ch\<rparr>)"
  by (auto simp: tryRecv_def undelivered_def split: list.splits)

lemma tf_inv_receive:
  assumes inv: "tf_inv tf" and r: "tryRecv (completions tf) = Some (c, ch)"
  shows "tf_inv (tf\<lparr>completions := ch\<rparr>)"
proof -
  have "chan_cap ch = chan_cap (completions tf)" "length (chan_buf ch) \<le> length (chan_buf (completions tf))"
    using r by (auto simp: tryRecv_def split: list.splits)
  then have "queue_ok (tf\<lparr>completions := ch\<rparr>)"
    using inv undelivered_receive [OF r] by (auto simp: tf_inv_def queue_ok_def dest: suffix_ConsD)
  then show ?thesis using tf_invD [OF inv] by (simp add: tf_inv_def)
qed

lemma tf_step_inv: "tf_step tf tf' \<Longrightarrow> tf_inv tf \<Longrightarrow> tf_inv tf'"
proof (induction rule: tf_step.induct)
  case (fire name g dur tf)
  then show ?case using tf_inv_fired by (simp add: fired_def)
next
  case (quit name g dur tf)
  then show ?case using tf_inv_endGoroutine owners_okD(5) tf_invD(2) by metis
qed (auto intro: tf_inv_handleArm tf_inv_handleCancel tf_inv_deliver tf_inv_receive)

lemma tf_reach_inv: "tf_reach tf tf' \<Longrightarrow> tf_inv tf \<Longrightarrow> tf_inv tf'"
  by (induction rule: tf_reach.induct) (auto intro: tf_step_inv)

section \<open>The interface to clients\<close>

text \<open>A timer is pending while its current generation will still be offered to the client: its
  goroutine runs, or its completion is on its way.\<close>

definition tf_pending :: "TimerFacility \<Rightarrow> string \<Rightarrow> bool" where
  "tf_pending tf n =
     (case activeTimers tf n of
        None \<Rightarrow> False
      | Some g \<Rightarrow> (n, g) \<in> set (map go_key (goroutines tf)) \<or> (n, g) \<in> set (map tc_key (undelivered tf)))"

datatype ('n, 'd) timer_cmd = ArmCmd 'n 'd | CancelCmd 'n

fun run_cmds :: "('n \<Rightarrow> 'd \<Rightarrow> 't \<Rightarrow> 't) \<Rightarrow> ('n \<Rightarrow> 't \<Rightarrow> 't) \<Rightarrow> ('n, 'd) timer_cmd list \<Rightarrow> 't \<Rightarrow> 't" where
  "run_cmds arm_op cancel_op [] t = t"
| "run_cmds arm_op cancel_op (ArmCmd n d # cs) t = run_cmds arm_op cancel_op cs (arm_op n d t)"
| "run_cmds arm_op cancel_op (CancelCmd n # cs) t = run_cmds arm_op cancel_op cs (cancel_op n t)"

text \<open>Whether a name is armed after some commands: the last one that names it decides.\<close>

fun armed_after :: "('n, 'd) timer_cmd list \<Rightarrow> 'n \<Rightarrow> bool \<Rightarrow> bool" where
  "armed_after [] m b = b"
| "armed_after (ArmCmd n d # cs) m b = armed_after cs m (m = n \<or> b)"
| "armed_after (CancelCmd n # cs) m b = armed_after cs m (m \<noteq> n \<and> b)"

locale timer_service =
  fixes arm_op :: "'n \<Rightarrow> 'd \<Rightarrow> 't \<Rightarrow> 't"
    and cancel_op :: "'n \<Rightarrow> 't \<Rightarrow> 't"
    and pending :: "'t \<Rightarrow> 'n \<Rightarrow> bool"
    and invar :: "'t \<Rightarrow> bool"
  assumes pending_arm: "pending (arm_op n d t) m \<longleftrightarrow> m = n \<or> pending t m"
    and pending_cancel: "pending (cancel_op n t) m \<longleftrightarrow> m \<noteq> n \<and> pending t m"
    and invar_arm: "invar t \<Longrightarrow> invar (arm_op n d t)"
    and invar_cancel: "invar t \<Longrightarrow> invar (cancel_op n t)"
begin

lemma pending_run_cmds:
  "pending (run_cmds arm_op cancel_op cs t) m \<longleftrightarrow> armed_after cs m (pending t m)"
proof (induction cs arbitrary: t)
  case (Cons c cs)
  then show ?case by (cases c) (simp_all add: pending_arm pending_cancel)
qed simp

lemma invar_run_cmds: "invar t \<Longrightarrow> invar (run_cmds arm_op cancel_op cs t)"
proof (induction cs arbitrary: t)
  case (Cons c cs)
  then show ?case by (cases c) (simp_all add: invar_arm invar_cancel)
qed simp

end

definition armTimer :: "string \<Rightarrow> duration \<Rightarrow> TimerFacility \<Rightarrow> TimerFacility" where
  "armTimer n dur tf = snd (handleArm n dur tf)"

interpretation tfs: timer_service armTimer handleCancel tf_pending tf_inv
proof unfold_locales
  show "tf_pending (armTimer n d t) m \<longleftrightarrow> m = n \<or> tf_pending t m" for n d t m
    by (auto simp: tf_pending_def armTimer_def go_key_def split: option.split)
  show "tf_pending (handleCancel n t) m \<longleftrightarrow> m \<noteq> n \<and> tf_pending t m" for n t m
    by (auto simp: tf_pending_def split: option.split)
  show "tf_inv t \<Longrightarrow> tf_inv (armTimer n d t)" for n d t
    by (simp add: armTimer_def tf_inv_handleArm)
  show "tf_inv t \<Longrightarrow> tf_inv (handleCancel n t)" for n t
    by (rule tf_inv_handleCancel)
qed

text \<open>The moves that are not the client's keep every pending timer pending.\<close>

lemma pending_deliver: "deliverCompletion tf = Some tf' \<Longrightarrow> tf_pending tf' = tf_pending tf"
  using undelivered_deliver [of tf tf']
  by (auto simp: tf_pending_def fun_eq_iff deliverCompletion_def split: option.splits)

lemma pending_endGoroutine:
  assumes inv: "tf_inv tf" and go: "(n, g, dur) \<in> set (goroutines tf)" and old: "activeTimers tf n \<noteq> Some g"
  shows "tf_pending (endGoroutine (n, g, dur) tf) = tf_pending tf"
proof
  fix m
  have d: "distinct (map snd (map go_key (goroutines tf)))" using tf_inv_gens(2) [OF inv] by simp
  show "tf_pending (endGoroutine (n, g, dur) tf) m = tf_pending tf m"
  proof (cases "activeTimers tf m")
    case None
    then show ?thesis by (simp add: tf_pending_def endGoroutine_def)
  next
    case (Some h)
    with old have "(m, h) \<noteq> (n, g)" by auto
    then have "(m, h) \<in> set (map go_key (remove1 (n, g, dur) (goroutines tf))) \<longleftrightarrow>
        (m, h) \<in> set (map go_key (goroutines tf))"
      using remove_goroutine(4) [OF d go, of "(m, h)"] set_remove1_subset [of "(n, g, dur)" "goroutines tf"]
      unfolding list.set_map by blast
    with Some show ?thesis by (simp add: tf_pending_def endGoroutine_def undelivered_def del: set_map)
  qed
qed

lemma pending_fired_current:
  assumes inv: "tf_inv tf" and go: "(n, g, dur) \<in> set (goroutines tf)" and idle: "sending tf = None"
    and cur: "activeTimers tf n = Some g"
  shows "tf_pending (fired n g dur tf) m = tf_pending tf m"
proof -
  define st where "st = settledTimers tf @ [(n, g)]"
  define k where "k = length st - maxSettledTimers"
  have g2: "2 \<le> g" using goroutine_gen [OF inv go] by simp
  note f = fired_current [OF g2 cur, of dur, folded st_def k_def]
  note inv' = tf_inv_fired [OF inv go idle]
  have d: "distinct (map snd (map go_key (goroutines tf)))" using tf_inv_gens(2) [OF inv] by simp
  have u: "map tc_key (undelivered (fired n g dur tf)) = map tc_key (undelivered tf) @ [(n, g)]"
    by (simp add: undelivered_def f(6,7) tc_key_def idle)
  have gset: "g \<notin> set (map snd (settledTimers tf))" using tf_inv_gens(2) [OF inv] go_gen_mem(1) [OF go] by auto
  have dst: "distinct (map snd st)" using tf_inv_gens(2) [OF inv] gset by (simp add: st_def)
  show ?thesis
  proof (cases "activeTimers tf m")
    case None
    then have "activeTimers (fired n g dur tf) m = None" using f(8) [of m] by (cases "activeTimers (fired n g dur tf) m") auto
    with None show ?thesis by (simp add: tf_pending_def)
  next
    case (Some h)
    have disj: "set (take k st) \<inter> set (drop k st) = {}"
      using distinct_map [THEN iffD1, OF dst] by (simp add: set_take_disj_set_drop_if_distinct)
    have und: "set (map tc_key (undelivered tf)) \<subseteq> set (drop k st)"
      using tf_invD(3) [OF inv'] set_mono_suffix unfolding queue_ok_def f(3) u by fastforce
    have keep: "(m, h) \<notin> set (take k st)" if "(m, h) \<in> set (map go_key (goroutines tf))" "(m, h) \<noteq> (n, g)"
    proof -
      from that(1) have "h \<in> set (map snd (map go_key (goroutines tf)))"
        by (metis image_eqI list.set_map snd_conv)
      with tf_inv_gens(2) [OF inv] have "h \<notin> set (map snd (settledTimers tf))" by auto
      with that(2) have "(m, h) \<notin> set st" by (force simp: st_def)
      then show ?thesis by (meson in_set_takeD)
    qed
    have new: "(n, g) \<notin> set (take k st)"
      using tf_invD(3) [OF inv'] set_mono_suffix disj unfolding queue_ok_def f(3) u by fastforce
    have rem: "(m, h) \<in> set (map go_key (remove1 (n, g, dur) (goroutines tf))) \<longleftrightarrow>
        (m, h) \<in> set (map go_key (goroutines tf))" if "(m, h) \<noteq> (n, g)"
      using that remove_goroutine(4) [OF d go, of "(m, h)"]
        set_remove1_subset [of "(n, g, dur)" "goroutines tf"] unfolding list.set_map by blast
    show ?thesis
    proof (cases "(m, h) = (n, g)")
      case True
      with Some new have "tf_pending (fired n g dur tf) m"
        using f(8) [of n g] by (simp add: tf_pending_def u)
      moreover from True Some go_gen_mem(2) [OF go] have "tf_pending tf m" by (simp add: tf_pending_def)
      ultimately show ?thesis by simp
    next
      case False
      show ?thesis
      proof (cases "(m, h) \<in> set (take k st)")
        case True
        with keep [OF _ False] und disj have "\<not> tf_pending tf m"
          using Some by (auto simp: tf_pending_def)
        moreover have "activeTimers (fired n g dur tf) m \<noteq> Some x" for x
          using f(8) [of m x] Some True by auto
        then have "activeTimers (fired n g dur tf) m = None" by blast
        ultimately show ?thesis by (simp add: tf_pending_def)
      next
        case not_evicted: False
        then have "activeTimers (fired n g dur tf) m = Some h" using f(8) Some by simp
        with Some False rem [OF False] show ?thesis
          unfolding tf_pending_def u f(2) by auto
      qed
    qed
  qed
qed

lemma pending_fired:
  assumes "tf_inv tf" "(n, g, dur) \<in> set (goroutines tf)" "sending tf = None"
  shows "tf_pending (fired n g dur tf) = tf_pending tf"
proof (cases "activeTimers tf n = Some g")
  case True
  with assms show ?thesis by (simp add: pending_fired_current fun_eq_iff)
next
  case False
  with assms goroutine_gen [OF assms(1,2)] show ?thesis
    by (simp add: fired_stale pending_endGoroutine)
qed

text \<open>Receiving a completion ends its timer's wait and no other's.\<close>

lemma pending_receive:
  assumes inv: "tf_inv tf" and r: "tryRecv (completions tf) = Some (c, ch)"
  shows "tf_pending (tf\<lparr>completions := ch\<rparr>) m \<longleftrightarrow>
    tf_pending tf m \<and> \<not> (m = tcName c \<and> handleIsCurrent c tf)"
proof -
  have key: "tc_key c \<in> set (settledTimers tf)"
    using tf_invD(3) [OF inv] undelivered_receive [OF r] set_mono_suffix unfolding queue_ok_def by fastforce
  then have settled: "tcTimerID c \<in> set (map snd (settledTimers tf))"
    by (metis image_eqI list.set_map snd_conv tc_key_def)
  then have two: "2 \<le> tcTimerID c" and nogo: "tcTimerID c \<notin> set (map snd (map go_key (goroutines tf)))"
    using tf_inv_gens(3) [OF inv] tf_inv_gens(2) [OF inv] unfolding distinct_append by blast+
  have "distinct (map tc_key (undelivered tf))"
    using tf_inv_gens(2) [OF inv] tf_invD(3) [OF inv] unfolding queue_ok_def suffix_def
    by (auto simp: distinct_map)
  then have gone: "tc_key c \<notin> set (map tc_key (undelivered (tf\<lparr>completions := ch\<rparr>)))"
    using undelivered_receive [OF r] by simp
  have cur: "handleIsCurrent c tf \<longleftrightarrow> activeTimers tf (tcName c) = Some (tcTimerID c)"
    using two by (simp add: handleIsCurrent_def map_read_eq)
  show ?thesis
  proof (cases "activeTimers tf m")
    case None
    then show ?thesis by (simp add: tf_pending_def)
  next
    case (Some h)
    show ?thesis
    proof (cases "(m, h) = tc_key c")
      case True
      then have "m = tcName c" "h = tcTimerID c" by (simp_all add: tc_key_def)
      moreover have "(m, h) \<notin> set (map go_key (goroutines tf))"
        using nogo \<open>h = tcTimerID c\<close> by (metis image_eqI list.set_map snd_conv)
      ultimately show ?thesis using Some True gone cur by (auto simp: tf_pending_def)
    next
      case False
      then have "\<not> (m = tcName c \<and> handleIsCurrent c tf)" using Some cur by (auto simp: tc_key_def)
      with Some False show ?thesis by (auto simp: tf_pending_def undelivered_receive [OF r])
    qed
  qed
qed

section \<open>Generations are never revived\<close>

lemma tf_step_next: "tf_step tf tf' \<Longrightarrow> nextTimerID tf \<le> nextTimerID tf'"
  by (induction rule: tf_step.induct)
    (auto simp: handleFireTimerIfCurrent_def endGoroutine_def deliverCompletion_def Let_def
      split: option.splits)

lemma tf_step_no_revival:
  "tf_step tf tf' \<Longrightarrow> g \<le> nextTimerID tf \<Longrightarrow> activeTimers tf n \<noteq> Some g \<Longrightarrow> activeTimers tf' n \<noteq> Some g"
  by (induction rule: tf_step.induct)
    (auto simp: handleFireTimerIfCurrent_def endGoroutine_def deliverCompletion_def Let_def evict_active
      split: option.splits if_splits)

lemma tf_reach_no_revival:
  "tf_reach tf tf' \<Longrightarrow> g \<le> nextTimerID tf \<Longrightarrow> activeTimers tf n \<noteq> Some g \<Longrightarrow>
     activeTimers tf' n \<noteq> Some g \<and> g \<le> nextTimerID tf'"
proof (induction rule: tf_reach.induct)
  case (more tf tf' tf'')
  then show ?case using tf_step_no_revival tf_step_next by (meson order_trans)
qed simp

section \<open>A sequencer and its facility\<close>

text \<open>
  The client of the facility is the session's sequencer goroutine: it is either at its own
  \<open>select\<close>, where it can receive a completion, or inside \<open>Arm\<close>, \<open>Cancel\<close> or \<open>IsCurrent\<close>,
  waiting for the loop to take the command from the unbuffered \<open>commands\<close> channel.
\<close>

datatype seq_cmd = SArm string duration | SCancel string | SIsCurrent TimerCompletion

datatype seq_pc = AtSelect | Calling seq_cmd

fun apply_cmd :: "seq_cmd \<Rightarrow> TimerFacility \<Rightarrow> TimerFacility" where
  "apply_cmd (SArm n d) tf = snd (handleArm n d tf)"
| "apply_cmd (SCancel n) tf = handleCancel n tf"
| "apply_cmd (SIsCurrent c) tf = tf"

inductive seq_step :: "seq_pc \<times> TimerFacility \<Rightarrow> seq_pc \<times> TimerFacility \<Rightarrow> bool" where
  call: "seq_step (AtSelect, tf) (Calling c, tf)"
| accept: "sending tf = None \<Longrightarrow> seq_step (Calling c, tf) (AtSelect, apply_cmd c tf)"
| recv: "tryRecv (completions tf) = Some (c, ch) \<Longrightarrow> seq_step (AtSelect, tf) (AtSelect, tf\<lparr>completions := ch\<rparr>)"
| goroutine_fires: "(n, g, dur) \<in> set (goroutines tf) \<Longrightarrow> sending tf = None \<Longrightarrow>
     seq_step (pc, tf) (pc, fired n g dur tf)"
| goroutine_quits: "(n, g, dur) \<in> set (goroutines tf) \<Longrightarrow> g \<in> cancelledCtxs tf \<Longrightarrow>
     seq_step (pc, tf) (pc, endGoroutine (n, g, dur) tf)"
| loop_delivers: "deliverCompletion tf = Some tf' \<Longrightarrow> seq_step (pc, tf) (pc, tf')"

inductive seq_reach :: "seq_pc \<times> TimerFacility \<Rightarrow> seq_pc \<times> TimerFacility \<Rightarrow> bool" where
  here: "seq_reach s s"
| next_step: "seq_reach s s' \<Longrightarrow> seq_step s' s'' \<Longrightarrow> seq_reach s s''"

definition loop_stuck :: "TimerFacility \<Rightarrow> bool" where
  "loop_stuck tf \<longleftrightarrow> sending tf \<noteq> None \<and> \<not> chan_room (completions tf)"

lemma stuck_step:
  assumes "seq_step s s'" "s = (Calling c, tf)" "loop_stuck tf"
  shows "\<exists>tf'. s' = (Calling c, tf') \<and> loop_stuck tf'"
  using assms
  by (induction rule: seq_step.induct)
    (auto simp: loop_stuck_def deliverCompletion_def trySend_def endGoroutine_def split: option.splits)

lemma stuck_forever:
  "seq_reach s s' \<Longrightarrow> s = (Calling c, tf) \<Longrightarrow> loop_stuck tf \<Longrightarrow> \<exists>tf'. s' = (Calling c, tf') \<and> loop_stuck tf'"
  by (induction rule: seq_reach.induct) (auto dest: stuck_step)

lemma seq_arm:
  "sending tf = None \<Longrightarrow> seq_reach s (AtSelect, tf) \<Longrightarrow> seq_reach s (AtSelect, snd (handleArm n d tf))"
proof -
  assume idle: "sending tf = None" and "seq_reach s (AtSelect, tf)"
  then have "seq_reach s (Calling (SArm n d), tf)" by (auto intro: seq_reach.next_step seq_step.call)
  from seq_reach.next_step [OF this seq_step.accept [OF idle]] show ?thesis by simp
qed

section \<open>Properties\<close>

text \<open>A superseded timer stays superseded.  Once generation \<open>g\<close>, already issued, is not the
  active one of its name (it was cancelled, re-armed or evicted), no later step of the facility
  makes it active again, so its completion, if one is still on its way, is never current.\<close>

theorem superseded_never_current:
  assumes "tf_reach newTimerFacility tf" "tf_reach tf tf'"
    and "2 \<le> tcTimerID c" "tcTimerID c \<le> nextTimerID tf" "activeTimers tf (tcName c) \<noteq> Some (tcTimerID c)"
  shows "\<not> handleIsCurrent c tf'"
  using tf_reach_no_revival [OF assms(2,4,5)] assms(3) by (simp add: handleIsCurrent_def map_read_eq)

theorem superseded_never_current_witness:
  "\<not> handleIsCurrent \<lparr>tcName = ''idle'', tcTimerID = 2, tcDuration = 0\<rparr>
       (handleCancel ''idle'' (snd (handleArm ''idle'' 15 newTimerFacility)))"
proof -
  let ?a = "snd (handleArm ''idle'' 15 newTimerFacility)"
  let ?b = "handleCancel ''idle'' ?a"
  have "tf_step newTimerFacility ?a" by (rule tf_step.arm) (simp add: newTimerFacility_def)
  moreover have "tf_step ?a ?b" by (rule tf_step.cancel) (simp add: newTimerFacility_def)
  ultimately have "tf_reach newTimerFacility ?b"
    by (meson tf_reach.start tf_reach.more)
  then show ?thesis
    by (rule superseded_never_current [OF _ tf_reach.start]) (simp_all add: newTimerFacility_def)
qed

text \<open>C15: no armed timer is lost.  In every reachable state an active generation either has its
  goroutine running under a context that is not cancelled, or has already fired.\<close>

theorem armed_timer_alive:
  assumes "tf_reach newTimerFacility tf" "activeTimers tf n = Some g"
  shows "((\<exists>dur. (n, g, dur) \<in> set (goroutines tf)) \<and> g \<notin> cancelledCtxs tf) \<or> (n, g) \<in> set (settledTimers tf)"
proof -
  have inv: "tf_inv tf" using tf_reach_inv [OF assms(1) tf_inv_init] .
  note own = owners_okD [OF tf_invD(2) [OF inv]]
  from own(3) [OF assms(2)] show ?thesis
  proof
    assume c: "cancelFuncs tf n = Some g"
    have "\<exists>dur. (n, g, dur) \<in> set (goroutines tf)" using own(2) [OF c] by (auto simp: go_key_def)
    moreover have "g \<notin> cancelledCtxs tf" using own(5) assms(2) by blast
    ultimately show ?thesis by blast
  qed blast
qed

theorem armed_timer_alive_witness:
  "(\<exists>dur. (''idle'', 2, dur) \<in> set (goroutines (snd (handleArm ''idle'' 15 newTimerFacility))))"
proof -
  let ?a = "snd (handleArm ''idle'' 15 newTimerFacility)"
  have "tf_step newTimerFacility ?a" by (rule tf_step.arm) (simp add: newTimerFacility_def)
  then have "tf_reach newTimerFacility ?a" by (meson tf_reach.start tf_reach.more)
  from armed_timer_alive [OF this, of "''idle''" 2] show ?thesis
    by (simp add: newTimerFacility_def)
qed

text \<open>Bounded memory.  However many distinct names are armed and fire, the settled queue never
  exceeds its bound and every entry of the active map belongs to a running goroutine or to one of
  the last settled timers.\<close>

theorem active_timers_bounded:
  assumes "tf_reach newTimerFacility tf"
  shows "length (settledTimers tf) \<le> maxSettledTimers \<and>
    dom (activeTimers tf) \<subseteq> fst ` set (goroutines tf) \<union> fst ` set (settledTimers tf)"
proof -
  have inv: "tf_inv tf" using tf_reach_inv [OF assms tf_inv_init] .
  have "n \<in> fst ` set (goroutines tf) \<union> fst ` set (settledTimers tf)" if "activeTimers tf n = Some g" for n g
    using active_key [OF tf_invD(2) [OF inv] that] by (auto simp: timer_keys_def go_key_def image_iff) force
  then show ?thesis using tf_invD(3) [OF inv] by (auto simp: queue_ok_def)
qed

theorem active_timers_bounded_witness:
  "dom (activeTimers (snd (handleArm ''idle'' 15 newTimerFacility))) \<subseteq> {''idle''}"
proof -
  let ?a = "snd (handleArm ''idle'' 15 newTimerFacility)"
  have "tf_step newTimerFacility ?a" by (rule tf_step.arm) (simp add: newTimerFacility_def)
  then have "tf_reach newTimerFacility ?a" by (meson tf_reach.start tf_reach.more)
  from active_timers_bounded [OF this] show ?thesis by (simp add: newTimerFacility_def)
qed

text \<open>C16: the facility and its sequencer can deadlock.  When one completion waits in the channel
  (capacity one) and a second timer fires, the loop blocks in its send; a sequencer that meanwhile
  entered \<open>Cancel\<close> waits for the loop to take the command, and the two wait for each other: from
  that reachable state every further state still has the sequencer in the same call.  Only the
  end of the context releases them.\<close>

theorem timer_deadlock_reachable:
  "\<exists>tf. seq_reach (AtSelect, newTimerFacility) (Calling (SCancel ''idle''), tf) \<and>
     fst ` Collect (seq_reach (Calling (SCancel ''idle''), tf)) = {Calling (SCancel ''idle'')}"
proof -
  let ?n = newTimerFacility
  let ?t1 = "snd (handleArm ''utterance'' 45 ?n)"
  let ?t2 = "snd (handleArm ''turn'' 60 ?t1)"
  define t3 where "t3 = fired ''utterance'' 2 45 ?t2"
  define t4 where "t4 = the (deliverCompletion t3)"
  define t5 where "t5 = fired ''turn'' 3 60 t4"
  note evals = newTimerFacility_def handleArm_def cancelExisting_def fired_def handleFireTimerIfCurrent_def
    endGoroutine_def deliverCompletion_def evictSettledTimers_def evictLoop.simps maxSettledTimers_def map_read_def
    newBufferedChan_def trySend_def chan_room_def loop_stuck_def Let_def
  have d: "deliverCompletion t3 = Some t4" by (simp add: t4_def t3_def evals)
  have idle: "sending ?n = None" "sending ?t1 = None" "sending ?t2 = None" "sending t4 = None"
    by (simp_all add: t4_def t3_def evals)
  have go: "(''utterance'', 2, 45) \<in> set (goroutines ?t2)" "(''turn'', 3, 60) \<in> set (goroutines t4)"
    by (simp_all add: t4_def t3_def evals)
  have stuck: "loop_stuck t5" by (simp add: t5_def t4_def t3_def evals)
  have "seq_reach (AtSelect, ?n) (AtSelect, ?t2)"
    by (intro seq_arm idle seq_reach.here)
  then have "seq_reach (AtSelect, ?n) (AtSelect, t3)"
    unfolding t3_def by (rule seq_reach.next_step [OF _ seq_step.goroutine_fires]) (fact go idle)+
  then have "seq_reach (AtSelect, ?n) (AtSelect, t4)"
    by (rule seq_reach.next_step [OF _ seq_step.loop_delivers]) (fact d)
  then have "seq_reach (AtSelect, ?n) (AtSelect, t5)"
    unfolding t5_def by (rule seq_reach.next_step [OF _ seq_step.goroutine_fires]) (fact go idle)+
  then have "seq_reach (AtSelect, ?n) (Calling (SCancel ''idle''), t5)"
    by (rule seq_reach.next_step) (rule seq_step.call)
  moreover have "fst ` Collect (seq_reach (Calling (SCancel ''idle''), t5)) = {Calling (SCancel ''idle'')}"
    using stuck_forever [OF _ refl stuck] seq_reach.here by (force simp: image_iff)
  ultimately show ?thesis by blast
qed

end
