(* ===== verification/MuLaw.thy ===== *)
theory MuLaw
  imports Service
begin

text \<open>
  G.711 mu-law transcoding: the decoder \<open>muLawToLinear\<close> of \<open>telephony/vad.go\<close> and the
  exhaustive-search encoder \<open>LinearToMuLaw\<close> of \<open>telephony/mulaw.go\<close>.  A byte is an 8-bit word, a
  PCM sample a 16-bit word read with \<^const>\<open>sint\<close>.  The theorems give the decoder's closed form
  and range (the conversion to 16 bits never wraps), show that the encoder picks a nearest code
  with ties broken as its comment says, and derive the round trips.
\<close>

unbundle bit_operations_syntax

section \<open>Decoder and encoder\<close>

definition MuLawSilence :: byte where
  "MuLawSilence = 0xFF"

definition muLawToLinear :: "byte \<Rightarrow> 16 word" where
  "muLawToLinear u0 =
     (let bias = (0x84 :: int);
          u = NOT u0;
          sign = u AND 0x80;
          exponent = drop_bit 4 u AND 0x07;
          mantissa = u AND 0x0F;
          sample = push_bit (unat exponent) (push_bit 3 (uint mantissa) + bias);
          sample = sample - bias
      in if sign \<noteq> 0 then word_of_int (- sample) else word_of_int sample)"

definition absInt32 :: "int \<Rightarrow> int" where
  "absInt32 v = (if v < 0 then - v else v)"

record mulaw_search =
  minErr :: int
  bestByte :: byte
  bestMag :: int

text \<open>One iteration of the search loop, at candidate byte \<open>b\<close>.\<close>

definition mulaw_search_step :: "16 word \<Rightarrow> byte \<Rightarrow> mulaw_search \<Rightarrow> mulaw_search" where
  "mulaw_search_step sample b st =
     (let decoded = sint (muLawToLinear b);
          err = absInt32 (sint sample - decoded);
          mag = absInt32 decoded;
          isBetter = (if err < minErr st then True
                      else if err = minErr st \<and> mag > bestMag st then True
                      else if err = minErr st \<and> mag = bestMag st \<and> mag = 0 \<and> b > bestByte st then True
                      else False)
      in if isBetter then \<lparr>minErr = err, bestByte = b, bestMag = mag\<rparr> else st)"

definition LinearToMuLaw :: "16 word \<Rightarrow> byte" where
  "LinearToMuLaw sample =
     bestByte (fold (\<lambda>b st. mulaw_search_step sample (word_of_nat b) st) [0..<256]
       \<lparr>minErr = 32768, bestByte = MuLawSilence, bestMag = 0\<rparr>)"

section \<open>Closed form of the decoder\<close>

text \<open>The magnitude of the code with complemented low seven bits \<open>k\<close>.\<close>

definition mulaw_mag :: "nat \<Rightarrow> int" where
  "mulaw_mag k = (8 * int (k mod 16) + 132) * 2 ^ (k div 16) - 132"

lemma mulaw_mag_step: "mulaw_mag k < mulaw_mag (Suc k)"
proof (cases "Suc (k mod 16) = 16")
  case True
  then have "Suc k mod 16 = 0" "Suc k div 16 = Suc (k div 16)" "k mod 16 = 15"
    by (simp_all add: mod_Suc div_Suc)
  then show ?thesis by (simp add: mulaw_mag_def)
next
  case False
  then have "Suc k mod 16 = Suc (k mod 16)" "Suc k div 16 = k div 16"
    by (simp_all add: mod_Suc div_Suc)
  then show ?thesis by (simp add: mulaw_mag_def)
qed

lemma mulaw_mag_strict_mono: "strict_mono mulaw_mag"
  by (simp add: strict_mono_Suc_iff mulaw_mag_step)

lemma mulaw_mag_bounds:
  assumes "k < 128"
  shows "0 \<le> mulaw_mag k" "mulaw_mag k \<le> 32124"
proof -
  have "mulaw_mag 0 \<le> mulaw_mag k" "mulaw_mag k \<le> mulaw_mag 127"
    using assms by (simp_all add: strict_mono_less_eq [OF mulaw_mag_strict_mono])
  then show "0 \<le> mulaw_mag k" "mulaw_mag k \<le> 32124"
    by (simp_all add: mulaw_mag_def)
qed

definition mulaw_code :: "byte \<Rightarrow> nat" where
  "mulaw_code u = unat (NOT u AND 0x7F)"

definition mulaw_neg :: "byte \<Rightarrow> bool" where
  "mulaw_neg u \<longleftrightarrow> NOT u AND 0x80 \<noteq> 0"

lemma unat_low_bits:
  fixes w :: byte
  shows "unat (w AND 0x0F) = unat w mod 16" "unat (w AND 0x07) = unat w mod 8" "unat (w AND 0x7F) = unat w mod 128"
proof -
  have m: "(0x0F :: byte) = mask 4" "(0x07 :: byte) = mask 3" "(0x7F :: byte) = mask 7"
    by (simp_all add: mask_eq_exp_minus_1)
  show "unat (w AND 0x0F) = unat w mod 16" "unat (w AND 0x07) = unat w mod 8" "unat (w AND 0x7F) = unat w mod 128"
    unfolding m by (simp_all only: take_bit_eq_mask [symmetric] unsigned_take_bit_eq take_bit_eq_mod) 
     (simp_all add: unat_mod)
qed

lemma unat_top_bit:
  fixes w :: byte
  shows "w AND 0x80 \<noteq> 0 \<longleftrightarrow> 128 \<le> unat w"
proof -
  have "w AND 0x80 = 0 \<longleftrightarrow> \<not> bit w 7"
    using and_exp_eq_0_iff_not_bit [of w 7] by simp
  also have "bit w 7 \<longleftrightarrow> bit (unat w) 7"
    by (simp add: bit_unsigned_iff)
  also have "bit (unat w) 7 \<longleftrightarrow> odd (unat w div 128)"
    by (simp add: bit_iff_odd)
  also have "odd (unat w div 128) \<longleftrightarrow> 128 \<le> unat w"
  proof -
    have "unat w < 256" using unsigned_less [of w] by simp
    then have "unat w div 128 = (if 128 \<le> unat w then 1 else 0)" by auto
    then show ?thesis by simp
  qed
  finally show ?thesis by simp
qed

lemma sint16: "- 32768 \<le> x \<Longrightarrow> x < 32768 \<Longrightarrow> sint (word_of_int x :: 16 word) = x"
  by (simp add: sint_sbintrunc' signed_take_bit_int_eq_self)

lemma muLawToLinear_closed_form:
  "sint (muLawToLinear u) = (if mulaw_neg u then - mulaw_mag (mulaw_code u) else mulaw_mag (mulaw_code u))"
proof -
  let ?v = "unat (NOT u)"
  let ?k = "mulaw_code u"
  have k: "?k = ?v mod 128" by (simp add: mulaw_code_def unat_low_bits)
  have lt: "?v < 256" using unsigned_less [of "NOT u"] by simp
  have e: "unat (drop_bit 4 (NOT u) AND 0x07) = ?k div 16"
  proof -
    have "unat (drop_bit 4 (NOT u) AND 0x07) = ?v div 16 mod 8"
      by (simp only: unat_low_bits unat_drop_bit_eq) (simp add: drop_bit_eq_div)
    moreover have "?v mod 128 = 16 * (?v div 16 mod 8) + ?v mod 16"
      using mod_mult2_eq [of ?v 16 8] by simp
    then have "?v mod 128 div 16 = ?v div 16 mod 8" by simp
    ultimately show ?thesis by (simp only: k)
  qed
  have m: "uint (NOT u AND 0x0F) = int (?k mod 16)"
  proof -
    have "uint (NOT u AND 0x0F) = int (unat (NOT u AND 0x0F))" by simp
    also have "unat (NOT u AND 0x0F) = ?v mod 16" by (simp only: unat_low_bits)
    also have "?v mod 16 = ?k mod 16" by (simp add: k mod_mod_cancel)
    finally show ?thesis .
  qed
  have s: "push_bit (unat (drop_bit 4 (NOT u) AND 0x07)) (push_bit 3 (uint (NOT u AND 0x0F)) + 132) - 132 = mulaw_mag ?k"
    by (simp only: e m mulaw_mag_def push_bit_eq_mult) (simp add: algebra_simps)
  have b: "0 \<le> mulaw_mag ?k" "mulaw_mag ?k \<le> 32124"
    using mulaw_mag_bounds [of ?k] k by simp_all
  have "muLawToLinear u = (if mulaw_neg u then word_of_int (- mulaw_mag ?k) else word_of_int (mulaw_mag ?k))"
    by (simp only: muLawToLinear_def Let_def s mulaw_neg_def)
  moreover have "sint (word_of_int (mulaw_mag ?k) :: 16 word) = mulaw_mag ?k"
    by (rule sint16) (use b in simp_all)
  moreover have "sint (word_of_int (- mulaw_mag ?k) :: 16 word) = - mulaw_mag ?k"
    by (rule sint16) (use b in simp_all)
  ultimately show ?thesis by simp
qed

lemma mulaw_code_lt: "mulaw_code u < 128"
  by (simp add: mulaw_code_def unat_low_bits)

lemma muLawToLinear_range:
  "\<bar>sint (muLawToLinear u)\<bar> \<le> 32124"
  using mulaw_mag_bounds [OF mulaw_code_lt, of u] by (simp add: muLawToLinear_closed_form)

lemma mulaw_code_neg_inj:
  assumes c: "mulaw_code u = mulaw_code v" and n: "mulaw_neg u = mulaw_neg v"
  shows "u = v"
proof -
  have low: "x mod 128 = (if 128 \<le> x then x - 128 else x)" if "x < 256" for x :: nat
    using that by (auto simp: le_mod_geq)
  have "unat (NOT u) < 256" "unat (NOT v) < 256"
    using unsigned_less [of "NOT u"] unsigned_less [of "NOT v"] by simp_all
  moreover from c have "unat (NOT u) mod 128 = unat (NOT v) mod 128"
    by (simp only: mulaw_code_def unat_low_bits)
  moreover from n have "128 \<le> unat (NOT u) \<longleftrightarrow> 128 \<le> unat (NOT v)"
    by (simp only: mulaw_neg_def unat_top_bit)
  ultimately have "unat (NOT u) = unat (NOT v)" by (auto simp: low split: if_splits)
  then have "NOT u = NOT v" by (simp only: unsigned_word_eqI)
  then show "u = v" by simp
qed

text \<open>Only the two zero codes decode alike.\<close>

lemma mulaw_zero_codes:
  assumes "mulaw_code u = 0"
  shows "u = (if mulaw_neg u then 0x7F else 0xFF)"
proof (cases "mulaw_neg u")
  case True
  then have "mulaw_neg u = mulaw_neg 0x7F" "mulaw_code u = mulaw_code 0x7F"
    using assms by (simp_all add: mulaw_neg_def mulaw_code_def)
  with True show ?thesis by (simp add: mulaw_code_neg_inj)
next
  case False
  then have "mulaw_neg u = mulaw_neg 0xFF" "mulaw_code u = mulaw_code 0xFF"
    using assms by (simp_all add: mulaw_neg_def mulaw_code_def)
  with False show ?thesis by (simp add: mulaw_code_neg_inj)
qed

lemma mulaw_mag_zero: "k < 128 \<Longrightarrow> mulaw_mag k \<le> 0 \<Longrightarrow> k = 0"
  using strict_mono_less_eq [OF mulaw_mag_strict_mono, of k 0] by (simp add: mulaw_mag_def)

lemma muLawToLinear_inj:
  assumes eq: "sint (muLawToLinear u) = sint (muLawToLinear v)" and "u \<noteq> v"
  shows "{u, v} = {0x7F, 0xFF}"
proof -
  let ?mu = "mulaw_mag (mulaw_code u)" and ?mv = "mulaw_mag (mulaw_code v)"
  have nn: "mulaw_neg u \<noteq> mulaw_neg v"
  proof
    assume same: "mulaw_neg u = mulaw_neg v"
    with eq have "?mu = ?mv" by (simp add: muLawToLinear_closed_form split: if_splits)
    then have "mulaw_code u = mulaw_code v"
      by (simp add: strict_mono_eq [OF mulaw_mag_strict_mono])
    with same have "u = v" by (rule mulaw_code_neg_inj [rotated])
    with \<open>u \<noteq> v\<close> show False by simp
  qed
  with eq have "?mu = - ?mv" by (auto simp: muLawToLinear_closed_form split: if_splits)
  with mulaw_mag_bounds [OF mulaw_code_lt, of u] mulaw_mag_bounds [OF mulaw_code_lt, of v]
  have "mulaw_code u = 0" "mulaw_code v = 0"
    by (auto intro: mulaw_mag_zero mulaw_code_lt)
  with nn mulaw_zero_codes [of u] mulaw_zero_codes [of v] show ?thesis by (auto split: if_splits)
qed

section \<open>The encoder picks a nearest code\<close>

definition mulaw_err :: "16 word \<Rightarrow> byte \<Rightarrow> int" where
  "mulaw_err sample b = \<bar>sint sample - sint (muLawToLinear b)\<bar>"

definition mulaw_search_inv :: "16 word \<Rightarrow> byte set \<Rightarrow> mulaw_search \<Rightarrow> bool" where
  "mulaw_search_inv sample B st \<longleftrightarrow>
     (\<forall>b \<in> B. minErr st \<le> mulaw_err sample b) \<and>
     (\<forall>b \<in> B. mulaw_err sample b = minErr st \<longrightarrow> \<bar>sint (muLawToLinear b)\<bar> \<le> bestMag st) \<and>
     (minErr st = mulaw_err sample (bestByte st) \<and> bestMag st = \<bar>sint (muLawToLinear (bestByte st))\<bar>
      \<or> minErr st = 32768 \<and> bestByte st = MuLawSilence \<and> bestMag st = 0)"

lemma absInt32_abs: "absInt32 v = \<bar>v\<bar>"
  by (simp add: absInt32_def)

lemma mulaw_search_step_inv:
  "mulaw_search_inv sample B st \<Longrightarrow> mulaw_search_inv sample (insert b B) (mulaw_search_step sample b st)"
  unfolding mulaw_search_inv_def mulaw_search_step_def mulaw_err_def [symmetric] absInt32_abs Let_def
  by auto

lemma mulaw_search_fold_inv:
  "mulaw_search_inv sample B st \<Longrightarrow>
   mulaw_search_inv sample (B \<union> word_of_nat ` set bs) (fold (\<lambda>b st. mulaw_search_step sample (word_of_nat b) st) bs st)"
proof (induction bs arbitrary: B st)
  case (Cons b bs)
  from Cons.IH [OF mulaw_search_step_inv [OF Cons.prems]] show ?case by simp
qed simp

lemma all_bytes: "(word_of_nat ` {0..<256} :: byte set) = UNIV"
proof -
  have "u \<in> word_of_nat ` {0..<256}" for u :: byte
    by (rule image_eqI [of _ _ "unat u"]) (use unsigned_less [of u] in simp_all)
  then show ?thesis by blast
qed

lemma muLawToLinear_silence: "sint (muLawToLinear MuLawSilence) = 0"
  by code_simp

lemma LinearToMuLaw_search:
  "mulaw_err s (LinearToMuLaw s) \<le> mulaw_err s b"
  "mulaw_err s b = mulaw_err s (LinearToMuLaw s) \<Longrightarrow>
      \<bar>sint (muLawToLinear b)\<bar> \<le> \<bar>sint (muLawToLinear (LinearToMuLaw s))\<bar>"
proof -
  define st0 where "st0 = \<lparr>minErr = 32768, bestByte = MuLawSilence, bestMag = 0\<rparr>"
  define st where "st = fold (\<lambda>b st. mulaw_search_step s (word_of_nat b) st) [0..<256] st0"
  have "mulaw_search_inv s {} st0" by (simp add: mulaw_search_inv_def st0_def)
  from mulaw_search_fold_inv [OF this, of "[0..<256]"]
  have inv: "mulaw_search_inv s UNIV st" by (simp only: st_def set_upt all_bytes Un_UNIV_right)
  have z: "mulaw_err s MuLawSilence = \<bar>sint s\<bar>" by (simp add: mulaw_err_def muLawToLinear_silence)
  have r: "\<bar>sint s\<bar> \<le> 32768" using sint_ge [of s] sint_lt [of s] by simp
  have L: "bestByte st = LinearToMuLaw s" by (simp only: LinearToMuLaw_def st_def st0_def)
  from inv z have "minErr st \<le> \<bar>sint s\<bar>" unfolding mulaw_search_inv_def by (metis UNIV_I)
  with inv r z have fin: "minErr st = mulaw_err s (LinearToMuLaw s) \<and>
      bestMag st = \<bar>sint (muLawToLinear (LinearToMuLaw s))\<bar>"
    unfolding mulaw_search_inv_def L by (auto simp: muLawToLinear_silence)
  with inv show "mulaw_err s (LinearToMuLaw s) \<le> mulaw_err s b"
    unfolding mulaw_search_inv_def by auto
  from inv fin show "mulaw_err s b = mulaw_err s (LinearToMuLaw s) \<Longrightarrow>
      \<bar>sint (muLawToLinear b)\<bar> \<le> \<bar>sint (muLawToLinear (LinearToMuLaw s))\<bar>"
    unfolding mulaw_search_inv_def by auto
qed

lemma LinearToMuLaw_zero: "LinearToMuLaw 0 = 0xFF"
  by code_simp

lemma decode_encode_decode: "muLawToLinear (LinearToMuLaw (muLawToLinear b)) = muLawToLinear b"
proof -
  have "mulaw_err (muLawToLinear b) (LinearToMuLaw (muLawToLinear b)) \<le> 0"
    using LinearToMuLaw_search(1) [of "muLawToLinear b" b] by (simp add: mulaw_err_def)
  then have "sint (muLawToLinear b) = sint (muLawToLinear (LinearToMuLaw (muLawToLinear b)))"
    by (simp add: mulaw_err_def)
  then show ?thesis by (metis signed_word_eqI)
qed

text \<open>Neighbouring magnitudes are at most 1024 apart, so every value in range is within 512 of one.\<close>

lemma mulaw_mag_gap:
  assumes "k < 127"
  shows "mulaw_mag (Suc k) \<le> mulaw_mag k + 1024"
proof -
  have e: "(2::int) ^ (k div 16) \<le> 2 ^ 7"
    by (rule power_increasing) (use assms in simp_all)
  show ?thesis
  proof (cases "Suc (k mod 16) = 16")
    case True
    then have "Suc k mod 16 = 0" "Suc k div 16 = Suc (k div 16)" "k mod 16 = 15"
      by (simp_all add: mod_Suc div_Suc)
    moreover from this have "k div 16 \<le> 6" using assms div_mult_mod_eq [of k 16] by linarith
    then have "(2::int) ^ (k div 16) \<le> 2 ^ 6" by (rule power_increasing) simp
    ultimately show ?thesis by (simp add: mulaw_mag_def)
  next
    case False
    then have "Suc k mod 16 = Suc (k mod 16)" "Suc k div 16 = k div 16"
      by (simp_all add: mod_Suc div_Suc)
    with e show ?thesis by (simp add: mulaw_mag_def algebra_simps)
  qed
qed

lemma mulaw_mag_near:
  "n \<le> 127 \<Longrightarrow> 0 \<le> x \<Longrightarrow> x \<le> mulaw_mag n \<Longrightarrow> \<exists>k \<le> n. \<bar>x - mulaw_mag k\<bar> \<le> 512"
proof (induction n)
  case 0
  then have "\<bar>x - mulaw_mag 0\<bar> \<le> 512" by (simp add: mulaw_mag_def)
  then show ?case by blast
next
  case (Suc n)
  show ?case
  proof (cases "x \<le> mulaw_mag n")
    case True
    with Suc show ?thesis by (metis Suc_leD le_SucI)
  next
    case False
    with Suc.prems mulaw_mag_gap [of n]
    have "\<bar>x - mulaw_mag n\<bar> \<le> 512 \<or> \<bar>x - mulaw_mag (Suc n)\<bar> \<le> 512" by auto
    then show ?thesis using le_SucI by blast
  qed
qed

text \<open>A byte for every sign and code.\<close>

lemma mulaw_byte_exists:
  assumes "k < 128"
  shows "\<exists>u. mulaw_code u = k \<and> mulaw_neg u = neg"
proof -
  define v :: byte where "v = word_of_nat (if neg then k + 128 else k)"
  have v: "unat v = (if neg then k + 128 else k)"
    using assms by (simp add: v_def unat_of_nat)
  have "mulaw_code (NOT v) = k" "mulaw_neg (NOT v) = neg"
    unfolding mulaw_code_def mulaw_neg_def bit.double_compl unat_low_bits unat_top_bit v
    using assms by auto
  then show ?thesis by blast
qed

text \<open>Only the two zero codes share a decoded value.\<close>

lemma mulaw_transcode:
  "LinearToMuLaw (muLawToLinear b) = (if b = 0x7F then 0xFF else b)"
proof (cases "b = 0x7F \<or> b = 0xFF")
  case True
  moreover have "muLawToLinear 0x7F = 0" "muLawToLinear 0xFF = 0" by code_simp+
  ultimately show ?thesis using LinearToMuLaw_zero by auto
next
  case False
  then show ?thesis
    using muLawToLinear_inj [of "LinearToMuLaw (muLawToLinear b)" b] decode_encode_decode [of b]
    by (auto simp: doubleton_eq_iff)
qed

section \<open>Properties\<close>

text \<open>The encoder is optimal.  No byte decodes closer to the sample than the one
  \<^const>\<open>LinearToMuLaw\<close> returns, and among the equally close ones it decodes to the largest
  magnitude, as the comment on the function says.\<close>

theorem LinearToMuLaw_nearest:
  "mulaw_err s (LinearToMuLaw s) \<le> mulaw_err s b \<and>
   (mulaw_err s b = mulaw_err s (LinearToMuLaw s) \<longrightarrow>
      \<bar>sint (muLawToLinear b)\<bar> \<le> \<bar>sint (muLawToLinear (LinearToMuLaw s))\<bar>)"
  using LinearToMuLaw_search by blast

text \<open>At a sample half way between two codes (4 lies between the codes for 0 and 8).\<close>

theorem LinearToMuLaw_nearest_witness:
  "mulaw_err 4 (LinearToMuLaw 4) = 4 \<and> mulaw_err 4 0xFF = 4 \<and>
   \<bar>sint (muLawToLinear 0xFF)\<bar> \<le> \<bar>sint (muLawToLinear (LinearToMuLaw 4))\<bar>"
proof -
  have a: "mulaw_err 4 (LinearToMuLaw 4) = 4" "mulaw_err 4 0xFF = 4" by code_simp+
  with LinearToMuLaw_nearest [of 4 "0xFF"] show ?thesis by simp
qed

text \<open>Re-encoding a decoded byte gives the byte back, except that the negative zero code
  0x7F becomes the positive zero code 0xFF; so transcoding an already transcoded stream changes
  nothing.\<close>

theorem mulaw_roundtrip:
  "LinearToMuLaw (muLawToLinear b) = (if b = 0x7F then 0xFF else b)"
  by (rule mulaw_transcode)

text \<open>Quantisation error.  Every 16-bit sample is reproduced within 644 (the clipping
  distance at the most negative sample), and within 512 when it lies in the codec's range.\<close>

theorem mulaw_error_bound:
  "mulaw_err s (LinearToMuLaw s) \<le> (if \<bar>sint s\<bar> \<le> 32124 then 512 else 644)"
proof -
  define x where "x = min \<bar>sint s\<bar> 32124"
  have "x \<le> mulaw_mag 127" by (simp add: x_def mulaw_mag_def)
  then obtain k where k: "k \<le> 127" "\<bar>x - mulaw_mag k\<bar> \<le> 512"
    using mulaw_mag_near [of 127 x] by (auto simp: x_def)
  have "(if x = 32124 then 127 else k) < 128" using k by simp
  from mulaw_byte_exists [OF this, of "sint s < 0"]
  obtain u where u: "mulaw_code u = (if x = 32124 then 127 else k)" "mulaw_neg u = (sint s < 0)"
    by blast
  have m: "mulaw_mag 127 = 32124" by (simp add: mulaw_mag_def)
  have r: "- 32768 \<le> sint s" "sint s < 32768" using sint_ge [of s] sint_lt [of s] by simp_all
  have "mulaw_err s u = \<bar>\<bar>sint s\<bar> - mulaw_mag (mulaw_code u)\<bar>"
    using u by (auto simp: mulaw_err_def muLawToLinear_closed_form)
  also have "\<dots> \<le> (if \<bar>sint s\<bar> \<le> 32124 then 512 else 644)"
    using u k m r by (auto simp: x_def min_def split: if_splits)
  finally show ?thesis using LinearToMuLaw_search(1) [of s u] by linarith
qed

end
