(* ===== verification/Vad.thy ===== *)
theory Vad
  imports MuLaw
begin

text \<open>
  Voice-activity detection (\<open>telephony/vad.go\<close>, \<open>telephony/message.go\<close>): the configuration and
  its defaults, the fixed-size windower, the hysteresis machine \<open>vadMachine\<close> and the loop
  \<open>runVAD\<close> that joins them to a detector.  The detector is an external process, so it is an
  argument: a function from its own state and a window to a probability or an error.

  Probabilities are \<open>float32\<close> values that the code only compares, so they are a rational or NaN,
  with Go's rule that every comparison with NaN is false.  PCM samples divided by \<open>32768\<close> are
  exact in \<open>float32\<close> and are rationals here.
\<close>

section \<open>Numbers and events\<close>

datatype f32 = F32NaN | F32 rat

fun f32_ge :: "f32 \<Rightarrow> f32 \<Rightarrow> bool" where
  "f32_ge (F32 a) (F32 b) = (a \<ge> b)"
| "f32_ge _ _ = False"

fun f32_le :: "f32 \<Rightarrow> f32 \<Rightarrow> bool" where
  "f32_le (F32 a) (F32 b) = (a \<le> b)"
| "f32_le _ _ = False"

datatype VADKind = VADZero | VADSpeech | VADSilence | VADEndOfUtterance | VADTurnEnd

record VADEvent =
  evKind :: VADKind
  evProb :: f32
  evVoicedCount :: int
  evSilenceCount :: int
  evWindowIndex :: int
  evStreamWindowIndex :: int
  evSessionID :: string

definition zeroVADEvent :: VADEvent where
  "zeroVADEvent = \<lparr>evKind = VADZero, evProb = F32 0, evVoicedCount = 0, evSilenceCount = 0,
     evWindowIndex = 0, evStreamWindowIndex = 0, evSessionID = []\<rparr>"

section \<open>Configuration\<close>

record vadConfig =
  WindowSize :: int
  SpeechThresh :: f32
  SilenceThresh :: f32
  EndSilenceMS :: int
  cfgSampleRateHz :: int
  TurnEndSilenceMS :: int

text \<open>The literal \<open>0.35\<close> is the \<open>float32\<close> nearest to it.\<close>

definition defaultVADConfig :: vadConfig where
  "defaultVADConfig = \<lparr>WindowSize = 256, SpeechThresh = F32 (1 / 2),
     SilenceThresh = F32 (11744051 / 33554432), EndSilenceMS = 700, cfgSampleRateHz = 8000,
     TurnEndSilenceMS = 5000\<rparr>"

definition withDefaults :: "vadConfig \<Rightarrow> vadConfig" where
  "withDefaults c =
     (let d = defaultVADConfig;
          c = (if WindowSize c \<le> 0 then c\<lparr>WindowSize := WindowSize d\<rparr> else c);
          c = (if f32_le (SpeechThresh c) (F32 0) then c\<lparr>SpeechThresh := SpeechThresh d\<rparr> else c);
          c = (if f32_le (SilenceThresh c) (F32 0) then c\<lparr>SilenceThresh := SilenceThresh d\<rparr> else c);
          c = (if EndSilenceMS c \<le> 0 then c\<lparr>EndSilenceMS := EndSilenceMS d\<rparr> else c);
          c = (if cfgSampleRateHz c \<le> 0 then c\<lparr>cfgSampleRateHz := cfgSampleRateHz d\<rparr> else c);
          c = (if TurnEndSilenceMS c \<le> 0 then c\<lparr>TurnEndSilenceMS := TurnEndSilenceMS d\<rparr> else c)
      in c)"

definition windowMS :: "vadConfig \<Rightarrow> int" where
  "windowMS c =
     (if cfgSampleRateHz c = 0 then 0 else (WindowSize c * 1000) sdiv cfgSampleRateHz c)"

definition windowsToCross :: "int \<Rightarrow> int \<Rightarrow> int" where
  "windowsToCross thresholdMS wMS =
     (if wMS \<le> 0 then 0 else (thresholdMS + wMS - 1) sdiv wMS)"

definition windowsForMS :: "int \<Rightarrow> int" where
  "windowsForMS thresholdMS = (let c = defaultVADConfig in windowsToCross thresholdMS (windowMS c))"

definition EndSilenceWindows :: int where
  "EndSilenceWindows = windowsForMS (EndSilenceMS defaultVADConfig)"

definition TurnEndSilenceWindows :: int where
  "TurnEndSilenceWindows = windowsForMS (TurnEndSilenceMS defaultVADConfig)"

datatype ordering_error = EndNotBelowTurnEnd int int | TurnEndNotBelowIdle int int

definition validateOrdering :: "vadConfig \<Rightarrow> int \<Rightarrow> ordering_error + unit" where
  "validateOrdering c maxSilenceMS =
     (if EndSilenceMS c \<ge> TurnEndSilenceMS c
      then Inl (EndNotBelowTurnEnd (EndSilenceMS c) (TurnEndSilenceMS c))
      else if TurnEndSilenceMS c \<ge> maxSilenceMS
      then Inl (TurnEndNotBelowIdle (TurnEndSilenceMS c) maxSilenceMS)
      else Inr ())"

section \<open>Windowing\<close>

definition decodeMuLaw :: "bytes \<Rightarrow> rat list" where
  "decodeMuLaw frame = map (\<lambda>b. of_int (sint (muLawToLinear b)) / 32768) frame"

record 'a windower =
  wSize :: int
  wBuf :: "'a list"

definition newWindower :: "int \<Rightarrow> 'a windower" where
  "newWindower sz = \<lparr>wSize = sz, wBuf = []\<rparr>"

text \<open>
  The loop of \<open>push\<close>: cut complete windows off the front while there are any.  With a window
  size of zero the code's loop never ends, which is \<^const>\<open>None\<close> here; \<open>push_total\<close> below
  shows that a positive size always returns.
\<close>

partial_function (option) windower_loop :: "int \<Rightarrow> 'a list \<Rightarrow> 'a list list \<Rightarrow> ('a list list \<times> 'a list) option" where
  "windower_loop sz buf windows =
     (if int (length buf) \<ge> sz
      then windower_loop sz (drop (nat sz) buf) (windows @ [take (nat sz) buf])
      else Some (windows, buf))"

definition windower_push :: "'a windower \<Rightarrow> 'a list \<Rightarrow> ('a list list \<times> 'a windower) option" where
  "windower_push w samples =
     (case windower_loop (wSize w) (wBuf w @ samples) [] of
        None \<Rightarrow> None
      | Some (windows, rest) \<Rightarrow> Some (windows, w\<lparr>wBuf := rest\<rparr>))"

section \<open>The machine\<close>

record vadMachine =
  mCfg :: vadConfig
  speaking :: bool
  silenceCount :: int
  voicedCount :: int
  turnEndFired :: bool
  windowIndex :: int
  streamWindow :: int

definition newVADMachine :: "vadConfig \<Rightarrow> vadMachine" where
  "newVADMachine cfg = \<lparr>mCfg = withDefaults cfg, speaking = False, silenceCount = 0,
     voicedCount = 0, turnEndFired = False, windowIndex = 0, streamWindow = 0\<rparr>"

definition vad_event :: "vadMachine \<Rightarrow> VADKind \<Rightarrow> f32 \<Rightarrow> VADEvent" where
  "vad_event m kind prob = \<lparr>evKind = kind, evProb = prob, evVoicedCount = voicedCount m,
     evSilenceCount = silenceCount m, evWindowIndex = windowIndex m,
     evStreamWindowIndex = streamWindow m, evSessionID = []\<rparr>"

definition vad_step :: "f32 \<Rightarrow> vadMachine \<Rightarrow> vadMachine \<times> VADEvent option" where
  "vad_step prob m0 =
     (let m = m0\<lparr>streamWindow := streamWindow m0 + 1\<rparr>; cfg = mCfg m in
      if \<not> speaking m then
        (if f32_ge prob (SpeechThresh cfg) then
           (let m = m\<lparr>speaking := True, silenceCount := 0, voicedCount := 1,
                      turnEndFired := False, windowIndex := 0\<rparr>
            in (m, Some (vad_event m VADSpeech prob)))
         else if turnEndFired m \<or> f32_ge prob (SilenceThresh cfg) then (m, None)
         else
           (let m = m\<lparr>silenceCount := silenceCount m + 1, windowIndex := windowIndex m + 1\<rparr> in
            if silenceCount m \<ge> windowsToCross (TurnEndSilenceMS cfg) (windowMS cfg) then
              (let m = m\<lparr>turnEndFired := True\<rparr> in (m, Some (vad_event m VADTurnEnd prob)))
            else (m, None)))
      else
        (let m = m\<lparr>windowIndex := windowIndex m + 1\<rparr> in
         if f32_ge prob (SpeechThresh cfg) then
           (m\<lparr>silenceCount := 0, voicedCount := voicedCount m + 1\<rparr>, None)
         else if f32_ge prob (SilenceThresh cfg) then (m, None)
         else
           (let m = m\<lparr>silenceCount := silenceCount m + 1\<rparr> in
            if silenceCount m \<ge> windowsToCross (EndSilenceMS cfg) (windowMS cfg) then
              (m\<lparr>speaking := False, voicedCount := 0\<rparr>, Some (vad_event m VADEndOfUtterance prob))
            else if silenceCount m = 1 then (m, Some (vad_event m VADSilence prob))
            else (m, None))))"

text \<open>Feeding a sequence of probabilities: the events emitted, in order, and the final machine.\<close>

fun vad_feed :: "f32 list \<Rightarrow> vadMachine \<Rightarrow> VADEvent list \<times> vadMachine" where
  "vad_feed [] m = ([], m)"
| "vad_feed (p # ps) m =
     (case vad_step p m of (m', e) \<Rightarrow>
      case vad_feed ps m' of (es, m'') \<Rightarrow>
        ((case e of None \<Rightarrow> es | Some ev \<Rightarrow> ev # es), m''))"

section \<open>The VAD goroutine\<close>

text \<open>
  \<open>detect d window\<close> gives the detector's result and its next state.  \<open>vad_windows\<close> is the inner
  loop over one frame's windows; a detector error ends the goroutine (the flag is False).
\<close>

fun vad_windows :: "('d \<Rightarrow> rat list \<Rightarrow> ('e + f32) \<times> 'd) \<Rightarrow> rat list list \<Rightarrow> 'd \<Rightarrow> vadMachine \<Rightarrow>
    VADEvent list \<times> 'd \<times> vadMachine \<times> bool" where
  "vad_windows detect [] d m = ([], d, m, True)"
| "vad_windows detect (win # wins) d m =
     (case detect d win of
        (Inl err, d') \<Rightarrow> ([], d', m, False)
      | (Inr prob, d') \<Rightarrow>
          (case vad_step prob m of (m', e) \<Rightarrow>
           case vad_windows detect wins d' m' of (es, d'', m'', ok) \<Rightarrow>
             ((case e of None \<Rightarrow> es | Some ev \<Rightarrow> ev # es), d'', m'', ok)))"

text \<open>
  \<open>runVAD\<close> over the frames received before its input closes, from the state its loop carries.  It
  returns the emitted events and whether it is still able to classify.
\<close>

fun runVAD_loop :: "('d \<Rightarrow> rat list \<Rightarrow> ('e + f32) \<times> 'd) \<Rightarrow> bytes list \<Rightarrow> rat windower \<Rightarrow> 'd \<Rightarrow>
    vadMachine \<Rightarrow> (VADEvent list \<times> rat windower \<times> 'd \<times> vadMachine \<times> bool) option" where
  "runVAD_loop detect [] w d m = Some ([], w, d, m, True)"
| "runVAD_loop detect (frame # frames) w d m =
     (case windower_push w (decodeMuLaw frame) of
        None \<Rightarrow> None
      | Some (wins, w') \<Rightarrow>
          (case vad_windows detect wins d m of
             (es, d', m', False) \<Rightarrow> Some (es, w', d', m', False)
           | (es, d', m', True) \<Rightarrow>
               (case runVAD_loop detect frames w' d' m' of
                  None \<Rightarrow> None
                | Some (es', r) \<Rightarrow> Some (es @ es', r))))"

definition runVAD :: "('d \<Rightarrow> rat list \<Rightarrow> ('e + f32) \<times> 'd) \<Rightarrow> vadConfig \<Rightarrow> 'd \<Rightarrow> bytes list \<Rightarrow>
    (VADEvent list \<times> rat windower \<times> 'd \<times> vadMachine \<times> bool) option" where
  "runVAD detect cfg0 d frames =
     (let cfg = withDefaults cfg0
      in runVAD_loop detect frames (newWindower (WindowSize cfg)) d (newVADMachine cfg))"

text \<open>\<open>newVADService\<close> stamps its session id onto every event it relays.\<close>

definition vadService_events :: "string \<Rightarrow> VADEvent list \<Rightarrow> VADEvent list" where
  "vadService_events sessionID es = map (\<lambda>e. e\<lparr>evSessionID := sessionID\<rparr>) es"

section \<open>Configuration facts\<close>

definition vad_cfg_ok :: "vadConfig \<Rightarrow> bool" where
  "vad_cfg_ok c \<longleftrightarrow> WindowSize c > 0 \<and> EndSilenceMS c > 0 \<and> cfgSampleRateHz c > 0 \<and> TurnEndSilenceMS c > 0
     \<and> \<not> f32_le (SpeechThresh c) (F32 0) \<and> \<not> f32_le (SilenceThresh c) (F32 0)"

lemma withDefaults_ok: "vad_cfg_ok (withDefaults c)"
  by (simp add: vad_cfg_ok_def withDefaults_def defaultVADConfig_def Let_def)

lemma withDefaults_id: "vad_cfg_ok c \<Longrightarrow> withDefaults c = c"
  by (simp add: vad_cfg_ok_def withDefaults_def Let_def)

lemma sdiv_pos: "0 \<le> a \<Longrightarrow> 0 < b \<Longrightarrow> a sdiv b = a div (b :: int)"
  by (auto simp: signed_divide_int_def sgn_if)

lemma windowsToCross_least:
  assumes "0 < t" "0 < w"
  shows "t \<le> windowsToCross t w * w" "(windowsToCross t w - 1) * w < t" "1 \<le> windowsToCross t w"
proof -
  have eq: "windowsToCross t w = (t + w - 1) div w"
    using assms by (simp add: windowsToCross_def sdiv_pos)
  define q where "q = (t + w - 1) div w"
  have "q * w + (t + w - 1) mod w = t + w - 1" unfolding q_def by simp
  moreover have "0 \<le> (t + w - 1) mod w" "(t + w - 1) mod w < w" using assms by simp_all
  ultimately have "t \<le> q * w" "(q - 1) * w < t" by (auto simp: algebra_simps)
  moreover from \<open>t \<le> q * w\<close> assms have "1 \<le> q"
    by (smt (verit) mult_nonpos_nonneg)
  ultimately show "t \<le> windowsToCross t w * w" "(windowsToCross t w - 1) * w < t" "1 \<le> windowsToCross t w"
    by (simp_all only: eq q_def)
qed

section \<open>Windowing facts\<close>

text \<open>The reference cutting of a sample stream into complete windows and a remainder.\<close>

function full_windows :: "nat \<Rightarrow> 'a list \<Rightarrow> 'a list list \<times> 'a list" where
  "full_windows n xs =
     (if n = 0 \<or> length xs < n then ([], xs)
      else (take n xs # fst (full_windows n (drop n xs)), snd (full_windows n (drop n xs))))"
  by pat_completeness auto
termination
  by (relation "measure (\<lambda>(n, xs). length xs)") auto

declare full_windows.simps [simp del]

lemma full_windows_concat: "concat (fst (full_windows n xs)) @ snd (full_windows n xs) = xs"
proof (induction n xs rule: full_windows.induct)
  case (1 n xs)
  then show ?case by (cases "n = 0 \<or> length xs < n") (simp_all add: full_windows.simps [of n xs])
qed

lemma full_windows_unfold:
  "0 < n \<Longrightarrow> n \<le> length xs \<Longrightarrow>
     full_windows n xs = (take n xs # fst (full_windows n (drop n xs)), snd (full_windows n (drop n xs)))"
  "n = 0 \<or> length xs < n \<Longrightarrow> full_windows n xs = ([], xs)"
  by (subst full_windows.simps, simp)+

lemma full_windows_len: "w \<in> set (fst (full_windows n xs)) \<Longrightarrow> length w = n"
proof (induction n xs rule: full_windows.induct)
  case (1 n xs)
  show ?case
  proof (cases "n = 0 \<or> length xs < n")
    case True
    with "1.prems" show ?thesis by (simp add: full_windows_unfold)
  next
    case False
    with "1.prems" have "w = take n xs \<or> w \<in> set (fst (full_windows n (drop n xs)))"
      by (simp add: full_windows_unfold)
    with "1.IH" [OF False] False show ?thesis by auto
  qed
qed

lemma full_windows_rest: "0 < n \<Longrightarrow> length (snd (full_windows n xs)) < n"
proof (induction n xs rule: full_windows.induct)
  case (1 n xs)
  show ?case
  proof (cases "length xs < n")
    case True
    then show ?thesis by (subst full_windows_unfold(2)) simp_all
  next
    case False
    with 1 show ?thesis by (subst full_windows_unfold(1)) simp_all
  qed
qed

lemma full_windows_append:
  "full_windows n (xs @ ys) =
     (fst (full_windows n xs) @ fst (full_windows n (snd (full_windows n xs) @ ys)),
      snd (full_windows n (snd (full_windows n xs) @ ys)))"
proof (induction n xs rule: full_windows.induct)
  case (1 n xs)
  show ?case
  proof (cases "n = 0 \<or> length xs < n")
    case True
    then show ?thesis by (simp add: full_windows.simps [of n xs])
  next
    case False
    then have "full_windows n (xs @ ys) = (take n xs # fst (full_windows n (drop n xs @ ys)), snd (full_windows n (drop n xs @ ys)))"
      by (subst full_windows.simps) simp
    with 1 False show ?thesis by (simp add: full_windows.simps [of n xs])
  qed
qed

lemma windower_loop_eq:
  "0 < sz \<Longrightarrow> windower_loop sz buf ws =
     Some (ws @ fst (full_windows (nat sz) buf), snd (full_windows (nat sz) buf))"
proof (induction "length buf" arbitrary: buf ws rule: less_induct)
  case less
  show ?case
  proof (cases "int (length buf) \<ge> sz")
    case True
    then have "\<not> (nat sz = 0 \<or> length buf < nat sz)" using less.prems by auto
    moreover have "length (drop (nat sz) buf) < length buf" using True less.prems by auto
    ultimately show ?thesis
      using less True by (simp add: windower_loop.simps [of sz buf] full_windows.simps [of "nat sz" buf])
  next
    case False
    then show ?thesis by (simp add: windower_loop.simps [of sz buf] full_windows.simps [of "nat sz" buf])
  qed
qed

lemma windower_push_eq:
  "0 < wSize w \<Longrightarrow> windower_push w xs =
     Some (fst (full_windows (nat (wSize w)) (wBuf w @ xs)),
           w\<lparr>wBuf := snd (full_windows (nat (wSize w)) (wBuf w @ xs))\<rparr>)"
  by (simp add: windower_push_def windower_loop_eq case_prod_unfold)

section \<open>The goroutine classifies the byte stream, not its frames\<close>

lemma vad_windows_append:
  "vad_windows detect (xs @ ys) d m =
     (case vad_windows detect xs d m of
        (es, d', m', False) \<Rightarrow> (es, d', m', False)
      | (es, d', m', True) \<Rightarrow>
          (case vad_windows detect ys d' m' of (es', r) \<Rightarrow> (es @ es', r)))"
  by (induction xs arbitrary: d m) (auto split: prod.splits sum.splits option.splits bool.splits)

lemma decodeMuLaw_append: "decodeMuLaw (a @ b) = decodeMuLaw a @ decodeMuLaw b"
  by (simp add: decodeMuLaw_def)

lemma runVAD_loop_eq:
  assumes "0 < wSize w" "int (length (wBuf w)) < wSize w"
  shows "\<exists>w'. runVAD_loop detect frames w d m =
     (case vad_windows detect
             (fst (full_windows (nat (wSize w)) (wBuf w @ decodeMuLaw (concat frames)))) d m of
        (es, d', m', ok) \<Rightarrow> Some (es, w', d', m', ok))"
  using assms
proof (induction frames arbitrary: w d m)
  case Nil
  then have "full_windows (nat (wSize w)) (wBuf w) = ([], wBuf w)"
    by (subst full_windows.simps) auto
  then show ?case by (simp add: decodeMuLaw_def)
next
  case (Cons f fs)
  let ?n = "nat (wSize w)"
  define wins where "wins = fst (full_windows ?n (wBuf w @ decodeMuLaw f))"
  define w1 where "w1 = w\<lparr>wBuf := snd (full_windows ?n (wBuf w @ decodeMuLaw f))\<rparr>"
  have w1: "0 < wSize w1" "int (length (wBuf w1)) < wSize w1" "wSize w1 = wSize w"
    using Cons.prems full_windows_rest [of ?n "wBuf w @ decodeMuLaw f"]
    by (simp_all add: w1_def zless_nat_eq_int_zless)
  have push: "windower_push w (decodeMuLaw f) = Some (wins, w1)"
    by (simp add: windower_push_eq Cons.prems wins_def w1_def)
  have all: "fst (full_windows ?n (wBuf w @ decodeMuLaw (concat (f # fs)))) =
      wins @ fst (full_windows ?n (wBuf w1 @ decodeMuLaw (concat fs)))"
    by (simp add: decodeMuLaw_append wins_def w1_def
        full_windows_append [of ?n "wBuf w @ decodeMuLaw f" "decodeMuLaw (concat fs)", simplified])
  obtain es d' m' ok where r: "vad_windows detect wins d m = (es, d', m', ok)"
    by (cases "vad_windows detect wins d m") auto
  show ?case
  proof (cases ok)
    case False
    with r push show ?thesis unfolding all by (simp add: vad_windows_append)
  next
    case True
    from Cons.IH [OF w1(1,2), of d' m'] w1(3) obtain w' where
      "runVAD_loop detect fs w1 d' m' =
        (case vad_windows detect (fst (full_windows ?n (wBuf w1 @ decodeMuLaw (concat fs)))) d' m' of
           (es, d', m', ok) \<Rightarrow> Some (es, w', d', m', ok))"
      by auto
    with True r push show ?thesis unfolding all
      by (intro exI [of _ w']) (simp add: vad_windows_append split: prod.splits)
  qed
qed

section \<open>Silence runs\<close>

definition voiced :: "vadConfig \<Rightarrow> f32 \<Rightarrow> bool" where
  "voiced c p \<longleftrightarrow> f32_ge p (SpeechThresh c)"

definition quiet :: "vadConfig \<Rightarrow> f32 \<Rightarrow> bool" where
  "quiet c p \<longleftrightarrow> \<not> f32_ge p (SilenceThresh c)"

definition endWindows :: "vadConfig \<Rightarrow> int" where
  "endWindows c = windowsToCross (EndSilenceMS c) (windowMS c)"

definition turnEndWindows :: "vadConfig \<Rightarrow> int" where
  "turnEndWindows c = windowsToCross (TurnEndSilenceMS c) (windowMS c)"

lemma vad_feed_append:
  "vad_feed (ps @ qs) m =
     (fst (vad_feed ps m) @ fst (vad_feed qs (snd (vad_feed ps m))), snd (vad_feed qs (snd (vad_feed ps m))))"
  by (induction ps arbitrary: m) (auto split: prod.splits option.splits)

lemma vad_step_cfg [simp]: "mCfg (fst (vad_step p m)) = mCfg m"
  by (simp add: vad_step_def Let_def)

lemma vad_feed_cfg [simp]: "mCfg (snd (vad_feed ps m)) = mCfg m"
  by (induction ps arbitrary: m) (simp_all add: case_prod_unfold)

lemma silence_run:
  fixes m :: vadMachine
  defines "c \<equiv> mCfg m"
  assumes "speaking m" "silenceCount m = 0" "\<not> turnEndFired m" "1 \<le> endWindows c"
    and "\<forall>p \<in> set ps. \<not> voiced c p"
  defines "q \<equiv> int (length (filter (quiet c) ps))"
    and "K \<equiv> endWindows c" and "T \<equiv> max (turnEndWindows c) (endWindows c + 1)"
    and "m' \<equiv> snd (vad_feed ps m)"
  shows "map evKind (fst (vad_feed ps m)) =
     (if 1 \<le> q \<and> 1 < K then [VADSilence] else []) @ (if K \<le> q then [VADEndOfUtterance] else [])
       @ (if T \<le> q then [VADTurnEnd] else []) \<and>
     speaking m' = (q < K) \<and> turnEndFired m' = (T \<le> q) \<and> silenceCount m' = min q T"
  using assms(6) unfolding q_def m'_def
proof (induction ps rule: rev_induct)
  case Nil
  then show ?case using assms(2-5) by (auto simp: K_def T_def max_def)
next
  case (snoc p ps)
  define m1 where "m1 = snd (vad_feed ps m)"
  have cfg: "mCfg m1 = c" by (simp add: m1_def c_def)
  have nv: "\<not> f32_ge p (SpeechThresh c)" using snoc.prems by (simp add: voiced_def)
  have K1: "1 \<le> K" using assms(5) by (simp add: K_def)
  have KT: "K < T" by (simp add: K_def T_def)
  have feed: "vad_feed (ps @ [p]) m =
      (fst (vad_feed ps m) @ (case snd (vad_step p m1) of None \<Rightarrow> [] | Some e \<Rightarrow> [e]), fst (vad_step p m1))"
    by (simp add: vad_feed_append m1_def case_prod_unfold split: option.split)
  define q0 where "q0 = int (length (filter (quiet c) ps))"
  have T: "T = max (turnEndWindows c) (K + 1)" by (simp add: T_def K_def)
  have q1: "int (length (filter (quiet c) (ps @ [p]))) = (if quiet c p then q0 + 1 else q0)"
    by (simp add: q0_def)
  from snoc have IH: "map evKind (fst (vad_feed ps m)) =
      (if 1 \<le> q0 \<and> 1 < K then [VADSilence] else []) @ (if K \<le> q0 then [VADEndOfUtterance] else [])
        @ (if T \<le> q0 then [VADTurnEnd] else [])"
    "speaking m1 = (q0 < K)" "turnEndFired m1 = (T \<le> q0)" "silenceCount m1 = min q0 T"
    by (simp_all add: q0_def m1_def)
  have "0 \<le> q0" by (simp add: q0_def)
  note unf = vad_step_def Let_def cfg vad_event_def endWindows_def [symmetric] turnEndWindows_def [symmetric] K_def [symmetric]
  show ?case
  proof (cases "quiet c p")
    case True
    consider "q0 + 1 < K" | "q0 + 1 = K" | "K \<le> q0" "q0 + 1 < T" | "K \<le> q0" "q0 + 1 = T" | "T \<le> q0" by linarith
    then show ?thesis
      unfolding feed q1 using True IH nv K1 KT \<open>0 \<le> q0\<close> by cases (simp_all add: unf quiet_def T, auto simp: max_def split: if_splits)
  next
    case False
    then show ?thesis unfolding feed q1 using IH nv K1 KT by (simp add: unf quiet_def)
  qed
qed
section \<open>Order and position of the events\<close>

text \<open>The event orders a machine can produce, from whether it is in speech and whether it has
  already reported the end of the turn.\<close>

fun vad_accepts :: "bool \<Rightarrow> bool \<Rightarrow> VADKind list \<Rightarrow> bool" where
  "vad_accepts sp te [] = True"
| "vad_accepts sp te (k # ks) =
     (case k of
        VADSpeech \<Rightarrow> \<not> sp \<and> vad_accepts True False ks
      | VADSilence \<Rightarrow> sp \<and> vad_accepts True False ks
      | VADEndOfUtterance \<Rightarrow> sp \<and> vad_accepts False False ks
      | VADTurnEnd \<Rightarrow> \<not> sp \<and> \<not> te \<and> vad_accepts False True ks
      | VADZero \<Rightarrow> False)"

lemma vad_step_accepts:
  assumes "speaking m \<longrightarrow> \<not> turnEndFired m" "vad_step p m = (m', e)"
  shows "speaking m' \<longrightarrow> \<not> turnEndFired m'"
    and "vad_accepts (speaking m') (turnEndFired m') ks \<Longrightarrow>
      vad_accepts (speaking m) (turnEndFired m) (case e of None \<Rightarrow> ks | Some ev \<Rightarrow> evKind ev # ks)"
  using assms by (auto simp: vad_step_def Let_def vad_event_def split: if_splits)

lemma vad_feed_accepts:
  "speaking m \<longrightarrow> \<not> turnEndFired m \<Longrightarrow>
     vad_accepts (speaking m) (turnEndFired m) (map evKind (fst (vad_feed ps m)))"
proof (induction ps arbitrary: m)
  case (Cons p ps)
  obtain m' e where st: "vad_step p m = (m', e)" by fastforce
  from Cons.IH [OF vad_step_accepts(1) [OF Cons.prems st]]
  have "vad_accepts (speaking m') (turnEndFired m') (map evKind (fst (vad_feed ps m')))" .
  from vad_step_accepts(2) [OF Cons.prems st this] show ?case
    by (cases e) (simp_all add: st case_prod_unfold)
qed simp

lemma vad_step_clock:
  "streamWindow (fst (vad_step p m)) = streamWindow m + 1"
  "snd (vad_step p m) = Some e \<Longrightarrow> evStreamWindowIndex e = streamWindow m + 1"
  by (auto simp: vad_step_def Let_def vad_event_def split: if_splits)

lemma vad_feed_clock: "streamWindow (snd (vad_feed ps m)) = streamWindow m + int (length ps)"
  by (induction ps arbitrary: m) (simp_all add: case_prod_unfold vad_step_clock)

lemma vad_feed_index:
  "e \<in> set (fst (vad_feed ps m)) \<Longrightarrow>
     streamWindow m < evStreamWindowIndex e \<and> evStreamWindowIndex e \<le> streamWindow m + int (length ps)"
proof (induction ps arbitrary: m)
  case (Cons p ps)
  let ?m = "fst (vad_step p m)"
  from Cons.prems have "snd (vad_step p m) = Some e \<or> e \<in> set (fst (vad_feed ps ?m))"
    by (auto simp: case_prod_unfold split: option.splits)
  with Cons.IH [of ?m] vad_step_clock [of p m] show ?case by auto
qed simp

lemma vad_feed_sorted: "sorted_wrt (<) (map evStreamWindowIndex (fst (vad_feed ps m)))"
proof (induction ps arbitrary: m)
  case (Cons p ps)
  obtain m' o' where st: "vad_step p m = (m', o')" by fastforce
  have sw: "streamWindow m' = streamWindow m + 1" using vad_step_clock(1) [of p m] st by simp
  show ?case
  proof (cases o')
    case None
    with Cons.IH [of m'] show ?thesis by (simp add: st case_prod_unfold)
  next
    case (Some e)
    with st vad_step_clock(2) [of p m e] have "evStreamWindowIndex e = streamWindow m'" by (simp add: sw)
    with Some Cons.IH [of m'] vad_feed_index [of _ ps m'] show ?thesis
      by (auto simp: st case_prod_unfold)
  qed
qed simp

text \<open>A caller who never speaks: from a machine that has heard nothing, the first
  \<open>turnEndWindows\<close> quiet windows already produce a turn end.\<close>

lemma fresh_silence_run:
  assumes "\<not> speaking m" "\<not> turnEndFired m" "silenceCount m = 0" "1 \<le> turnEndWindows (mCfg m)"
    and "\<forall>p \<in> set ps. quiet (mCfg m) p \<and> \<not> voiced (mCfg m) p"
  shows "map evKind (fst (vad_feed ps m)) =
      (if turnEndWindows (mCfg m) \<le> int (length ps) then [VADTurnEnd] else []) \<and>
    \<not> speaking (snd (vad_feed ps m)) \<and>
    turnEndFired (snd (vad_feed ps m)) = (turnEndWindows (mCfg m) \<le> int (length ps)) \<and>
    silenceCount (snd (vad_feed ps m)) = min (int (length ps)) (turnEndWindows (mCfg m))"
  using assms(5)
proof (induction ps rule: rev_induct)
  case Nil
  then show ?case using assms(1-4) by simp
next
  case (snoc p ps)
  define m1 where "m1 = snd (vad_feed ps m)"
  have cfg: "mCfg m1 = mCfg m" by (simp add: m1_def)
  have feed: "vad_feed (ps @ [p]) m =
      (fst (vad_feed ps m) @ (case snd (vad_step p m1) of None \<Rightarrow> [] | Some e \<Rightarrow> [e]), fst (vad_step p m1))"
    by (simp add: vad_feed_append m1_def case_prod_unfold split: option.split)
  from snoc.prems have "\<not> f32_ge p (SpeechThresh (mCfg m))" "\<not> f32_ge p (SilenceThresh (mCfg m))"
    by (simp_all add: quiet_def voiced_def)
  with snoc show ?case unfolding feed m1_def [symmetric]
    by (auto simp: vad_step_def Let_def cfg vad_event_def turnEndWindows_def)
qed

lemma default_windows:
  "windowMS defaultVADConfig = 32" "endWindows defaultVADConfig = 22"
  "turnEndWindows defaultVADConfig = 157" "vad_cfg_ok defaultVADConfig"
  by (simp_all add: windowMS_def defaultVADConfig_def endWindows_def turnEndWindows_def
      windowsToCross_def vad_cfg_ok_def signed_divide_int_def)

lemma default_cfg [simp]:
  "SpeechThresh defaultVADConfig = F32 (1 / 2)"
  "SilenceThresh defaultVADConfig = F32 (11744051 / 33554432)"
  "WindowSize defaultVADConfig = 256" "TurnEndSilenceMS defaultVADConfig = 5000"
  "EndSilenceMS defaultVADConfig = 700" "withDefaults defaultVADConfig = defaultVADConfig"
  by (simp_all add: withDefaults_id default_windows(4)) (simp_all add: defaultVADConfig_def)

section \<open>Properties\<close>

text \<open>What a run of windows without speech produces.  From a machine in speech whose last
  window was voiced, any windows below the speech threshold emit, in this order and once each: the
  silence onset, the end of utterance when the windows below the silence threshold number
  \<^const>\<open>endWindows\<close>, and the turn end when they number \<^const>\<open>turnEndWindows\<close> (one window
  after the end of utterance at the earliest).  Windows in the dead zone between the thresholds
  count for nothing.\<close>

theorem vad_silence_run:
  assumes "speaking m" "silenceCount m = 0" "\<not> turnEndFired m" "1 \<le> endWindows (mCfg m)"
    and "\<forall>p \<in> set ps. \<not> voiced (mCfg m) p"
    and "q = int (length (filter (quiet (mCfg m)) ps))"
  shows "map evKind (fst (vad_feed ps m)) =
     (if 1 \<le> q \<and> 1 < endWindows (mCfg m) then [VADSilence] else []) @
     (if endWindows (mCfg m) \<le> q then [VADEndOfUtterance] else []) @
     (if max (turnEndWindows (mCfg m)) (endWindows (mCfg m) + 1) \<le> q then [VADTurnEnd] else []) \<and>
     speaking (snd (vad_feed ps m)) = (q < endWindows (mCfg m))"
  using silence_run [OF assms(1-5)] assms(6) by simp

theorem vad_silence_run_witness:
  "map evKind (fst (vad_feed [F32 0, F32 (2 / 5), F32NaN] (snd (vad_feed [F32 1] (newVADMachine defaultVADConfig))))) =
     [VADSilence]"
proof -
  let ?m = "snd (vad_feed [F32 1] (newVADMachine defaultVADConfig))"
  have c: "mCfg ?m = defaultVADConfig"
    by (simp only: vad_feed_cfg) (simp add: newVADMachine_def)
  have m: "speaking ?m" "silenceCount ?m = 0" "\<not> turnEndFired ?m"
    by (simp_all add: newVADMachine_def vad_step_def Let_def)
  have k: "1 \<le> endWindows (mCfg ?m)" by (simp only: c default_windows)
  have v: "\<forall>p \<in> set [F32 0, F32 (2 / 5), F32NaN]. \<not> voiced (mCfg ?m) p"
    unfolding c by (simp add: voiced_def)
  have q: "(2::int) = int (length (filter (quiet (mCfg ?m)) [F32 0, F32 (2 / 5), F32NaN]))"
    unfolding c by (simp add: quiet_def)
  from vad_silence_run [OF m k v q] show ?thesis unfolding c default_windows by simp
qed

text \<open>C19: framing does not matter.  \<^const>\<open>runVAD\<close> always returns (the windower never diverges on
  a defaulted configuration), and its events, detector state and machine are those of classifying
  the complete windows of the concatenated audio, however the bytes were split into frames.\<close>

theorem runVAD_stream:
  "\<exists>w'. runVAD detect cfg d frames =
     (case vad_windows detect
             (fst (full_windows (nat (WindowSize (withDefaults cfg))) (decodeMuLaw (concat frames))))
             d (newVADMachine cfg) of
        (es, d', m', ok) \<Rightarrow> Some (es, w', d', m', ok))"
proof -
  let ?w = "newWindower (WindowSize (withDefaults cfg)) :: rat windower"
  have pos: "0 < WindowSize (withDefaults cfg)" using withDefaults_ok [of cfg] by (simp add: vad_cfg_ok_def)
  have m: "newVADMachine (withDefaults cfg) = newVADMachine cfg"
    by (simp add: newVADMachine_def withDefaults_id withDefaults_ok)
  show ?thesis
    using runVAD_loop_eq [of ?w detect frames d "newVADMachine cfg"] pos
    by (simp add: runVAD_def m newWindower_def)
qed

text \<open>Event discipline.  From a new machine the emitted kinds always follow the grammar of
  \<^const>\<open>vad_accepts\<close>: speech onset exactly once per utterance, silence and end of utterance only
  inside one, at most one turn end between two onsets.\<close>

theorem vad_event_grammar:
  "vad_accepts False False (map evKind (fst (vad_feed ps (newVADMachine cfg))))"
  using vad_feed_accepts [of "newVADMachine cfg" ps] by (simp add: newVADMachine_def)

text \<open>The audio clock.  The stream index of the events strictly increases, the machine has
  counted exactly the windows fed, and the event of the \<open>n\<close>-th window of the stream carries \<open>n\<close>
  (counting from 1, although the comment on the field says 0 at the first window).\<close>

theorem vad_audio_clock:
  "sorted_wrt (<) (map evStreamWindowIndex (fst (vad_feed ps (newVADMachine cfg)))) \<and>
   streamWindow (snd (vad_feed ps (newVADMachine cfg))) = int (length ps) \<and>
   (snd (vad_step p (snd (vad_feed ps (newVADMachine cfg)))) = Some e \<longrightarrow>
      evStreamWindowIndex e = int (length ps) + 1)"
  using vad_feed_sorted [of ps "newVADMachine cfg"] vad_feed_clock [of ps "newVADMachine cfg"]
    vad_step_clock(2) [of p "snd (vad_feed ps (newVADMachine cfg))" e]
  by (simp add: newVADMachine_def)

theorem vad_audio_clock_witness:
  "evStreamWindowIndex (vad_event (fst (vad_step (F32 1) (newVADMachine defaultVADConfig))) VADSpeech (F32 1)) = 1"
proof -
  let ?m = "newVADMachine defaultVADConfig"
  let ?e = "vad_event (fst (vad_step (F32 1) ?m)) VADSpeech (F32 1)"
  have "snd (vad_step (F32 1) (snd (vad_feed [] ?m))) = Some ?e"
    by (simp add: vad_step_def Let_def newVADMachine_def)
  with vad_audio_clock [of "[]" defaultVADConfig "F32 1" ?e] show ?thesis by simp
qed

text \<open>The window count is the least that covers the threshold: that many windows last at
  least \<open>t\<close> milliseconds, one fewer lasts less, and it is never zero.\<close>

theorem windowsToCross_ceiling:
  assumes "0 < t" "0 < w"
  shows "t \<le> windowsToCross t w * w \<and> (windowsToCross t w - 1) * w < t \<and> 1 \<le> windowsToCross t w"
  using windowsToCross_least [OF assms] by blast

theorem windowsToCross_ceiling_witness:
  "windowsToCross 700 32 = 22 \<and> 700 \<le> windowsToCross 700 32 * (32 :: int)"
proof -
  have "windowsToCross 700 32 = 22" by (simp add: windowsToCross_def signed_divide_int_def)
  with windowsToCross_ceiling [of 700 32] show ?thesis by simp
qed

end
