(* ===== verification/Decision.thy ===== *)
theory Decision
  imports Vad
begin

text \<open>
  The decision record (\<open>telephony/decision.go\<close>): the event type with its labels, the totals, and
  the two recorders, \<open>noopRecorder\<close> and \<open>FileDecisionRecorder\<close>.

  A recorder keeps, next to its Go fields, what it has written: \<open>rLive\<close> is the events echoed on the
  live writer (one line each) and \<open>rFiles\<close> the files, by directory and name, with the value whose
  JSON they hold.  Whether writing a file succeeds is the argument \<open>writeOK\<close>.  \<open>encoding/json\<close>
  refuses a float that is not a number; nothing else in an event or a header can fail to encode.
  The \<open>decision_recorder\<close> locale is the contract of the \<open>DecisionRecorder\<close> interface.
\<close>

section \<open>Events\<close>

definition EventLogEnabled :: "string \<Rightarrow> bool" where
  "EventLogEnabled val = (toLower (trimSpace val) \<in> {''1'', ''true'', ''yes'', ''on''})"

definition DecisionTypeVAD :: string where "DecisionTypeVAD = ''vad''"
definition DecisionTypeCap :: string where "DecisionTypeCap = ''cap''"
definition DecisionTypeSTTDispatch :: string where "DecisionTypeSTTDispatch = ''stt_dispatch''"
definition DecisionTypeSTTResult :: string where "DecisionTypeSTTResult = ''stt_result''"
definition DecisionTypeModelRoute :: string where "DecisionTypeModelRoute = ''model_route''"

definition DecisionKindSpeechStart :: string where "DecisionKindSpeechStart = ''speech-start''"
definition DecisionKindSilence :: string where "DecisionKindSilence = ''silence''"
definition DecisionKindEndOfUtter :: string where "DecisionKindEndOfUtter = ''end-of-utterance''"
definition DecisionKindTurnEnd :: string where "DecisionKindTurnEnd = ''turn-end''"
definition DecisionKindUtteranceCap :: string where "DecisionKindUtteranceCap = ''utterance-cap''"
definition DecisionKindTurnCap :: string where "DecisionKindTurnCap = ''turn-cap''"
definition DecisionKindIdleTimeout :: string where "DecisionKindIdleTimeout = ''idle-timeout''"
definition DecisionKindResponseCap :: string where "DecisionKindResponseCap = ''response-cap''"
definition DecisionKindModelRoute :: string where "DecisionKindModelRoute = ''model-route''"

definition DecisionParamSpeechThresh :: string where "DecisionParamSpeechThresh = ''SpeechThresh''"
definition DecisionParamSilenceThresh :: string where "DecisionParamSilenceThresh = ''SilenceThresh''"
definition DecisionParamEndSilence :: string where "DecisionParamEndSilence = ''EndSilenceMS''"
definition DecisionParamTurnEndSilence :: string where "DecisionParamTurnEndSilence = ''TurnEndSilenceMS''"
definition DecisionParamMaxUtterance :: string where "DecisionParamMaxUtterance = ''MaxUtteranceMS''"
definition DecisionParamMaxTurn :: string where "DecisionParamMaxTurn = ''MaxTurnMS''"
definition DecisionParamMaxSilence :: string where "DecisionParamMaxSilence = ''MaxSilenceMS''"
definition DecisionParamMaxResponse :: string where "DecisionParamMaxResponse = ''MaxResponseMS''"
definition DecisionParamRouteTier :: string where "DecisionParamRouteTier = ''RouteTier''"

definition modelRouteShadowEffect :: string where
  "modelRouteShadowEffect = ''shadow only; turn answered unchanged''"

lemmas decision_labels =
  DecisionTypeVAD_def DecisionTypeCap_def DecisionTypeSTTDispatch_def DecisionTypeSTTResult_def
  DecisionTypeModelRoute_def DecisionKindSpeechStart_def DecisionKindSilence_def
  DecisionKindEndOfUtter_def DecisionKindTurnEnd_def DecisionKindUtteranceCap_def
  DecisionKindTurnCap_def DecisionKindIdleTimeout_def DecisionKindResponseCap_def
  DecisionKindModelRoute_def

text \<open>The dynamic type of \<open>ParamValue\<close>: nil, an int, a float32 or a string.\<close>

datatype ParamVal = PVNil | PVInt int | PVFloat f32 | PVString string

record DecisionEvent =
  Seq :: int
  AudioMS :: int
  Type :: string
  Kind :: string
  Param :: string
  ParamValue :: ParamVal
  Prob :: f32
  SilenceCount :: int
  RequestID :: int
  Effect :: string
  Text :: string
  LatencyMS :: int
  AudioBytes :: int
  STTDurSec :: f32
  RouteReason :: string

definition zeroDecisionEvent :: DecisionEvent where
  "zeroDecisionEvent = \<lparr>Seq = 0, AudioMS = 0, Type = '''', Kind = '''', Param = '''', ParamValue = PVNil,
     Prob = F32 0, SilenceCount = 0, RequestID = 0, Effect = '''', Text = '''', LatencyMS = 0,
     AudioBytes = 0, STTDurSec = F32 0, RouteReason = ''''\<rparr>"

definition event_encodes :: "DecisionEvent \<Rightarrow> bool" where
  "event_encodes ev \<longleftrightarrow> Prob ev \<noteq> F32NaN \<and> STTDurSec ev \<noteq> F32NaN \<and> ParamValue ev \<noteq> PVFloat F32NaN"

section \<open>Totals and header\<close>

record decisionTotals =
  totEvents :: int
  totUtterances :: int
  totTurns :: int
  totSTTCalls :: int

fun computeTotals_loop :: "decisionTotals \<Rightarrow> DecisionEvent list \<Rightarrow> decisionTotals" where
  "computeTotals_loop t [] = t"
| "computeTotals_loop t (ev # evs) =
     computeTotals_loop
       (if Kind ev = DecisionKindEndOfUtter then t\<lparr>totUtterances := totUtterances t + 1\<rparr>
        else if Kind ev = DecisionKindTurnEnd \<or> Kind ev = DecisionKindTurnCap \<or> Kind ev = DecisionKindUtteranceCap
        then t\<lparr>totTurns := totTurns t + 1\<rparr>
        else if Type ev = DecisionTypeSTTDispatch then t\<lparr>totSTTCalls := totSTTCalls t + 1\<rparr>
        else t) evs"

definition computeTotals :: "DecisionEvent list \<Rightarrow> decisionTotals" where
  "computeTotals events =
     computeTotals_loop \<lparr>totEvents = int (length events), totUtterances = 0, totTurns = 0, totSTTCalls = 0\<rparr> events"

record decisionHeader =
  hdrStreamSID :: string
  hdrCallSID :: string
  hdrLabel :: string
  hdrVADConfig :: vadConfig
  hdrTotals :: decisionTotals

definition header_encodes :: "decisionHeader \<Rightarrow> bool" where
  "header_encodes h \<longleftrightarrow> SpeechThresh (hdrVADConfig h) \<noteq> F32NaN \<and> SilenceThresh (hdrVADConfig h) \<noteq> F32NaN"

section \<open>Recorders\<close>

datatype file_content = HeaderFile decisionHeader | EventsFile "DecisionEvent list"

record FileDecisionRecorder =
  rDir :: string
  rHeader :: decisionHeader
  rSeq :: int
  rBuf :: "DecisionEvent list"
  rClosed :: bool
  rLive :: "DecisionEvent list"
  rFiles :: "(string \<times> string) \<rightharpoonup> file_content"

definition NewFileDecisionRecorder :: "string \<Rightarrow> string \<Rightarrow> string \<Rightarrow> string \<Rightarrow> vadConfig \<Rightarrow> FileDecisionRecorder option" where
  "NewFileDecisionRecorder dir streamSID callSID label cfg =
     (if dir = '''' then None
      else Some \<lparr>rDir = dir,
             rHeader = \<lparr>hdrStreamSID = streamSID, hdrCallSID = callSID, hdrLabel = label, hdrVADConfig = cfg,
               hdrTotals = \<lparr>totEvents = 0, totUtterances = 0, totTurns = 0, totSTTCalls = 0\<rparr>\<rparr>,
             rSeq = 0, rBuf = [], rClosed = False, rLive = [], rFiles = Map.empty\<rparr>)"

definition file_Record :: "DecisionEvent \<Rightarrow> FileDecisionRecorder \<Rightarrow> FileDecisionRecorder" where
  "file_Record ev r =
     (if rClosed r then r
      else
        (let r = r\<lparr>rSeq := rSeq r + 1\<rparr>;
             ev = ev\<lparr>Seq := rSeq r\<rparr>;
             r = r\<lparr>rBuf := rBuf r @ [ev]\<rparr>
         in r\<lparr>rLive := rLive r @ [ev]\<rparr>))"

datatype recorder_error = MarshalHeader | WriteHeader | MarshalEvent int | WriteEvents

definition headerPath :: "FileDecisionRecorder \<Rightarrow> string \<times> string" where
  "headerPath r = (rDir r, hdrStreamSID (rHeader r) @ ''.events.header.json'')"

definition eventsPath :: "FileDecisionRecorder \<Rightarrow> string \<times> string" where
  "eventsPath r = (rDir r, hdrStreamSID (rHeader r) @ ''.events.jsonl'')"

definition file_Close ::
    "(string \<times> string \<Rightarrow> bool) \<Rightarrow> FileDecisionRecorder \<Rightarrow> recorder_error option \<times> FileDecisionRecorder" where
  "file_Close writeOK r0 =
     (if rClosed r0 then (None, r0)
      else
        (let r = r0\<lparr>rClosed := True, rHeader := (rHeader r0)\<lparr>hdrTotals := computeTotals (rBuf r0)\<rparr>\<rparr> in
         if \<not> header_encodes (rHeader r) then (Some MarshalHeader, r)
         else if \<not> writeOK (headerPath r) then (Some WriteHeader, r)
         else
           (let r = r\<lparr>rFiles := (rFiles r)(headerPath r \<mapsto> HeaderFile (rHeader r))\<rparr> in
            case find (\<lambda>ev. \<not> event_encodes ev) (rBuf r) of
              Some ev \<Rightarrow> (Some (MarshalEvent (Seq ev)), r)
            | None \<Rightarrow>
                (if \<not> writeOK (eventsPath r) then (Some WriteEvents, r)
                 else (None, r\<lparr>rFiles := (rFiles r)(eventsPath r \<mapsto> EventsFile (rBuf r))\<rparr>)))))"

text \<open>A nil \<open>*FileDecisionRecorder\<close> is a valid receiver: both methods do nothing.\<close>

definition ptr_Record :: "DecisionEvent \<Rightarrow> FileDecisionRecorder option \<Rightarrow> FileDecisionRecorder option" where
  "ptr_Record ev r = map_option (file_Record ev) r"

definition ptr_Close :: "(string \<times> string \<Rightarrow> bool) \<Rightarrow> FileDecisionRecorder option \<Rightarrow>
    recorder_error option \<times> FileDecisionRecorder option" where
  "ptr_Close writeOK r =
     (case r of None \<Rightarrow> (None, None)
      | Some r \<Rightarrow> (case file_Close writeOK r of (e, r') \<Rightarrow> (e, Some r')))"

datatype recorder = NoopRecorder | FileRecorder "FileDecisionRecorder option"

definition recorder_Record :: "DecisionEvent \<Rightarrow> recorder \<Rightarrow> recorder" where
  "recorder_Record ev rec =
     (case rec of NoopRecorder \<Rightarrow> NoopRecorder | FileRecorder r \<Rightarrow> FileRecorder (ptr_Record ev r))"

definition recorder_Close :: "(string \<times> string \<Rightarrow> bool) \<Rightarrow> recorder \<Rightarrow> recorder_error option \<times> recorder" where
  "recorder_Close writeOK rec =
     (case rec of NoopRecorder \<Rightarrow> (None, NoopRecorder)
      | FileRecorder r \<Rightarrow> (case ptr_Close writeOK r of (e, r') \<Rightarrow> (e, FileRecorder r')))"

definition WithFileDecisionRecorderFromEnv ::
    "string \<Rightarrow> string \<Rightarrow> string \<Rightarrow> string \<Rightarrow> string \<Rightarrow> vadConfig \<Rightarrow> FileDecisionRecorder option" where
  "WithFileDecisionRecorderFromEnv env dir streamSID callSID label cfg =
     (if \<not> EventLogEnabled env then None
      else NewFileDecisionRecorder dir streamSID callSID label cfg)"

section \<open>The recorder contract\<close>

datatype rec_op = RecordOp DecisionEvent | CloseOp

fun rec_run :: "(DecisionEvent \<Rightarrow> 'r \<Rightarrow> 'r) \<Rightarrow> ('r \<Rightarrow> 'e option \<times> 'r) \<Rightarrow> rec_op list \<Rightarrow> 'r \<Rightarrow> 'e option list \<times> 'r" where
  "rec_run record_op close_op [] r = ([], r)"
| "rec_run record_op close_op (RecordOp ev # ops) r = rec_run record_op close_op ops (record_op ev r)"
| "rec_run record_op close_op (CloseOp # ops) r =
     (case close_op r of (e, r') \<Rightarrow> (case rec_run record_op close_op ops r' of (es, r'') \<Rightarrow> (e # es, r'')))"

fun count_closes :: "rec_op list \<Rightarrow> nat" where
  "count_closes [] = 0"
| "count_closes (RecordOp ev # ops) = count_closes ops"
| "count_closes (CloseOp # ops) = Suc (count_closes ops)"

locale decision_recorder =
  fixes record_op :: "DecisionEvent \<Rightarrow> 'r \<Rightarrow> 'r"
    and close_op :: "'r \<Rightarrow> 'e option \<times> 'r"
  assumes close_close: "close_op (snd (close_op r)) = (None, snd (close_op r))"
    and record_close: "record_op ev (snd (close_op r)) = snd (close_op r)"
begin

lemma after_close:
  "rec_run record_op close_op ops (snd (close_op r)) = (replicate (count_closes ops) None, snd (close_op r))"
  by (induction ops rule: count_closes.induct) (simp_all add: close_close record_close)

end

lemma file_Close_closed [simp]: "rClosed (snd (file_Close w r))"
  by (auto simp: file_Close_def Let_def split: option.split)

interpretation frec: decision_recorder file_Record "file_Close w" for w
  by unfold_locales (simp_all add: file_Close_def [of w "snd _"] file_Record_def)

interpretation drec: decision_recorder recorder_Record "recorder_Close w" for w
proof unfold_locales
  show "recorder_Close w (snd (recorder_Close w r)) = (None, snd (recorder_Close w r))" for r
    using frec.close_close [of w]
    by (auto simp: recorder_Close_def ptr_Close_def case_prod_unfold split: recorder.split option.split)
  show "recorder_Record ev (snd (recorder_Close w r)) = snd (recorder_Close w r)" for ev r
    using frec.record_close [of ev w]
    by (auto simp: recorder_Close_def recorder_Record_def ptr_Record_def ptr_Close_def case_prod_unfold
        split: recorder.split option.split)
qed

section \<open>What a recording holds\<close>

fun number_from :: "int \<Rightarrow> DecisionEvent list \<Rightarrow> DecisionEvent list" where
  "number_from n [] = []"
| "number_from n (ev # evs) = ev\<lparr>Seq := n + 1\<rparr> # number_from (n + 1) evs"

lemma number_from_Seq: "map Seq (number_from n evs) = [n + 1..n + int (length evs)]"
proof (induction evs arbitrary: n)
  case (Cons ev evs)
  have "[n + 1..n + int (length (ev # evs))] = (n + 1) # [n + 1 + 1..n + 1 + int (length evs)]"
    using upto_rec1 [of "n + 1" "n + int (length (ev # evs))"] by (simp add: ac_simps)
  then show ?case using Cons.IH [of "n + 1"] by simp
qed simp

lemma length_number_from [simp]: "length (number_from n evs) = length evs"
  by (induction evs arbitrary: n) simp_all

lemma event_encodes_Seq [simp]: "event_encodes (ev\<lparr>Seq := k\<rparr>) = event_encodes ev"
  by (simp add: event_encodes_def)

lemma number_from_encodes:
  "list_all event_encodes (number_from n evs) = list_all event_encodes evs"
  by (induction evs arbitrary: n) simp_all

lemma find_encodes: "list_all event_encodes evs \<Longrightarrow> find (\<lambda>ev. \<not> event_encodes ev) evs = None"
  by (induction evs) simp_all

text \<open>The sequence number named by a marshalling error is the position of the first bad event.\<close>

lemma find_bad:
  "list_all event_encodes good \<Longrightarrow> \<not> event_encodes bad \<Longrightarrow>
   find (\<lambda>ev. \<not> event_encodes ev) (number_from n (good @ bad # rest)) = Some (bad\<lparr>Seq := n + 1 + int (length good)\<rparr>)"
  by (induction good arbitrary: n) simp_all

lemma fold_Record:
  "\<not> rClosed r \<Longrightarrow> fold file_Record evs r =
     r\<lparr>rSeq := rSeq r + int (length evs), rBuf := rBuf r @ number_from (rSeq r) evs,
       rLive := rLive r @ number_from (rSeq r) evs\<rparr>"
proof (induction evs arbitrary: r)
  case (Cons ev evs)
  then show ?case by (simp add: file_Record_def Let_def)
qed simp

lemma computeTotals_loop_counts:
  "computeTotals_loop t evs =
     t\<lparr>totUtterances := totUtterances t + int (length (filter (\<lambda>ev. Kind ev = DecisionKindEndOfUtter) evs)),
       totTurns := totTurns t + int (length (filter
         (\<lambda>ev. Kind ev \<in> {DecisionKindTurnEnd, DecisionKindTurnCap, DecisionKindUtteranceCap}) evs)),
       totSTTCalls := totSTTCalls t + int (length (filter (\<lambda>ev. Type ev = DecisionTypeSTTDispatch \<and>
         Kind ev \<notin> {DecisionKindEndOfUtter, DecisionKindTurnEnd, DecisionKindTurnCap, DecisionKindUtteranceCap}) evs))\<rparr>"
  by (induction evs arbitrary: t) (simp_all add: decision_labels)

lemma number_from_filter:
  "(\<And>ev k. P (ev\<lparr>Seq := k\<rparr>) = P ev) \<Longrightarrow> length (filter P (number_from n evs)) = length (filter P evs)"
  by (induction evs arbitrary: n) simp_all

lemma fresh_recorder:
  assumes "NewFileDecisionRecorder dir sid csid label cfg = Some r"
  shows "\<not> rClosed r" "rSeq r = 0" "rBuf r = []" "rLive r = []" "rFiles r = Map.empty"
    "rDir r = dir" "hdrStreamSID (rHeader r) = sid" "hdrVADConfig (rHeader r) = cfg"
  using assms by (auto simp: NewFileDecisionRecorder_def split: if_splits)

section \<open>Properties\<close>

text \<open>A recording is complete and in order.  After any sequence of events on a new recorder, a
  \<open>Close\<close> whose writes succeed leaves an events file with exactly these events, numbered 1, 2, 3
  and so on, echoed live as they came, and a header whose totals count the events, the closed
  utterances, the closed turns and the STT dispatches.\<close>

theorem recording_complete:
  assumes new: "NewFileDecisionRecorder dir sid csid label cfg = Some r"
    and enc: "list_all event_encodes evs" "SpeechThresh cfg \<noteq> F32NaN" "SilenceThresh cfg \<noteq> F32NaN"
    and wr: "w (dir, sid @ ''.events.header.json'')" "w (dir, sid @ ''.events.jsonl'')"
  shows "\<exists>r' h. file_Close w (fold file_Record evs r) = (None, r') \<and>
    rFiles r' (dir, sid @ ''.events.jsonl'') = Some (EventsFile (number_from 0 evs)) \<and>
    rFiles r' (dir, sid @ ''.events.header.json'') = Some (HeaderFile h) \<and>
    rLive r' = number_from 0 evs \<and> map Seq (number_from 0 evs) = [1..int (length evs)] \<and>
    hdrTotals h = \<lparr>totEvents = int (length evs),
      totUtterances = int (length (filter (\<lambda>ev. Kind ev = DecisionKindEndOfUtter) evs)),
      totTurns = int (length (filter (\<lambda>ev. Kind ev \<in> {DecisionKindTurnEnd, DecisionKindTurnCap, DecisionKindUtteranceCap}) evs)),
      totSTTCalls = int (length (filter (\<lambda>ev. Type ev = DecisionTypeSTTDispatch \<and>
        Kind ev \<notin> {DecisionKindEndOfUtter, DecisionKindTurnEnd, DecisionKindTurnCap, DecisionKindUtteranceCap}) evs))\<rparr>"
proof -
  note f = fresh_recorder [OF new]
  have fold: "fold file_Record evs r =
      r\<lparr>rSeq := int (length evs), rBuf := number_from 0 evs, rLive := number_from 0 evs\<rparr>"
    using fold_Record [OF f(1), of evs] by (simp add: f)
  have none: "find (\<lambda>ev. \<not> event_encodes ev) (number_from 0 evs) = None"
    using enc(1) by (simp add: find_encodes number_from_encodes)
  show ?thesis
    unfolding fold file_Close_def computeTotals_def computeTotals_loop_counts
    using wr enc(2,3) number_from_Seq [of 0 evs]
    by (simp add: f none Let_def header_encodes_def headerPath_def eventsPath_def number_from_filter)
qed

theorem recording_complete_witness:
  "\<exists>r r'. NewFileDecisionRecorder ''tap'' ''MZ1'' ''CA1'' '''' defaultVADConfig = Some r \<and>
    file_Close (\<lambda>p. True) (fold file_Record [zeroDecisionEvent, zeroDecisionEvent] r) = (None, r') \<and>
    map Seq (rLive r') = [1..2]"
proof -
  obtain r where r: "NewFileDecisionRecorder ''tap'' ''MZ1'' ''CA1'' '''' defaultVADConfig = Some r"
    by (simp add: NewFileDecisionRecorder_def)
  have "list_all event_encodes [zeroDecisionEvent, zeroDecisionEvent]"
    "SpeechThresh defaultVADConfig \<noteq> F32NaN" "SilenceThresh defaultVADConfig \<noteq> F32NaN"
    by (simp_all add: zeroDecisionEvent_def event_encodes_def defaultVADConfig_def)
  from recording_complete [OF r this, of "\<lambda>p. True"] r show ?thesis
    by force
qed

text \<open>One event that JSON cannot represent costs the whole event log.  If the first such event is
  the k-th, \<open>Close\<close> reports its sequence number, the header file is written and the events file is
  not, whatever the other events were.\<close>

theorem recording_bad_event:
  assumes new: "NewFileDecisionRecorder dir sid csid label cfg = Some r"
    and enc: "list_all event_encodes good" "\<not> event_encodes bad" "SpeechThresh cfg \<noteq> F32NaN" "SilenceThresh cfg \<noteq> F32NaN"
    and wr: "w (dir, sid @ ''.events.header.json'')"
  shows "\<exists>r'. file_Close w (fold file_Record (good @ bad # rest) r) = (Some (MarshalEvent (int (length good) + 1)), r') \<and>
    dom (rFiles r') = {(dir, sid @ ''.events.header.json'')}"
proof -
  note f = fresh_recorder [OF new]
  have fold: "fold file_Record (good @ bad # rest) r =
      r\<lparr>rSeq := int (length (good @ bad # rest)), rBuf := number_from 0 (good @ bad # rest),
        rLive := number_from 0 (good @ bad # rest)\<rparr>"
    using fold_Record [OF f(1), of "good @ bad # rest"] by (simp add: f)
  show ?thesis
    unfolding fold file_Close_def
    using wr enc find_bad [OF enc(1,2), of 0 rest]
    by (simp add: f Let_def header_encodes_def headerPath_def)
qed

theorem recording_bad_event_witness:
  "\<exists>r r'. NewFileDecisionRecorder ''tap'' ''MZ1'' ''CA1'' '''' defaultVADConfig = Some r \<and>
    file_Close (\<lambda>p. True) (fold file_Record ([zeroDecisionEvent] @ zeroDecisionEvent\<lparr>Prob := F32NaN\<rparr> # [zeroDecisionEvent]) r)
      = (Some (MarshalEvent 2), r')"
proof -
  obtain r where r: "NewFileDecisionRecorder ''tap'' ''MZ1'' ''CA1'' '''' defaultVADConfig = Some r"
    by (simp add: NewFileDecisionRecorder_def)
  have "list_all event_encodes [zeroDecisionEvent]" "\<not> event_encodes (zeroDecisionEvent\<lparr>Prob := F32NaN\<rparr>)"
    "SpeechThresh defaultVADConfig \<noteq> F32NaN" "SilenceThresh defaultVADConfig \<noteq> F32NaN"
    by (simp_all add: zeroDecisionEvent_def event_encodes_def defaultVADConfig_def)
  from recording_bad_event [OF r this, of "\<lambda>p. True" "[zeroDecisionEvent]"] r show ?thesis
    by auto
qed

text \<open>A closed recorder is inert.  Whatever is recorded or closed after a \<open>Close\<close>, on either
  recorder, every further \<open>Close\<close> reports no error and the recorder, its files and its live feed
  stay as the first \<open>Close\<close> left them.\<close>

theorem recorder_closed_inert:
  "rec_run recorder_Record (recorder_Close w) (CloseOp # ops) rec =
     (fst (recorder_Close w rec) # replicate (count_closes ops) None, snd (recorder_Close w rec))"
  by (simp add: drec.after_close case_prod_unfold)

end
