(* ===== verification/Wav.thy ===== *)
theory Wav
  imports MuLaw
begin

text \<open>
  WAV containers (\<open>telephony/wav.go\<close>, \<open>telephony/mulaw.go\<close>): the writer \<open>mulawToWAV\<close>, the
  RIFF chunk walk, the reader \<open>decodeWAVToPCM16\<close>, the resampler and \<open>EncodeMuLawFrames\<close>, which
  turns a WAV into 20 ms mu-law frames.  Errors are values of \<open>wav_error\<close>; the run-time panic of an
  integer division by zero is one of them, \<open>PanicDivideByZero\<close>.

  The resampler computes in \<open>float64\<close>; its rounding is the argument \<open>fl\<close>, applied after every
  operation.  Nothing proved here depends on it.
\<close>

section \<open>Little-endian fields\<close>

definition putUint16 :: "int \<Rightarrow> bytes" where
  "putUint16 n = [word_of_int n, word_of_int (n div 256)]"

definition putUint32 :: "int \<Rightarrow> bytes" where
  "putUint32 n = [word_of_int n, word_of_int (n div 256), word_of_int (n div 65536), word_of_int (n div 16777216)]"

definition slice :: "'a list \<Rightarrow> nat \<Rightarrow> nat \<Rightarrow> 'a list" where
  "slice xs i j = take (j - i) (drop i xs)"

fun leUint :: "bytes \<Rightarrow> int" where
  "leUint [] = 0"
| "leUint (b # bs) = uint b + 256 * leUint bs"

definition ascii :: "string \<Rightarrow> bytes" where
  "ascii s = map (\<lambda>c. word_of_nat (of_char c)) s"

section \<open>Writing\<close>

definition wavHeaderSize :: nat where
  "wavHeaderSize = 44"

definition mulawToWAV :: "bytes \<Rightarrow> int \<Rightarrow> bytes" where
  "mulawToWAV mulaw sampleRate =
     (let pcmLen = int (length mulaw) * 2 in
      ascii ''RIFF'' @ putUint32 (36 + pcmLen) @ ascii ''WAVE'' @
      ascii ''fmt '' @ putUint32 16 @ putUint16 1 @ putUint16 1 @ putUint32 sampleRate @
      putUint32 (sampleRate * 1 * 2) @ putUint16 2 @ putUint16 16 @
      ascii ''data'' @ putUint32 pcmLen @
      concat (map (\<lambda>b. putUint16 (uint (muLawToLinear b))) mulaw))"

section \<open>Reading\<close>

datatype wav_error = WavTooShort | InvalidWAV | FmtChunkError | Only16BitSupported
  | InvalidChannelCount | DataChunkNotFound | WavTruncated | PanicDivideByZero

text \<open>
  The chunk walk from offset \<open>i\<close>.  The visitor gets the chunk's id, the offset of its body and its
  size, and says whether to go on; its captured variables are the state \<open>st\<close>.
\<close>

function walkChunksFrom :: "bytes \<Rightarrow> (bytes \<Rightarrow> nat \<Rightarrow> nat \<Rightarrow> 's \<Rightarrow> bool \<times> 's) \<Rightarrow> nat \<Rightarrow> 's \<Rightarrow> 's" where
  "walkChunksFrom wav visit i st =
     (if i + 8 \<le> length wav then
        (let cid = slice wav i (i + 4);
             sz = nat (leUint (slice wav (i + 4) (i + 8)));
             body = i + 8
         in case visit cid body sz st of
              (False, st') \<Rightarrow> st'
            | (True, st') \<Rightarrow> walkChunksFrom wav visit (body + sz + sz mod 2) st')
      else st)"
  by pat_completeness auto
termination
  by (relation "measure (\<lambda>(wav, visit, i, st). length wav - i)") auto

declare walkChunksFrom.simps [simp del]

definition WalkWAVChunks :: "bytes \<Rightarrow> (bytes \<Rightarrow> nat \<Rightarrow> nat \<Rightarrow> 's \<Rightarrow> bool \<times> 's) \<Rightarrow> 's \<Rightarrow> 's" where
  "WalkWAVChunks wav visit st = walkChunksFrom wav visit 12 st"

definition visitData :: "bytes \<Rightarrow> nat \<Rightarrow> nat \<Rightarrow> (nat \<times> nat) option \<Rightarrow> bool \<times> (nat \<times> nat) option" where
  "visitData cid body sz st = (if cid = ascii ''data'' then (False, Some (body, sz)) else (True, st))"

text \<open>One PCM frame: the mean of its channels, truncated towards zero.\<close>

definition pcmFrame :: "bytes \<Rightarrow> nat \<Rightarrow> nat \<Rightarrow> 16 word" where
  "pcmFrame pcmData numChannels i =
     (let frameOffset = i * 2 * numChannels;
          sum = (\<Sum>c \<leftarrow> [0..<numChannels].
                   sint (word_of_int (leUint (slice pcmData (frameOffset + c * 2) (frameOffset + c * 2 + 2))) :: 16 word))
      in word_of_int (sum sdiv int numChannels))"

definition decodeWAVToPCM16 :: "bytes \<Rightarrow> wav_error + (16 word list \<times> int)" where
  "decodeWAVToPCM16 wav =
     (if length wav < 44 then Inl WavTooShort
      else if slice wav 0 4 \<noteq> ascii ''RIFF'' \<or> slice wav 8 12 \<noteq> ascii ''WAVE'' then Inl InvalidWAV
      else if slice wav 12 16 \<noteq> ascii ''fmt '' then Inl FmtChunkError
      else
        (let sampleRate = leUint (slice wav 24 28);
             bitsPerSample = leUint (slice wav 34 36);
             numChannels = nat (leUint (slice wav 22 24))
         in if bitsPerSample \<noteq> 16 then Inl Only16BitSupported
            else if numChannels < 1 then Inl InvalidChannelCount
            else case WalkWAVChunks wav visitData None of
                   None \<Rightarrow> Inl DataChunkNotFound
                 | Some (dataOffset, dataSize) \<Rightarrow>
                     (let pcmEnd = dataOffset + dataSize in
                      if pcmEnd > length wav then Inl WavTruncated
                      else
                        (let pcmData = slice wav dataOffset pcmEnd;
                             numFrames = dataSize div 2 div numChannels
                         in Inr (map (pcmFrame pcmData numChannels) [0..<numFrames], sampleRate)))))"

section \<open>Resampling and framing\<close>

definition resampleAt :: "(rat \<Rightarrow> rat) \<Rightarrow> 16 word list \<Rightarrow> int \<Rightarrow> nat \<Rightarrow> 16 word" where
  "resampleAt fl pcm rate i =
     (let srcIdx = fl (fl (of_nat i * of_int rate) / 8000);
          srcIdxInt = nat \<lfloor>srcIdx\<rfloor>;
          frac = fl (srcIdx - of_nat srcIdxInt)
      in if srcIdxInt + 1 < length pcm then
           (let s1 = of_int (sint (pcm ! srcIdxInt)); s2 = of_int (sint (pcm ! (srcIdxInt + 1)));
                v = fl (s1 + fl (fl (s2 - s1) * frac))
            in word_of_int (if v \<ge> 0 then \<lfloor>v\<rfloor> else \<lceil>v\<rceil>))
         else if srcIdxInt < length pcm then pcm ! srcIdxInt
         else 0)"

definition resampleToMono8kHz :: "(rat \<Rightarrow> rat) \<Rightarrow> 16 word list \<Rightarrow> int \<Rightarrow> wav_error + 16 word list" where
  "resampleToMono8kHz fl pcm rate =
     (if rate = 8000 then Inr pcm
      else if rate = 0 then Inl PanicDivideByZero
      else Inr (map (resampleAt fl pcm rate) [0..<nat ((int (length pcm) * 8000) sdiv rate)]))"

definition frameSize :: nat where
  "frameSize = nat ((SampleRateHz * MuLawFrameMS) sdiv 1000)"

definition padFrames :: "bytes \<Rightarrow> bytes list" where
  "padFrames mulaw =
     (let numFrames = (length mulaw + frameSize - 1) div frameSize;
          padded = mulaw @ replicate (numFrames * frameSize - length mulaw) MuLawSilence
      in if numFrames = 0 then []
         else map (\<lambda>i. slice padded (i * frameSize) ((i + 1) * frameSize)) [0..<numFrames])"

definition EncodeMuLawFrames :: "(rat \<Rightarrow> rat) \<Rightarrow> bytes \<Rightarrow> wav_error + bytes list" where
  "EncodeMuLawFrames fl wav =
     (case decodeWAVToPCM16 wav of
        Inl e \<Rightarrow> Inl e
      | Inr (pcm, sampleRate) \<Rightarrow>
          (case (if sampleRate \<noteq> 8000 then resampleToMono8kHz fl pcm sampleRate else Inr pcm) of
             Inl e \<Rightarrow> Inl e
           | Inr pcm' \<Rightarrow> Inr (padFrames (map LinearToMuLaw pcm'))))"


section \<open>Lemmas\<close>

lemma leUint_putUint32 [simp]: "leUint (putUint32 n) = n mod 2 ^ 32"
  using zmod_zmult2_eq [of 256 n 256] zmod_zmult2_eq [of 256 n 65536]
    zmod_zmult2_eq [of 256 n 16777216]
  by (simp add: putUint32_def unsigned_of_int take_bit_eq_mod)

lemma leUint_putUint16 [simp]: "leUint (putUint16 n) = n mod 2 ^ 16"
  using zmod_zmult2_eq [of 256 n 256] by (simp add: putUint16_def unsigned_of_int take_bit_eq_mod)

lemma length_put [simp]: "length (putUint16 n) = 2" "length (putUint32 n) = 4" "length (ascii s) = length s"
  by (simp_all add: putUint16_def putUint32_def ascii_def)

lemma length_mulawToWAV: "length (mulawToWAV m rate) = 44 + 2 * length m"
proof -
  have "length (concat (map (\<lambda>b. putUint16 (uint (muLawToLinear b))) m)) = 2 * length m"
    by (induction m) simp_all
  then show ?thesis
    by (simp add: mulawToWAV_def Let_def)
qed

text \<open>A field of a serialised record is read back where its predecessors end.\<close>

lemma slice_field: "length a = i \<Longrightarrow> j = i + length b \<Longrightarrow> slice (a @ b @ c) i j = b"
  by (simp add: slice_def)

lemma slice_uint16s:
  "i < length m \<Longrightarrow> slice (concat (map (\<lambda>b. putUint16 (f b)) m)) (i * 2) (i * 2 + 2) = putUint16 (f (m ! i))"
proof (induction m arbitrary: i)
  case (Cons b m)
  then show ?case
    by (cases i) (simp_all add: slice_def)
qed simp

lemma pcmFrame_mono:
  "i < length m \<Longrightarrow> pcmFrame (concat (map (\<lambda>b. putUint16 (uint (f b))) m)) 1 i = f (m ! i)"
  for f :: "'a \<Rightarrow> 16 word"
  using slice_uint16s [of i m "\<lambda>b. uint (f b)"] uint_lt2p [of "f (m ! i)"]
  by (simp add: pcmFrame_def Let_def)

lemma mulawToWAV_fields:
  fixes m rate
  defines "wav \<equiv> mulawToWAV m rate"
  shows "slice wav 0 4 = ascii ''RIFF''" "slice wav 8 12 = ascii ''WAVE''" "slice wav 12 16 = ascii ''fmt ''"
    "slice wav 16 20 = putUint32 16" "slice wav 22 24 = putUint16 1" "slice wav 24 28 = putUint32 rate"
    "slice wav 34 36 = putUint16 16" "slice wav 36 40 = ascii ''data''" "slice wav 40 44 = putUint32 (int (length m) * 2)"
    "slice wav 44 (44 + 2 * length m) = concat (map (\<lambda>b. putUint16 (uint (muLawToLinear b))) m)"
proof -
  have len: "length (concat (map (\<lambda>b. putUint16 (uint (muLawToLinear b))) m)) = 2 * length m"
    by (induction m) simp_all
  show "slice wav 0 4 = ascii ''RIFF''" "slice wav 8 12 = ascii ''WAVE''" "slice wav 12 16 = ascii ''fmt ''"
    "slice wav 16 20 = putUint32 16" "slice wav 22 24 = putUint16 1" "slice wav 24 28 = putUint32 rate"
    "slice wav 34 36 = putUint16 16" "slice wav 36 40 = ascii ''data''" "slice wav 40 44 = putUint32 (int (length m) * 2)"
    "slice wav 44 (44 + 2 * length m) = concat (map (\<lambda>b. putUint16 (uint (muLawToLinear b))) m)"
    using len by (simp_all add: wav_def mulawToWAV_def slice_def Let_def)
qed

lemma walk_mulawToWAV:
  assumes "2 * length m < 2 ^ 32"
  shows "WalkWAVChunks (mulawToWAV m rate) visitData None = Some (44, 2 * length m)"
proof -
  have ne: "ascii ''fmt '' \<noteq> ascii ''data''"
    by (simp add: ascii_def)
  have m: "int (length m) * 2 mod 4294967296 = int (length m) * 2"
    using assms by simp
  show ?thesis
    unfolding WalkWAVChunks_def
    apply (subst walkChunksFrom.simps)
    apply (simp add: length_mulawToWAV mulawToWAV_fields visitData_def ne Let_def)
    apply (subst walkChunksFrom.simps)
    apply (simp add: length_mulawToWAV mulawToWAV_fields visitData_def ne m Let_def)
    done
qed

lemma pcmFrames_mono:
  "map (pcmFrame (concat (map (\<lambda>b. putUint16 (uint (f b))) m)) 1) [0..<length m] = map f m"
  for f :: "'a \<Rightarrow> 16 word"
  by (rule nth_equalityI) (simp_all add: pcmFrame_mono [simplified])

lemma decode_mulawToWAV:
  assumes "2 * length m < 2 ^ 32" "0 \<le> rate" "rate < 2 ^ 32"
  shows "decodeWAVToPCM16 (mulawToWAV m rate) = Inr (map muLawToLinear m, rate)"
  using assms pcmFrames_mono [of muLawToLinear m]
  by (simp add: decodeWAVToPCM16_def length_mulawToWAV mulawToWAV_fields walk_mulawToWAV Let_def)

lemma slice_chunks:
  "0 < n \<Longrightarrow> length xs = k * n \<Longrightarrow> concat (map (\<lambda>i. slice xs (i * n) ((i + 1) * n)) [0..<k]) = xs"
proof (induction k arbitrary: xs)
  case (Suc k)
  have shift: "slice (drop n xs) (i * n) ((i + 1) * n) = slice xs (Suc i * n) ((Suc i + 1) * n)" for i
    by (simp add: slice_def add.commute)
  have "concat (map (\<lambda>i. slice xs (Suc i * n) ((Suc i + 1) * n)) [0..<k]) = drop n xs"
    using Suc.IH [of "drop n xs"] Suc.prems unfolding shift by simp
  moreover have "map (\<lambda>i. slice xs (i * n) ((i + 1) * n)) [0..<Suc k]
      = take n xs # map (\<lambda>i. slice xs (Suc i * n) ((Suc i + 1) * n)) [0..<k]"
    by (simp add: slice_def upt_conv_Cons map_Suc_upt [symmetric] del: upt_Suc)
  ultimately show ?case by simp
qed simp

lemma frameSize_eq [simp]: "frameSize = 160"
  by (simp add: frameSize_def audio_consts)

lemma padFrames_concat:
  "\<exists>k < 160. concat (padFrames mulaw) = mulaw @ replicate k MuLawSilence"
proof -
  define q where "q = (159 + length mulaw) div 160"
  have q: "length mulaw \<le> q * 160" "q * 160 < length mulaw + 160"
    using div_mult_mod_eq [of "159 + length mulaw" 160] mod_less_divisor [of 160 "159 + length mulaw"]
    unfolding q_def by linarith+
  then have "concat (padFrames mulaw) = mulaw @ replicate (q * 160 - length mulaw) MuLawSilence"
    using slice_chunks [of 160 "mulaw @ replicate (q * 160 - length mulaw) MuLawSilence" q]
    by (cases "q = 0") (simp_all add: padFrames_def Let_def q_def [symmetric])
  with q show ?thesis
    by (intro exI [of _ "q * 160 - length mulaw"]) simp
qed

lemma padFrames_size: "f \<in> set (padFrames mulaw) \<Longrightarrow> length f = 160"
proof -
  assume f: "f \<in> set (padFrames mulaw)"
  define q where "q = (159 + length mulaw) div 160"
  define padded where "padded = mulaw @ replicate (q * 160 - length mulaw) MuLawSilence"
  have "length mulaw \<le> q * 160"
    using div_mult_mod_eq [of "159 + length mulaw" 160] mod_less_divisor [of 160 "159 + length mulaw"]
    unfolding q_def by linarith
  then have len: "length padded = q * 160"
    by (simp add: padded_def)
  from f obtain i where "i < q" "f = slice padded (i * 160) ((i + 1) * 160)"
    by (auto simp: padFrames_def Let_def q_def padded_def split: if_splits)
  with len show ?thesis
    by (simp add: slice_def)
qed

definition unNegZero :: "byte \<Rightarrow> byte" where
  "unNegZero b = (if b = 0x7F then 0xFF else b)"

lemma mulaw_recode: "map (LinearToMuLaw \<circ> muLawToLinear) m = map unNegZero m"
  by (simp add: unNegZero_def mulaw_transcode)

lemma EncodeMuLawFrames_mulawToWAV:
  "2 * length m < 2 ^ 32 \<Longrightarrow> EncodeMuLawFrames fl (mulawToWAV m 8000) = Inr (padFrames (map unNegZero m))"
  by (simp add: EncodeMuLawFrames_def decode_mulawToWAV mulaw_recode)

text \<open>Encoding always answers for a header with a rate, and panics exactly on a readable file whose
  header says 0 Hz.\<close>

lemma EncodeMuLawFrames_panic_iff:
  "EncodeMuLawFrames fl wav = Inl PanicDivideByZero \<longleftrightarrow> (\<exists>pcm. decodeWAVToPCM16 wav = Inr (pcm, 0))"
proof (cases "decodeWAVToPCM16 wav")
  case (Inl e)
  then have "e \<noteq> PanicDivideByZero"
    by (auto simp: decodeWAVToPCM16_def Let_def split: if_splits option.splits prod.splits)
  with Inl show ?thesis
    by (simp add: EncodeMuLawFrames_def)
next
  case (Inr p)
  then show ?thesis
    by (cases p) (simp add: EncodeMuLawFrames_def resampleToMono8kHz_def)
qed

section \<open>Properties\<close>

text \<open>C21: the WAV the server writes is one it can read: decoding \<^const>\<open>mulawToWAV\<close> of a mu-law
  buffer gives back the decoded samples and the rate, for every buffer the 32-bit size fields can
  describe.\<close>

theorem wav_roundtrip:
  assumes "2 * length m < 2 ^ 32" "0 \<le> rate" "rate < 2 ^ 32"
  shows "decodeWAVToPCM16 (mulawToWAV m rate) = Inr (map muLawToLinear m, rate)"
  by (rule decode_mulawToWAV [OF assms])

theorem wav_roundtrip_witness:
  "decodeWAVToPCM16 (mulawToWAV [0x00, 0x80, 0x55] 16000) = Inr (map muLawToLinear [0x00, 0x80, 0x55], 16000)"
  by (rule wav_roundtrip) simp_all

text \<open>The encoder's frames.  Encoding an 8 kHz WAV written by the server gives frames of exactly
  160 bytes whose concatenation is the original mu-law audio, negative zeros normalised, followed
  by fewer than 160 bytes of mu-law silence.\<close>

theorem encode_frames:
  assumes "2 * length m < 2 ^ 32"
  shows "\<exists>frames k. EncodeMuLawFrames fl (mulawToWAV m 8000) = Inr frames \<and>
     set (map length frames) \<subseteq> {160} \<and> k < 160 \<and>
     concat frames = map unNegZero m @ replicate k MuLawSilence"
  using EncodeMuLawFrames_mulawToWAV [OF assms, of fl] padFrames_concat [of "map unNegZero m"]
    padFrames_size [of _ "map unNegZero m"]
  by auto

theorem encode_frames_witness:
  "\<exists>frames k. EncodeMuLawFrames id (mulawToWAV [0x7F, 0x80] 8000) = Inr frames \<and>
     set (map length frames) \<subseteq> {160} \<and> k < 160 \<and>
     concat frames = [0xFF, 0x80] @ replicate k MuLawSilence"
  using encode_frames [of "[0x7F, 0x80]" id] by (simp add: unNegZero_def)

text \<open>A WAV whose header declares a sample rate of 0 passes the decoder, and the resampler
  divides by that rate, so \<^const>\<open>EncodeMuLawFrames\<close> panics instead of returning the error its
  comment promises for a malformed file.  These are the only inputs that panic, and there are some:
  any short buffer written with rate 0.\<close>

theorem zero_rate_panics:
  "{wav. EncodeMuLawFrames fl wav = Inl PanicDivideByZero} = {wav. \<exists>pcm. decodeWAVToPCM16 wav = Inr (pcm, 0)} \<and>
   EncodeMuLawFrames fl (mulawToWAV [b] 0) = Inl PanicDivideByZero"
  using EncodeMuLawFrames_panic_iff decode_mulawToWAV [of "[b]" 0] by auto

end
