(* ===== verification/Stt.thy ===== *)
theory Stt
  imports Wav Vad "HOL-Library.Sublist"
begin

text \<open>
  Speech to text (\<open>telephony/stt.go\<close>): the request and result records, the whisper client with its
  chunking, and the \<open>sttService\<close> loop with its set of abandoned requests.

  The whisper sidecar is an external process.  It is an argument: a function from its own state and
  a posted form to a reply.  \<open>TransportFailed\<close> covers every error before a response arrives.
\<close>

section \<open>Data\<close>

definition sttSampleRate :: int where "sttSampleRate = 8000"

definition maxClipBytes :: int where "maxClipBytes = 30 * sttSampleRate"

definition FullPass :: string where "FullPass = ''full''"

record STTSegment =
  segText :: string
  segStart :: f32
  segEnd :: f32
  segAvgLogprob :: f32
  segNoSpeechProb :: f32

record STTRequest =
  reqSessionID :: string
  reqRequestID :: int
  reqKind :: string
  reqAudio :: bytes

record STTResult =
  resSessionID :: string
  resRequestID :: int
  resKind :: string
  resText :: string
  resLanguage :: string
  resDuration :: f32
  resSegments :: "STTSegment list"

definition zeroSTTResult :: STTResult where
  "zeroSTTResult = \<lparr>resSessionID = '''', resRequestID = 0, resKind = '''', resText = '''',
     resLanguage = '''', resDuration = F32 0, resSegments = []\<rparr>"

section \<open>The client\<close>

record sttForm =
  formFile :: bytes
  formFields :: "(string \<times> string) list"

record sttDecoded =
  decText :: string
  decLanguage :: string
  decDuration :: f32
  decRequestId :: string
  decSegments :: "STTSegment list"

datatype sidecar_reply = TransportFailed | BadStatus int | BadJSON | Decoded sttDecoded

datatype stt_error = SttTransport | SttStatus int | SttDecode | SttIDMismatch string string
  | SttChunk int stt_error

definition sttRequestForm :: "string \<Rightarrow> bytes \<Rightarrow> sttForm" where
  "sttRequestForm rid mulawBytes =
     \<lparr>formFile = mulawToWAV mulawBytes sttSampleRate,
      formFields = [(''model'', ''whisper-1''), (''response_format'', ''verbose_json'')] @
        (if rid \<noteq> '''' then [(''request_id'', rid)] else [])\<rparr>"

definition transcribeChunk :: "('h \<Rightarrow> sttForm \<Rightarrow> sidecar_reply \<times> 'h) \<Rightarrow> string \<Rightarrow> bytes \<Rightarrow> 'h \<Rightarrow> (stt_error + STTResult) \<times> 'h" where
  "transcribeChunk sidecar rid mulawBytes h =
     (case sidecar h (sttRequestForm rid mulawBytes) of
        (TransportFailed, h') \<Rightarrow> (Inl SttTransport, h')
      | (BadStatus c, h') \<Rightarrow> (Inl (SttStatus c), h')
      | (BadJSON, h') \<Rightarrow> (Inl SttDecode, h')
      | (Decoded d, h') \<Rightarrow>
          (if rid \<noteq> '''' \<and> decRequestId d \<noteq> rid then (Inl (SttIDMismatch rid (decRequestId d)), h')
           else (Inr (zeroSTTResult\<lparr>resText := decText d, resLanguage := decLanguage d,
                        resDuration := decDuration d, resSegments := decSegments d\<rparr>), h')))"

text \<open>
  The chunk loop from offset \<open>i\<close>.  \<open>combined\<close> is the first chunk's result and \<open>parts\<close> the texts so
  far.
\<close>

function transcribe_loop :: "('h \<Rightarrow> sttForm \<Rightarrow> sidecar_reply \<times> 'h) \<Rightarrow> string \<Rightarrow> bytes \<Rightarrow> int \<Rightarrow> STTResult \<Rightarrow> string list \<Rightarrow> 'h \<Rightarrow>
    (stt_error + STTResult) \<times> 'h" where
  "transcribe_loop sidecar rid mulawBytes i combined parts h =
     (if i < int (length mulawBytes) then
        (let e = min (i + maxClipBytes) (int (length mulawBytes)) in
         case transcribeChunk sidecar rid (slice mulawBytes (nat i) (nat e)) h of
           (Inl err, h') \<Rightarrow> (Inl (SttChunk (i sdiv sttSampleRate) err), h')
         | (Inr result, h') \<Rightarrow>
             transcribe_loop sidecar rid mulawBytes (i + maxClipBytes)
               (if i = 0 then result else combined) (parts @ [resText result]) h')
      else (Inr (combined\<lparr>resText := joinWith '' '' parts\<rparr>), h))"
  by pat_completeness auto
termination
  by (relation "measure (\<lambda>(sidecar, rid, m, i, combined, parts, h). nat (int (length m) - i))")
    (auto simp: maxClipBytes_def sttSampleRate_def)

declare transcribe_loop.simps [simp del]

definition Transcribe :: "('h \<Rightarrow> sttForm \<Rightarrow> sidecar_reply \<times> 'h) \<Rightarrow> string \<Rightarrow> bytes \<Rightarrow> 'h \<Rightarrow> (stt_error + STTResult) \<times> 'h" where
  "Transcribe sidecar rid mulawBytes h =
     (if length mulawBytes = 0 then (Inr zeroSTTResult, h)
      else if int (length mulawBytes) \<le> maxClipBytes then transcribeChunk sidecar rid mulawBytes h
      else transcribe_loop sidecar rid mulawBytes 0 zeroSTTResult [] h)"

section \<open>The service loop\<close>

type_synonym sttAbandon = "string \<times> int"

definition maxAbandoned :: nat where "maxAbandoned = 1024"

record sttRun =
  abandoned :: "sttAbandon set"
  abOrder :: "sttAbandon list"

definition newSTTRun :: sttRun where
  "newSTTRun = \<lparr>abandoned = {}, abOrder = []\<rparr>"

text \<open>One cancel taken from the cancel channel.\<close>

definition drainCancel :: "sttAbandon \<Rightarrow> sttRun \<Rightarrow> sttRun" where
  "drainCancel c st =
     (if c \<notin> abandoned st then
        (let st = st\<lparr>abandoned := insert c (abandoned st), abOrder := abOrder st @ [c]\<rparr> in
         if length (abOrder st) > maxAbandoned
         then st\<lparr>abandoned := abandoned st - {hd (abOrder st)}, abOrder := tl (abOrder st)\<rparr>
         else st)
      else st)"

definition reqKey :: "STTRequest \<Rightarrow> sttAbandon" where
  "reqKey req = (reqSessionID req, reqRequestID req)"

text \<open>The rest of one iteration, after a request was received.\<close>

definition serveRequest :: "('h \<Rightarrow> sttForm \<Rightarrow> sidecar_reply \<times> 'h) \<Rightarrow> STTRequest \<Rightarrow> sttRun \<Rightarrow> 'h \<Rightarrow> STTResult option \<times> sttRun \<times> 'h" where
  "serveRequest sidecar req st h =
     (if reqKey req \<in> abandoned st then (None, st\<lparr>abandoned := abandoned st - {reqKey req}\<rparr>, h)
      else case Transcribe sidecar (itoa (reqRequestID req)) (reqAudio req) h of
             (Inl err, h') \<Rightarrow> (None, st, h')
           | (Inr result, h') \<Rightarrow>
               (Some (result\<lparr>resSessionID := reqSessionID req, resRequestID := reqRequestID req,
                        resKind := reqKind req\<rparr>), st, h'))"

text \<open>
  A run of the loop: every iteration drains the cancels queued at its start and then serves one
  request.  The outputs are the results sent, in order.
\<close>

fun stt_run :: "('h \<Rightarrow> sttForm \<Rightarrow> sidecar_reply \<times> 'h) \<Rightarrow> (sttAbandon list \<times> STTRequest) list \<Rightarrow> sttRun \<Rightarrow> 'h \<Rightarrow>
    STTResult list \<times> sttRun \<times> 'h" where
  "stt_run sidecar [] st h = ([], st, h)"
| "stt_run sidecar ((cancels, req) # its) st h =
     (case serveRequest sidecar req (fold drainCancel cancels st) h of
        (out, st', h') \<Rightarrow>
          (case stt_run sidecar its st' h' of
             (outs, st'', h'') \<Rightarrow> ((case out of None \<Rightarrow> [] | Some r \<Rightarrow> [r]) @ outs, st'', h'')))"

section \<open>The abandoned set\<close>

definition abandon_inv :: "sttRun \<Rightarrow> bool" where
  "abandon_inv st \<longleftrightarrow> abandoned st \<subseteq> set (abOrder st) \<and> length (abOrder st) \<le> maxAbandoned"

lemma abandon_inv_new: "abandon_inv newSTTRun"
  by (simp add: abandon_inv_def newSTTRun_def)

lemma abandon_inv_drain: "abandon_inv st \<Longrightarrow> abandon_inv (drainCancel c st)"
  by (cases "abOrder st") (auto simp: abandon_inv_def drainCancel_def Let_def maxAbandoned_def)

lemma abandon_inv_drains: "abandon_inv st \<Longrightarrow> abandon_inv (fold drainCancel cs st)"
  by (induction cs arbitrary: st) (simp_all add: abandon_inv_drain)

lemma serveRequest_state:
  "fst (snd (serveRequest sidecar req st h)) =
     (if reqKey req \<in> abandoned st then st\<lparr>abandoned := abandoned st - {reqKey req}\<rparr> else st)"
  by (auto simp: serveRequest_def split: prod.split sum.split)

lemma abandon_inv_run: "abandon_inv st \<Longrightarrow> abandon_inv (fst (snd (stt_run sidecar its st h)))"
proof (induction its arbitrary: st h)
  case (Cons it its)
  obtain cancels req where it: "it = (cancels, req)" by force
  have "abandon_inv (fst (snd (serveRequest sidecar req (fold drainCancel cancels st) h)))"
    using abandon_inv_drains [OF Cons.prems] by (auto simp: serveRequest_state abandon_inv_def)
  from Cons.IH [OF this] show ?case by (simp add: it case_prod_unfold)
qed simp

lemma drain_order:
  "length (abOrder st) + length cs \<le> maxAbandoned \<Longrightarrow>
     abandoned (fold drainCancel cs st) = abandoned st \<union> set cs \<and>
     length (abOrder (fold drainCancel cs st)) \<le> length (abOrder st) + length cs"
proof (induction cs arbitrary: st)
  case (Cons c cs)
  have "length (abOrder (drainCancel c st)) \<le> length (abOrder st) + 1"
    "abandoned (drainCancel c st) = insert c (abandoned st)"
    using Cons.prems by (auto simp: drainCancel_def Let_def)
  moreover from this Cons.prems Cons.IH [of "drainCancel c st"]
  have "abandoned (fold drainCancel cs (drainCancel c st)) = abandoned (drainCancel c st) \<union> set cs \<and>
     length (abOrder (fold drainCancel cs (drainCancel c st))) \<le> length (abOrder (drainCancel c st)) + length cs"
    by simp
  ultimately show ?case by auto
qed simp

lemma serveRequest_out:
  "fst (serveRequest sidecar req st h) = Some r \<Longrightarrow>
     reqKey req \<notin> abandoned st \<and> resSessionID r = reqSessionID req \<and>
     resRequestID r = reqRequestID req \<and> resKind r = reqKind req"
  by (auto simp: serveRequest_def split: if_splits prod.splits sum.splits)

definition res_ident :: "STTResult \<Rightarrow> string \<times> int \<times> string" where
  "res_ident r = (resSessionID r, resRequestID r, resKind r)"

definition req_ident :: "STTRequest \<Rightarrow> string \<times> int \<times> string" where
  "req_ident q = (reqSessionID q, reqRequestID q, reqKind q)"

lemma stt_run_subseq:
  "subseq (map res_ident (fst (stt_run sidecar its st h))) (map (req_ident \<circ> snd) its)"
proof (induction its arbitrary: st h)
  case (Cons it its)
  obtain cancels req where it: "it = (cancels, req)" by force
  show ?case
  proof (cases "fst (serveRequest sidecar req (fold drainCancel cancels st) h)")
    case None
    with Cons.IH show ?thesis by (simp add: it case_prod_unfold list_emb_Cons)
  next
    case (Some r)
    with serveRequest_out [OF Some] Cons.IH show ?thesis
      by (simp add: it case_prod_unfold res_ident_def req_ident_def)
  qed
qed simp

section \<open>Chunking\<close>

lemma transcribe_loop_ok:
  assumes reply: "\<And>h f. sidecar h f = (Decoded (dec f), h @ [f])"
    and ident: "\<And>c. rid \<noteq> '''' \<Longrightarrow> decRequestId (dec (sttRequestForm rid c)) = rid"
    and i: "0 \<le> i" "i mod maxClipBytes = 0"
  shows "\<exists>res. transcribe_loop sidecar rid m i combined parts h =
     (Inr res, h @ map (sttRequestForm rid) (chunks (nat maxClipBytes) (drop (nat i) m))) \<and>
     resText res = joinWith '' '' (parts @ map (\<lambda>c. decText (dec (sttRequestForm rid c)))
       (chunks (nat maxClipBytes) (drop (nat i) m)))"
  using i
proof (induction "nat (int (length m) - i)" arbitrary: i combined parts h rule: less_induct)
  case less
  have pos: "0 < maxClipBytes" by (simp add: maxClipBytes_def sttSampleRate_def)
  show ?case
  proof (cases "i < int (length m)")
    case False
    with less.prems show ?thesis by (simp add: transcribe_loop.simps)
  next
    case True
    let ?c = "take (nat maxClipBytes) (drop (nat i) m)"
    have sl: "slice m (nat i) (nat (min (i + maxClipBytes) (int (length m)))) = ?c"
      using True less.prems pos by (auto simp: slice_def min_def nat_add_distrib nat_diff_distrib)
    have ch: "chunks (nat maxClipBytes) (drop (nat i) m) =
        ?c # chunks (nat maxClipBytes) (drop (nat (i + maxClipBytes)) m)"
      using True less.prems pos
      by (subst chunks.simps) (auto simp: nat_add_distrib add.commute)
    have tc: "\<exists>r. transcribeChunk sidecar rid ?c h = (Inr r, h @ [sttRequestForm rid ?c]) \<and>
        resText r = decText (dec (sttRequestForm rid ?c))"
      using ident by (auto simp: transcribeChunk_def reply)
    then obtain r where r: "transcribeChunk sidecar rid ?c h = (Inr r, h @ [sttRequestForm rid ?c])"
      "resText r = decText (dec (sttRequestForm rid ?c))" by blast
    have "nat (int (length m) - (i + maxClipBytes)) < nat (int (length m) - i)"
      using True pos by simp
    from less.hyps [OF this, of "if i = 0 then r else combined" "parts @ [resText r]" "h @ [sttRequestForm rid ?c]"]
      less.prems pos
    show ?thesis
      using True by (simp add: transcribe_loop.simps [of sidecar rid m i] sl r ch Let_def)
  qed
qed

lemma stt_run_append:
  "stt_run sidecar (its @ its') st h =
     (case stt_run sidecar its st h of (outs, st', h') \<Rightarrow>
        (case stt_run sidecar its' st' h' of (outs', st'', h'') \<Rightarrow> (outs @ outs', st'', h'')))"
  by (induction its arbitrary: st h) (auto simp: case_prod_unfold)

lemma order_bound:
  "length (abOrder st) + length (concat (map fst its)) \<le> maxAbandoned \<Longrightarrow>
   length (abOrder (fst (snd (stt_run sidecar its st h)))) \<le> length (abOrder st) + length (concat (map fst its))"
proof (induction its arbitrary: st h)
  case (Cons it its)
  obtain cancels req where it: "it = (cancels, req)" by force
  let ?d = "fold drainCancel cancels st"
  define st' where "st' = fst (snd (serveRequest sidecar req ?d h))"
  have d: "length (abOrder ?d) \<le> length (abOrder st) + length cancels"
    using drain_order [of st cancels] Cons.prems(1) by (simp add: it)
  have s: "abOrder st' = abOrder ?d" by (simp add: st'_def serveRequest_state)
  have "length (abOrder st') + length (concat (map fst its)) \<le> maxAbandoned"
    using d s Cons.prems by (simp add: it)
  from Cons.IH [OF this, of "snd (snd (serveRequest sidecar req ?d h))"] d s show ?case
    by (simp add: it case_prod_unfold st'_def)
qed simp

text \<open>A cancel stays in force until its request is served, as long as the cap is not exceeded.\<close>

lemma abandoned_kept:
  assumes "length (abOrder st) + length (concat (map fst its)) \<le> maxAbandoned"
    and "k \<in> abandoned st \<or> k \<in> set (concat (map fst its))" "k \<notin> set (map (reqKey \<circ> snd) its)"
  shows "k \<in> abandoned (fst (snd (stt_run sidecar its st h)))"
  using assms
proof (induction its arbitrary: st h)
  case (Cons it its)
  obtain cancels req where it: "it = (cancels, req)" by force
  let ?d = "fold drainCancel cancels st"
  define st' where "st' = fst (snd (serveRequest sidecar req ?d h))"
  have d: "abandoned ?d = abandoned st \<union> set cancels" "length (abOrder ?d) \<le> length (abOrder st) + length cancels"
    using drain_order [of st cancels] Cons.prems(1) by (simp_all add: it)
  have s: "abandoned st' \<supseteq> abandoned ?d - {reqKey req}" "abOrder st' = abOrder ?d"
    by (auto simp: st'_def serveRequest_state)
  have "length (abOrder st') + length (concat (map fst its)) \<le> maxAbandoned"
    using d(2) s(2) Cons.prems(1) by (simp add: it)
  moreover have "k \<in> abandoned st' \<or> k \<in> set (concat (map fst its))"
    using Cons.prems(2,3) d(1) s(1) by (auto simp: it)
  moreover have "k \<notin> set (map (reqKey \<circ> snd) its)" using Cons.prems(3) by simp
  ultimately show ?case
    using Cons.IH [of st' "snd (snd (serveRequest sidecar req ?d h))"] d(2) s(2)
    by (simp add: it case_prod_unfold st'_def)
qed simp

section \<open>Properties\<close>

text \<open>Transcription covers the clip exactly.  With a sidecar that answers every form, echoing the
  request id, \<^const>\<open>Transcribe\<close> posts the clip as consecutive pieces that concatenate to it and
  last at most 30 seconds each, none for an empty clip, and returns their texts in order joined by
  single spaces.\<close>

theorem transcribe_covers_clip:
  assumes reply: "\<And>h f. sidecar h f = (Decoded (dec f), h @ [f])"
    and ident: "\<And>c. rid \<noteq> '''' \<Longrightarrow> decRequestId (dec (sttRequestForm rid c)) = rid"
  shows "\<exists>pieces res. Transcribe sidecar rid m h = (Inr res, h @ map (sttRequestForm rid) pieces) \<and>
    concat pieces = m \<and> set (map length pieces) \<subseteq> {0<..240000} \<and>
    resText res = joinWith '' '' (map (\<lambda>c. decText (dec (sttRequestForm rid c))) pieces)"
proof -
  have max: "nat maxClipBytes = 240000" by (simp add: maxClipBytes_def sttSampleRate_def)
  have sizes: "set (map length (chunks 240000 m)) \<subseteq> {0<..240000}"
    using chunks_bound [of _ 240000 m] by auto
  consider "m = []" | "m \<noteq> []" "int (length m) \<le> maxClipBytes" | "int (length m) > maxClipBytes" by force
  then have "\<exists>res. Transcribe sidecar rid m h = (Inr res, h @ map (sttRequestForm rid) (chunks 240000 m)) \<and>
    resText res = joinWith '' '' (map (\<lambda>c. decText (dec (sttRequestForm rid c))) (chunks 240000 m))"
  proof cases
    case 1
    then show ?thesis by (simp add: Transcribe_def zeroSTTResult_def)
  next
    case 2
    then have "chunks 240000 m = [m]" using max by (simp add: chunks.simps [of 240000 m])
    with 2 ident show ?thesis by (auto simp: Transcribe_def transcribeChunk_def reply)
  next
    case 3
    then have "length m \<noteq> 0" by (auto simp: maxClipBytes_def sttSampleRate_def)
    with 3 transcribe_loop_ok [of sidecar dec rid 0 m zeroSTTResult "[]" h] reply ident max show ?thesis
      by (simp add: Transcribe_def)
  qed
  with sizes concat_chunks [of 240000 m] show ?thesis by auto
qed

theorem transcribe_covers_clip_witness:
  "\<exists>pieces res. Transcribe (\<lambda>h f. (Decoded \<lparr>decText = ''hi'', decLanguage = ''en'', decDuration = F32 1,
        decRequestId = ''7'', decSegments = []\<rparr>, h @ [f])) ''7'' [0xFF, 0x00] [] = (Inr res, map (sttRequestForm ''7'') pieces) \<and>
     concat pieces = [0xFF, 0x00]"
  using transcribe_covers_clip [of "\<lambda>h f. (Decoded \<lparr>decText = ''hi'', decLanguage = ''en'', decDuration = F32 1,
        decRequestId = ''7'', decSegments = []\<rparr>, h @ [f])" "\<lambda>f. \<lparr>decText = ''hi'', decLanguage = ''en'', decDuration = F32 1,
        decRequestId = ''7'', decSegments = []\<rparr>" "''7''" "[0xFF, 0x00]" "[]"]
  by auto

text \<open>A result can only carry the identity of the request it answers.  The identities of the
  results sent are a subsequence of the identities of the requests received, in the order received:
  nothing is invented, reordered or sent twice, whatever the sidecar answers.\<close>

theorem stt_results_correlated:
  "subseq (map res_ident (fst (stt_run sidecar its st h))) (map (req_ident \<circ> snd) its)"
  by (rule stt_run_subseq)

text \<open>An abandoned request is not transcribed.  When at most 1024 cancels have been drained and one
  of them names a request that has not been served yet, its turn produces no result and the sidecar
  is not called.\<close>

theorem abandoned_not_transcribed:
  assumes few: "length (concat (map fst (its @ [(cs, req)]))) \<le> maxAbandoned"
    and named: "reqKey req \<in> set (concat (map fst (its @ [(cs, req)])))"
    and first: "reqKey req \<notin> set (map (reqKey \<circ> snd) its)"
  shows "fst (stt_run sidecar (its @ [(cs, req)]) newSTTRun h) = fst (stt_run sidecar its newSTTRun h) \<and>
    snd (snd (stt_run sidecar (its @ [(cs, req)]) newSTTRun h)) = snd (snd (stt_run sidecar its newSTTRun h))"
proof -
  let ?st = "fst (snd (stt_run sidecar its newSTTRun h))"
  have len: "length (abOrder ?st) \<le> length (concat (map fst its))" "reqKey req \<in> abandoned ?st \<or> reqKey req \<in> set cs"
  proof -
    have emp: "abOrder newSTTRun = []" by (simp add: newSTTRun_def)
    show "length (abOrder ?st) \<le> length (concat (map fst its))"
      using order_bound [of newSTTRun its sidecar h] few emp by simp
    show "reqKey req \<in> abandoned ?st \<or> reqKey req \<in> set cs"
      using abandoned_kept [of newSTTRun its "reqKey req" sidecar h] few named first emp by auto
  qed
  then have "reqKey req \<in> abandoned (fold drainCancel cs ?st)"
    using drain_order [of ?st cs] few by auto
  then show ?thesis by (simp add: stt_run_append case_prod_unfold serveRequest_def)
qed

theorem abandoned_not_transcribed_witness:
  "fst (stt_run (\<lambda>h f. (BadJSON, f # h)) ([] @ [([(''CA1'', 1)], \<lparr>reqSessionID = ''CA1'', reqRequestID = 1,
       reqKind = FullPass, reqAudio = [0xFF]\<rparr>)]) newSTTRun []) = fst (stt_run (\<lambda>h f. (BadJSON, f # h)) [] newSTTRun []) \<and>
   snd (snd (stt_run (\<lambda>h f. (BadJSON, f # h)) ([] @ [([(''CA1'', 1)], \<lparr>reqSessionID = ''CA1'', reqRequestID = 1,
       reqKind = FullPass, reqAudio = [0xFF]\<rparr>)]) newSTTRun [])) = snd (snd (stt_run (\<lambda>h f. (BadJSON, f # h)) [] newSTTRun []))"
  by (rule abandoned_not_transcribed) (simp_all add: maxAbandoned_def reqKey_def)

text \<open>The abandoned set is bounded.  Whatever is cancelled and requested, the loop never remembers
  more than 1024 abandoned requests.\<close>

theorem abandoned_bounded:
  "card (abandoned (fst (snd (stt_run sidecar its newSTTRun h)))) \<le> 1024"
proof -
  let ?st = "fst (snd (stt_run sidecar its newSTTRun h))"
  have inv: "abandon_inv ?st" by (rule abandon_inv_run [OF abandon_inv_new])
  then have "card (abandoned ?st) \<le> card (set (abOrder ?st))"
    by (intro card_mono) (simp_all add: abandon_inv_def)
  also have "\<dots> \<le> length (abOrder ?st)" by (rule card_length)
  finally show ?thesis using inv by (simp add: abandon_inv_def maxAbandoned_def)
qed

end
