(* ===== verification/Routers.thy ===== *)
theory Routers
  imports Stt Service
begin

text \<open>
  The per-session fan-out of results and replies (\<open>telephony/sttrouter.go\<close>,
  \<open>telephony/reply_router.go\<close>).  Channels and sinks are Go pointers; a pointer is its index in the
  list of the objects allocated so far, so that pointer identity is equality of indices.

  The \<open>route_table\<close> locale is the registration contract both routers share: a route is removed only
  by its own handle.  \<open>STTRouter.Deregister\<close> and \<open>ReplySink.Close\<close> provide it;
  \<open>ReplyRouter.Deregister\<close>, which removes by key alone, does not.
\<close>

section \<open>The STT router\<close>

definition sttRouteDepth :: nat where "sttRouteDepth = 16"

record STTRouter =
  routes :: "string \<rightharpoonup> nat"
  routeChans :: "STTResult bufferedChan list"

definition NewSTTRouter :: STTRouter where
  "NewSTTRouter = \<lparr>routes = Map.empty, routeChans = []\<rparr>"

definition STTRouter_Register :: "string \<Rightarrow> STTRouter \<Rightarrow> nat \<times> STTRouter" where
  "STTRouter_Register sessionID r =
     (let route = length (routeChans r) in
      (route, r\<lparr>routeChans := routeChans r @ [newBufferedChan sttRouteDepth],
                routes := (routes r)(sessionID \<mapsto> route)\<rparr>))"

definition STTRouter_Deregister :: "string \<Rightarrow> nat \<Rightarrow> STTRouter \<Rightarrow> STTRouter" where
  "STTRouter_Deregister sessionID route r =
     (case routes r sessionID of
        Some cur \<Rightarrow> (if cur = route then r\<lparr>routes := (routes r)(sessionID := None)\<rparr> else r)
      | None \<Rightarrow> r)"

text \<open>One turn of \<open>Run\<close>: the result is sent to its session's route, or dropped when there is no route
  or no room.\<close>

definition STTRouter_deliver :: "STTResult \<Rightarrow> STTRouter \<Rightarrow> STTRouter" where
  "STTRouter_deliver res r =
     (case routes r (resSessionID res) of
        None \<Rightarrow> r
      | Some route \<Rightarrow>
          (case trySend (routeChans r ! route) res of
             None \<Rightarrow> r
           | Some ch \<Rightarrow> r\<lparr>routeChans := (routeChans r)[route := ch]\<rparr>))"

text \<open>A session taking a result from the route it holds.\<close>

definition STTRouter_receive :: "nat \<Rightarrow> STTRouter \<Rightarrow> STTRouter" where
  "STTRouter_receive route r =
     (if route < length (routeChans r) then
        (case tryRecv (routeChans r ! route) of
           None \<Rightarrow> r
         | Some (res, ch) \<Rightarrow> r\<lparr>routeChans := (routeChans r)[route := ch]\<rparr>)
      else r)"

datatype stt_router_op = RegisterOp string | DeregisterOp string nat | DeliverOp STTResult | ReceiveOp nat

fun stt_router_do :: "stt_router_op \<Rightarrow> STTRouter \<Rightarrow> STTRouter" where
  "stt_router_do (RegisterOp sid) r = snd (STTRouter_Register sid r)"
| "stt_router_do (DeregisterOp sid route) r = STTRouter_Deregister sid route r"
| "stt_router_do (DeliverOp res) r = STTRouter_deliver res r"
| "stt_router_do (ReceiveOp route) r = STTRouter_receive route r"

section \<open>The reply router\<close>

record ResponseEvent =
  respOK :: bool
  respFrames :: "bytes list"

record ReplySink =
  sinkResponseIn :: nat
  sinkSessionID :: string

record ReplyRouter =
  sinks :: "string \<rightharpoonup> nat"
  sinkObjs :: "ReplySink list"

definition NewReplyRouter :: ReplyRouter where
  "NewReplyRouter = \<lparr>sinks = Map.empty, sinkObjs = []\<rparr>"

definition ReplyRouter_Register :: "string \<Rightarrow> nat \<Rightarrow> ReplyRouter \<Rightarrow> nat \<times> ReplyRouter" where
  "ReplyRouter_Register sessionID responseIn r =
     (let sink = length (sinkObjs r) in
      (sink, r\<lparr>sinkObjs := sinkObjs r @ [\<lparr>sinkResponseIn = responseIn, sinkSessionID = sessionID\<rparr>],
               sinks := (sinks r)(sessionID \<mapsto> sink)\<rparr>))"

definition ReplyRouter_Deregister :: "string \<Rightarrow> ReplyRouter \<Rightarrow> ReplyRouter" where
  "ReplyRouter_Deregister sessionID r = r\<lparr>sinks := (sinks r)(sessionID := None)\<rparr>"

text \<open>\<open>Close\<close> on a sink; a handle that was never issued stands for a nil sink.\<close>

definition ReplySink_Close :: "nat \<Rightarrow> ReplyRouter \<Rightarrow> ReplyRouter" where
  "ReplySink_Close s r =
     (if s < length (sinkObjs r) then
        (let sid = sinkSessionID (sinkObjs r ! s) in
         case sinks r sid of
           Some cur \<Rightarrow> (if cur = s then r\<lparr>sinks := (sinks r)(sid := None)\<rparr> else r)
         | None \<Rightarrow> r)
      else r)"

datatype reply_error = ErrUnknownSession | ReplySendFailed chan_error

text \<open>
  Sending one response event to a session.  \<open>ins\<close> holds the response channels; the outcome is that
  of \<open>Send\<close> under the caller's context, a relation because \<open>Send\<close> may wait.
\<close>

inductive reply_send :: "bool \<Rightarrow> string \<Rightarrow> ResponseEvent \<Rightarrow> ReplyRouter \<Rightarrow> ResponseEvent bufferedChan list \<Rightarrow>
    reply_error option \<Rightarrow> ResponseEvent bufferedChan list \<Rightarrow> bool" where
  unknown: "sinks r sid = None \<Longrightarrow> reply_send ctx_done sid ev r ins (Some ErrUnknownSession) ins"
| delivered: "sinks r sid = Some s \<Longrightarrow> chan_Send ctx_done (ins ! sinkResponseIn (sinkObjs r ! s)) ev (Inr ch) \<Longrightarrow>
    reply_send ctx_done sid ev r ins None (ins[sinkResponseIn (sinkObjs r ! s) := ch])"
| failed: "sinks r sid = Some s \<Longrightarrow> chan_Send ctx_done (ins ! sinkResponseIn (sinkObjs r ! s)) ev (Inl e) \<Longrightarrow>
    reply_send ctx_done sid ev r ins (Some (ReplySendFailed e)) ins"

definition ReplyRouter_Route :: "bool \<Rightarrow> string \<Rightarrow> bytes list \<Rightarrow> ReplyRouter \<Rightarrow> ResponseEvent bufferedChan list \<Rightarrow>
    reply_error option \<Rightarrow> ResponseEvent bufferedChan list \<Rightarrow> bool" where
  "ReplyRouter_Route ctx_done sid frames = reply_send ctx_done sid \<lparr>respOK = True, respFrames = frames\<rparr>"

definition ReplyRouter_Fail :: "bool \<Rightarrow> string \<Rightarrow> ReplyRouter \<Rightarrow> ResponseEvent bufferedChan list \<Rightarrow>
    reply_error option \<Rightarrow> ResponseEvent bufferedChan list \<Rightarrow> bool" where
  "ReplyRouter_Fail ctx_done sid = reply_send ctx_done sid \<lparr>respOK = False, respFrames = []\<rparr>"

section \<open>The registration contract\<close>

text \<open>\<open>owns t h s\<close>: handle \<open>h\<close> was issued for session \<open>s\<close>, so its holder may remove its route.\<close>

locale route_table =
  fixes reg :: "string \<Rightarrow> 't \<Rightarrow> 'h \<times> 't"
    and dereg :: "string \<Rightarrow> 'h \<Rightarrow> 't \<Rightarrow> 't"
    and look :: "'t \<Rightarrow> string \<rightharpoonup> 'h"
    and owns :: "'t \<Rightarrow> 'h \<Rightarrow> string \<Rightarrow> bool"
    and invar :: "'t \<Rightarrow> bool"
  assumes look_reg: "look (snd (reg s t)) = (look t)(s \<mapsto> fst (reg s t))"
    and look_dereg: "owns t h s \<Longrightarrow>
      look (dereg s h t) = (if look t s = Some h then (look t)(s := None) else look t)"
    and reg_fresh: "invar t \<Longrightarrow> look t s = Some h \<Longrightarrow> fst (reg s' t) \<noteq> h"
    and reg_owns: "owns (snd (reg s t)) (fst (reg s t)) s"
    and owns_mono: "owns t h s \<Longrightarrow> owns (snd (reg s' t)) h s"
    and invar_reg: "invar t \<Longrightarrow> invar (snd (reg s t))"
    and invar_dereg: "invar t \<Longrightarrow> invar (dereg s h t)"
begin

lemma dereg_other:
  "look t s = Some h \<Longrightarrow> owns t h' s' \<Longrightarrow> (s', h') \<noteq> (s, h) \<Longrightarrow> look (dereg s' h' t) s = Some h"
  by (auto simp: look_dereg)

lemma reg_other: "look t s = Some h \<Longrightarrow> s' \<noteq> s \<Longrightarrow> look (snd (reg s' t)) s = Some h"
  by (simp add: look_reg)

text \<open>Two calls under one session id: when the first ends, the second keeps its route.\<close>

lemma duplicate_survives:
  fixes s t
  assumes "invar t"
  defines "t1 \<equiv> snd (reg s t)" and "h1 \<equiv> fst (reg s t)"
  defines "t2 \<equiv> snd (reg s t1)" and "h2 \<equiv> fst (reg s t1)"
  shows "look (dereg s h1 t2) s = Some h2"
proof -
  have "look t1 s = Some h1" "invar t1" unfolding t1_def h1_def using assms(1) by (simp_all add: look_reg invar_reg)
  then have "h2 \<noteq> h1" using reg_fresh [of t1 s h1 s] unfolding h2_def by simp
  moreover have "owns t2 h1 s" unfolding t2_def t1_def h1_def by (intro owns_mono reg_owns)
  moreover have "look t2 s = Some h2" unfolding t2_def h2_def by (simp add: look_reg)
  ultimately show ?thesis by (simp add: look_dereg)
qed

end

definition stt_routes_ok :: "STTRouter \<Rightarrow> bool" where
  "stt_routes_ok r \<longleftrightarrow> ran (routes r) \<subseteq> {..<length (routeChans r)}"

definition reply_sinks_ok :: "ReplyRouter \<Rightarrow> bool" where
  "reply_sinks_ok r \<longleftrightarrow> ran (sinks r) \<subseteq> {..<length (sinkObjs r)}"

definition sink_owner :: "ReplyRouter \<Rightarrow> nat \<Rightarrow> string \<Rightarrow> bool" where
  "sink_owner r h s \<longleftrightarrow> h < length (sinkObjs r) \<and> sinkSessionID (sinkObjs r ! h) = s"

interpretation sttr: route_table STTRouter_Register STTRouter_Deregister routes "\<lambda>r h s. True" stt_routes_ok
  by unfold_locales
    (auto simp: STTRouter_Register_def STTRouter_Deregister_def stt_routes_ok_def Let_def ran_def less_Suc_eq
      split: option.splits if_splits)

interpretation replyr: route_table "\<lambda>s. ReplyRouter_Register s c" "\<lambda>s h. ReplySink_Close h" sinks sink_owner reply_sinks_ok
  for c
  by unfold_locales
    (auto simp: ReplyRouter_Register_def ReplySink_Close_def reply_sinks_ok_def sink_owner_def Let_def ran_def
      less_Suc_eq nth_append split: option.splits if_splits)

section \<open>Isolation of sessions\<close>

definition registered :: "stt_router_op list \<Rightarrow> string list" where
  "registered ops = concat (map (\<lambda>op. case op of RegisterOp sid \<Rightarrow> [sid] | _ \<Rightarrow> []) ops)"

definition only_for :: "string \<Rightarrow> STTResult bufferedChan \<Rightarrow> bool" where
  "only_for sid ch \<longleftrightarrow> (\<forall>res \<in> set (chan_buf ch). resSessionID res = sid) \<and>
     length (chan_buf ch) \<le> sttRouteDepth \<and> chan_cap ch = sttRouteDepth"

definition router_ok :: "string list \<Rightarrow> STTRouter \<Rightarrow> bool" where
  "router_ok sids r \<longleftrightarrow> list_all2 only_for sids (routeChans r) \<and>
     (\<forall>sid i. routes r sid = Some i \<longrightarrow> i < length sids \<and> sids ! i = sid)"

lemma list_all2_update_right:
  "list_all2 P xs ys \<Longrightarrow> (i < length xs \<Longrightarrow> P (xs ! i) y) \<Longrightarrow> list_all2 P xs (ys[i := y])"
  by (metis list_all2_conv_all_nth list_all2_lengthD length_list_update nth_list_update_eq nth_list_update_neq)

lemma router_ok_do:
  assumes "router_ok sids r"
  shows "router_ok (sids @ registered [op]) (stt_router_do op r)"
proof (cases op)
  case (RegisterOp sid)
  have "length sids = length (routeChans r)" using assms by (auto simp: router_ok_def dest: list_all2_lengthD)
  with assms RegisterOp show ?thesis
    by (auto simp: router_ok_def registered_def STTRouter_Register_def Let_def only_for_def newBufferedChan_def
        list_all2_appendI nth_append less_Suc_eq)
next
  case (DeregisterOp sid i)
  with assms show ?thesis
    by (auto simp: router_ok_def registered_def STTRouter_Deregister_def split: option.split)
next
  case (DeliverOp res)
  show ?thesis
  proof (cases "routes r (resSessionID res)")
    case None
    with assms DeliverOp show ?thesis by (simp add: registered_def STTRouter_deliver_def)
  next
    case (Some i)
    with assms have i: "i < length sids" "sids ! i = resSessionID res"
      by (auto simp: router_ok_def)
    with assms have own: "only_for (sids ! i) (routeChans r ! i)"
      unfolding router_ok_def by (blast dest: list_all2_nthD)
    have "list_all2 only_for sids ((routeChans r)[i := ch])" if "trySend (routeChans r ! i) res = Some ch" for ch
      using that assms i own
      by (intro list_all2_update_right) (auto simp: router_ok_def only_for_def trySend_def chan_room_def split: if_splits)
    with assms Some DeliverOp show ?thesis
      by (auto simp: router_ok_def registered_def STTRouter_deliver_def split: option.split)
  qed
next
  case (ReceiveOp i)
  have "list_all2 only_for sids ((routeChans r)[i := ch])"
    if recv: "i < length (routeChans r)" "tryRecv (routeChans r ! i) = Some (res, ch)" for ch res
  proof -
    have all: "list_all2 only_for sids (routeChans r)" using assms by (simp add: router_ok_def)
    with recv(1) have "only_for (sids ! i) (routeChans r ! i)" by (blast dest: list_all2_nthD2)
    with recv(2) have "only_for (sids ! i) ch" by (auto simp: only_for_def tryRecv_def split: list.splits)
    with all show ?thesis by (blast intro: list_all2_update_right)
  qed
  with assms ReceiveOp show ?thesis
    by (auto simp: router_ok_def registered_def STTRouter_receive_def split: option.split)
qed

lemma router_ok_run: "router_ok sids r \<Longrightarrow> router_ok (sids @ registered ops) (fold stt_router_do ops r)"
proof (induction ops arbitrary: sids r)
  case (Cons op ops)
  have "registered (op # ops) = registered [op] @ registered ops" by (simp add: registered_def)
  with Cons.IH [OF router_ok_do [OF Cons.prems, of op]] show ?case by simp
qed (simp add: registered_def)

text \<open>A route stays with its holder while others come and go.\<close>

fun touches :: "string \<Rightarrow> nat \<Rightarrow> stt_router_op \<Rightarrow> bool" where
  "touches sid h (RegisterOp s) = (s = sid)"
| "touches sid h (DeregisterOp s i) = (s = sid \<and> i = h)"
| "touches sid h _ = False"

lemma route_kept_do: "routes r sid = Some h \<Longrightarrow> \<not> touches sid h op \<Longrightarrow> routes (stt_router_do op r) sid = Some h"
  using sttr.reg_other sttr.dereg_other
  by (cases op) (auto simp: STTRouter_deliver_def STTRouter_receive_def split: option.split)

lemma route_kept_run:
  "routes r sid = Some h \<Longrightarrow> \<not> list_ex (touches sid h) ops \<Longrightarrow> routes (fold stt_router_do ops r) sid = Some h"
  by (induction ops arbitrary: r) (simp_all add: route_kept_do)

section \<open>Properties\<close>

text \<open>Results never reach another call.  Whatever sequence of registrations, deregistrations,
  deliveries and receives the router has gone through, the channel of the n-th registration holds
  only results of the session that registration was for, at most 16 of them.\<close>

theorem stt_router_isolation:
  "list_all2 only_for (registered ops) (routeChans (fold stt_router_do ops NewSTTRouter))"
proof -
  have "router_ok [] NewSTTRouter" by (simp add: router_ok_def NewSTTRouter_def)
  from router_ok_run [OF this, of ops] show ?thesis by (simp add: router_ok_def)
qed

text \<open>No call goes deaf because another one ended.  After a session registers, its route stays in
  place through any operations except its own deregistration with this route or a new registration
  of the same session id.\<close>

theorem stt_route_survives:
  assumes "\<not> list_ex (touches sid (fst (STTRouter_Register sid r))) ops"
  shows "routes (fold stt_router_do ops (snd (STTRouter_Register sid r))) sid = Some (fst (STTRouter_Register sid r))"
  using assms by (intro route_kept_run) (simp_all add: sttr.look_reg)

theorem stt_route_survives_witness:
  "routes (fold stt_router_do [RegisterOp ''CA2'', DeregisterOp ''CA1'' 0, DeregisterOp ''CA2'' 2]
     (snd (STTRouter_Register ''CA1'' (snd (STTRouter_Register ''CA1'' NewSTTRouter))))) ''CA1'' = Some 1"
  using stt_route_survives [of "''CA1''" "snd (STTRouter_Register ''CA1'' NewSTTRouter)"
      "[RegisterOp ''CA2'', DeregisterOp ''CA1'' 0, DeregisterOp ''CA2'' 2]"]
  by (simp add: STTRouter_Register_def NewSTTRouter_def)

text \<open>Closing a reply sink removes only its own route: when two registrations share a session id and
  the first sink is closed, replies still reach the second; deregistering by key alone, as the
  comment on \<open>Deregister\<close> warns, removes it.\<close>

theorem reply_sink_close_identity:
  assumes "reply_sinks_ok r"
  shows "sinks (ReplySink_Close (fst (ReplyRouter_Register sid c1 r))
            (snd (ReplyRouter_Register sid c2 (snd (ReplyRouter_Register sid c1 r))))) sid
          = Some (fst (ReplyRouter_Register sid c2 (snd (ReplyRouter_Register sid c1 r)))) \<and>
    sinks (ReplyRouter_Deregister sid (snd (ReplyRouter_Register sid c2 (snd (ReplyRouter_Register sid c1 r))))) sid = None"
  using replyr.reg_owns [of sid c1 r] replyr.look_reg [of sid c2]
    replyr.reg_fresh [OF replyr.invar_reg [OF assms, of sid c1], of sid _ sid c2]
  by (auto simp: ReplyRouter_Deregister_def replyr.look_reg replyr.look_dereg [OF replyr.owns_mono])

theorem reply_sink_close_identity_witness:
  "sinks (ReplySink_Close 0 (snd (ReplyRouter_Register ''CA1'' 1 (snd (ReplyRouter_Register ''CA1'' 0 NewReplyRouter))))) ''CA1''
     = Some 1"
  using reply_sink_close_identity [of NewReplyRouter "''CA1''" 0 1]
  by (simp add: ReplyRouter_Register_def NewReplyRouter_def reply_sinks_ok_def)

text \<open>A reply is delivered to the session's current sink or reported.  \<open>Route\<close> on a registered
  session either appends one ok event with the frames to the response channel registered last for
  it and reports no error, or changes nothing and reports an error; on an unknown session it reports
  that and changes nothing.\<close>

theorem reply_route_outcome:
  assumes "ReplyRouter_Route ctx_done sid frames r ins err ins'"
  shows "(err = None \<and> (\<exists>s ch. sinks r sid = Some s \<and>
            trySend (ins ! sinkResponseIn (sinkObjs r ! s)) \<lparr>respOK = True, respFrames = frames\<rparr> = Some ch \<and>
            ins' = ins[sinkResponseIn (sinkObjs r ! s) := ch])) \<or>
         (err = Some ErrUnknownSession \<and> sinks r sid = None \<and> ins' = ins) \<or>
         (err = Some (ReplySendFailed SendCancelled) \<and> ctx_done \<and> sinks r sid \<noteq> None \<and> ins' = ins)"
  using assms unfolding ReplyRouter_Route_def
  by (cases rule: reply_send.cases) (auto simp: chan_Send_Inr chan_Send_Inl)

theorem reply_route_outcome_witness:
  "\<exists>err. ReplyRouter_Route False ''CA1'' [[0xFF]] NewReplyRouter [] err [] \<and> err = Some ErrUnknownSession"
proof -
  have r: "ReplyRouter_Route False ''CA1'' [[0xFF]] NewReplyRouter [] (Some ErrUnknownSession) []"
    unfolding ReplyRouter_Route_def by (rule reply_send.unknown) (simp add: NewReplyRouter_def)
  from reply_route_outcome [OF r] r show ?thesis by auto
qed

end
