(* ===== verification/Session.thy ===== *)
theory Session
  imports Timer Decision Routers
begin

text \<open>
  The call session (\<open>telephony/session.go\<close>, \<open>telephony/transcript.go\<close> and the constants of
  \<open>telephony/state.go\<close>): its state, its options, and every helper the transition handlers call.  The
  handlers themselves and the transition table are in theory \<open>State\<close>.

  A session is a record with the Go fields.  Channels it owns are buffered channels; the outputs it
  only holds interfaces to (data plane, control plane, \<open>TurnSink\<close>, \<open>DecisionRecorder\<close>, close function)
  are a flag saying whether they are wired, and every call on them is appended to \<open>outs\<close>, the ordered
  log of what the world sees.  A \<open>Send\<close> may fail: the environment \<open>E\<close> says for each position of the log
  whether the call made there succeeds, and what the injected clock reads there.  The audio clips,
  files embedded at build time, are fields of the environment too.
\<close>

section \<open>States, sources and events\<close>

datatype SessionState = StateIdle | StateListening | StateAwaitingFullResult | StateAwaitingResponse
  | StateAwaitingResponsePlayout | StateTerminating | StateAwaitingMarkEcho | StateClosed

datatype InputSource = SourceTwilioData | SourceTwilioControl | SourceVADEvent | SourceSTTResult
  | SourceIdleTimer | SourceMarkEchoTimer | SourceUtteranceTimer | SourceResponseReady
  | SourceResponseTimer | SourceTurnTimer | SourceBedTick

datatype TurnTrigger = TriggerStopword | TriggerSilenceTurnEnd | TriggerIdleTimeout | TriggerUtteranceCap
  | TriggerTurnCap | TriggerCallEnd | TriggerResponseCap

definition MaxSilenceMS :: int where "MaxSilenceMS = 15000"
definition MaxUtteranceMS :: int where "MaxUtteranceMS = 45000"
definition MaxTurnMS :: int where "MaxTurnMS = 60000"
definition MaxResponseMS :: int where "MaxResponseMS = 45000"
definition MarkEchoGraceMS :: int where "MarkEchoGraceMS = 500"

definition MarkEchoTimeout :: "bytes \<Rightarrow> duration" where
  "MarkEchoTimeout clip =
     (let clipMS = (int (length clip) * 1000) sdiv SampleRateHz
      in clipMS * millisecond + MarkEchoGraceMS * millisecond)"

definition responseMarkEchoTimeout :: "bytes list \<Rightarrow> duration" where
  "responseMarkEchoTimeout frames =
     (let totalBytes = (\<Sum>f \<leftarrow> frames. int (length f));
          clipMS = (totalBytes * 1000) sdiv SampleRateHz
      in clipMS * millisecond + MarkEchoGraceMS * millisecond)"

record ControlEvent =
  cevKind :: string
  cevMarkName :: string
  cevCallSID :: string

definition controlKindStop :: string where "controlKindStop = ''stop''"
definition controlKindMark :: string where "controlKindMark = ''mark''"
definition farewellMarkName :: string where "farewellMarkName = ''farewell''"
definition responseMarkName :: string where "responseMarkName = ''response''"

definition timerIdle :: string where "timerIdle = ''idle''"
definition timerMarkEcho :: string where "timerMarkEcho = ''markEcho''"
definition timerUtterance :: string where "timerUtterance = ''utterance''"
definition timerResponse :: string where "timerResponse = ''response''"
definition timerTurn :: string where "timerTurn = ''turn''"
definition timerBedTick :: string where "timerBedTick = ''bedTick''"

lemmas timer_names = timerIdle_def timerMarkEcho_def timerUtterance_def timerResponse_def timerTurn_def timerBedTick_def

definition bedTickMS :: int where "bedTickMS = 200"
definition bedChunkBytes :: nat where "bedChunkBytes = nat ((bedTickMS * SampleRateHz) sdiv 1000)"
definition farewellFrameBytes :: nat where "farewellFrameBytes = nat ((SampleRateHz * MuLawFrameMS) sdiv 1000)"
definition sttDispatchDepth :: nat where "sttDispatchDepth = 4"
definition modelRouteDepth :: nat where "modelRouteDepth = 4"

record modelRouteVerdict =
  vTier :: string
  vReason :: string

datatype ControlOutMessage = ControlOutMark string | ControlOutClear

text \<open>What the world sees.  \<open>EffState\<close> is a visible write of the session state.\<close>

datatype effect =
    EffData bytes bool
  | EffControl ControlOutMessage bool
  | EffOnSpeechStart
  | EffOnEndOfUtterance
  | EffOnTurnComplete string TurnTrigger
  | EffRecord DecisionEvent
  | EffCloseTransport
  | EffState SessionState
  | EffForward bytes
  | EffSTTRequest STTRequest
  | EffRecorderClosed
  | EffTranscriptPrinted string
  | EffTranscriptFile string string string

record env =
  FarewellULaw :: bytes
  AudioForcedStopULaw :: bytes
  LLMThinkingULaw :: bytes
  sendOK :: "nat \<Rightarrow> bool"
  clockNow :: "nat \<Rightarrow> int"

section \<open>The session record\<close>

record Session =
  CallSID :: string
  vadFactory :: "(string + unit) option"
  turnSinkWired :: bool
  turnEndPolicy :: "(string \<Rightarrow> bool) option"
  vadCfg :: vadConfig
  lastStreamWindow :: int
  turnTranscripts :: "string list"
  transcriptTurns :: "string list list"
  transcriptDir :: string
  transcriptSID :: string
  transcriptLive :: bool
  transcriptAgentLabel :: string
  turnActive :: bool
  turnEndAudioMS :: int
  routeReported :: bool
  turnEndPending :: bool
  turnEndEvent :: VADEvent
  dataOut :: bool
  ctlOut :: bool
  closeFunc :: bool
  idleTimeoutMS :: int
  utteranceTimeoutMS :: int
  turnTimeoutMS :: int
  responseTimeoutMS :: int
  sttIn :: bool
  sttDispatchCh :: "STTRequest bufferedChan"
  sttReqID :: int
  modelRouteCh :: "modelRouteVerdict bufferedChan"
  sttDispatchTimes :: "int \<rightharpoonup> int"
  turnBuf :: bytes
  bedOffset :: nat
  timerFacility :: TimerFacility
  forwardCh :: "bytes bufferedChan"
  notImplLogged :: "(SessionState \<times> InputSource) set"
  state :: SessionState
  closedCh :: bool
  started :: bool
  outs :: "effect list"

definition emit :: "effect \<Rightarrow> Session \<Rightarrow> Session" where
  "emit e s = s\<lparr>outs := outs s @ [e]\<rparr>"

definition setState :: "SessionState \<Rightarrow> Session \<Rightarrow> Session" where
  "setState next s =
     (let s = emit (EffState next) (s\<lparr>state := next\<rparr>) in
      if next = StateClosed then s\<lparr>closedCh := True\<rparr> else s)"

section \<open>Construction\<close>

datatype SessionOption =
    WithVADFactory "string + unit"
  | WithTurnSink
  | WithTurnEndPolicy "string \<Rightarrow> bool"
  | WithVADConfig vadConfig
  | WithSTTInput
  | WithTwilioDataOutput
  | WithTwilioControlOutput
  | WithCloseFunc
  | WithMaxSilenceMS int
  | WithMaxUtteranceMS int
  | WithMaxTurnMS int
  | WithMaxResponseMS int
  | WithTranscriptOutput string string bool
  | WithTranscriptAgentLabel string

fun applyOption :: "SessionOption \<Rightarrow> Session \<Rightarrow> Session" where
  "applyOption (WithVADFactory f) s = s\<lparr>vadFactory := Some f\<rparr>"
| "applyOption WithTurnSink s = s\<lparr>turnSinkWired := True\<rparr>"
| "applyOption (WithTurnEndPolicy p) s = s\<lparr>turnEndPolicy := Some p\<rparr>"
| "applyOption (WithVADConfig cfg) s = s\<lparr>vadCfg := cfg\<rparr>"
| "applyOption WithSTTInput s = s\<lparr>sttIn := True\<rparr>"
| "applyOption WithTwilioDataOutput s = s\<lparr>dataOut := True\<rparr>"
| "applyOption WithTwilioControlOutput s = s\<lparr>ctlOut := True\<rparr>"
| "applyOption WithCloseFunc s = s\<lparr>closeFunc := True\<rparr>"
| "applyOption (WithMaxSilenceMS ms) s = s\<lparr>idleTimeoutMS := ms\<rparr>"
| "applyOption (WithMaxUtteranceMS ms) s = s\<lparr>utteranceTimeoutMS := ms\<rparr>"
| "applyOption (WithMaxTurnMS ms) s = s\<lparr>turnTimeoutMS := ms\<rparr>"
| "applyOption (WithMaxResponseMS ms) s = s\<lparr>responseTimeoutMS := ms\<rparr>"
| "applyOption (WithTranscriptOutput dir sid live) s =
     s\<lparr>transcriptDir := dir, transcriptSID := sid, transcriptLive := live\<rparr>"
| "applyOption (WithTranscriptAgentLabel label) s = s\<lparr>transcriptAgentLabel := label\<rparr>"

definition zeroVADConfig :: vadConfig where
  "zeroVADConfig = \<lparr>WindowSize = 0, SpeechThresh = F32 0, SilenceThresh = F32 0, EndSilenceMS = 0,
     cfgSampleRateHz = 0, TurnEndSilenceMS = 0\<rparr>"

definition NewSession :: "string \<Rightarrow> SessionOption list \<Rightarrow> Session" where
  "NewSession callSID opts =
     (let s = \<lparr>CallSID = callSID, vadFactory = None, turnSinkWired = False, turnEndPolicy = None,
            vadCfg = zeroVADConfig, lastStreamWindow = 0, turnTranscripts = [], transcriptTurns = [],
            transcriptDir = '''', transcriptSID = '''', transcriptLive = False, transcriptAgentLabel = '''',
            turnActive = False, turnEndAudioMS = 0, routeReported = False, turnEndPending = False,
            turnEndEvent = zeroVADEvent, dataOut = False, ctlOut = False, closeFunc = False,
            idleTimeoutMS = 0, utteranceTimeoutMS = 0, turnTimeoutMS = 0, responseTimeoutMS = 0,
            sttIn = False, sttDispatchCh = newBufferedChan sttDispatchDepth, sttReqID = 0,
            modelRouteCh = newBufferedChan modelRouteDepth, sttDispatchTimes = Map.empty, turnBuf = [],
            bedOffset = 0, timerFacility = newTimerFacility,
            forwardCh = newBufferedChan (nat (ComputeDepth DataPlaneBufferMS MuLawFrameMS)),
            notImplLogged = {}, state = StateIdle, closedCh = False, started = False, outs = []\<rparr>;
          s = fold applyOption opts s
      in s\<lparr>timerFacility := newTimerFacility\<rparr>)"

section \<open>Timers\<close>

definition resolvedMS :: "int \<Rightarrow> int \<Rightarrow> int" where
  "resolvedMS override def = (if override > 0 then override else def)"

definition armNamed :: "string \<Rightarrow> duration \<Rightarrow> Session \<Rightarrow> Session" where
  "armNamed name dur s = s\<lparr>timerFacility := armTimer name dur (timerFacility s)\<rparr>"

definition cancelNamed :: "string \<Rightarrow> Session \<Rightarrow> Session" where
  "cancelNamed name s = s\<lparr>timerFacility := handleCancel name (timerFacility s)\<rparr>"

definition armIdleTimer :: "Session \<Rightarrow> Session" where
  "armIdleTimer s = armNamed timerIdle (resolvedMS (idleTimeoutMS s) MaxSilenceMS * millisecond) s"

definition cancelIdleTimer :: "Session \<Rightarrow> Session" where
  "cancelIdleTimer s = cancelNamed timerIdle s"

definition armUtteranceTimer :: "Session \<Rightarrow> Session" where
  "armUtteranceTimer s = armNamed timerUtterance (resolvedMS (utteranceTimeoutMS s) MaxUtteranceMS * millisecond) s"

definition cancelUtteranceTimer :: "Session \<Rightarrow> Session" where
  "cancelUtteranceTimer s = cancelNamed timerUtterance s"

definition armTurnTimer :: "Session \<Rightarrow> Session" where
  "armTurnTimer s = armNamed timerTurn (resolvedMS (turnTimeoutMS s) MaxTurnMS * millisecond) s"

definition cancelTurnTimer :: "Session \<Rightarrow> Session" where
  "cancelTurnTimer s = cancelNamed timerTurn s"

definition armMarkEchoTimer :: "bytes \<Rightarrow> Session \<Rightarrow> Session" where
  "armMarkEchoTimer clip s = armNamed timerMarkEcho (MarkEchoTimeout clip) s"

definition cancelMarkEchoTimer :: "Session \<Rightarrow> Session" where
  "cancelMarkEchoTimer s = cancelNamed timerMarkEcho s"

definition armResponseTimer :: "Session \<Rightarrow> Session" where
  "armResponseTimer s = armNamed timerResponse (resolvedMS (responseTimeoutMS s) MaxResponseMS * millisecond) s"

definition cancelResponseTimer :: "Session \<Rightarrow> Session" where
  "cancelResponseTimer s = cancelNamed timerResponse s"

definition armBedTimer :: "Session \<Rightarrow> Session" where
  "armBedTimer s = armNamed timerBedTick (bedTickMS * millisecond) s"

definition cancelBedTimer :: "Session \<Rightarrow> Session" where
  "cancelBedTimer s = cancelNamed timerBedTick s"

definition armResponseMarkEchoTimer :: "bytes list \<Rightarrow> Session \<Rightarrow> Session" where
  "armResponseMarkEchoTimer frames s = armNamed timerMarkEcho (responseMarkEchoTimeout frames) s"

lemmas session_timer_defs = armIdleTimer_def cancelIdleTimer_def armUtteranceTimer_def cancelUtteranceTimer_def
  armTurnTimer_def cancelTurnTimer_def armMarkEchoTimer_def cancelMarkEchoTimer_def armResponseTimer_def
  cancelResponseTimer_def armBedTimer_def cancelBedTimer_def armResponseMarkEchoTimer_def

section \<open>Outgoing audio and control\<close>

definition sendData :: "env \<Rightarrow> bytes \<Rightarrow> Session \<Rightarrow> bool \<times> Session" where
  "sendData E payload s = (let ok = sendOK E (length (outs s)) in (ok, emit (EffData payload ok) s))"

definition sendControl :: "env \<Rightarrow> ControlOutMessage \<Rightarrow> Session \<Rightarrow> Session" where
  "sendControl E msg s = emit (EffControl msg (sendOK E (length (outs s)))) s"

text \<open>
  The loop that fills one bed chunk.  An offset past the end of the clip would panic in the slice
  expression; \<open>bed_chunk\<close> below shows that the loop never gets there.
\<close>

function bedChunk_loop :: "bytes \<Rightarrow> nat \<Rightarrow> bytes \<Rightarrow> nat \<times> bytes" where
  "bedChunk_loop clip off chunk =
     (if length chunk < bedChunkBytes \<and> off \<le> length clip \<and> clip \<noteq> [] then
        (let e = min (off + (bedChunkBytes - length chunk)) (length clip);
             chunk' = chunk @ slice clip off e;
             off' = (if e \<ge> length clip then 0 else e)
         in bedChunk_loop clip off' chunk')
      else (off, chunk))"
  by pat_completeness auto
termination
  by (relation "measures [\<lambda>(clip, off, chunk). bedChunkBytes - length chunk, \<lambda>(clip, off, chunk). off]")
    (auto simp: slice_def min_def length_greater_0_conv [symmetric] simp del: length_greater_0_conv split: if_splits)

declare bedChunk_loop.simps [simp del]

definition sendBedChunk :: "env \<Rightarrow> Session \<Rightarrow> Session" where
  "sendBedChunk E s =
     (let clip = LLMThinkingULaw E in
      if \<not> dataOut s \<or> length clip = 0 then s
      else case bedChunk_loop clip (bedOffset s) [] of
             (off, chunk) \<Rightarrow> snd (sendData E chunk (s\<lparr>bedOffset := off\<rparr>)))"

text \<open>Sending frames one by one, giving up at the first failure.\<close>

fun sendFrames :: "env \<Rightarrow> bytes list \<Rightarrow> Session \<Rightarrow> Session" where
  "sendFrames E [] s = s"
| "sendFrames E (f # fs) s =
     (case sendData E f s of (True, s') \<Rightarrow> sendFrames E fs s' | (False, s') \<Rightarrow> s')"

definition sendClip :: "env \<Rightarrow> bytes \<Rightarrow> Session \<Rightarrow> Session" where
  "sendClip E clip s = (if \<not> dataOut s then s else sendFrames E (chunks farewellFrameBytes clip) s)"

definition sendMarkAndArmEcho :: "env \<Rightarrow> bytes \<Rightarrow> Session \<Rightarrow> Session" where
  "sendMarkAndArmEcho E clip s =
     (let s = (if ctlOut s then sendControl E (ControlOutMark farewellMarkName) s else s)
      in armMarkEchoTimer clip s)"

definition terminateWithClip :: "env \<Rightarrow> bytes \<Rightarrow> Session \<Rightarrow> Session \<times> SessionState" where
  "terminateWithClip E clip s =
     (let s = sendClip E clip s;
          s = setState StateAwaitingMarkEcho s;
          s = sendMarkAndArmEcho E clip s
      in (s, StateAwaitingMarkEcho))"

definition closeTransport :: "Session \<Rightarrow> Session" where
  "closeTransport s =
     (let s = cancelMarkEchoTimer s in if closeFunc s then emit EffCloseTransport s else s)"

definition sendResponseFrames :: "env \<Rightarrow> bytes list \<Rightarrow> Session \<Rightarrow> Session" where
  "sendResponseFrames E frames s = (if \<not> dataOut s then s else sendFrames E frames s)"

definition sendControlClear :: "env \<Rightarrow> Session \<Rightarrow> Session" where
  "sendControlClear E s = (if \<not> ctlOut s then s else sendControl E ControlOutClear s)"

definition sendResponseMarkAndArmEcho :: "env \<Rightarrow> bytes list \<Rightarrow> Session \<Rightarrow> Session" where
  "sendResponseMarkAndArmEcho E frames s =
     (let s = (if ctlOut s then sendControl E (ControlOutMark responseMarkName) s else s)
      in armResponseMarkEchoTimer frames s)"

section \<open>Decision records\<close>

definition recordEvent :: "DecisionEvent \<Rightarrow> Session \<Rightarrow> Session" where
  "recordEvent ev s = emit (EffRecord ev) s"

definition audioPos :: "Session \<Rightarrow> int" where
  "audioPos s = lastStreamWindow s * windowMS (vadCfg s)"

definition recordSTTDispatch :: "env \<Rightarrow> int \<Rightarrow> int \<Rightarrow> Session \<Rightarrow> Session" where
  "recordSTTDispatch E requestID audioBytes s =
     (let s = s\<lparr>sttDispatchTimes := (sttDispatchTimes s)(requestID \<mapsto> clockNow E (length (outs s)))\<rparr>
      in recordEvent (zeroDecisionEvent\<lparr>AudioMS := audioPos s, Type := DecisionTypeSTTDispatch,
           RequestID := requestID, AudioBytes := audioBytes, Effect := ''sent to STT''\<rparr>) s)"

definition recordSTTResult :: "env \<Rightarrow> STTResult \<Rightarrow> Session \<Rightarrow> Session" where
  "recordSTTResult E res s =
     (case (case sttDispatchTimes s (resRequestID res) of
              Some dispatched \<Rightarrow>
                ((clockNow E (length (outs s)) - dispatched) sdiv millisecond,
                 s\<lparr>sttDispatchTimes := (sttDispatchTimes s)(resRequestID res := None)\<rparr>)
            | None \<Rightarrow> (0, s)) of
        (latencyMS, s) \<Rightarrow>
          recordEvent (zeroDecisionEvent\<lparr>Type := DecisionTypeSTTResult, RequestID := resRequestID res,
            Text := resText res, LatencyMS := latencyMS, STTDurSec := resDuration res,
            Effect := ''transcript delivered''\<rparr>) s)"

definition recordVADDecision :: "string \<Rightarrow> string \<Rightarrow> ParamVal \<Rightarrow> VADEvent \<Rightarrow> string \<Rightarrow> int \<Rightarrow> Session \<Rightarrow> Session" where
  "recordVADDecision kind param val ev eff requestID s =
     recordEvent (zeroDecisionEvent\<lparr>AudioMS := evStreamWindowIndex ev * windowMS (vadCfg s),
       Type := DecisionTypeVAD, Kind := kind, Param := param, ParamValue := val, Prob := evProb ev,
       SilenceCount := evSilenceCount ev, RequestID := requestID, Effect := eff\<rparr>) s"

definition recordCap :: "string \<Rightarrow> string \<Rightarrow> ParamVal \<Rightarrow> string \<Rightarrow> Session \<Rightarrow> Session" where
  "recordCap kind param val eff s =
     recordEvent (zeroDecisionEvent\<lparr>AudioMS := audioPos s, Type := DecisionTypeCap, Kind := kind,
       Param := param, ParamValue := val, Effect := eff\<rparr>) s"

definition recordEndOfUtterance :: "VADEvent \<Rightarrow> bool \<Rightarrow> Session \<Rightarrow> Session" where
  "recordEndOfUtterance ev dispatched s =
     (case (if dispatched
            then (''utterance closed; dispatched STT request '' @ itoa (sttReqID s), sttReqID s)
            else (''utterance closed; dropped (STT pass '' @ itoa (sttReqID s) @ '' still in flight)'', 0)) of
        (eff, reqID) \<Rightarrow>
          recordVADDecision DecisionKindEndOfUtter DecisionParamEndSilence (PVInt (EndSilenceMS (vadCfg s))) ev eff reqID s)"

definition recordTurnEnd :: "VADEvent \<Rightarrow> Session \<Rightarrow> Session" where
  "recordTurnEnd ev s =
     recordVADDecision DecisionKindTurnEnd DecisionParamTurnEndSilence (PVInt (TurnEndSilenceMS (vadCfg s))) ev
       ''turn closed (silence-turn-end)'' 0 s"

definition recordStopwordTurnEnd :: "Session \<Rightarrow> Session" where
  "recordStopwordTurnEnd s =
     recordEvent (zeroDecisionEvent\<lparr>AudioMS := audioPos s, Type := DecisionTypeVAD, Kind := DecisionKindTurnEnd,
       Effect := ''turn closed (stopword)''\<rparr>) s"

definition recordTurnCompletion :: "TurnTrigger \<Rightarrow> Session \<Rightarrow> Session" where
  "recordTurnCompletion trigger s =
     (case trigger of
        TriggerUtteranceCap \<Rightarrow> recordCap DecisionKindUtteranceCap DecisionParamMaxUtterance
          (PVInt (resolvedMS (utteranceTimeoutMS s) MaxUtteranceMS)) ''forced utterance end'' s
      | TriggerTurnCap \<Rightarrow> recordCap DecisionKindTurnCap DecisionParamMaxTurn
          (PVInt (resolvedMS (turnTimeoutMS s) MaxTurnMS)) ''forced turn end'' s
      | TriggerIdleTimeout \<Rightarrow> recordCap DecisionKindIdleTimeout DecisionParamMaxSilence
          (PVInt (resolvedMS (idleTimeoutMS s) MaxSilenceMS)) ''call ended (idle)'' s
      | TriggerResponseCap \<Rightarrow> recordCap DecisionKindResponseCap DecisionParamMaxResponse
          (PVInt (resolvedMS (responseTimeoutMS s) MaxResponseMS)) ''forced response end'' s
      | TriggerStopword \<Rightarrow> recordStopwordTurnEnd s
      | _ \<Rightarrow> s)"

section \<open>Speech to text\<close>

definition dispatchSTT :: "env \<Rightarrow> string \<Rightarrow> bytes \<Rightarrow> Session \<Rightarrow> Session" where
  "dispatchSTT E kind audio s =
     (if \<not> sttIn s then s
      else
        (let s = s\<lparr>sttReqID := sttReqID s + 1\<rparr>;
             req = \<lparr>reqSessionID = CallSID s, reqRequestID = sttReqID s, reqKind = kind, reqAudio = audio\<rparr>
         in case trySend (sttDispatchCh s) req of
              Some ch \<Rightarrow> recordSTTDispatch E (reqRequestID req) (int (length audio)) (s\<lparr>sttDispatchCh := ch\<rparr>)
            | None \<Rightarrow> s))"

text \<open>One relay of \<open>drainSTTDispatch\<close> and of \<open>forwardToVAD\<close>.\<close>

definition drainSTTDispatch :: "Session \<Rightarrow> Session option" where
  "drainSTTDispatch s =
     (case tryRecv (sttDispatchCh s) of
        None \<Rightarrow> None
      | Some (req, ch) \<Rightarrow> Some (emit (EffSTTRequest req) (s\<lparr>sttDispatchCh := ch\<rparr>)))"

definition forwardToVAD :: "Session \<Rightarrow> Session option" where
  "forwardToVAD s =
     (case tryRecv (forwardCh s) of
        None \<Rightarrow> None
      | Some (frame, ch) \<Rightarrow> Some (emit (EffForward frame) (s\<lparr>forwardCh := ch\<rparr>)))"

section \<open>Turns\<close>

definition flushTurnTranscripts :: "TurnTrigger \<Rightarrow> Session \<Rightarrow> Session" where
  "flushTurnTranscripts trigger s =
     (if turnTranscripts s = [] then s
      else
        (let text = joinWith '' '' (turnTranscripts s);
             s = s\<lparr>transcriptTurns := transcriptTurns s @ [turnTranscripts s]\<rparr>;
             s = s\<lparr>turnTranscripts := []\<rparr>
         in if turnSinkWired s then emit (EffOnTurnComplete text trigger) s else s))"

definition openTurnToRouteVerdict :: "TurnTrigger \<Rightarrow> Session \<Rightarrow> Session" where
  "openTurnToRouteVerdict trigger s =
     (if trigger = TriggerCallEnd then s
      else s\<lparr>routeReported := False, turnEndAudioMS := audioPos s\<rparr>)"

definition completeTurn :: "TurnTrigger \<Rightarrow> Session \<Rightarrow> Session" where
  "completeTurn trigger s =
     (let s = openTurnToRouteVerdict trigger s;
          s = flushTurnTranscripts trigger s;
          s = s\<lparr>turnActive := False\<rparr>;
          s = s\<lparr>turnEndPending := False\<rparr>;
          s = cancelTurnTimer s
      in recordTurnCompletion trigger s)"

definition enterAwaitingResponse :: "Session \<Rightarrow> Session \<times> SessionState" where
  "enterAwaitingResponse s =
     (let s = cancelIdleTimer s;
          s = armResponseTimer s;
          s = s\<lparr>bedOffset := 0\<rparr>;
          s = armBedTimer s
      in (s, StateAwaitingResponse))"

section \<open>Shadow routing verdicts\<close>

definition ReportModelRoute :: "string \<Rightarrow> string \<Rightarrow> Session \<Rightarrow> Session" where
  "ReportModelRoute tier reason s =
     (case trySend (modelRouteCh s) \<lparr>vTier = tier, vReason = reason\<rparr> of
        Some ch \<Rightarrow> s\<lparr>modelRouteCh := ch\<rparr>
      | None \<Rightarrow> s)"

definition recordModelRoute :: "modelRouteVerdict \<Rightarrow> Session \<Rightarrow> Session" where
  "recordModelRoute v s =
     (if routeReported s then s
      else recordEvent (zeroDecisionEvent\<lparr>AudioMS := turnEndAudioMS s, Type := DecisionTypeModelRoute,
             Kind := DecisionKindModelRoute, Param := DecisionParamRouteTier, ParamValue := PVString (vTier v),
             RouteReason := vReason v, Effect := modelRouteShadowEffect\<rparr>) (s\<lparr>routeReported := True\<rparr>))"

definition receiveModelRoute :: "Session \<Rightarrow> Session option" where
  "receiveModelRoute s =
     (case tryRecv (modelRouteCh s) of
        None \<Rightarrow> None
      | Some (v, ch) \<Rightarrow> Some (recordModelRoute v (s\<lparr>modelRouteCh := ch\<rparr>)))"

fun drainVerdicts :: "modelRouteVerdict list \<Rightarrow> Session \<Rightarrow> Session" where
  "drainVerdicts [] s = s"
| "drainVerdicts (v # vs) s =
     drainVerdicts vs (recordModelRoute v (s\<lparr>modelRouteCh := (modelRouteCh s)\<lparr>chan_buf := vs\<rparr>\<rparr>))"

definition drainModelRouteVerdicts :: "Session \<Rightarrow> Session" where
  "drainModelRouteVerdicts s = drainVerdicts (chan_buf (modelRouteCh s)) s"

section \<open>Turn-end policy\<close>

definition normalizeTranscript :: "string \<Rightarrow> string" where
  "normalizeTranscript t = trimRight ''.!?,'' (toLower (trimSpace t))"

definition StopwordPolicy :: "string \<Rightarrow> bool" where
  "StopwordPolicy transcript = (normalizeTranscript transcript = ''done'')"

section \<open>Transcript summary\<close>

definition defaultAgentLabel :: string where "defaultAgentLabel = ''agent''"

definition padTo :: "nat \<Rightarrow> string \<Rightarrow> string" where
  "padTo n t = t @ replicate (n - length t) (CHR '' '')"

definition bracketed :: "string list \<Rightarrow> string" where
  "bracketed turn = joinWith '' '' (map (\<lambda>utt. ''['' @ utt @ '']'') turn)"

fun formatTurns :: "string \<Rightarrow> string \<Rightarrow> string list list \<Rightarrow> string" where
  "formatTurns userPrefix agentLine [] = ''''"
| "formatTurns userPrefix agentLine [turn] = userPrefix @ bracketed turn @ [CHR 10]"
| "formatTurns userPrefix agentLine (turn # turns) =
     userPrefix @ bracketed turn @ [CHR 10] @ agentLine @ formatTurns userPrefix agentLine turns"

definition formatTranscript :: "string list list \<Rightarrow> string \<Rightarrow> string" where
  "formatTranscript turns agentLabel =
     (let labelW = (if length agentLabel > length ''user'' then length agentLabel else length ''user'');
          userPrefix = padTo labelW ''user'' @ '' --> '';
          agentLine = padTo labelW agentLabel @ '' ->  []'' @ [CHR 10]
      in formatTurns userPrefix agentLine turns)"

definition emitTranscript :: "Session \<Rightarrow> Session" where
  "emitTranscript s =
     (if transcriptTurns s = [] then s
      else
        (let label = (if transcriptAgentLabel s = '''' then defaultAgentLabel else transcriptAgentLabel s);
             out = formatTranscript (transcriptTurns s) label;
             s = s\<lparr>transcriptTurns := []\<rparr>;
             s = (if transcriptLive s then emit (EffTranscriptPrinted out) s else s)
         in if transcriptDir s \<noteq> '''' \<and> transcriptSID s \<noteq> ''''
            then emit (EffTranscriptFile (transcriptDir s) (transcriptSID s @ ''.transcript.txt'') out) s
            else s))"

section \<open>Start and Close\<close>

datatype start_error = NoVADFactory | VADFactoryFailed string | BadOrdering ordering_error

definition Start :: "Session \<Rightarrow> start_error option \<times> Session" where
  "Start s =
     (if started s then (None, s)
      else case vadFactory s of
        None \<Rightarrow> (Some NoVADFactory, s)
      | Some (Inl e) \<Rightarrow> (Some (VADFactoryFailed e), s)
      | Some (Inr u) \<Rightarrow>
          (let s = s\<lparr>turnSinkWired := True\<rparr>;
               cfg = withDefaults (vadCfg s)
           in case validateOrdering cfg MaxSilenceMS of
                Inl e \<Rightarrow> (Some (BadOrdering e), s)
              | Inr u \<Rightarrow>
                  (let s = s\<lparr>vadCfg := cfg\<rparr>;
                       s = armIdleTimer s
                   in (None, s\<lparr>started := True\<rparr>))))"

text \<open>
  \<open>Close\<close>, once the sequencer has stopped.  Cancelling the session's context also ends every timer
  goroutine; the bed timer is not cancelled by name.
\<close>

definition Close :: "Session \<Rightarrow> Session" where
  "Close s =
     (let s = (if started s
               then cancelTurnTimer (cancelResponseTimer (cancelMarkEchoTimer (cancelUtteranceTimer (cancelIdleTimer s))))
               else s);
          s = drainModelRouteVerdicts s;
          s = emit EffRecorderClosed s
      in emitTranscript s)"

end
