(* ===== verification/State.thy ===== *)
theory State
  imports Session
begin

text \<open>
  The session's state machine (\<open>telephony/state.go\<close> and the sequencer in \<open>telephony/session.go\<close>): the
  transition handlers, the total (state, source) table as \<open>buildTransitionTable\<close> fills it, \<open>dispatch\<close>
  and the sequencer's \<open>step\<close>.

  A handler takes the event and the session and returns the session and the next state, as in Go.
  The table holds handler names; \<open>runHandler\<close> is the call through the table.  The \<open>call_input\<close> of a step
  is what became ready: an arrival on one of the inputs, a completion or a verdict in its channel, a
  move of a goroutine the session started, or a move of the timer facility.
\<close>

section \<open>Events\<close>

datatype payload = PayFrame bytes | PayControl ControlEvent | PayVAD VADEvent | PaySTT STTResult
  | PayResponse ResponseEvent | PayNil

record transitionEvent =
  teSource :: InputSource
  tePayload :: payload

text \<open>Type assertions with the comma-ok form yield the zero value on another type.\<close>

fun asFrame :: "payload \<Rightarrow> bytes" where
  "asFrame (PayFrame f) = f" | "asFrame _ = []"

fun asControl :: "payload \<Rightarrow> ControlEvent" where
  "asControl (PayControl c) = c" | "asControl _ = \<lparr>cevKind = '''', cevMarkName = '''', cevCallSID = ''''\<rparr>"

fun asVAD :: "payload \<Rightarrow> VADEvent" where
  "asVAD (PayVAD v) = v" | "asVAD _ = zeroVADEvent"

fun asSTT :: "payload \<Rightarrow> STTResult" where
  "asSTT (PaySTT r) = r" | "asSTT _ = zeroSTTResult"

fun asResponse :: "payload \<Rightarrow> ResponseEvent" where
  "asResponse (PayResponse r) = r" | "asResponse _ = \<lparr>respOK = False, respFrames = []\<rparr>"

section \<open>Handlers\<close>

definition handleDataFrame :: "transitionEvent \<Rightarrow> Session \<Rightarrow> Session \<times> SessionState" where
  "handleDataFrame ev s =
     (let frame = asFrame (tePayload ev);
          s = s\<lparr>turnBuf := turnBuf s @ frame\<rparr>;
          s = (case trySend (forwardCh s) frame of Some ch \<Rightarrow> s\<lparr>forwardCh := ch\<rparr> | None \<Rightarrow> s)
      in (s, if state s = StateIdle then StateListening else state s))"

definition handleControlEvent :: "transitionEvent \<Rightarrow> Session \<Rightarrow> Session \<times> SessionState" where
  "handleControlEvent ev s =
     (let cev = asControl (tePayload ev) in
      if cevKind cev = controlKindStop then (completeTurn TriggerCallEnd s, StateClosed)
      else (s, state s))"

definition handleSpeechOnset :: "VADEvent \<Rightarrow> Session \<Rightarrow> Session \<times> SessionState" where
  "handleSpeechOnset ev s =
     (let s = cancelIdleTimer s;
          s = armUtteranceTimer s;
          s = (if \<not> turnActive s then armTurnTimer s else s);
          s = s\<lparr>turnActive := True\<rparr>;
          s = (if turnSinkWired s then emit EffOnSpeechStart s else s);
          s = recordVADDecision DecisionKindSpeechStart DecisionParamSpeechThresh
                (PVFloat (SpeechThresh (vadCfg s))) ev ''utterance opened'' 0 s
      in (s, state s))"

definition onUtteranceEnd :: "Session \<Rightarrow> Session" where
  "onUtteranceEnd s =
     (let s = (if turnSinkWired s then emit EffOnEndOfUtterance s else s);
          s = cancelUtteranceTimer s
      in armIdleTimer s)"

definition dispatchFullPass :: "env \<Rightarrow> VADEvent \<Rightarrow> Session \<Rightarrow> Session \<times> SessionState" where
  "dispatchFullPass E ev s =
     (let s = onUtteranceEnd s;
          s = dispatchSTT E FullPass (turnBuf s) s;
          s = recordEndOfUtterance ev True s;
          s = s\<lparr>turnBuf := []\<rparr>
      in (s, StateAwaitingFullResult))"

definition handleListeningVADEvent :: "env \<Rightarrow> transitionEvent \<Rightarrow> Session \<Rightarrow> Session \<times> SessionState" where
  "handleListeningVADEvent E ev s =
     (let vev = asVAD (tePayload ev) in
      if evKind vev = VADEndOfUtterance then dispatchFullPass E vev s else (s, state s))"

definition handleAwaitingFullResultVADEvent :: "transitionEvent \<Rightarrow> Session \<Rightarrow> Session \<times> SessionState" where
  "handleAwaitingFullResultVADEvent ev s =
     (let vev = asVAD (tePayload ev) in
      if evKind vev \<noteq> VADEndOfUtterance then (s, state s)
      else
        (let s = onUtteranceEnd s;
             s = recordEndOfUtterance vev False s
         in (s, state s)))"

definition withSpeechReset :: "(transitionEvent \<Rightarrow> Session \<Rightarrow> Session \<times> SessionState) \<Rightarrow>
    transitionEvent \<Rightarrow> Session \<Rightarrow> Session \<times> SessionState" where
  "withSpeechReset h ev s =
     (case tePayload ev of
        PayVAD vev \<Rightarrow>
          (case evKind vev of
             VADSpeech \<Rightarrow> handleSpeechOnset vev s
           | VADSilence \<Rightarrow>
               h ev (recordVADDecision DecisionKindSilence DecisionParamSilenceThresh
                 (PVFloat (SilenceThresh (vadCfg s))) vev ''silence run started'' 0 s)
           | VADTurnEnd \<Rightarrow>
               (if state s = StateAwaitingFullResult
                then (s\<lparr>turnEndPending := True, turnEndEvent := vev\<rparr>, state s)
                else
                  (let s = recordTurnEnd vev s;
                       s = completeTurn TriggerSilenceTurnEnd s
                   in enterAwaitingResponse s))
           | _ \<Rightarrow> h ev s)
      | _ \<Rightarrow> h ev s)"

text \<open>The second half of \<open>handleSTTResult\<close>, for a result that passed both identity checks.\<close>

definition acceptFullPass :: "STTResult \<Rightarrow> Session \<Rightarrow> bool \<times> Session" where
  "acceptFullPass res s =
     (if (case turnEndPolicy s of Some p \<Rightarrow> p (resText res) | None \<Rightarrow> False)
      then (True, completeTurn TriggerStopword s)
      else
        (let s = s\<lparr>turnTranscripts := turnTranscripts s @ [trimSpace (resText res)]\<rparr> in
         if turnEndPending s
         then (True, completeTurn TriggerSilenceTurnEnd (recordTurnEnd (turnEndEvent s) s))
         else (False, s)))"

definition handleSTTResult :: "env \<Rightarrow> transitionEvent \<Rightarrow> Session \<Rightarrow> Session \<times> SessionState" where
  "handleSTTResult E ev s =
     (let res = asSTT (tePayload ev) in
      if resSessionID res \<noteq> CallSID s then (s, state s)
      else if resRequestID res \<noteq> sttReqID s
      then (s\<lparr>sttDispatchTimes := (sttDispatchTimes s)(resRequestID res := None)\<rparr>, state s)
      else
        (case (let s = recordSTTResult E res s in
               if resKind res = FullPass then acceptFullPass res s else (False, s)) of
           (turnCompleted, s) \<Rightarrow>
             (if resKind res = FullPass \<and> state s = StateAwaitingFullResult
              then (if turnCompleted then enterAwaitingResponse s else (s, StateListening))
              else (s, state s))))"

definition handleIdleTimer :: "env \<Rightarrow> Session \<Rightarrow> Session \<times> SessionState" where
  "handleIdleTimer E s = terminateWithClip E (FarewellULaw E) (completeTurn TriggerIdleTimeout s)"

definition handleUtteranceTimeout :: "env \<Rightarrow> Session \<Rightarrow> Session \<times> SessionState" where
  "handleUtteranceTimeout E s = terminateWithClip E (AudioForcedStopULaw E) (completeTurn TriggerUtteranceCap s)"

definition handleTurnTimeout :: "env \<Rightarrow> Session \<Rightarrow> Session \<times> SessionState" where
  "handleTurnTimeout E s = terminateWithClip E (AudioForcedStopULaw E) (completeTurn TriggerTurnCap s)"

definition handleResponseReady :: "env \<Rightarrow> transitionEvent \<Rightarrow> Session \<Rightarrow> Session \<times> SessionState" where
  "handleResponseReady E ev s =
     (let rev = asResponse (tePayload ev);
          s = cancelResponseTimer s;
          s = cancelBedTimer s;
          s = sendControlClear E s
      in if \<not> respOK rev then (armIdleTimer s, StateListening)
         else
           (let s = sendResponseFrames E (respFrames rev) s;
                s = sendResponseMarkAndArmEcho E (respFrames rev) s
            in (s, StateAwaitingResponsePlayout)))"

definition handleResponseTimeout :: "env \<Rightarrow> Session \<Rightarrow> Session \<times> SessionState" where
  "handleResponseTimeout E s =
     (let s = cancelBedTimer s;
          s = completeTurn TriggerResponseCap s
      in terminateWithClip E (FarewellULaw E) s)"

definition handleBedTick :: "env \<Rightarrow> Session \<Rightarrow> Session \<times> SessionState" where
  "handleBedTick E s =
     (let s = sendBedChunk E s;
          s = armBedTimer s
      in (s, state s))"

definition handleResponsePlayoutEcho :: "transitionEvent \<Rightarrow> Session \<Rightarrow> Session \<times> SessionState" where
  "handleResponsePlayoutEcho ev s =
     (let cev = asControl (tePayload ev) in
      if cevKind cev \<noteq> controlKindMark \<or> cevMarkName cev \<noteq> responseMarkName then (s, state s)
      else (armIdleTimer (cancelMarkEchoTimer s), StateListening))"

definition handleResponsePlayoutBackstop :: "Session \<Rightarrow> Session \<times> SessionState" where
  "handleResponsePlayoutBackstop s = (armIdleTimer s, StateListening)"

definition handleMarkEchoControlEvent :: "transitionEvent \<Rightarrow> Session \<Rightarrow> Session \<times> SessionState" where
  "handleMarkEchoControlEvent ev s =
     (let cev = asControl (tePayload ev) in
      if cevKind cev \<noteq> controlKindMark \<or> cevMarkName cev \<noteq> farewellMarkName then (s, state s)
      else (closeTransport s, StateClosed))"

definition handleMarkEchoTimeout :: "Session \<Rightarrow> Session \<times> SessionState" where
  "handleMarkEchoTimeout s = (closeTransport s, StateClosed)"

definition handleUnexpected :: "Session \<Rightarrow> Session \<times> SessionState" where
  "handleUnexpected s = (s, state s)"

definition handleNotImplemented :: "transitionEvent \<Rightarrow> Session \<Rightarrow> Session \<times> SessionState" where
  "handleNotImplemented ev s =
     (let st = state s; key = (st, teSource ev) in
      if key \<in> notImplLogged s then (s, st)
      else (s\<lparr>notImplLogged := insert key (notImplLogged s)\<rparr>, st))"

definition handleClosed :: "Session \<Rightarrow> Session \<times> SessionState" where
  "handleClosed s = (s, StateClosed)"

definition handleAbsorb :: "Session \<Rightarrow> Session \<times> SessionState" where
  "handleAbsorb s = (s, state s)"

section \<open>The transition table\<close>

datatype handler = HUnexpected | HDataFrame | HControlEvent | HSTTResult | HListeningVADEvent
  | HAwaitingFullResultVADEvent | HWithSpeechReset handler | HNotImplemented | HMarkEchoControlEvent
  | HMarkEchoTimeout | HAbsorb | HIdleTimer | HUtteranceTimeout | HTurnTimeout | HResponseReady
  | HResponseTimeout | HBedTick | HResponsePlayoutEcho | HResponsePlayoutBackstop | HClosed

fun runHandler :: "env \<Rightarrow> handler \<Rightarrow> transitionEvent \<Rightarrow> Session \<Rightarrow> Session \<times> SessionState" where
  "runHandler E HUnexpected ev s = handleUnexpected s"
| "runHandler E HDataFrame ev s = handleDataFrame ev s"
| "runHandler E HControlEvent ev s = handleControlEvent ev s"
| "runHandler E HSTTResult ev s = handleSTTResult E ev s"
| "runHandler E HListeningVADEvent ev s = handleListeningVADEvent E ev s"
| "runHandler E HAwaitingFullResultVADEvent ev s = handleAwaitingFullResultVADEvent ev s"
| "runHandler E (HWithSpeechReset h) ev s = withSpeechReset (runHandler E h) ev s"
| "runHandler E HNotImplemented ev s = handleNotImplemented ev s"
| "runHandler E HMarkEchoControlEvent ev s = handleMarkEchoControlEvent ev s"
| "runHandler E HMarkEchoTimeout ev s = handleMarkEchoTimeout s"
| "runHandler E HAbsorb ev s = handleAbsorb s"
| "runHandler E HIdleTimer ev s = handleIdleTimer E s"
| "runHandler E HUtteranceTimeout ev s = handleUtteranceTimeout E s"
| "runHandler E HTurnTimeout ev s = handleTurnTimeout E s"
| "runHandler E HResponseReady ev s = handleResponseReady E ev s"
| "runHandler E HResponseTimeout ev s = handleResponseTimeout E s"
| "runHandler E HBedTick ev s = handleBedTick E s"
| "runHandler E HResponsePlayoutEcho ev s = handleResponsePlayoutEcho ev s"
| "runHandler E HResponsePlayoutBackstop ev s = handleResponsePlayoutBackstop s"
| "runHandler E HClosed ev s = handleClosed s"

type_synonym transitionTable = "SessionState \<Rightarrow> InputSource \<Rightarrow> handler"

definition setCell :: "SessionState \<Rightarrow> InputSource \<Rightarrow> handler \<Rightarrow> transitionTable \<Rightarrow> transitionTable" where
  "setCell st src h t = t(st := (t st)(src := h))"

definition setRow :: "SessionState \<Rightarrow> handler \<Rightarrow> transitionTable \<Rightarrow> transitionTable" where
  "setRow st h t = t(st := (\<lambda>src. h))"

definition inProgressStates :: "SessionState list" where
  "inProgressStates = [StateIdle, StateListening, StateAwaitingFullResult]"

definition setTermination :: "SessionState \<Rightarrow> transitionTable \<Rightarrow> transitionTable" where
  "setTermination st t =
     setCell st SourceTurnTimer HTurnTimeout
       (setCell st SourceUtteranceTimer HUtteranceTimeout (setCell st SourceIdleTimer HIdleTimer t))"

definition buildTransitionTable :: transitionTable where
  "buildTransitionTable =
     (let t = (\<lambda>st src. HUnexpected);
          t = setCell StateIdle SourceTwilioData HDataFrame t;
          t = setCell StateIdle SourceTwilioControl HControlEvent t;
          t = setCell StateIdle SourceSTTResult HSTTResult t;
          t = setCell StateListening SourceTwilioData HDataFrame t;
          t = setCell StateListening SourceTwilioControl HControlEvent t;
          t = setCell StateListening SourceVADEvent (HWithSpeechReset HListeningVADEvent) t;
          t = setCell StateListening SourceSTTResult HSTTResult t;
          t = setRow StateTerminating HNotImplemented t;
          t = setRow StateAwaitingMarkEcho HNotImplemented t;
          t = setCell StateAwaitingMarkEcho SourceTwilioControl HMarkEchoControlEvent t;
          t = setCell StateAwaitingMarkEcho SourceMarkEchoTimer HMarkEchoTimeout t;
          t = setCell StateAwaitingMarkEcho SourceTwilioData HAbsorb t;
          t = setCell StateAwaitingMarkEcho SourceVADEvent HAbsorb t;
          t = setCell StateAwaitingMarkEcho SourceSTTResult HAbsorb t;
          t = fold setTermination inProgressStates t;
          t = setCell StateAwaitingFullResult SourceTwilioData HDataFrame t;
          t = setCell StateAwaitingFullResult SourceTwilioControl HControlEvent t;
          t = setCell StateAwaitingFullResult SourceVADEvent (HWithSpeechReset HAwaitingFullResultVADEvent) t;
          t = setCell StateAwaitingFullResult SourceSTTResult HSTTResult t;
          t = setCell StateAwaitingResponse SourceTwilioData HDataFrame t;
          t = setCell StateAwaitingResponse SourceTwilioControl HControlEvent t;
          t = setCell StateAwaitingResponse SourceSTTResult HSTTResult t;
          t = setCell StateAwaitingResponse SourceResponseReady HResponseReady t;
          t = setCell StateAwaitingResponse SourceResponseTimer HResponseTimeout t;
          t = setCell StateAwaitingResponse SourceBedTick HBedTick t;
          t = setCell StateAwaitingResponsePlayout SourceTwilioData HDataFrame t;
          t = setCell StateAwaitingResponsePlayout SourceTwilioControl HResponsePlayoutEcho t;
          t = setCell StateAwaitingResponsePlayout SourceSTTResult HSTTResult t;
          t = setCell StateAwaitingResponsePlayout SourceMarkEchoTimer HResponsePlayoutBackstop t
      in setRow StateClosed HClosed t)"

section \<open>The sequencer\<close>

definition dispatch :: "env \<Rightarrow> InputSource \<Rightarrow> payload \<Rightarrow> Session \<Rightarrow> Session" where
  "dispatch E source pay s =
     (case runHandler E (buildTransitionTable (state s) source) \<lparr>teSource = source, tePayload = pay\<rparr> s of
        (s', next) \<Rightarrow> setState next s')"

definition dispatchVADEvent :: "env \<Rightarrow> VADEvent \<Rightarrow> Session \<Rightarrow> Session" where
  "dispatchVADEvent E ev s = dispatch E SourceVADEvent (PayVAD ev) (s\<lparr>lastStreamWindow := evStreamWindowIndex ev\<rparr>)"

definition timerSource :: "string \<Rightarrow> InputSource option" where
  "timerSource name =
     (if name = timerIdle then Some SourceIdleTimer
      else if name = timerMarkEcho then Some SourceMarkEchoTimer
      else if name = timerUtterance then Some SourceUtteranceTimer
      else if name = timerResponse then Some SourceResponseTimer
      else if name = timerTurn then Some SourceTurnTimer
      else if name = timerBedTick then Some SourceBedTick
      else None)"

definition dispatchTimerCompletion :: "env \<Rightarrow> TimerCompletion \<Rightarrow> Session \<Rightarrow> Session" where
  "dispatchTimerCompletion E c s =
     (if \<not> handleIsCurrent c (timerFacility s) then s
      else case timerSource (tcName c) of
             None \<Rightarrow> s
           | Some src \<Rightarrow> dispatch E src PayNil s)"

text \<open>What can happen next.  The first seven are the cases of the sequencer's \<open>select\<close>.\<close>

datatype call_input =
    InData bytes
  | InControl ControlEvent
  | InVAD VADEvent
  | InSTT STTResult
  | InResponse ResponseEvent
  | InVerdict
  | InTimer
  | Report string string
  | DrainSTT
  | ForwardFrame
  | TimerFires string int duration
  | TimerQuits string int duration
  | TimerDelivers

fun call_step :: "env \<Rightarrow> call_input \<Rightarrow> Session \<Rightarrow> Session option" where
  "call_step E (InData frame) s = Some (dispatch E SourceTwilioData (PayFrame frame) s)"
| "call_step E (InControl cev) s = Some (dispatch E SourceTwilioControl (PayControl cev) s)"
| "call_step E (InVAD ev) s = Some (dispatchVADEvent E ev s)"
| "call_step E (InSTT res) s = Some (dispatch E SourceSTTResult (PaySTT res) s)"
| "call_step E (InResponse resp) s = Some (dispatch E SourceResponseReady (PayResponse resp) s)"
| "call_step E InVerdict s = receiveModelRoute s"
| "call_step E InTimer s =
     (case tryRecv (completions (timerFacility s)) of
        None \<Rightarrow> None
      | Some (c, ch) \<Rightarrow>
          Some (dispatchTimerCompletion E c (s\<lparr>timerFacility := (timerFacility s)\<lparr>completions := ch\<rparr>\<rparr>)))"
| "call_step E (Report tier reason) s = Some (ReportModelRoute tier reason s)"
| "call_step E DrainSTT s = drainSTTDispatch s"
| "call_step E ForwardFrame s = forwardToVAD s"
| "call_step E (TimerFires name g dur) s =
     (if (name, g, dur) \<in> set (goroutines (timerFacility s)) \<and> sending (timerFacility s) = None
      then Some (s\<lparr>timerFacility := fired name g dur (timerFacility s)\<rparr>) else None)"
| "call_step E (TimerQuits name g dur) s =
     (if (name, g, dur) \<in> set (goroutines (timerFacility s)) \<and> g \<in> cancelledCtxs (timerFacility s)
      then Some (s\<lparr>timerFacility := endGoroutine (name, g, dur) (timerFacility s)\<rparr>) else None)"
| "call_step E TimerDelivers s =
     map_option (\<lambda>tf. s\<lparr>timerFacility := tf\<rparr>) (deliverCompletion (timerFacility s))"

fun call_run :: "env \<Rightarrow> call_input list \<Rightarrow> Session \<Rightarrow> Session option" where
  "call_run E [] s = Some s"
| "call_run E (i # ins) s = (case call_step E i s of None \<Rightarrow> None | Some s' \<Rightarrow> call_run E ins s')"

text \<open>The states of a call: those reached from a started session.\<close>

inductive call_reach :: "env \<Rightarrow> Session \<Rightarrow> bool" for E :: env where
  call_start: "Start (NewSession sid opts) = (None, s) \<Longrightarrow> call_reach E s"
| call_next: "call_reach E s \<Longrightarrow> call_step E i s = Some s' \<Longrightarrow> call_reach E s'"

section \<open>The rows of the table\<close>

lemmas table_defs = buildTransitionTable_def setCell_def setRow_def setTermination_def inProgressStates_def Let_def

lemma row_Idle:
  "buildTransitionTable StateIdle src =
     (case src of SourceTwilioData \<Rightarrow> HDataFrame | SourceTwilioControl \<Rightarrow> HControlEvent
      | SourceSTTResult \<Rightarrow> HSTTResult | SourceIdleTimer \<Rightarrow> HIdleTimer
      | SourceUtteranceTimer \<Rightarrow> HUtteranceTimeout | SourceTurnTimer \<Rightarrow> HTurnTimeout | _ \<Rightarrow> HUnexpected)"
  by (cases src) (simp_all add: table_defs)

lemma row_Listening:
  "buildTransitionTable StateListening src =
     (case src of SourceTwilioData \<Rightarrow> HDataFrame | SourceTwilioControl \<Rightarrow> HControlEvent
      | SourceVADEvent \<Rightarrow> HWithSpeechReset HListeningVADEvent
      | SourceSTTResult \<Rightarrow> HSTTResult | SourceIdleTimer \<Rightarrow> HIdleTimer
      | SourceUtteranceTimer \<Rightarrow> HUtteranceTimeout | SourceTurnTimer \<Rightarrow> HTurnTimeout | _ \<Rightarrow> HUnexpected)"
  by (cases src) (simp_all add: table_defs)

lemma row_AwaitingFullResult:
  "buildTransitionTable StateAwaitingFullResult src =
     (case src of SourceTwilioData \<Rightarrow> HDataFrame | SourceTwilioControl \<Rightarrow> HControlEvent
      | SourceVADEvent \<Rightarrow> HWithSpeechReset HAwaitingFullResultVADEvent
      | SourceSTTResult \<Rightarrow> HSTTResult | SourceIdleTimer \<Rightarrow> HIdleTimer
      | SourceUtteranceTimer \<Rightarrow> HUtteranceTimeout | SourceTurnTimer \<Rightarrow> HTurnTimeout | _ \<Rightarrow> HUnexpected)"
  by (cases src) (simp_all add: table_defs)

lemma row_AwaitingResponse:
  "buildTransitionTable StateAwaitingResponse src =
     (case src of SourceTwilioData \<Rightarrow> HDataFrame | SourceTwilioControl \<Rightarrow> HControlEvent
      | SourceSTTResult \<Rightarrow> HSTTResult | SourceResponseReady \<Rightarrow> HResponseReady
      | SourceResponseTimer \<Rightarrow> HResponseTimeout | SourceBedTick \<Rightarrow> HBedTick | _ \<Rightarrow> HUnexpected)"
  by (cases src) (simp_all add: table_defs)

lemma row_AwaitingResponsePlayout:
  "buildTransitionTable StateAwaitingResponsePlayout src =
     (case src of SourceTwilioData \<Rightarrow> HDataFrame | SourceTwilioControl \<Rightarrow> HResponsePlayoutEcho
      | SourceSTTResult \<Rightarrow> HSTTResult | SourceMarkEchoTimer \<Rightarrow> HResponsePlayoutBackstop | _ \<Rightarrow> HUnexpected)"
  by (cases src) (simp_all add: table_defs)

lemma row_Terminating: "buildTransitionTable StateTerminating src = HNotImplemented"
  by (cases src) (simp_all add: table_defs)

lemma row_AwaitingMarkEcho:
  "buildTransitionTable StateAwaitingMarkEcho src =
     (case src of SourceTwilioControl \<Rightarrow> HMarkEchoControlEvent | SourceMarkEchoTimer \<Rightarrow> HMarkEchoTimeout
      | SourceTwilioData \<Rightarrow> HAbsorb | SourceVADEvent \<Rightarrow> HAbsorb | SourceSTTResult \<Rightarrow> HAbsorb | _ \<Rightarrow> HNotImplemented)"
  by (cases src) (simp_all add: table_defs)

lemma row_Closed: "buildTransitionTable StateClosed src = HClosed"
  by (cases src) (simp_all add: table_defs)

lemmas table_rows = row_Idle row_Listening row_AwaitingFullResult row_AwaitingResponse
  row_AwaitingResponsePlayout row_Terminating row_AwaitingMarkEcho row_Closed

end
