(* ===== verification/CallInv.thy ===== *)
theory CallInv
  imports State
begin

text \<open>
  The session's safety invariant: which timers are pending in which state, and what the turn flags say.
\<close>

section \<open>Effects of the helpers\<close>

lemma timer_names_distinct [simp]:
  "timerIdle \<noteq> timerMarkEcho" "timerIdle \<noteq> timerUtterance" "timerIdle \<noteq> timerResponse" "timerIdle \<noteq> timerTurn"
  "timerIdle \<noteq> timerBedTick" "timerMarkEcho \<noteq> timerIdle" "timerMarkEcho \<noteq> timerUtterance"
  "timerMarkEcho \<noteq> timerResponse" "timerMarkEcho \<noteq> timerTurn" "timerMarkEcho \<noteq> timerBedTick"
  "timerUtterance \<noteq> timerIdle" "timerUtterance \<noteq> timerMarkEcho" "timerUtterance \<noteq> timerResponse"
  "timerUtterance \<noteq> timerTurn" "timerUtterance \<noteq> timerBedTick" "timerResponse \<noteq> timerIdle"
  "timerResponse \<noteq> timerMarkEcho" "timerResponse \<noteq> timerUtterance" "timerResponse \<noteq> timerTurn"
  "timerResponse \<noteq> timerBedTick" "timerTurn \<noteq> timerIdle" "timerTurn \<noteq> timerMarkEcho"
  "timerTurn \<noteq> timerUtterance" "timerTurn \<noteq> timerResponse" "timerTurn \<noteq> timerBedTick"
  "timerBedTick \<noteq> timerIdle" "timerBedTick \<noteq> timerMarkEcho" "timerBedTick \<noteq> timerUtterance"
  "timerBedTick \<noteq> timerResponse" "timerBedTick \<noteq> timerTurn"
  by (simp_all add: timer_names)

fun sentFrames :: "env \<Rightarrow> bytes list \<Rightarrow> nat \<Rightarrow> effect list" where
  "sentFrames E [] n = []"
| "sentFrames E (f # fs) n = EffData f (sendOK E n) # (if sendOK E n then sentFrames E fs (Suc n) else [])"

lemma sendFrames_eq: "sendFrames E fs s = s\<lparr>outs := outs s @ sentFrames E fs (length (outs s))\<rparr>"
  by (induction fs arbitrary: s) (auto simp: sendData_def emit_def Let_def)

text \<open>
  Every helper is one update of the session, so that the fields it leaves alone are visible to the
  simplifier.  \<open>added f s\<close> is what \<open>f\<close> appends to the log.
\<close>

definition added :: "(Session \<Rightarrow> Session) \<Rightarrow> Session \<Rightarrow> effect list" where
  "added f s = drop (length (outs s)) (outs (f s))"

lemma emit_when [simp]: "(if c then emit e s else s) = s\<lparr>outs := outs s @ (if c then [e] else [])\<rparr>"
  by (simp add: emit_def)

lemmas record_defs = recordEvent_def recordVADDecision_def recordCap_def recordEndOfUtterance_def
  recordTurnEnd_def recordStopwordTurnEnd_def emit_def

lemma recordTurnEnd_eq: "recordTurnEnd ev s = s\<lparr>outs := outs s @ added (recordTurnEnd ev) s\<rparr>"
  by (simp add: added_def record_defs)

lemma recordEndOfUtterance_eq:
  "recordEndOfUtterance ev d s = s\<lparr>outs := outs s @ added (recordEndOfUtterance ev d) s\<rparr>"
  by (simp add: added_def record_defs)

lemma recordVADDecision_eq:
  "recordVADDecision k p v ev eff r s = s\<lparr>outs := outs s @ added (recordVADDecision k p v ev eff r) s\<rparr>"
  by (simp add: added_def record_defs)

lemma recordTurnCompletion_eq:
  "recordTurnCompletion tr s = s\<lparr>outs := outs s @ added (recordTurnCompletion tr) s\<rparr>"
  by (cases tr) (simp_all add: added_def record_defs recordTurnCompletion_def)

lemma recordSTTResult_eq:
  "recordSTTResult E res s = s\<lparr>sttDispatchTimes := (sttDispatchTimes s)(resRequestID res := None),
     outs := outs s @ added (recordSTTResult E res) s\<rparr>"
  by (cases "sttDispatchTimes s (resRequestID res)") (auto simp: added_def record_defs recordSTTResult_def fun_upd_idem)

lemma dispatchSTT_eq:
  "dispatchSTT E kind audio s = s\<lparr>
     sttReqID := (if sttIn s then sttReqID s + 1 else sttReqID s),
     sttDispatchCh := (if sttIn s
       then (case trySend (sttDispatchCh s) \<lparr>reqSessionID = CallSID s, reqRequestID = sttReqID s + 1, reqKind = kind, reqAudio = audio\<rparr>
             of Some ch \<Rightarrow> ch | None \<Rightarrow> sttDispatchCh s)
       else sttDispatchCh s),
     sttDispatchTimes := (if sttIn s \<and> chan_room (sttDispatchCh s)
       then (sttDispatchTimes s)(sttReqID s + 1 \<mapsto> clockNow E (length (outs s))) else sttDispatchTimes s),
     outs := outs s @ added (dispatchSTT E kind audio) s\<rparr>"
  by (auto simp: added_def record_defs recordSTTDispatch_def dispatchSTT_def Let_def trySend_def)

lemma flushTurnTranscripts_eq:
  "flushTurnTranscripts tr s = s\<lparr>
     transcriptTurns := transcriptTurns s @ (if turnTranscripts s = [] then [] else [turnTranscripts s]),
     turnTranscripts := [],
     outs := outs s @ (if turnTranscripts s \<noteq> [] \<and> turnSinkWired s
       then [EffOnTurnComplete (joinWith '' '' (turnTranscripts s)) tr] else [])\<rparr>"
  by (simp add: flushTurnTranscripts_def Let_def emit_def)

lemma completeTurn_eq:
  "completeTurn tr s = s\<lparr>
     routeReported := (tr = TriggerCallEnd \<and> routeReported s),
     turnEndAudioMS := (if tr = TriggerCallEnd then turnEndAudioMS s else audioPos s),
     transcriptTurns := transcriptTurns s @ (if turnTranscripts s = [] then [] else [turnTranscripts s]),
     turnTranscripts := [],
     turnActive := False,
     turnEndPending := False,
     timerFacility := handleCancel timerTurn (timerFacility s),
     outs := outs s @ added (completeTurn tr) s\<rparr>"
  by (simp add: completeTurn_def openTurnToRouteVerdict_def flushTurnTranscripts_eq recordTurnCompletion_eq
      cancelTurnTimer_def cancelNamed_def added_def [of "completeTurn tr"] Let_def)

definition terminateEffects :: "env \<Rightarrow> bytes \<Rightarrow> Session \<Rightarrow> effect list" where
  "terminateEffects E clip s = added (\<lambda>s. fst (terminateWithClip E clip s)) s"

lemma terminateWithClip_eq:
  "terminateWithClip E clip s = (s\<lparr>
     state := StateAwaitingMarkEcho,
     timerFacility := armTimer timerMarkEcho (MarkEchoTimeout clip) (timerFacility s),
     outs := outs s @ terminateEffects E clip s\<rparr>, StateAwaitingMarkEcho)"
  by (simp add: terminateWithClip_def sendClip_def sendFrames_eq setState_def sendMarkAndArmEcho_def sendControl_def
      armMarkEchoTimer_def armNamed_def emit_def terminateEffects_def added_def Let_def)

lemma sendBedChunk_eq:
  "sendBedChunk E s = s\<lparr>
     bedOffset := (if dataOut s \<and> LLMThinkingULaw E \<noteq> []
       then fst (bedChunk_loop (LLMThinkingULaw E) (bedOffset s) []) else bedOffset s),
     outs := outs s @ added (sendBedChunk E) s\<rparr>"
  by (simp add: sendBedChunk_def sendData_def emit_def added_def Let_def case_prod_unfold)

lemma sendControlClear_eq: "sendControlClear E s = s\<lparr>outs := outs s @ added (sendControlClear E) s\<rparr>"
  by (simp add: sendControlClear_def sendControl_def emit_def added_def)

lemma sendResponseFrames_eq:
  "sendResponseFrames E frames s = s\<lparr>outs := outs s @ added (sendResponseFrames E frames) s\<rparr>"
  by (simp add: sendResponseFrames_def sendFrames_eq added_def)

lemma sendResponseMarkAndArmEcho_eq:
  "sendResponseMarkAndArmEcho E frames s = s\<lparr>
     timerFacility := armTimer timerMarkEcho (responseMarkEchoTimeout frames) (timerFacility s),
     outs := outs s @ added (sendResponseMarkAndArmEcho E frames) s\<rparr>"
  by (simp add: sendResponseMarkAndArmEcho_def sendControl_def armResponseMarkEchoTimer_def armNamed_def emit_def
      added_def Let_def)

lemma closeTransport_eq:
  "closeTransport s = s\<lparr>timerFacility := handleCancel timerMarkEcho (timerFacility s),
     outs := outs s @ (if closeFunc s then [EffCloseTransport] else [])\<rparr>"
  by (simp add: closeTransport_def cancelMarkEchoTimer_def cancelNamed_def)

lemma setState_eq:
  "setState st s = s\<lparr>state := st, closedCh := closedCh s \<or> st = StateClosed, outs := outs s @ [EffState st]\<rparr>"
  by (simp add: setState_def emit_def Let_def)

lemmas step_eqs = recordTurnEnd_eq recordEndOfUtterance_eq recordVADDecision_eq recordSTTResult_eq dispatchSTT_eq
  completeTurn_eq terminateWithClip_eq sendBedChunk_eq sendControlClear_eq sendResponseFrames_eq
  sendResponseMarkAndArmEcho_eq closeTransport_eq setState_eq

lemmas state_handlers = handleIdleTimer_def handleUtteranceTimeout_def handleTurnTimeout_def
  handleResponseReady_def handleResponseTimeout_def handleBedTick_def handleResponsePlayoutEcho_def
  handleResponsePlayoutBackstop_def handleMarkEchoControlEvent_def handleMarkEchoTimeout_def
  handleUnexpected_def handleNotImplemented_def handleClosed_def handleAbsorb_def

lemmas arm_cancel = session_timer_defs armNamed_def cancelNamed_def

section \<open>The invariant\<close>

text \<open>Which timers are pending in which state.\<close>

definition timers_ok :: "SessionState \<Rightarrow> (string \<Rightarrow> bool) \<Rightarrow> bool" where
  "timers_ok st P =
     (let quiet = \<not> P timerMarkEcho \<and> \<not> P timerResponse \<and> \<not> P timerBedTick in
      case st of
        StateIdle \<Rightarrow> (P timerIdle \<or> P timerUtterance) \<and> quiet
      | StateListening \<Rightarrow> (P timerIdle \<or> P timerUtterance) \<and> quiet
      | StateAwaitingFullResult \<Rightarrow> (P timerIdle \<or> P timerUtterance) \<and> quiet
      | StateAwaitingResponse \<Rightarrow> P timerResponse \<and> P timerBedTick \<and> \<not> P timerIdle \<and> \<not> P timerMarkEcho
      | StateAwaitingResponsePlayout \<Rightarrow> P timerMarkEcho \<and> \<not> P timerIdle \<and> \<not> P timerResponse \<and> \<not> P timerBedTick
      | StateTerminating \<Rightarrow> False
      | StateAwaitingMarkEcho \<Rightarrow> P timerMarkEcho \<and> \<not> P timerResponse \<and> \<not> P timerBedTick
      | StateClosed \<Rightarrow> True)"

definition flags_ok :: "SessionState \<Rightarrow> (string \<Rightarrow> bool) \<Rightarrow> bool \<Rightarrow> bool \<Rightarrow> bool" where
  "flags_ok st P active pend \<longleftrightarrow>
     (P timerTurn \<longleftrightarrow> active) \<and>
     (active \<longrightarrow> st = StateListening \<or> st = StateAwaitingFullResult) \<and>
     (pend \<longrightarrow> st = StateAwaitingFullResult)"

definition call_inv :: "Session \<Rightarrow> bool" where
  "call_inv s \<longleftrightarrow> tf_inv (timerFacility s) \<and>
     timers_ok (state s) (tf_pending (timerFacility s)) \<and>
     flags_ok (state s) (tf_pending (timerFacility s)) (turnActive s) (turnEndPending s) \<and>
     (closedCh s \<longleftrightarrow> state s = StateClosed)"

lemmas timer_laws = tfs.pending_arm tfs.pending_cancel tfs.invar_arm tfs.invar_cancel


section \<open>The handlers keep the invariant\<close>

definition settle :: "Session \<times> SessionState \<Rightarrow> Session" where
  "settle r = setState (snd r) (fst r)"

lemma dispatch_settle:
  "dispatch E src pay s =
     settle (runHandler E (buildTransitionTable (state s) src) \<lparr>teSource = src, tePayload = pay\<rparr> s)"
  by (simp add: dispatch_def settle_def case_prod_unfold)

lemmas inv_defs = call_inv_def settle_def timers_ok_def flags_ok_def timer_laws Let_def

lemma inv_same_state: "call_inv s \<Longrightarrow> call_inv (settle (s, state s))"
  by (simp add: inv_defs step_eqs)

lemma inv_state: "call_inv s \<Longrightarrow> state s = st \<Longrightarrow> call_inv (settle (s, st))"
  using inv_same_state by blast

lemma inv_not_Terminating: "call_inv s \<Longrightarrow> state s \<noteq> StateTerminating"
  by (auto simp: call_inv_def timers_ok_def Let_def)

lemma inv_DataFrame: "call_inv s \<Longrightarrow> call_inv (settle (handleDataFrame ev s))"
  by (cases "state s") (simp_all add: inv_defs step_eqs handleDataFrame_def split: option.split)

lemma inv_ControlEvent: "call_inv s \<Longrightarrow> call_inv (settle (handleControlEvent ev s))"
  by (cases "state s") (simp_all add: inv_defs step_eqs handleControlEvent_def)

lemma inv_SpeechOnset:
  "call_inv s \<Longrightarrow> state s = StateListening \<or> state s = StateAwaitingFullResult \<Longrightarrow>
     call_inv (settle (handleSpeechOnset ev s))"
  by (cases "turnActive s") (auto simp: inv_defs step_eqs arm_cancel handleSpeechOnset_def)

lemma inv_enterAwaitingResponse:
  "call_inv s \<Longrightarrow> state s = StateListening \<or> state s = StateAwaitingFullResult \<Longrightarrow>
     call_inv (settle (enterAwaitingResponse (completeTurn tr s)))"
  by (auto simp: inv_defs step_eqs arm_cancel enterAwaitingResponse_def)

lemma inv_record: "call_inv (recordVADDecision k p v ev eff r s) = call_inv s" "call_inv (recordTurnEnd ev s) = call_inv s"
  by (simp_all add: call_inv_def step_eqs)

lemma state_record [simp]:
  "state (recordVADDecision k p v ev eff r s) = state s" "state (recordTurnEnd ev s) = state s"
  by (simp_all add: step_eqs)

lemma inv_ListeningVAD:
  "call_inv s \<Longrightarrow> state s = StateListening \<Longrightarrow> call_inv (settle (handleListeningVADEvent E ev s))"
  by (auto simp: inv_defs step_eqs arm_cancel handleListeningVADEvent_def dispatchFullPass_def onUtteranceEnd_def)

lemma inv_AwaitingFullResultVAD:
  "call_inv s \<Longrightarrow> state s = StateAwaitingFullResult \<Longrightarrow> call_inv (settle (handleAwaitingFullResultVADEvent ev s))"
  by (auto simp: inv_defs step_eqs arm_cancel handleAwaitingFullResultVADEvent_def onUtteranceEnd_def)

lemma inv_withSpeechReset:
  assumes inv: "call_inv s" and st: "state s = StateListening \<or> state s = StateAwaitingFullResult"
    and h: "\<And>s'. call_inv s' \<Longrightarrow> state s' = state s \<Longrightarrow> call_inv (settle (h ev s'))"
  shows "call_inv (settle (withSpeechReset h ev s))"
proof (cases "tePayload ev")
  case (PayVAD vev)
  have pend: "call_inv (settle (s\<lparr>turnEndPending := True, turnEndEvent := vev\<rparr>, state s))"
    if "state s = StateAwaitingFullResult"
    using inv that by (simp add: inv_defs step_eqs)
  have "call_inv (settle (enterAwaitingResponse (completeTurn TriggerSilenceTurnEnd (recordTurnEnd vev s))))"
    using inv st by (intro inv_enterAwaitingResponse) (simp_all add: inv_record)
  with PayVAD pend h inv inv_SpeechOnset [OF inv st] show ?thesis
    by (cases "evKind vev") (simp_all add: withSpeechReset_def inv_record Let_def)
qed (use h [OF inv] in \<open>simp_all add: withSpeechReset_def\<close>)

lemma inv_transcripts: "call_inv (s\<lparr>turnTranscripts := ts\<rparr>) = call_inv s"
  by (simp add: call_inv_def)

lemma inv_acceptFullPass:
  assumes inv: "call_inv s"
  shows "call_inv (settle (case acceptFullPass res s of (done, s') \<Rightarrow>
    if state s' = StateAwaitingFullResult then (if done then enterAwaitingResponse s' else (s', StateListening))
    else (s', state s')))"
proof (cases "state s = StateAwaitingFullResult")
  case True
  let ?s = "s\<lparr>turnTranscripts := turnTranscripts s @ [trimSpace (resText res)]\<rparr>"
  have "call_inv (settle (enterAwaitingResponse (completeTurn TriggerStopword s)))"
    using inv True by (intro inv_enterAwaitingResponse) simp_all
  moreover have "call_inv (settle (enterAwaitingResponse
      (completeTurn TriggerSilenceTurnEnd (recordTurnEnd (turnEndEvent s) ?s))))"
    using inv True by (intro inv_enterAwaitingResponse) (simp_all add: inv_record inv_transcripts)
  moreover have "call_inv (settle (?s, StateListening))" if "\<not> turnEndPending s"
    using inv True that by (simp add: inv_defs step_eqs)
  ultimately show ?thesis
    using True by (simp add: acceptFullPass_def step_eqs Let_def)
next
  case False
  have "\<not> turnEndPending s" using inv False by (simp add: call_inv_def flags_ok_def)
  moreover have "call_inv (settle (completeTurn TriggerStopword s, state s))"
    using inv False by (cases "state s") (simp_all add: inv_defs step_eqs)
  moreover have "call_inv (settle (s\<lparr>turnTranscripts := turnTranscripts s @ [trimSpace (resText res)]\<rparr>, state s))"
    using inv by (simp add: inv_defs step_eqs)
  ultimately show ?thesis
    using False by (simp add: acceptFullPass_def step_eqs Let_def)
qed

lemma inv_STTResult:
  assumes "call_inv s"
  shows "call_inv (settle (handleSTTResult E ev s))"
proof -
  define res where "res = asSTT (tePayload ev)"
  define s1 where "s1 = recordSTTResult E res s"
  have s1: "call_inv s1" "state s1 = state s"
    using assms by (simp_all add: s1_def call_inv_def step_eqs)
  have times: "call_inv (settle (s\<lparr>sttDispatchTimes := m\<rparr>, state s))" for m
    using assms by (simp add: inv_defs step_eqs)
  show ?thesis
    using inv_acceptFullPass [OF s1(1), of res] inv_same_state [OF s1(1)] inv_same_state [OF assms] times
    by (auto simp: handleSTTResult_def res_def [symmetric] s1_def [symmetric] Let_def case_prod_unfold s1(2)
        split: if_splits)
qed

text \<open>A timer's completion has just been received: the timer was pending and no longer is.\<close>

definition received_inv :: "string \<Rightarrow> Session \<Rightarrow> bool" where
  "received_inv n s \<longleftrightarrow> (\<exists>P. tf_inv (timerFacility s) \<and> timers_ok (state s) P \<and>
     flags_ok (state s) P (turnActive s) (turnEndPending s) \<and> P n \<and>
     (\<forall>m. tf_pending (timerFacility s) m \<longleftrightarrow> P m \<and> m \<noteq> n) \<and> (closedCh s \<longleftrightarrow> state s = StateClosed))"

lemma inv_timer:
  assumes "received_inv n s" "timerSource n = Some src"
  shows "call_inv (dispatch E src PayNil s)"
  using assms
  by (cases "state s")
    (auto simp: dispatch_settle table_rows received_inv_def timerSource_def inv_defs step_eqs arm_cancel
      state_handlers split: if_splits)

lemma inv_response: "call_inv s \<Longrightarrow> call_inv (dispatch E SourceResponseReady pay s)"
  by (cases "state s")
    (auto simp: dispatch_settle table_rows inv_defs step_eqs arm_cancel state_handlers)

lemma inv_control: "call_inv s \<Longrightarrow> call_inv (dispatch E SourceTwilioControl pay s)"
proof (cases "state s")
  case StateAwaitingResponsePlayout
  then show "call_inv s \<Longrightarrow> ?thesis"
    by (auto simp: dispatch_settle table_rows inv_defs step_eqs arm_cancel state_handlers)
next
  case StateAwaitingMarkEcho
  then show "call_inv s \<Longrightarrow> ?thesis"
    by (auto simp: dispatch_settle table_rows inv_defs step_eqs arm_cancel state_handlers)
qed (simp_all add: dispatch_settle table_rows inv_ControlEvent,
  simp_all add: inv_defs step_eqs state_handlers)

lemma inv_closed: "call_inv s \<Longrightarrow> state s = StateClosed \<Longrightarrow> call_inv (settle (handleClosed s))"
  by (simp add: handleClosed_def inv_defs step_eqs)

lemma inv_data: "call_inv s \<Longrightarrow> call_inv (dispatch E SourceTwilioData pay s)"
  by (cases "state s")
    (simp_all add: dispatch_settle table_rows inv_DataFrame inv_closed handleAbsorb_def inv_state inv_not_Terminating)

lemma inv_stt: "call_inv s \<Longrightarrow> call_inv (dispatch E SourceSTTResult pay s)"
  by (cases "state s")
    (simp_all add: dispatch_settle table_rows inv_STTResult inv_closed handleAbsorb_def inv_state inv_not_Terminating)

lemma inv_vad: "call_inv s \<Longrightarrow> call_inv (dispatch E SourceVADEvent pay s)"
  by (cases "state s")
    (simp_all add: dispatch_settle table_rows inv_withSpeechReset inv_ListeningVAD inv_AwaitingFullResultVAD
      inv_closed handleAbsorb_def handleUnexpected_def inv_state inv_not_Terminating)

definition session_timers :: "string set" where
  "session_timers = {timerIdle, timerMarkEcho, timerUtterance, timerResponse, timerTurn, timerBedTick}"

lemma inv_cong:
  assumes "\<And>m. m \<in> session_timers \<Longrightarrow> P m = Q m"
  shows "timers_ok st P = timers_ok st Q" "flags_ok st P a b = flags_ok st Q a b"
  using assms by (cases st; simp add: session_timers_def timers_ok_def Let_def)
    (simp add: assms session_timers_def flags_ok_def)

lemma call_inv_frame:
  "timerFacility s' = timerFacility s \<Longrightarrow> state s' = state s \<Longrightarrow> turnActive s' = turnActive s \<Longrightarrow>
   turnEndPending s' = turnEndPending s \<Longrightarrow> closedCh s' = closedCh s \<Longrightarrow> call_inv s' = call_inv s"
  by (simp add: call_inv_def)

lemma pending_current:
  assumes inv: "tf_inv tf" and r: "tryRecv (completions tf) = Some (c, ch)" and cur: "handleIsCurrent c tf"
  shows "tf_pending tf (tcName c)"
proof -
  have und: "tc_key c \<in> set (map tc_key (undelivered tf))"
    using undelivered_receive [OF r] by simp
  then have "tc_key c \<in> set (settledTimers tf)"
    using tf_invD(3) [OF inv] set_mono_suffix unfolding queue_ok_def by blast
  then have "tcTimerID c \<in> set (map snd (settledTimers tf))"
    by (metis image_eqI list.set_map snd_conv tc_key_def)
  then have "2 \<le> tcTimerID c" using tf_inv_gens(3) [OF inv] by blast
  with cur have "activeTimers tf (tcName c) = Some (tcTimerID c)"
    by (simp add: handleIsCurrent_def map_read_eq)
  with und show ?thesis by (simp add: tf_pending_def tc_key_def del: set_map)
qed

lemma inv_completion:
  assumes inv: "call_inv s" and r: "tryRecv (completions (timerFacility s)) = Some (c, ch)"
  shows "call_inv (dispatchTimerCompletion E c (s\<lparr>timerFacility := (timerFacility s)\<lparr>completions := ch\<rparr>\<rparr>))"
proof -
  let ?tf = "timerFacility s"
  let ?s = "s\<lparr>timerFacility := ?tf\<lparr>completions := ch\<rparr>\<rparr>"
  have tf: "tf_inv ?tf" using inv by (simp add: call_inv_def)
  note p = pending_receive [OF tf r]
  have tf': "tf_inv (?tf\<lparr>completions := ch\<rparr>)" by (rule tf_inv_receive [OF tf r])
  have cur: "handleIsCurrent c (?tf\<lparr>completions := ch\<rparr>) = handleIsCurrent c ?tf"
    by (simp add: handleIsCurrent_def)
  show ?thesis
  proof (cases "handleIsCurrent c ?tf")
    case False
    with p have "tf_pending (?tf\<lparr>completions := ch\<rparr>) = tf_pending ?tf" by (simp add: fun_eq_iff)
    with False inv tf' cur show ?thesis by (simp add: dispatchTimerCompletion_def call_inv_def)
  next
    case True
    have was: "tf_pending ?tf (tcName c)" by (rule pending_current [OF tf r True])
    show ?thesis
    proof (cases "timerSource (tcName c)")
      case None
      then have "tcName c \<notin> session_timers"
        by (auto simp: timerSource_def session_timers_def split: if_splits)
      with p have "tf_pending (?tf\<lparr>completions := ch\<rparr>) m = tf_pending ?tf m" if "m \<in> session_timers" for m
        using that by auto
      from inv_cong [OF this] None True inv tf' cur show ?thesis
        by (simp add: dispatchTimerCompletion_def call_inv_def)
    next
      case (Some src)
      have "received_inv (tcName c) ?s"
        unfolding received_inv_def using inv tf' was p True
        by (intro exI [of _ "tf_pending ?tf"]) (auto simp: call_inv_def)
      from inv_timer [OF this Some] Some True cur show ?thesis by (simp add: dispatchTimerCompletion_def)
    qed
  qed
qed

lemma call_inv_tf:
  "call_inv s \<Longrightarrow> tf_inv tf \<Longrightarrow> tf_pending tf = tf_pending (timerFacility s) \<Longrightarrow> call_inv (s\<lparr>timerFacility := tf\<rparr>)"
  by (simp add: call_inv_def)

lemma inv_step:
  assumes inv: "call_inv s" and st: "call_step E i s = Some s'"
  shows "call_inv s'"
proof -
  have tf: "tf_inv (timerFacility s)" using inv by (simp add: call_inv_def)
  show ?thesis
  proof (cases i)
    case (InVAD ev)
    have "call_inv (s\<lparr>lastStreamWindow := evStreamWindowIndex ev\<rparr>)" using inv by (simp add: call_inv_def)
    with InVAD st inv_vad show ?thesis by (auto simp: dispatchVADEvent_def)
  next
    case InTimer
    with st inv_completion [OF inv] show ?thesis by (auto split: option.splits)
  next
    case (TimerFires n g dur)
    then have go: "(n, g, dur) \<in> set (goroutines (timerFacility s))" "sending (timerFacility s) = None"
      and s': "s' = s\<lparr>timerFacility := fired n g dur (timerFacility s)\<rparr>"
      using st by (simp_all split: if_splits)
    show ?thesis unfolding s' by (intro call_inv_tf inv tf_inv_fired pending_fired tf go)
  next
    case (TimerQuits n g dur)
    then have go: "(n, g, dur) \<in> set (goroutines (timerFacility s))" "g \<in> cancelledCtxs (timerFacility s)"
      and s': "s' = s\<lparr>timerFacility := endGoroutine (n, g, dur) (timerFacility s)\<rparr>"
      using st by (simp_all split: if_splits)
    have old: "activeTimers (timerFacility s) n \<noteq> Some g"
      using owners_okD(5) [OF tf_invD(2) [OF tf]] go(2) by blast
    show ?thesis unfolding s' by (intro call_inv_tf inv tf_inv_endGoroutine pending_endGoroutine tf go(1) old)
  next
    case TimerDelivers
    then obtain tf' where d: "deliverCompletion (timerFacility s) = Some tf'" "s' = s\<lparr>timerFacility := tf'\<rparr>"
      using st by auto
    show ?thesis unfolding d(2) by (intro call_inv_tf inv tf_inv_deliver [OF tf d(1)] pending_deliver d(1))
  next
    case (Report tier reason)
    with st inv show ?thesis by (auto simp: ReportModelRoute_def call_inv_def split: option.splits)
  next
    case InVerdict
    with st inv show ?thesis
      by (auto simp: receiveModelRoute_def recordModelRoute_def record_defs call_inv_def split: option.splits if_splits)
  next
    case DrainSTT
    with st inv show ?thesis by (auto simp: drainSTTDispatch_def emit_def call_inv_def split: option.splits)
  next
    case ForwardFrame
    with st inv show ?thesis by (auto simp: forwardToVAD_def emit_def call_inv_def split: option.splits)
  qed (use st inv in \<open>auto simp: inv_data inv_control inv_stt inv_response\<close>)
qed

section \<open>Every reachable state satisfies it\<close>

text \<open>Options set wiring and bounds only.\<close>

lemma applyOption_frame:
  "state (applyOption o1 s) = state s \<and> turnActive (applyOption o1 s) = turnActive s \<and>
   turnEndPending (applyOption o1 s) = turnEndPending s \<and> closedCh (applyOption o1 s) = closedCh s \<and>
   turnTranscripts (applyOption o1 s) = turnTranscripts s \<and> transcriptTurns (applyOption o1 s) = transcriptTurns s \<and>
   turnBuf (applyOption o1 s) = turnBuf s \<and> sttReqID (applyOption o1 s) = sttReqID s \<and>
   sttDispatchCh (applyOption o1 s) = sttDispatchCh s \<and> outs (applyOption o1 s) = outs s \<and>
   started (applyOption o1 s) = started s \<and> bedOffset (applyOption o1 s) = bedOffset s \<and>
   routeReported (applyOption o1 s) = routeReported s \<and> modelRouteCh (applyOption o1 s) = modelRouteCh s \<and>
   forwardCh (applyOption o1 s) = forwardCh s \<and> CallSID (applyOption o1 s) = CallSID s"
  by (cases o1) simp_all

lemma applyOptions_frame:
  "state (fold applyOption opts s) = state s \<and> turnActive (fold applyOption opts s) = turnActive s \<and>
   turnEndPending (fold applyOption opts s) = turnEndPending s \<and> closedCh (fold applyOption opts s) = closedCh s \<and>
   turnTranscripts (fold applyOption opts s) = turnTranscripts s \<and>
   transcriptTurns (fold applyOption opts s) = transcriptTurns s \<and>
   turnBuf (fold applyOption opts s) = turnBuf s \<and> sttReqID (fold applyOption opts s) = sttReqID s \<and>
   sttDispatchCh (fold applyOption opts s) = sttDispatchCh s \<and> outs (fold applyOption opts s) = outs s \<and>
   started (fold applyOption opts s) = started s \<and> bedOffset (fold applyOption opts s) = bedOffset s \<and>
   routeReported (fold applyOption opts s) = routeReported s \<and> modelRouteCh (fold applyOption opts s) = modelRouteCh s \<and>
   forwardCh (fold applyOption opts s) = forwardCh s \<and> CallSID (fold applyOption opts s) = CallSID s"
  by (induction opts arbitrary: s) (simp_all add: applyOption_frame)

lemma NewSession_frame [simp]:
  "state (NewSession sid opts) = StateIdle" "\<not> turnActive (NewSession sid opts)" "\<not> turnEndPending (NewSession sid opts)"
  "\<not> closedCh (NewSession sid opts)" "turnTranscripts (NewSession sid opts) = []"
  "transcriptTurns (NewSession sid opts) = []" "turnBuf (NewSession sid opts) = []" "sttReqID (NewSession sid opts) = 0"
  "sttDispatchCh (NewSession sid opts) = newBufferedChan sttDispatchDepth" "outs (NewSession sid opts) = []"
  "\<not> started (NewSession sid opts)" "bedOffset (NewSession sid opts) = 0" "\<not> routeReported (NewSession sid opts)"
  "modelRouteCh (NewSession sid opts) = newBufferedChan modelRouteDepth" "CallSID (NewSession sid opts) = sid"
  "timerFacility (NewSession sid opts) = newTimerFacility"
  by (simp_all add: NewSession_def Let_def applyOptions_frame)

text \<open>What a successful \<open>Start\<close> does to a new session.\<close>

lemma Start_eq:
  assumes "Start s = (None, s')" "\<not> started s"
  shows "s' = (armIdleTimer (s\<lparr>turnSinkWired := True, vadCfg := withDefaults (vadCfg s)\<rparr>))\<lparr>started := True\<rparr>"
    "validateOrdering (vadCfg s') MaxSilenceMS = Inr ()"
proof -
  from assms have f: "vadFactory s = Some (Inr ())"
    by (cases "vadFactory s"; cases "the (vadFactory s)") (simp_all add: Start_def)
  have v: "validateOrdering (withDefaults (vadCfg s)) MaxSilenceMS = Inr ()"
    using assms f by (cases "validateOrdering (withDefaults (vadCfg s)) MaxSilenceMS") (simp_all add: Start_def Let_def)
  show s': "s' = (armIdleTimer (s\<lparr>turnSinkWired := True, vadCfg := withDefaults (vadCfg s)\<rparr>))\<lparr>started := True\<rparr>"
    using assms f v by (simp add: Start_def Let_def)
  show "validateOrdering (vadCfg s') MaxSilenceMS = Inr ()"
    using v by (simp add: s' armIdleTimer_def armNamed_def)
qed

lemma pending_new: "\<not> tf_pending newTimerFacility m"
  by (simp add: tf_pending_def newTimerFacility_def)

lemma inv_start: "Start (NewSession sid opts) = (None, s) \<Longrightarrow> call_inv s"
  by (drule Start_eq(1)) (simp_all add: call_inv_def timers_ok_def flags_ok_def arm_cancel timer_laws pending_new tf_inv_init)

lemma reach_inv: "call_reach E s \<Longrightarrow> call_inv s"
  by (induction rule: call_reach.induct) (blast intro: inv_start inv_step)+

lemma run_reach: "call_reach E s \<Longrightarrow> call_run E ins s = Some s' \<Longrightarrow> call_reach E s'"
proof (induction ins arbitrary: s)
  case (Cons i ins)
  then show ?case by (auto split: option.splits intro: call_reach.call_next)
qed simp

end
