(* ===== verification/CallTurns.thy ===== *)
theory CallTurns
  imports CallProps
begin

text \<open>
  Transcripts and audio across a call: what the turn sink is told is what the recogniser returned, and
  what the recogniser is sent is what the caller said.
\<close>

section \<open>Invariants that do not depend on timers\<close>

text \<open>
  A property that \<open>dispatch\<close> keeps and that none of the other moves of a call can break (a new VAD
  position, any change of the timer facility, a recorded verdict, a relayed request or frame) holds in
  every reachable state.
\<close>

locale call_invariant =
  fixes E :: env and Q :: "Session \<Rightarrow> bool"
  assumes Q_start: "Start (NewSession sid opts) = (None, s) \<Longrightarrow> Q s"
    and Q_dispatch: "Q s \<Longrightarrow> Q (dispatch E src pay s)"
    and Q_window: "Q s \<Longrightarrow> Q (s\<lparr>lastStreamWindow := x\<rparr>)"
    and Q_timers: "Q s \<Longrightarrow> Q (s\<lparr>timerFacility := tf\<rparr>)"
    and Q_verdict: "Q s \<Longrightarrow> Q (s\<lparr>modelRouteCh := ch, routeReported := b, outs := outs s @ map EffRecord evs\<rparr>)"
    and Q_drain: "Q s \<Longrightarrow> drainSTTDispatch s = Some s' \<Longrightarrow> Q s'"
    and Q_forward: "Q s \<Longrightarrow> forwardToVAD s = Some s' \<Longrightarrow> Q s'"
begin

lemma Q_report: "Q s \<Longrightarrow> Q (ReportModelRoute tier reason s)"
  using Q_verdict [where s = s and b = "routeReported s" and evs = "[]"] by (auto simp: ReportModelRoute_def split: option.split)

lemma Q_record: "Q s \<Longrightarrow> receiveModelRoute s = Some s' \<Longrightarrow> Q s'"
proof -
  assume q: "Q s" and r: "receiveModelRoute s = Some s'"
  then obtain v ch where vc: "tryRecv (modelRouteCh s) = Some (v, ch)" "s' = recordModelRoute v (s\<lparr>modelRouteCh := ch\<rparr>)"
    by (auto simp: receiveModelRoute_def split: option.splits)
  show "Q s'"
    using Q_verdict [OF q, where ch = ch and b = "routeReported s" and evs = "[]"]
      Q_verdict [OF q, where ch = ch and b = True and evs = "[_]"]
    by (simp add: vc(2) recordModelRoute_def record_defs)
qed

lemma Q_step:
  assumes q: "Q s" and st: "call_step E i s = Some s'"
  shows "Q s'"
proof (cases i)
  case InTimer
  with st q show ?thesis
    by (auto simp: dispatchTimerCompletion_def split: option.splits if_splits intro!: Q_dispatch Q_timers)
qed (use st q in \<open>auto simp: dispatchVADEvent_def split: option.splits if_splits
      intro: Q_dispatch Q_window Q_timers Q_report Q_record Q_drain Q_forward\<close>)

lemma Q_reach: "call_reach E s \<Longrightarrow> Q s"
  by (induction rule: call_reach.induct) (blast intro: Q_start Q_step)+

end

section \<open>Transcripts\<close>

text \<open>Everything accepted so far, turn by turn, with the open turn last.\<close>

definition conv :: "Session \<Rightarrow> string list" where
  "conv s = concat (transcriptTurns s) @ turnTranscripts s"

lemmas all_handlers = state_handlers handleDataFrame_def handleControlEvent_def handleSpeechOnset_def onUtteranceEnd_def
  dispatchFullPass_def handleListeningVADEvent_def handleAwaitingFullResultVADEvent_def withSpeechReset_def
  enterAwaitingResponse_def

lemma conv_dispatch:
  assumes "src \<noteq> SourceSTTResult"
  shows "conv (dispatch E src pay s) = conv s"
  using assms
  by (cases "state s"; cases src)
    (simp_all add: dispatch_settle table_rows settle_def step_eqs arm_cancel all_handlers conv_def Let_def
      split: payload.split VADKind.split option.split)

definition accepts :: "STTResult \<Rightarrow> Session \<Rightarrow> bool" where
  "accepts res s \<longleftrightarrow> buildTransitionTable (state s) SourceSTTResult = HSTTResult \<and>
     resSessionID res = CallSID s \<and> resRequestID res = sttReqID s \<and> resKind res = FullPass"

definition isStopword :: "STTResult \<Rightarrow> Session \<Rightarrow> bool" where
  "isStopword res s = (case turnEndPolicy s of Some p \<Rightarrow> p (resText res) | None \<Rightarrow> False)"

fun accepted :: "call_input \<Rightarrow> Session \<Rightarrow> string list" where
  "accepted (InSTT res) s = (if accepts res s \<and> \<not> isStopword res s then [trimSpace (resText res)] else [])"
| "accepted _ s = []"

lemma conv_frame [simp]:
  "conv (s\<lparr>notImplLogged := a\<rparr>) = conv s" "conv (s\<lparr>timerFacility := b\<rparr>) = conv s"
  "conv (s\<lparr>lastStreamWindow := c\<rparr>) = conv s" "conv (s\<lparr>sttDispatchTimes := d\<rparr>) = conv s"
  "conv (s\<lparr>outs := e\<rparr>) = conv s" "conv (s\<lparr>modelRouteCh := f\<rparr>) = conv s" "conv (s\<lparr>routeReported := g\<rparr>) = conv s"
  "conv (s\<lparr>sttDispatchCh := h\<rparr>) = conv s" "conv (s\<lparr>forwardCh := k\<rparr>) = conv s"
  by (simp_all add: conv_def)

lemma conv_completeTurn [simp]: "conv (completeTurn tr s) = conv s"
  by (simp add: conv_def step_eqs)

lemma conv_settle [simp]: "conv (settle (s, st)) = conv s"
  by (simp add: conv_def settle_def step_eqs)

lemma conv_enterAwaitingResponse [simp]: "conv (settle (enterAwaitingResponse s)) = conv s"
  by (simp add: conv_def settle_def step_eqs enterAwaitingResponse_def arm_cancel)

lemma conv_acceptFullPass:
  "conv (snd (acceptFullPass res s)) = conv s @ (if isStopword res s then [] else [trimSpace (resText res)])"
  by (auto simp: acceptFullPass_def isStopword_def Let_def step_eqs conv_def)

lemma conv_STTResult:
  "conv (settle (handleSTTResult E ev s)) =
     conv s @ (if resSessionID (asSTT (tePayload ev)) = CallSID s \<and> resRequestID (asSTT (tePayload ev)) = sttReqID s \<and>
                  resKind (asSTT (tePayload ev)) = FullPass \<and> \<not> isStopword (asSTT (tePayload ev)) s
               then [trimSpace (resText (asSTT (tePayload ev)))] else [])"
proof -
  let ?res = "asSTT (tePayload ev)"
  let ?s1 = "recordSTTResult E ?res s"
  have "conv ?s1 = conv s" "isStopword ?res ?s1 = isStopword ?res s"
    by (simp_all add: conv_def isStopword_def step_eqs)
  then show ?thesis
    using conv_acceptFullPass [of ?res ?s1]
    by (auto simp: handleSTTResult_def Let_def case_prod_unfold split: if_splits)
qed

lemma conv_step:
  assumes "call_step E i s = Some s'"
  shows "conv s' = conv s @ accepted i s"
proof (cases i)
  case (InSTT res)
  with assms show ?thesis
    by (cases "state s")
      (auto simp: dispatch_settle table_rows conv_STTResult accepts_def state_handlers Let_def)
next
  case (InVAD ev)
  with assms show ?thesis by (auto simp: dispatchVADEvent_def conv_dispatch)
next
  case InTimer
  have src: "timerSource n = Some src \<Longrightarrow> src \<noteq> SourceSTTResult" for n src
    by (auto simp: timerSource_def split: if_splits)
  from assms InTimer src show ?thesis
    by (auto simp: dispatchTimerCompletion_def conv_dispatch split: option.splits if_splits)
qed (use assms in \<open>auto simp: conv_dispatch ReportModelRoute_def receiveModelRoute_def recordModelRoute_def record_defs
      drainSTTDispatch_def forwardToVAD_def split: option.splits if_splits\<close>)

section \<open>What the turn sink is told\<close>

fun told1 :: "effect \<Rightarrow> string list" where
  "told1 (EffOnTurnComplete t tr) = [t]"
| "told1 _ = []"

definition told :: "effect list \<Rightarrow> string list" where
  "told es = concat (map told1 es)"

lemma told_simps [simp]: "told [] = []" "told (e # es) = told1 e @ told es" "told (es @ es') = told es @ told es'"
  by (simp_all add: told_def)

text \<open>Effects that neither complete a turn nor relay anything.\<close>

fun plain1 :: "effect \<Rightarrow> bool" where
  "plain1 (EffData f ok) = True"
| "plain1 (EffControl m ok) = True"
| "plain1 (EffRecord ev) = True"
| "plain1 (EffState st) = True"
| "plain1 EffCloseTransport = True"
| "plain1 EffOnSpeechStart = True"
| "plain1 EffOnEndOfUtterance = True"
| "plain1 _ = False"

definition plain :: "effect list \<Rightarrow> bool" where
  "plain es = list_all plain1 es"

lemma plain_simps [simp]:
  "plain []" "plain (e # es) = (plain1 e \<and> plain es)" "plain (es @ es') = (plain es \<and> plain es')"
  by (simp_all add: plain_def)

lemma plain_sentFrames [simp]: "plain (sentFrames E fs n)"
  by (induction fs arbitrary: n) simp_all

lemma plain_recordTurnCompletion [simp]: "plain (added (recordTurnCompletion tr) s)"
  by (cases tr) (simp_all add: added_def record_defs recordTurnCompletion_def)

lemma plain_added [simp]:
  "plain (added (recordTurnEnd ev) s)" "plain (added (recordEndOfUtterance ev d) s)"
  "plain (added (recordVADDecision k p v ev eff r) s)" "plain (added (recordSTTResult E res) s)"
  "plain (added (dispatchSTT E kind audio) s)" "plain (terminateEffects E clip s)"
  "plain (added (sendBedChunk E) s)" "plain (added (sendControlClear E) s)"
  "plain (added (sendResponseFrames E frames) s)" "plain (added (sendResponseMarkAndArmEcho E frames) s)"
proof -
  show "plain (added (recordSTTResult E res) s)"
    by (cases "sttDispatchTimes s (resRequestID res)") (simp_all add: added_def record_defs recordSTTResult_def)
  show "plain (added (dispatchSTT E kind audio) s)"
    by (simp add: added_def record_defs recordSTTDispatch_def dispatchSTT_def Let_def trySend_def)
  show "plain (terminateEffects E clip s)"
    by (simp add: terminateEffects_def added_def terminateWithClip_def sendClip_def sendFrames_eq setState_def
        sendMarkAndArmEcho_def sendControl_def arm_cancel emit_def Let_def)
qed (simp_all add: added_def record_defs sendBedChunk_def sendData_def case_prod_unfold Let_def sendControlClear_def
    sendControl_def sendResponseFrames_def sendFrames_eq sendResponseMarkAndArmEcho_def arm_cancel)

lemma told_plain [simp]: "plain es \<Longrightarrow> told es = []"
proof (induction es)
  case (Cons e es)
  then show ?case by (cases e) simp_all
qed simp

lemma added_completeTurn:
  "\<exists>es. plain es \<and> added (completeTurn tr) s =
     (if turnTranscripts s \<noteq> [] \<and> turnSinkWired s
      then [EffOnTurnComplete (joinWith '' '' (turnTranscripts s)) tr] else []) @ es"
  by (simp add: added_def [of "completeTurn tr"] completeTurn_def openTurnToRouteVerdict_def flushTurnTranscripts_eq
      recordTurnCompletion_eq arm_cancel Let_def)

lemma told_completeTurn [simp]:
  "told (added (completeTurn tr) s) =
     (if turnTranscripts s \<noteq> [] \<and> turnSinkWired s then [joinWith '' '' (turnTranscripts s)] else [])"
  using added_completeTurn [of tr s] by auto

definition turn_log :: "Session \<Rightarrow> bool" where
  "turn_log s \<longleftrightarrow> turnSinkWired s \<and> told (outs s) = map (joinWith '' '') (transcriptTurns s)"

lemma turn_log_dispatch:
  assumes "src \<noteq> SourceSTTResult" "turn_log s"
  shows "turn_log (dispatch E src pay s)"
  using assms
  by (cases "state s"; cases src)
    (simp_all add: dispatch_settle table_rows settle_def step_eqs arm_cancel all_handlers turn_log_def Let_def
      split: payload.split VADKind.split option.split)

lemma turn_log_acceptFullPass: "turn_log s \<Longrightarrow> turn_log (snd (acceptFullPass res s))"
  by (auto simp: acceptFullPass_def Let_def step_eqs turn_log_def split: option.split)

lemma turn_log_settle: "turn_log s \<Longrightarrow> turn_log (settle (s, st))" "turn_log s \<Longrightarrow> turn_log (settle (enterAwaitingResponse s))"
  by (simp_all add: turn_log_def settle_def step_eqs enterAwaitingResponse_def arm_cancel)

lemma turn_log_STTResult:
  assumes "turn_log s"
  shows "turn_log (settle (handleSTTResult E ev s))"
proof -
  let ?res = "asSTT (tePayload ev)"
  have s1: "turn_log (recordSTTResult E ?res s)" using assms by (simp add: turn_log_def step_eqs)
  have "turn_log (s\<lparr>sttDispatchTimes := m\<rparr>)" for m using assms by (simp add: turn_log_def)
  with assms s1 turn_log_acceptFullPass [OF s1] show ?thesis
    by (simp add: handleSTTResult_def Let_def case_prod_unfold turn_log_settle)
qed

lemma turn_log_stt: "turn_log s \<Longrightarrow> turn_log (dispatch E SourceSTTResult pay s)"
  by (cases "state s") (simp_all add: dispatch_settle table_rows turn_log_STTResult state_handlers turn_log_settle,
    simp_all add: turn_log_def settle_def step_eqs state_handlers Let_def)

lemma turn_log_start: "Start (NewSession sid opts) = (None, s) \<Longrightarrow> turn_log s"
  by (drule Start_eq(1)) (simp_all add: turn_log_def arm_cancel)

interpretation tlog: call_invariant E turn_log for E
proof unfold_locales
  show "turn_log (dispatch E src pay s)" if "turn_log s" for src pay s
    using that turn_log_dispatch turn_log_stt by (cases "src = SourceSTTResult") auto
  show "turn_log s" if "Start (NewSession sid opts) = (None, s)" for sid opts s
    using that by (rule turn_log_start)
qed (auto simp: turn_log_def drainSTTDispatch_def forwardToVAD_def emit_def told_def comp_def split: option.splits)

section \<open>Audio\<close>

fun sent1 :: "effect \<Rightarrow> STTRequest list" where
  "sent1 (EffSTTRequest r) = [r]"
| "sent1 _ = []"

definition sentReqs :: "effect list \<Rightarrow> STTRequest list" where
  "sentReqs es = concat (map sent1 es)"

lemma sentReqs_simps [simp]:
  "sentReqs [] = []" "sentReqs (e # es) = sent1 e @ sentReqs es" "sentReqs (es @ es') = sentReqs es @ sentReqs es'"
  by (simp_all add: sentReqs_def)

lemma sentReqs_plain [simp]: "plain es \<Longrightarrow> sentReqs es = []"
proof (induction es)
  case (Cons e es)
  then show ?case by (cases e) simp_all
qed simp

lemma sentReqs_completeTurn [simp]: "sentReqs (added (completeTurn tr) s) = []"
  using added_completeTurn [of tr s] by auto

text \<open>The requests handed to the recogniser so far, in order, with those still queued.\<close>

definition requests :: "Session \<Rightarrow> STTRequest list" where
  "requests s = sentReqs (outs s) @ chan_buf (sttDispatchCh s)"

definition audio :: "Session \<Rightarrow> bytes" where
  "audio s = concat (map reqAudio (requests s)) @ turnBuf s"

fun heard1 :: "call_input \<Rightarrow> Session \<Rightarrow> bytes" where
  "heard1 (InData frame) s = (if buildTransitionTable (state s) SourceTwilioData = HDataFrame then frame else [])"
| "heard1 _ s = []"

fun heard :: "env \<Rightarrow> call_input list \<Rightarrow> Session \<Rightarrow> bytes" where
  "heard E [] s = []"
| "heard E (i # ins) s = heard1 i s @ (case call_step E i s of None \<Rightarrow> [] | Some s' \<Rightarrow> heard E ins s')"

text \<open>What one dispatch does to the requests and the utterance buffer.\<close>

definition audio_view :: "Session \<Rightarrow> STTRequest list \<times> bytes \<times> int \<times> string \<times> bool" where
  "audio_view s = (requests s, turnBuf s, sttReqID s, CallSID s, sttIn s)"

lemma view_dispatch_other:
  assumes "src \<notin> {SourceTwilioData, SourceVADEvent, SourceSTTResult}"
  shows "audio_view (dispatch E src pay s) = audio_view s"
  using assms
  by (cases "state s"; cases src)
    (simp_all add: dispatch_settle table_rows settle_def step_eqs arm_cancel all_handlers audio_view_def requests_def Let_def
      split: payload.split VADKind.split option.split)

lemma view_dispatch_data:
  "audio_view (dispatch E SourceTwilioData pay s) =
     (requests s, turnBuf s @ (if buildTransitionTable (state s) SourceTwilioData = HDataFrame then asFrame pay else []),
      sttReqID s, CallSID s, sttIn s)"
  by (cases "state s")
    (simp_all add: dispatch_settle table_rows settle_def step_eqs arm_cancel all_handlers audio_view_def requests_def Let_def
      split: option.split)

lemma view_acceptFullPass: "audio_view (snd (acceptFullPass res s)) = audio_view s"
  by (auto simp: acceptFullPass_def Let_def step_eqs audio_view_def requests_def split: option.split)

lemma view_settle: "audio_view (settle (s, st)) = audio_view s" "audio_view (settle (enterAwaitingResponse s)) = audio_view s"
  by (simp_all add: audio_view_def requests_def settle_def step_eqs enterAwaitingResponse_def arm_cancel)

lemma view_STTResult: "audio_view (settle (handleSTTResult E ev s)) = audio_view s"
proof -
  let ?res = "asSTT (tePayload ev)"
  have "audio_view (recordSTTResult E ?res s) = audio_view s"
    "audio_view (s\<lparr>sttDispatchTimes := m\<rparr>) = audio_view s" for m
    by (simp_all add: audio_view_def requests_def step_eqs)
  then show ?thesis
    by (simp add: handleSTTResult_def Let_def case_prod_unfold view_settle view_acceptFullPass)
qed

lemma view_dispatch_stt: "audio_view (dispatch E SourceSTTResult pay s) = audio_view s"
  by (cases "state s")
    (simp_all add: dispatch_settle table_rows view_STTResult state_handlers view_settle,
     simp_all add: audio_view_def requests_def settle_def step_eqs Let_def)

text \<open>The one dispatch that hands audio over: the end of an utterance in Listening.\<close>

definition newRequest :: "Session \<Rightarrow> STTRequest" where
  "newRequest s = \<lparr>reqSessionID = CallSID s, reqRequestID = sttReqID s + 1, reqKind = FullPass, reqAudio = turnBuf s\<rparr>"

lemma view_simps [simp]:
  "audio_view (recordVADDecision k p v ev eff r s) = audio_view s" "audio_view (recordTurnEnd ev s) = audio_view s"
  "audio_view (recordEndOfUtterance ev d s) = audio_view s" "audio_view (completeTurn tr s) = audio_view s"
  "audio_view (onUtteranceEnd s) = audio_view s"
  by (simp_all add: audio_view_def requests_def step_eqs onUtteranceEnd_def arm_cancel)

lemma view_SpeechOnset: "audio_view (settle (handleSpeechOnset ev s)) = audio_view s"
  by (simp add: audio_view_def requests_def step_eqs settle_def handleSpeechOnset_def arm_cancel Let_def)

definition handsOver :: "Session \<Rightarrow> STTRequest list \<times> bytes \<times> int \<times> string \<times> bool" where
  "handsOver s = (requests s @ (if sttIn s \<and> chan_room (sttDispatchCh s) then [newRequest s] else []), [],
     (if sttIn s then sttReqID s + 1 else sttReqID s), CallSID s, sttIn s)"

lemma handsOver_cong:
  "audio_view s' = audio_view s \<Longrightarrow> sttDispatchCh s' = sttDispatchCh s \<Longrightarrow> handsOver s' = handsOver s"
  by (simp add: audio_view_def handsOver_def newRequest_def)

lemma view_dispatchFullPass: "audio_view (settle (dispatchFullPass E vev s)) = handsOver s"
  by (simp add: audio_view_def requests_def step_eqs settle_def dispatchFullPass_def onUtteranceEnd_def arm_cancel
      handsOver_def newRequest_def trySend_def Let_def)

lemma view_withSpeechReset:
  assumes h: "\<And>s'. audio_view s' = audio_view s \<Longrightarrow> sttDispatchCh s' = sttDispatchCh s \<Longrightarrow>
      audio_view (settle (h ev s')) \<in> {audio_view s, handsOver s}"
  shows "audio_view (settle (withSpeechReset h ev s)) \<in> {audio_view s, handsOver s}"
proof (cases "tePayload ev")
  case (PayVAD vev)
  have "audio_view (settle (s\<lparr>turnEndPending := True, turnEndEvent := vev\<rparr>, state s)) = audio_view s"
    by (simp add: audio_view_def requests_def settle_def step_eqs)
  moreover have "sttDispatchCh (recordVADDecision k p v ev eff r s) = sttDispatchCh s" for k p v ev eff r
    by (simp add: step_eqs)
  ultimately show ?thesis
    using PayVAD h [of s] h [of "recordVADDecision _ _ _ _ _ _ s"]
    by (cases "evKind vev") (simp_all add: withSpeechReset_def view_settle view_SpeechOnset Let_def)
qed (use h [of s] in \<open>simp_all add: withSpeechReset_def\<close>)

lemma view_dispatch_vad: "audio_view (dispatch E SourceVADEvent pay s) \<in> {audio_view s, handsOver s}"
proof -
  have "audio_view (settle (handleListeningVADEvent E ev s')) \<in> {audio_view s, handsOver s}"
    if "audio_view s' = audio_view s" "sttDispatchCh s' = sttDispatchCh s" for ev s'
    using that handsOver_cong [OF that]
    by (simp add: handleListeningVADEvent_def view_dispatchFullPass view_settle Let_def)
  moreover have "audio_view (settle (handleAwaitingFullResultVADEvent ev s')) \<in> {audio_view s, handsOver s}"
    if "audio_view s' = audio_view s" for ev s'
    using that by (simp add: handleAwaitingFullResultVADEvent_def view_settle Let_def)
  moreover have "audio_view (s\<lparr>notImplLogged := x\<rparr>) = audio_view s" for x by (simp add: audio_view_def requests_def)
  ultimately show ?thesis
    using view_withSpeechReset [of s "runHandler E HListeningVADEvent" "\<lparr>teSource = SourceVADEvent, tePayload = pay\<rparr>"]
      view_withSpeechReset [of s "runHandler E HAwaitingFullResultVADEvent" "\<lparr>teSource = SourceVADEvent, tePayload = pay\<rparr>"]
    by (cases "state s") (simp_all add: dispatch_settle table_rows state_handlers view_settle Let_def)
qed

lemma audio_eq: "audio s = concat (map reqAudio (fst (audio_view s))) @ fst (snd (audio_view s))"
  by (simp add: audio_def audio_view_def)

lemma subseq_drop_middle: "subseq (a @ (if c then b else [])) (a @ b)"
  by (auto simp: list_emb_append_mono)

lemma audio_dispatch:
  "subseq (audio (dispatch E src pay s)) (audio s @ (if src = SourceTwilioData \<and>
     buildTransitionTable (state s) SourceTwilioData = HDataFrame then asFrame pay else []))"
proof -
  consider "src = SourceTwilioData" | "src = SourceVADEvent" | "src = SourceSTTResult"
    | "src \<notin> {SourceTwilioData, SourceVADEvent, SourceSTTResult}" by blast
  then show ?thesis
  proof cases
    case 2
    have "subseq (audio (dispatch E SourceVADEvent pay s)) (audio s)"
      using view_dispatch_vad [of E pay s] subseq_drop_middle [of "concat (map reqAudio (requests s))"
          "sttIn s \<and> chan_room (sttDispatchCh s)" "turnBuf s"]
      by (auto simp: audio_eq handsOver_def newRequest_def audio_view_def)
    with 2 show ?thesis by simp
  qed (simp_all add: audio_eq view_dispatch_data view_dispatch_stt view_dispatch_other audio_view_def [of s])
qed

lemma audio_frame [simp]:
  "audio (s\<lparr>timerFacility := b\<rparr>) = audio s" "audio (s\<lparr>lastStreamWindow := c\<rparr>) = audio s"
  "audio (s\<lparr>modelRouteCh := f\<rparr>) = audio s" "audio (s\<lparr>forwardCh := k\<rparr>) = audio s"
  "audio (s\<lparr>routeReported := r\<rparr>) = audio s" "plain es \<Longrightarrow> audio (s\<lparr>outs := outs s @ es\<rparr>) = audio s"
  by (simp_all add: audio_def requests_def)

lemma audio_step:
  assumes "call_step E i s = Some s'"
  shows "subseq (audio s') (audio s @ heard1 i s)"
proof (cases i)
  case (InData frame)
  with assms audio_dispatch [of E SourceTwilioData "PayFrame frame" s] show ?thesis by auto
next
  case (InControl x)
  with assms audio_dispatch [of E SourceTwilioControl "PayControl x" s] show ?thesis by auto
next
  case (InVAD ev)
  with assms audio_dispatch [of E SourceVADEvent "PayVAD ev" "s\<lparr>lastStreamWindow := evStreamWindowIndex ev\<rparr>"]
  show ?thesis by (auto simp: dispatchVADEvent_def)
next
  case (InSTT x)
  with assms audio_dispatch [of E SourceSTTResult "PaySTT x" s] show ?thesis by auto
next
  case (InResponse x)
  with assms audio_dispatch [of E SourceResponseReady "PayResponse x" s] show ?thesis by auto
next
  case InTimer
  have "subseq (audio (dispatch E src PayNil (s\<lparr>timerFacility := tf\<rparr>))) (audio s)" if "timerSource n = Some src" for n src tf
    using that audio_dispatch [of E src PayNil "s\<lparr>timerFacility := tf\<rparr>"]
    by (auto simp: timerSource_def split: if_splits)
  with assms InTimer show ?thesis
    by (auto simp: dispatchTimerCompletion_def split: option.splits if_splits)
next
  case InVerdict
  with assms show ?thesis
    by (auto simp: receiveModelRoute_def recordModelRoute_def record_defs audio_def requests_def split: option.splits if_splits)
next
  case DrainSTT
  with assms show ?thesis
    by (auto simp: drainSTTDispatch_def emit_def audio_def requests_def tryRecv_def split: option.splits list.splits)
next
  case ForwardFrame
  with assms show ?thesis by (auto simp: forwardToVAD_def emit_def audio_def requests_def split: option.splits)
qed (use assms in \<open>auto simp: ReportModelRoute_def split: option.splits if_splits\<close>)

lemma audio_run: "call_run E ins s = Some s' \<Longrightarrow> subseq (audio s') (audio s @ heard E ins s)"
proof (induction ins arbitrary: s)
  case (Cons i ins)
  then obtain s1 where s1: "call_step E i s = Some s1" "call_run E ins s1 = Some s'" by (auto split: option.splits)
  have "subseq (audio s1 @ heard E ins s1) ((audio s @ heard1 i s) @ heard E ins s1)"
    using audio_step [OF s1(1)] by (rule list_emb_append_mono) simp
  with Cons.IH [OF s1(2)] s1(1) show ?case by (auto intro: subseq_order.trans)
qed simp

text \<open>The transcript of a run.\<close>

fun accepted_run :: "env \<Rightarrow> call_input list \<Rightarrow> Session \<Rightarrow> string list" where
  "accepted_run E [] s = []"
| "accepted_run E (i # ins) s = accepted i s @ (case call_step E i s of None \<Rightarrow> [] | Some s' \<Rightarrow> accepted_run E ins s')"

lemma conv_run: "call_run E ins s = Some s' \<Longrightarrow> conv s' = conv s @ accepted_run E ins s"
proof (induction ins arbitrary: s)
  case (Cons i ins)
  then obtain s1 where "call_step E i s = Some s1" "call_run E ins s1 = Some s'" by (auto split: option.splits)
  with Cons.IH [of s1] conv_step [of E i s s1] show ?case by simp
qed simp

section \<open>Request numbers\<close>

definition requests_ok :: "Session \<Rightarrow> bool" where
  "requests_ok s \<longleftrightarrow> 0 \<le> sttReqID s \<and> sorted_wrt (<) (map reqRequestID (requests s)) \<and>
     list_all (\<lambda>r. reqSessionID r = CallSID s \<and> reqKind r = FullPass \<and> 1 \<le> reqRequestID r \<and> reqRequestID r \<le> sttReqID s) (requests s)"

lemma requests_ok_view: "audio_view s' = audio_view s \<Longrightarrow> requests_ok s' = requests_ok s"
  by (simp add: requests_ok_def audio_view_def)

lemma requests_ok_handsOver: "requests_ok s \<Longrightarrow> audio_view s' = handsOver s \<Longrightarrow> requests_ok s'"
  by (auto simp: requests_ok_def audio_view_def handsOver_def newRequest_def sorted_wrt_append list_all_iff)

lemma view_drain: "drainSTTDispatch s = Some s' \<Longrightarrow> audio_view s' = audio_view s"
  by (auto simp: audio_view_def requests_def drainSTTDispatch_def emit_def tryRecv_def split: option.splits list.splits)

lemma view_forward: "forwardToVAD s = Some s' \<Longrightarrow> audio_view s' = audio_view s"
  by (auto simp: audio_view_def requests_def forwardToVAD_def emit_def split: option.splits)

interpretation reqs: call_invariant E requests_ok for E
proof unfold_locales
  show "requests_ok (dispatch E src pay s)" if ok: "requests_ok s" for src pay s
  proof -
    consider "src = SourceTwilioData" | "src = SourceVADEvent" | "src = SourceSTTResult"
      | "src \<notin> {SourceTwilioData, SourceVADEvent, SourceSTTResult}" by blast
    then show ?thesis
    proof cases
      case 1
      have eq: "audio_view (dispatch E SourceTwilioData pay s) = audio_view (s\<lparr>turnBuf := turnBuf (dispatch E SourceTwilioData pay s)\<rparr>)"
        using view_dispatch_data [of E pay s] by (simp add: audio_view_def requests_def)
      have "requests_ok (s\<lparr>turnBuf := b\<rparr>)" for b using ok by (simp add: requests_ok_def requests_def)
      with requests_ok_view [OF eq] 1 show ?thesis by simp
    next
      case 2
      have "requests_ok (dispatch E SourceVADEvent pay s)"
        using view_dispatch_vad [of E pay s] requests_ok_view [of "dispatch E SourceVADEvent pay s" s]
          requests_ok_handsOver [OF ok] ok by blast
      with 2 show ?thesis by simp
    qed (simp_all add: ok requests_ok_view [OF view_dispatch_stt] requests_ok_view [OF view_dispatch_other])
  qed
  show "requests_ok s" if "Start (NewSession sid opts) = (None, s)" for sid opts s
    using Start_eq(1) [OF that] by (simp add: requests_ok_def requests_def arm_cancel newBufferedChan_def)
  show "requests_ok (s\<lparr>modelRouteCh := ch, routeReported := b, outs := outs s @ map EffRecord evs\<rparr>)" if "requests_ok s" for s ch b evs
    using that by (simp add: requests_ok_def requests_def plain_def list_all_iff)
  show "requests_ok s'" if "requests_ok s" "drainSTTDispatch s = Some s'" for s s'
    using that requests_ok_view [OF view_drain [OF that(2)]] by simp
  show "requests_ok s'" if "requests_ok s" "forwardToVAD s = Some s'" for s s'
    using that requests_ok_view [OF view_forward [OF that(2)]] by simp
qed (simp_all add: requests_ok_def requests_def)

section \<open>The thinking bed\<close>

lemma bedChunkBytes_eq: "bedChunkBytes = 1600"
  by (simp add: bedChunkBytes_def bedTickMS_def SampleRateHz_def)

lemma map_cyclic_wrap:
  assumes "off < n" "n \<le> off + r"
  shows "map (\<lambda>i. f ((off + i) mod n)) [0..<r] = map f [off..<n] @ map (\<lambda>j. f (j mod n)) [0..<off + r - n]"
proof -
  have "[0..<r] = [0..<n - off] @ [n - off..<r]"
    using assms upt_add_eq_append [of 0 "n - off" "r - (n - off)"] by simp
  moreover have "map (\<lambda>i. f ((off + i) mod n)) [0..<n - off] = map f [off..<n]"
    using assms by (intro nth_equalityI) simp_all
  moreover have "map (\<lambda>i. f ((off + i) mod n)) [n - off..<r] = map (\<lambda>j. f (j mod n)) [0..<off + r - n]"
  proof (rule nth_equalityI)
    fix k
    assume k: "k < length (map (\<lambda>i. f ((off + i) mod n)) [n - off..<r])"
    then have "off + (n - off + k) = n + k" "k < off + r - n" using assms by simp_all
    with k show "map (\<lambda>i. f ((off + i) mod n)) [n - off..<r] ! k = map (\<lambda>j. f (j mod n)) [0..<off + r - n] ! k"
      by simp
  qed (use assms in simp)
  ultimately show ?thesis by simp
qed

lemma bedChunk_cyclic:
  assumes "off < length clip" "length chunk \<le> bedChunkBytes"
  shows "bedChunk_loop clip off chunk =
     ((off + (bedChunkBytes - length chunk)) mod length clip,
      chunk @ map (\<lambda>i. clip ! ((off + i) mod length clip)) [0..<bedChunkBytes - length chunk])"
  using assms
proof (induction clip off chunk rule: bedChunk_loop.induct)
  case (1 clip off chunk)
  define r where "r = bedChunkBytes - length chunk"
  have ne: "clip \<noteq> []" using "1.prems" by auto
  show ?case
  proof (cases "r = 0")
    case True
    then have full: "length chunk = bedChunkBytes" using "1.prems" by (simp add: r_def)
    with "1.prems" show ?thesis by (subst bedChunk_loop.simps) simp
  next
    case False
    then have lt: "length chunk < bedChunkBytes" by (simp add: r_def)
    show ?thesis
    proof (cases "off + r < length clip")
      case True
      have sl: "slice clip off (off + r) = map (\<lambda>i. clip ! ((off + i) mod length clip)) [0..<r]"
        using True by (intro nth_equalityI) (simp_all add: slice_def)
      have len: "length (chunk @ slice clip off (off + r)) = bedChunkBytes"
        using True lt by (simp add: slice_def r_def)
      have "bedChunk_loop clip off chunk = bedChunk_loop clip (off + r) (chunk @ slice clip off (off + r))"
        using True lt "1.prems" ne by (subst bedChunk_loop.simps) (simp add: r_def [symmetric] Let_def)
      also have "\<dots> = (off + r, chunk @ slice clip off (off + r))"
        using len by (subst bedChunk_loop.simps) simp
      finally show ?thesis using True sl by (simp add: r_def [symmetric])
    next
      case wrap: False
      let ?n = "length clip"
      have sl: "slice clip off ?n = map (\<lambda>i. clip ! i) [off..<?n]"
        using "1.prems" by (intro nth_equalityI) (simp_all add: slice_def)
      have e: "min (off + r) ?n = ?n" using wrap by simp
      let ?c = "chunk @ slice clip off ?n"
      have c: "length ?c = length chunk + (?n - off)" using "1.prems" by (simp add: sl)
      then have c': "length ?c \<le> bedChunkBytes" "bedChunkBytes - length ?c = off + r - ?n"
        using wrap lt "1.prems" by (auto simp: r_def)
      have "bedChunk_loop clip off chunk = bedChunk_loop clip 0 ?c"
        using lt "1.prems" ne by (subst bedChunk_loop.simps) (simp add: r_def [symmetric] e Let_def)
      also have "\<dots> = ((off + r - ?n) mod ?n, ?c @ map (\<lambda>i. clip ! (i mod ?n)) [0..<off + r - ?n])"
        using "1.IH" [of ?n ?c 0] lt "1.prems" ne c' by (simp add: r_def [symmetric] e)
      also have "\<dots> = ((off + r) mod ?n, chunk @ map (\<lambda>i. clip ! ((off + i) mod ?n)) [0..<r])"
        using map_cyclic_wrap [of off ?n r "(!) clip"] wrap "1.prems" by (simp add: sl le_mod_geq)
      finally show ?thesis by (simp add: r_def [symmetric])
    qed
  qed
qed

section \<open>The stopword\<close>

lemma trimRight_eq_iff:
  "trimRight cs t = d \<longleftrightarrow> (\<exists>p. t = d @ p \<and> set p \<subseteq> set cs) \<and> (d = [] \<or> last d \<notin> set cs)"
proof
  assume t: "trimRight cs t = d"
  let ?P = "\<lambda>c. c \<in> set cs"
  have "t = rev (dropWhile ?P (rev t)) @ rev (takeWhile ?P (rev t))"
    by (metis rev_append rev_rev_ident takeWhile_dropWhile_id)
  moreover have "set (rev (takeWhile ?P (rev t))) \<subseteq> set cs" by (auto dest: set_takeWhileD)
  moreover have "d = [] \<or> last d \<notin> set cs"
    using t hd_dropWhile [of ?P "rev t"] by (auto simp: trimRight_def last_rev)
  ultimately show "(\<exists>p. t = d @ p \<and> set p \<subseteq> set cs) \<and> (d = [] \<or> last d \<notin> set cs)"
    using t unfolding trimRight_def by metis
next
  assume "(\<exists>p. t = d @ p \<and> set p \<subseteq> set cs) \<and> (d = [] \<or> last d \<notin> set cs)"
  then obtain p where p: "t = d @ p" "set p \<subseteq> set cs" "d = [] \<or> last d \<notin> set cs" by blast
  have "dropWhile (\<lambda>c. c \<in> set cs) (rev p @ rev d) = dropWhile (\<lambda>c. c \<in> set cs) (rev d)"
    using p(2) by (intro dropWhile_append2) auto
  also have "\<dots> = rev d"
    using p(3) by (cases "rev d") (auto simp: dropWhile_eq_self_iff hd_rev)
  finally show "trimRight cs t = d" by (simp add: trimRight_def p(1))
qed

lemma toLower_char_punct: "toLower_char c \<in> set ''.!?,'' \<longleftrightarrow> c \<in> set ''.!?,''"
proof (cases "65 \<le> (of_char c :: nat) \<and> (of_char c :: nat) \<le> 90")
  case True
  then have "of_char (toLower_char c) = (of_char c + 32 :: nat)" by (simp add: toLower_char_def)
  with True have "97 \<le> (of_char (toLower_char c) :: nat)" by simp
  with True show ?thesis by auto
qed (auto simp: toLower_char_def)

lemma normalize_done:
  "normalizeTranscript t = ''done'' \<longleftrightarrow>
     (\<exists>d p. trimSpace t = d @ p \<and> toLower d = ''done'' \<and> set p \<subseteq> set ''.!?,'')"
proof -
  have "normalizeTranscript t = ''done'' \<longleftrightarrow> (\<exists>q. toLower (trimSpace t) = ''done'' @ q \<and> set q \<subseteq> set ''.!?,'')"
    by (simp add: normalizeTranscript_def trimRight_eq_iff)
  also have "\<dots> \<longleftrightarrow> (\<exists>d p. trimSpace t = d @ p \<and> toLower d = ''done'' \<and> set (toLower p) \<subseteq> set ''.!?,'')"
    unfolding toLower_def map_eq_append_conv by metis
  also have "\<dots> \<longleftrightarrow> (\<exists>d p. trimSpace t = d @ p \<and> toLower d = ''done'' \<and> set p \<subseteq> set ''.!?,'')"
    by (simp only: toLower_def set_map subset_eq ball_simps toLower_char_punct)
  finally show ?thesis .
qed


section \<open>What the caller hears\<close>

lemma sentFrames_ok: "(\<And>n. sendOK E n) \<Longrightarrow> sentFrames E fs n = map (\<lambda>f. EffData f True) fs"
  by (induction fs arbitrary: n) simp_all

end
