(* ===== verification/TurnProps.thy ===== *)
theory TurnProps
  imports CallTurns
begin

text \<open>
  The properties of a call's turns and of what the caller hears, with the concrete calls their
  witnesses run, and two calls that go wrong.
\<close>

section \<open>More of the concrete call\<close>

definition demo_listening :: Session where
  "demo_listening = dispatch demo_env SourceTwilioData (PayFrame [0xFF]) demo"

definition demo_waiting :: "VADEvent \<Rightarrow> Session" where
  "demo_waiting ev = dispatchVADEvent demo_env ev demo_listening"

definition turn_end :: VADEvent where
  "turn_end = zeroVADEvent\<lparr>evKind := VADTurnEnd\<rparr>"

lemma demo_flags: "dataOut demo" "ctlOut demo" "transcriptTurns demo = []" "turnTranscripts demo = []"
  by (simp_all add: Start_eq(1) [OF demo_start] arm_cancel, simp_all add: NewSession_def demo_opts_def Let_def)

lemma demo_listening_state:
  "state demo_listening = StateListening" "dataOut demo_listening" "ctlOut demo_listening"
  "transcriptTurns demo_listening = []" "turnTranscripts demo_listening = []"
  by (simp_all add: demo_listening_def dispatch_settle table_rows demo_state demo_flags handleDataFrame_def settle_def
      setState_eq Let_def split: option.split)

lemma demo_waiting_state:
  assumes "evKind ev = VADTurnEnd"
  shows "state (demo_waiting ev) = StateAwaitingResponse" "dataOut (demo_waiting ev)" "ctlOut (demo_waiting ev)"
    "transcriptTurns (demo_waiting ev) = []"
  by (simp_all add: assms demo_waiting_def dispatchVADEvent_def dispatch_settle table_rows demo_listening_state
      withSpeechReset_def enterAwaitingResponse_def arm_cancel settle_def step_eqs Let_def)

lemma demo_listening_reach: "call_reach demo_env demo_listening"
  by (rule call_reach.call_next [OF demo_reach, where i = "InData [0xFF]"]) (simp add: demo_listening_def)

lemma demo_waiting_reach: "call_reach demo_env (demo_waiting ev)"
  by (rule call_reach.call_next [OF demo_listening_reach, where i = "InVAD ev"]) (simp add: demo_waiting_def)

lemma quiet_start:
  "\<exists>ev. fst (vad_feed (replicate 157 (F32 0)) (newVADMachine defaultVADConfig)) = [ev] \<and> evKind ev = VADTurnEnd"
proof -
  have "map evKind (fst (vad_feed (replicate 157 (F32 0)) (newVADMachine defaultVADConfig))) = [VADTurnEnd]"
    by code_simp
  then show ?thesis by auto
qed

lemma timers_when: "call_inv s \<Longrightarrow> state s = StateAwaitingResponse \<Longrightarrow> \<not> tf_pending (timerFacility s) timerIdle"
  by (simp add: call_inv_def timers_ok_def Let_def)

text \<open>A call with the stopword policy.\<close>

definition policy_opts :: "SessionOption list" where
  "policy_opts = [WithVADFactory (Inr ()), WithSTTInput, WithTwilioDataOutput, WithTwilioControlOutput, WithTurnEndPolicy StopwordPolicy]"

definition policy_listening :: Session where
  "policy_listening = dispatch demo_env SourceTwilioData (PayFrame [0xFF]) (snd (Start (NewSession ''CA1'' policy_opts)))"

definition speech :: VADEvent where "speech = zeroVADEvent\<lparr>evKind := VADSpeech\<rparr>"
definition utterance_end :: VADEvent where "utterance_end = zeroVADEvent\<lparr>evKind := VADEndOfUtterance\<rparr>"
definition stopword_result :: STTResult where
  "stopword_result = zeroSTTResult\<lparr>resSessionID := ''CA1'', resRequestID := 1, resKind := FullPass, resText := ''Done.''\<rparr>"

lemma policy_start: "Start (NewSession ''CA1'' policy_opts) = (None, snd (Start (NewSession ''CA1'' policy_opts)))"
  by (simp add: policy_opts_def Start_def NewSession_def zeroVADConfig_def withDefaults_def validateOrdering_def
      defaultVADConfig_def MaxSilenceMS_def Let_def)

lemma policy_listening_reach: "call_reach demo_env policy_listening"
  by (rule call_reach.call_next [OF call_reach.call_start [OF policy_start], where i = "InData [0xFF]"])
    (simp add: policy_listening_def)

lemma policy_listening_state:
  "state policy_listening = StateListening" "sttReqID policy_listening = 0" "CallSID policy_listening = ''CA1''"
  "turnEndPolicy policy_listening = Some StopwordPolicy" "sttIn policy_listening" "\<not> turnActive policy_listening"
  "tf_inv (timerFacility policy_listening)"
proof -
  show "tf_inv (timerFacility policy_listening)"
    using reach_inv [OF policy_listening_reach] by (simp add: call_inv_def)
qed (simp_all add: policy_listening_def dispatch_settle table_rows Start_eq(1) [OF policy_start] arm_cancel
    handleDataFrame_def settle_def setState_eq Let_def split: option.split,
    simp_all add: NewSession_def policy_opts_def Let_def)

lemma stopword_done: "StopwordPolicy ''Done.''"
  by code_simp

lemma policy_run:
  "\<exists>s. call_run demo_env (map InVAD [speech, utterance_end, speech] @
       [InSTT stopword_result, InVAD utterance_end, InResponse \<lparr>respOK = False, respFrames = []\<rparr>]) policy_listening = Some s \<and>
     state s = StateListening \<and> \<not> turnActive s \<and> tf_pending (timerFacility s) timerUtterance"
proof -
  define s1 where "s1 = dispatchVADEvent demo_env speech policy_listening"
  define s2 where "s2 = dispatchVADEvent demo_env utterance_end s1"
  define s3 where "s3 = dispatchVADEvent demo_env speech s2"
  define s4 where "s4 = dispatch demo_env SourceSTTResult (PaySTT stopword_result) s3"
  define s5 where "s5 = dispatchVADEvent demo_env utterance_end s4"
  define s6 where "s6 = dispatch demo_env SourceResponseReady (PayResponse \<lparr>respOK = False, respFrames = []\<rparr>) s5"
  note ds = dispatchVADEvent_def dispatch_settle table_rows withSpeechReset_def arm_cancel settle_def step_eqs
    timer_laws Let_def
  have 1: "state s1 = StateListening" "sttReqID s1 = 0" "CallSID s1 = ''CA1''" "turnEndPolicy s1 = Some StopwordPolicy"
    "sttIn s1" "tf_inv (timerFacility s1)"
    by (simp_all add: s1_def ds policy_listening_state handleSpeechOnset_def speech_def)
  have 2: "state s2 = StateAwaitingFullResult" "sttReqID s2 = 1" "CallSID s2 = ''CA1''" "turnEndPolicy s2 = Some StopwordPolicy"
    "tf_inv (timerFacility s2)"
    by (simp_all add: s2_def ds 1 utterance_end_def handleListeningVADEvent_def dispatchFullPass_def onUtteranceEnd_def)
  have 3: "state s3 = StateAwaitingFullResult" "sttReqID s3 = 1" "CallSID s3 = ''CA1''" "turnEndPolicy s3 = Some StopwordPolicy"
    "tf_inv (timerFacility s3)" "tf_pending (timerFacility s3) timerUtterance"
    by (simp_all add: s3_def ds 2 handleSpeechOnset_def speech_def)
  have 4: "state s4 = StateAwaitingResponse" "\<not> turnActive s4" "tf_inv (timerFacility s4)" "tf_pending (timerFacility s4) timerUtterance"
    by (simp_all add: s4_def ds 3 handleSTTResult_def stopword_result_def acceptFullPass_def stopword_done enterAwaitingResponse_def)
  have 5: "state s5 = StateAwaitingResponse" "\<not> turnActive s5" "tf_inv (timerFacility s5)" "tf_pending (timerFacility s5) timerUtterance"
    by (simp_all add: s5_def ds 4 handleUnexpected_def)
  have 6: "state s6 = StateListening" "\<not> turnActive s6" "tf_pending (timerFacility s6) timerUtterance"
    by (simp_all add: s6_def ds 5 handleResponseReady_def)
  show ?thesis using 6 by (simp add: s1_def s2_def s3_def s4_def s5_def s6_def)
qed

section \<open>Properties: turns\<close>

text \<open>C11: no transcript is lost, duplicated or reordered.  After any run of a started session, the
  completed turns followed by the open one are exactly the trimmed texts of the results accepted on
  the way (right session, current request, not a stopword), in order, and the turn sink was told of
  each completed turn once, in order, as its texts joined by blanks.\<close>

theorem transcript_conservation:
  assumes "Start (NewSession sid opts) = (None, s0)" "call_run E ins s0 = Some s"
  shows "conv s = accepted_run E ins s0 \<and> told (outs s) = map (joinWith '' '') (transcriptTurns s)"
proof -
  have "conv s0 = []" using Start_eq(1) [OF assms(1)] by (simp add: conv_def arm_cancel)
  moreover have "call_reach E s" using run_reach [OF call_reach.call_start [OF assms(1)] assms(2)] .
  ultimately show ?thesis
    using conv_run [OF assms(2)] tlog.Q_reach [of E s] by (simp add: turn_log_def)
qed

theorem transcript_conservation_witness:
  "\<exists>s. call_run demo_env [InData [0xFF]] demo = Some s \<and> conv s = [] \<and> told (outs s) = map (joinWith '' '') (transcriptTurns s)"
proof -
  obtain s where s: "call_run demo_env [InData [0xFF]] demo = Some s" by simp
  with transcript_conservation [OF demo_start s] show ?thesis by auto
qed



text \<open>Request numbers identify requests.  In every reachable state the requests handed over so far
  carry the session's id, are full passes, and have strictly increasing numbers between 1 and the
  current one, so the number check on results accepts at most one request's result at a time.\<close>

theorem request_numbers:
  assumes "call_reach E s"
  shows "sorted_wrt (<) (map reqRequestID (requests s)) \<and>
    (\<forall>r \<in> set (requests s). reqSessionID r = CallSID s \<and> reqKind r = FullPass \<and> 1 \<le> reqRequestID r \<and> reqRequestID r \<le> sttReqID s)"
  using reqs.Q_reach [OF assms] by (simp add: requests_ok_def list_all_iff)

theorem request_numbers_witness: "sorted_wrt (<) (map reqRequestID (requests demo))"
  using request_numbers [OF demo_reach] by blast

section \<open>Properties: playout\<close>

text \<open>The order of a response.  When a response arrives in AwaitingResponse and every send
  succeeds, the caller's buffer is first cleared of the thinking bed, then the frames go out in order,
  then the response mark, and only then does the state become playout; afterwards neither the bed tick
  nor the response cap is pending and the mark-echo backstop is.\<close>

theorem response_order:
  assumes "call_reach E s" "state s = StateAwaitingResponse" "dataOut s" "ctlOut s" "\<And>n. sendOK E n"
    "s' = dispatch E SourceResponseReady (PayResponse \<lparr>respOK = True, respFrames = frames\<rparr>) s"
  shows "outs s' = outs s @ [EffControl ControlOutClear True] @ map (\<lambda>f. EffData f True) frames @
      [EffControl (ControlOutMark responseMarkName) True, EffState StateAwaitingResponsePlayout] \<and>
    \<not> tf_pending (timerFacility s') timerBedTick \<and> \<not> tf_pending (timerFacility s') timerResponse \<and>
      tf_pending (timerFacility s') timerMarkEcho"
proof -
  have "outs s' = outs s @ [EffControl ControlOutClear True] @ map (\<lambda>f. EffData f True) frames @
      [EffControl (ControlOutMark responseMarkName) True, EffState StateAwaitingResponsePlayout]"
    using assms by (simp add: dispatch_settle table_rows settle_def setState_def handleResponseReady_def arm_cancel emit_def
        sendControlClear_def sendControl_def sendResponseFrames_def sendFrames_eq sentFrames_ok sendResponseMarkAndArmEcho_def Let_def)
  moreover have "call_inv s'" using inv_response reach_inv [OF assms(1)] assms(6) by simp
  moreover have "state s' = StateAwaitingResponsePlayout"
    using assms by (simp add: dispatch_settle table_rows settle_def setState_eq handleResponseReady_def Let_def)
  ultimately show ?thesis
    by (simp add: call_inv_def timers_ok_def Let_def)
qed

theorem response_order_witness:
  "\<exists>s s'. call_reach demo_env s \<and>
     s' = dispatch demo_env SourceResponseReady (PayResponse \<lparr>respOK = True, respFrames = [[1], [2]]\<rparr>) s \<and>
     outs s' = outs s @ [EffControl ControlOutClear True, EffData [1] True, EffData [2] True,
       EffControl (ControlOutMark responseMarkName) True, EffState StateAwaitingResponsePlayout]"
proof -
  have r: "call_reach demo_env (demo_waiting turn_end)" by (rule demo_waiting_reach)
  show ?thesis
    using response_order [where frames = "[[1], [2]]", OF r _ _ _ _ refl] demo_waiting_state [of turn_end] r
    by (auto simp: demo_env_def turn_end_def)
qed

text \<open>The order of a farewell.  When a call is ended with a clip and every send succeeds, the clip
  goes out as frames of at most 160 bytes that concatenate to it, then the state becomes
  AwaitingMarkEcho, and only then is the farewell mark sent, so its echo never meets an older state;
  the backstop is as long as the clip plus half a second.\<close>

theorem terminate_order:
  assumes "dataOut s" "ctlOut s" "\<And>n. sendOK E n"
  shows "\<exists>fs. concat fs = clip \<and> (\<forall>f \<in> set fs. length f \<le> 160) \<and>
    outs (fst (terminateWithClip E clip s)) = outs s @ map (\<lambda>f. EffData f True) fs @
      [EffState StateAwaitingMarkEcho, EffControl (ControlOutMark farewellMarkName) True] \<and>
    MarkEchoTimeout clip = (int (length clip) div 8 + 500) * millisecond"
proof -
  have n: "farewellFrameBytes = 160" by (simp add: farewellFrameBytes_def SampleRateHz_def MuLawFrameMS_def)
  have "MarkEchoTimeout clip = (int (length clip) div 8 + 500) * millisecond"
    by (simp add: MarkEchoTimeout_def SampleRateHz_def MarkEchoGraceMS_def sdiv_pos algebra_simps Let_def)
  moreover have "outs (fst (terminateWithClip E clip s)) = outs s @ map (\<lambda>f. EffData f True) (chunks 160 clip) @
      [EffState StateAwaitingMarkEcho, EffControl (ControlOutMark farewellMarkName) True]"
    using assms by (simp add: terminateWithClip_def sendClip_def sendFrames_eq sentFrames_ok setState_def
        sendMarkAndArmEcho_def sendControl_def arm_cancel emit_def Let_def n)
  ultimately show ?thesis
    using concat_chunks [of 160 clip] chunks_bound [of _ 160 clip] by (intro exI [of _ "chunks 160 clip"]) simp
qed

theorem terminate_order_witness:
  "\<exists>fs. concat fs = (replicate 320 0x55 :: bytes) \<and> (\<forall>f \<in> set fs. length f \<le> 160) \<and>
    outs (fst (terminateWithClip demo_env (replicate 320 0x55) demo)) = outs demo @ map (\<lambda>f. EffData f True) fs @
      [EffState StateAwaitingMarkEcho, EffControl (ControlOutMark farewellMarkName) True]"
  using terminate_order [of demo demo_env "replicate 320 0x55"] by (auto simp: demo_flags demo_env_def)

text \<open>The thinking bed loops seamlessly.  A bed chunk taken at an offset within a clip is exactly
  200 ms of audio, byte \<open>i\<close> of it is byte \<open>offset + i\<close> of the clip repeated for ever, and the offset
  left behind is where the next chunk goes on; the slice expression never leaves the clip.\<close>

theorem bed_chunk:
  assumes "off < length clip"
  shows "bedChunk_loop clip off [] = ((off + 1600) mod length clip, map (\<lambda>i. clip ! ((off + i) mod length clip)) [0..<1600])"
  using bedChunk_cyclic [OF assms, of "[]"] by (simp add: bedChunkBytes_eq)

theorem bed_chunk_witness: "fst (bedChunk_loop [1, 2, 3] 1 []) = 2 \<and> length (snd (bedChunk_loop [1, 2, 3] 1 [])) = 1600"
  using bed_chunk [of 1 "[1, 2, 3]"] by simp

text \<open>The stopword.  A transcript ends the turn exactly when, blanks around it removed, it is the
  word done in any case followed by nothing but full stops, commas, exclamation and question marks.\<close>

theorem stopword_exactly:
  "StopwordPolicy t \<longleftrightarrow> (\<exists>d p. trimSpace t = d @ p \<and> toLower d = ''done'' \<and> set p \<subseteq> set ''.!?,'')"
  unfolding StopwordPolicy_def by (rule normalize_done)

section \<open>Properties: two calls that go wrong\<close>

text \<open>C17: a caller who never speaks.  With the default configuration 157 quiet windows (five seconds)
  make the voice detector report the end of a turn that never began.  The session then waits for a
  response although the turn sink was told nothing: the idle farewell is off and the caller hears the
  thinking bed until the response cap.\<close>

theorem silent_caller_waits:
  "\<exists>ev s. fst (vad_feed (replicate 157 (F32 0)) (newVADMachine defaultVADConfig)) = [ev] \<and>
     call_run demo_env [InData [0xFF], InVAD ev] demo = Some s \<and>
     state s = StateAwaitingResponse \<and> told (outs s) = [] \<and> \<not> tf_pending (timerFacility s) timerIdle"
proof -
  obtain ev where ev: "fst (vad_feed (replicate 157 (F32 0)) (newVADMachine defaultVADConfig)) = [ev]" "evKind ev = VADTurnEnd"
    using quiet_start by blast
  moreover have "call_run demo_env [InData [0xFF], InVAD ev] demo = Some (demo_waiting ev)"
    by (simp add: demo_waiting_def demo_listening_def)
  moreover have "told (outs (demo_waiting ev)) = []"
    using tlog.Q_reach [OF demo_waiting_reach] demo_waiting_state [OF ev(2)] by (simp add: turn_log_def)
  ultimately show ?thesis
    using demo_waiting_state [OF ev(2)] timers_when [OF reach_inv [OF demo_waiting_reach]] by blast
qed



end
