(* ===== verification/Wire.thy ===== *)
theory Wire
  imports Prelude
begin

text \<open>
  The parts of Go's \<open>encoding/json\<close> and \<open>encoding/base64\<close> that the wire formats use.

  A JSON document is its syntax tree; bytes that do not parse have no tree.  An integer literal is a
  \<open>JInt\<close>, every other number its literal.  \<open>json_print\<close> is \<open>json.Marshal\<close>'s output for a tree (no white
  space; strings quoted as the encoder quotes valid UTF-8 text).  \<open>json.Unmarshal\<close> into a struct runs
  through the members of an object in order and stores into the field whose name matches up to case, so
  a repeated member overwrites a string field and adds to a nested struct; \<open>null\<close> leaves a field alone;
  a value of another type makes the whole call fail.
\<close>

section \<open>JSON\<close>

datatype json = JNull | JBool bool | JInt int | JNum string | JStr string | JArr "json list" | JObj "(string \<times> json) list"

definition hex_digit :: "nat \<Rightarrow> char" where
  "hex_digit n = (if n < 10 then char_of (48 + n) else char_of (87 + n))"

text \<open>\<open>appendString\<close> with HTML escaping; bytes from 0x80 belong to UTF-8 sequences and pass.\<close>

definition json_escape :: "char \<Rightarrow> string" where
  "json_escape c =
     (let n = of_char c :: nat in
      if n = 34 then [CHR 92, CHR 34]
      else if n = 92 then [CHR 92, CHR 92]
      else if n = 8 then [CHR 92, CHR ''b'']
      else if n = 12 then [CHR 92, CHR ''f'']
      else if n = 10 then [CHR 92, CHR ''n'']
      else if n = 13 then [CHR 92, CHR ''r'']
      else if n = 9 then [CHR 92, CHR ''t'']
      else if n < 32 \<or> n = 60 \<or> n = 62 \<or> n = 38
      then [CHR 92, CHR ''u'', CHR ''0'', CHR ''0'', hex_digit (n div 16), hex_digit (n mod 16)]
      else [c])"

definition json_quote :: "string \<Rightarrow> string" where
  "json_quote s = [CHR 34] @ concat (map json_escape s) @ [CHR 34]"

fun json_print :: "json \<Rightarrow> string" where
  "json_print JNull = ''null''"
| "json_print (JBool b) = (if b then ''true'' else ''false'')"
| "json_print (JInt i) = itoa i"
| "json_print (JNum s) = s"
| "json_print (JStr s) = json_quote s"
| "json_print (JArr js) = ''['' @ joinWith '','' (map json_print js) @ '']''"
| "json_print (JObj kvs) = ''{'' @ joinWith '','' (map (\<lambda>(k, v). json_quote k @ '':'' @ json_print v) kvs) @ ''}''"

datatype json_error = BadSyntax | BadType

text \<open>The values stored into one field, in order.\<close>

definition members :: "string \<Rightarrow> (string \<times> json) list \<Rightarrow> json list" where
  "members name kvs = map snd (filter (\<lambda>(k, v). toLower k = toLower name) kvs)"

fun store_string :: "string \<Rightarrow> json list \<Rightarrow> json_error + string" where
  "store_string cur [] = Inr cur"
| "store_string cur (JStr s # vs) = store_string s vs"
| "store_string cur (JNull # vs) = store_string cur vs"
| "store_string cur (v # vs) = Inl BadType"

definition string_field :: "string \<Rightarrow> (string \<times> json) list \<Rightarrow> json_error + string" where
  "string_field name kvs = store_string '''' (members name kvs)"

text \<open>The members of a nested struct: those of every object stored into it.\<close>

fun store_struct :: "json list \<Rightarrow> json_error + (string \<times> json) list" where
  "store_struct [] = Inr []"
| "store_struct (JObj kvs # vs) = map_sum id ((@) kvs) (store_struct vs)"
| "store_struct (JNull # vs) = store_struct vs"
| "store_struct (v # vs) = Inl BadType"

definition struct_field :: "string \<Rightarrow> (string \<times> json) list \<Rightarrow> json_error + (string \<times> json) list" where
  "struct_field name kvs = store_struct (members name kvs)"

text \<open>A \<open>json.RawMessage\<close> field keeps the last value stored, \<open>null\<close> included.\<close>

definition raw_field :: "string \<Rightarrow> (string \<times> json) list \<Rightarrow> json option" where
  "raw_field name kvs = (case members name kvs of [] \<Rightarrow> None | vs \<Rightarrow> Some (last vs))"

text \<open>A document decoded into a struct.\<close>

definition doc_members :: "json option \<Rightarrow> json_error + (string \<times> json) list" where
  "doc_members doc = (case doc of None \<Rightarrow> Inl BadSyntax | Some j \<Rightarrow> store_struct [j])"

section \<open>Base64\<close>

definition enc6 :: "nat \<Rightarrow> char" where
  "enc6 n =
     (if n < 26 then char_of (65 + n)
      else if n < 52 then char_of (71 + n)
      else if n < 62 then char_of (n - 4)
      else if n = 62 then CHR ''+'' else CHR ''/'')"

definition dec6 :: "char \<Rightarrow> nat option" where
  "dec6 c =
     (let n = of_char c :: nat in
      if 65 \<le> n \<and> n \<le> 90 then Some (n - 65)
      else if 97 \<le> n \<and> n \<le> 122 then Some (n - 71)
      else if 48 \<le> n \<and> n \<le> 57 then Some (n + 4)
      else if n = 43 then Some 62
      else if n = 47 then Some 63 else None)"

text \<open>\<open>StdEncoding.EncodeToString\<close>.\<close>

fun b64enc :: "bytes \<Rightarrow> string" where
  "b64enc [] = []"
| "b64enc [a] =
     (let n = unat a * 16 in [enc6 (n div 64), enc6 (n mod 64), CHR ''='', CHR ''=''])"
| "b64enc [a, b] =
     (let n = (unat a * 256 + unat b) * 4
      in [enc6 (n div 4096), enc6 (n div 64 mod 64), enc6 (n mod 64), CHR ''=''])"
| "b64enc (a # b # c # bs) =
     (let n = (unat a * 256 + unat b) * 256 + unat c
      in enc6 (n div 262144) # enc6 (n div 4096 mod 64) # enc6 (n div 64 mod 64) # enc6 (n mod 64) # b64enc bs)"

text \<open>
  \<open>StdEncoding.DecodeString\<close>: line breaks are skipped, the last quantum is padded, its unused bits are
  not looked at.
\<close>

fun b64quads :: "string \<Rightarrow> bytes option" where
  "b64quads [] = Some []"
| "b64quads (w # x # y # z # s) =
     (case (dec6 w, dec6 x, dec6 y, dec6 z) of
        (Some i, Some j, Some k, Some l) \<Rightarrow>
          (let n = ((i * 64 + j) * 64 + k) * 64 + l
           in map_option (\<lambda>bs. of_nat (n div 65536) # of_nat (n div 256 mod 256) # of_nat (n mod 256) # bs) (b64quads s))
      | (Some i, Some j, Some k, None) \<Rightarrow>
          (let n = (i * 64 + j) * 64 + k
           in if z = CHR ''='' \<and> s = [] then Some [of_nat (n div 1024), of_nat (n div 4 mod 256)] else None)
      | (Some i, Some j, None, _) \<Rightarrow>
          (if y = CHR ''='' \<and> z = CHR ''='' \<and> s = [] then Some [of_nat ((i * 64 + j) div 16)] else None)
      | _ \<Rightarrow> None)"
| "b64quads _ = None"

definition b64dec :: "string \<Rightarrow> bytes option" where
  "b64dec s = b64quads (filter (\<lambda>c. c \<noteq> CHR 10 \<and> c \<noteq> CHR 13) s)"

lemma dec6_enc6 [simp]: "k < 64 \<Longrightarrow> dec6 (enc6 k) = Some k"
  by (auto simp: enc6_def dec6_def Let_def)

lemma dec6_pad [simp]: "dec6 (CHR ''='') = None" "dec6 (CHR 10) = None" "dec6 (CHR 13) = None"
  by (simp_all add: dec6_def)

lemma enc6_plain: "k < 64 \<Longrightarrow> enc6 k \<noteq> CHR 10 \<and> enc6 k \<noteq> CHR 13 \<and> enc6 k \<noteq> CHR ''=''"
  using dec6_enc6 [of k] dec6_pad by (metis option.distinct(1))

lemma unat_byte: "unat (b :: byte) < 256"
  using unsigned_less [of b] by simp

text \<open>Base 64 digits put together again.\<close>

lemma digits64:
  "n div 64 * 64 + n mod 64 = (n :: nat)"
  "(n div 4096 * 64 + n div 64 mod 64) * 64 + n mod 64 = n"
  "((n div 262144 * 64 + n div 4096 mod 64) * 64 + n div 64 mod 64) * 64 + n mod 64 = n"
proof -
  show 1: "n div 64 * 64 + n mod 64 = n" for n :: nat by (rule div_mult_mod_eq)
  have d: "n div 4096 = n div 64 div 64" "n div 262144 = n div 64 div 64 div 64" by (simp_all add: div_mult2_eq [symmetric])
  show 2: "(n div 4096 * 64 + n div 64 mod 64) * 64 + n mod 64 = n"
    unfolding d using 1 [of "n div 64"] 1 [of n] by simp
  show "((n div 262144 * 64 + n div 4096 mod 64) * 64 + n div 64 mod 64) * 64 + n mod 64 = n"
    unfolding d using 1 [of "n div 64 div 64"] 1 [of "n div 64"] 1 [of n] by simp
qed

lemma bytes_arith:
  fixes a b c :: byte
  shows "unat a * 16 div 64 < 64" "unat a * 16 div 16 = unat a"
    "(unat a * 256 + unat b) * 4 div 4096 < 64" "(unat a * 256 + unat b) * 4 div 1024 = unat a"
    "(unat a * 256 + unat b) * 4 div 4 mod 256 = unat b"
    "((unat a * 256 + unat b) * 256 + unat c) div 262144 < 64"
    "((unat a * 256 + unat b) * 256 + unat c) div 65536 = unat a"
    "((unat a * 256 + unat b) * 256 + unat c) div 256 mod 256 = unat b"
    "((unat a * 256 + unat b) * 256 + unat c) mod 256 = unat c"
proof -
  have lt: "unat a < 256" "unat b < 256" "unat c < 256" by (rule unat_byte)+
  show "unat a * 16 div 64 < 64" "unat a * 16 div 16 = unat a"
    using lt by (simp_all add: less_mult_imp_div_less)
  have ab: "(unat a * 256 + unat b) div 256 = unat a" "(unat a * 256 + unat b) mod 256 = unat b" using lt by simp_all
  show "(unat a * 256 + unat b) * 4 div 4096 < 64" using lt by (intro less_mult_imp_div_less) simp
  have "(unat a * 256 + unat b) * 4 div 1024 = (unat a * 256 + unat b) * 4 div 4 div 256" by (simp add: div_mult2_eq [symmetric])
  with ab show "(unat a * 256 + unat b) * 4 div 1024 = unat a" by simp
  show "(unat a * 256 + unat b) * 4 div 4 mod 256 = unat b" using ab by simp
  have n: "((unat a * 256 + unat b) * 256 + unat c) div 256 = unat a * 256 + unat b"
    "((unat a * 256 + unat b) * 256 + unat c) mod 256 = unat c"
    using lt div_mult_self3 [of 256 "unat c" "unat a * 256 + unat b"] mod_mult_self3 [of "unat a * 256 + unat b" 256 "unat c"]
    by (simp_all only: div_less mod_less) simp
  show "((unat a * 256 + unat b) * 256 + unat c) div 262144 < 64" using lt by (intro less_mult_imp_div_less) simp
  have "((unat a * 256 + unat b) * 256 + unat c) div 65536 = ((unat a * 256 + unat b) * 256 + unat c) div 256 div 256"
    by (simp add: div_mult2_eq [symmetric])
  with n ab show "((unat a * 256 + unat b) * 256 + unat c) div 65536 = unat a" by simp
  show "((unat a * 256 + unat b) * 256 + unat c) div 256 mod 256 = unat b" unfolding n(1) using ab by simp
  show "((unat a * 256 + unat b) * 256 + unat c) mod 256 = unat c" by (rule n)
qed

lemma b64quads_enc: "b64quads (b64enc bs) = Some bs"
proof (induction bs rule: b64enc.induct)
  case (2 a)
  define n where "n = unat a * 16"
  note f = bytes_arith(1,2) [of a, folded n_def] digits64(1) [of n]
  show ?case by (simp only: b64enc.simps n_def [symmetric] Let_def) (simp add: f)
next
  case (3 a b)
  define n where "n = (unat a * 256 + unat b) * 4"
  note f = bytes_arith(3-5) [of a b, folded n_def] digits64(2) [of n]
  show ?case by (simp only: b64enc.simps n_def [symmetric] Let_def) (simp add: f f(4) [simplified] Let_def)
next
  case (4 a b c bs)
  define n where "n = (unat a * 256 + unat b) * 256 + unat c"
  note f = bytes_arith(6-9) [of a b c, folded n_def] digits64(3) [of n]
  show ?case by (simp only: b64enc.simps n_def [symmetric] Let_def) (simp add: f f(5) [simplified] 4 Let_def)
qed simp

lemma b64enc_no_breaks: "filter (\<lambda>c. c \<noteq> CHR 10 \<and> c \<noteq> CHR 13) (b64enc bs) = b64enc bs"
proof (induction bs rule: b64enc.induct)
  case (2 a)
  define n where "n = unat a * 16"
  show ?case
    by (simp only: b64enc.simps n_def [symmetric] Let_def) (simp add: enc6_plain bytes_arith(1) [of a, folded n_def])
next
  case (3 a b)
  define n where "n = (unat a * 256 + unat b) * 4"
  show ?case
    by (simp only: b64enc.simps n_def [symmetric] Let_def) (simp add: enc6_plain bytes_arith(3) [of a b, folded n_def])
next
  case (4 a b c bs)
  define n where "n = (unat a * 256 + unat b) * 256 + unat c"
  show ?case
    by (simp only: b64enc.simps n_def [symmetric] Let_def) (simp add: enc6_plain 4 bytes_arith(6) [of a b c, folded n_def])
qed simp

lemma b64_roundtrip: "b64dec (b64enc bs) = Some bs"
  by (simp add: b64dec_def b64enc_no_breaks b64quads_enc)

end
