(* ===== verification/Stream.thy ===== *)
theory Stream
  imports Wire
begin

text \<open>
  Twilio's media-stream frames (\<open>telephony/twilio/stream.go\<close>) and \<open>muLawBytesInB64\<close> of
  \<open>realtime_marks.go\<close>.  An encoder yields the JSON tree it marshals; \<open>DecodeFrame\<close> takes the tree of the
  bytes it is given, \<open>None\<close> when they are not JSON.
\<close>

section \<open>Frames\<close>

definition EventStart :: string where "EventStart = ''start''"
definition EventMedia :: string where "EventMedia = ''media''"
definition EventStop :: string where "EventStop = ''stop''"
definition EventMark :: string where "EventMark = ''mark''"
definition EventClear :: string where "EventClear = ''clear''"
definition EventConnected :: string where "EventConnected = ''connected''"

lemmas event_names = EventStart_def EventMedia_def EventStop_def EventMark_def EventClear_def EventConnected_def

record Frame =
  Event :: string
  StreamSID :: string
  Payload :: "bytes option"
  EncodedPayload :: string
  Chunk :: int
  Timestamp :: string
  MarkName :: string
  frCallSID :: string
  frFrom :: string
  frTo :: string

definition zeroFrame :: Frame where
  "zeroFrame = \<lparr>Event = '''', StreamSID = '''', Payload = None, EncodedPayload = '''', Chunk = 0, Timestamp = '''',
     MarkName = '''', frCallSID = '''', frFrom = '''', frTo = ''''\<rparr>"

datatype decode_error = BadJSON json_error | BadPayload | BadChunk | UnknownEvent string

section \<open>Decoding\<close>

fun parseChunk :: "json \<Rightarrow> int option" where
  "parseChunk (JInt i) = (if int64_ok i then Some i else None)"
| "parseChunk JNull = Some 0"
| "parseChunk (JStr s) = atoi s"
| "parseChunk _ = None"

text \<open>The fields of the \<open>inbound\<close> struct.\<close>

record inbound =
  inEvent :: string
  inStreamSID :: string
  inPayload :: string
  inChunk :: "json option"
  inTimestamp :: string
  inMark :: string
  inCallSID :: string

definition unmarshal_inbound :: "json option \<Rightarrow> json_error + inbound" where
  "unmarshal_inbound raw =
     (case doc_members raw of Inl e \<Rightarrow> Inl e | Inr kvs \<Rightarrow>
     (case (string_field ''event'' kvs, string_field ''streamSid'' kvs) of
        (Inr ev, Inr sid) \<Rightarrow>
     (case (struct_field ''media'' kvs, struct_field ''mark'' kvs, struct_field ''start'' kvs) of
        (Inr media, Inr mark, Inr start) \<Rightarrow>
     (case (string_field ''payload'' media, string_field ''timestamp'' media, string_field ''name'' mark, string_field ''callSid'' start) of
        (Inr pay, Inr ts, Inr nm, Inr csid) \<Rightarrow>
          Inr \<lparr>inEvent = ev, inStreamSID = sid, inPayload = pay, inChunk = raw_field ''chunk'' media, inTimestamp = ts,
            inMark = nm, inCallSID = csid\<rparr>
      | _ \<Rightarrow> Inl BadType) | _ \<Rightarrow> Inl BadType) | _ \<Rightarrow> Inl BadType))"

definition decodeMedia :: "inbound \<Rightarrow> Frame \<Rightarrow> decode_error + Frame" where
  "decodeMedia inb f =
     (case b64dec (inPayload inb) of
        None \<Rightarrow> Inl BadPayload
      | Some payload \<Rightarrow>
          (let f = f\<lparr>Payload := Some payload, EncodedPayload := inPayload inb\<rparr> in
           case inChunk inb of
             None \<Rightarrow> Inr (f\<lparr>Timestamp := inTimestamp inb\<rparr>)
           | Some raw \<Rightarrow>
               (case parseChunk raw of
                  None \<Rightarrow> Inl BadChunk
                | Some chunk \<Rightarrow> Inr (f\<lparr>Chunk := chunk, Timestamp := inTimestamp inb\<rparr>))))"

definition DecodeFrame :: "json option \<Rightarrow> decode_error + Frame" where
  "DecodeFrame raw =
     (case unmarshal_inbound raw of
        Inl e \<Rightarrow> Inl (BadJSON e)
      | Inr inb \<Rightarrow>
          (let f = zeroFrame\<lparr>Event := inEvent inb, StreamSID := inStreamSID inb\<rparr> in
           if Event f = EventMedia then decodeMedia inb f
           else if Event f = EventMark then Inr (f\<lparr>MarkName := inMark inb\<rparr>)
           else if Event f = EventStart then Inr (f\<lparr>frCallSID := inCallSID inb\<rparr>)
           else if Event f \<in> {EventStop, EventClear, EventConnected} then Inr f
           else Inl (UnknownEvent (inEvent inb))))"

section \<open>Encoding\<close>

definition outboundBase :: "string \<Rightarrow> string \<Rightarrow> (string \<times> json) list" where
  "outboundBase event streamSID = [(''event'', JStr event), (''streamSid'', JStr streamSID)]"

definition EncodeMediaB64 :: "string \<Rightarrow> string \<Rightarrow> json" where
  "EncodeMediaB64 streamSID payloadB64 =
     JObj (outboundBase EventMedia streamSID @ [(''media'', JObj [(''payload'', JStr payloadB64)])])"

definition EncodeMedia :: "string \<Rightarrow> bytes \<Rightarrow> json" where
  "EncodeMedia streamSID payload = EncodeMediaB64 streamSID (b64enc payload)"

definition EncodeMediaWithMetadata :: "string \<Rightarrow> bytes \<Rightarrow> int \<Rightarrow> int \<Rightarrow> json" where
  "EncodeMediaWithMetadata streamSID payload chunk seqNum =
     JObj (outboundBase EventMedia streamSID @
       [(''sequenceNumber'', JStr (itoa seqNum)),
        (''media'', JObj [(''track'', JStr ''inbound''), (''payload'', JStr (b64enc payload)), (''chunk'', JStr (itoa chunk)),
          (''timestamp'', JStr (itoa ((chunk - 1) * 20)))])])"

definition EncodeMark :: "string \<Rightarrow> string \<Rightarrow> json" where
  "EncodeMark streamSID name = JObj (outboundBase EventMark streamSID @ [(''mark'', JObj [(''name'', JStr name)])])"

definition EncodeClear :: "string \<Rightarrow> json" where
  "EncodeClear streamSID = JObj (outboundBase EventClear streamSID)"

definition EncodeStop :: "string \<Rightarrow> string \<Rightarrow> string \<Rightarrow> int \<Rightarrow> json" where
  "EncodeStop streamSID callSID accountSID seqNum =
     JObj (outboundBase EventStop streamSID @
       [(''sequenceNumber'', JStr (itoa seqNum)),
        (''stop'', JObj [(''accountSid'', JStr accountSID), (''callSid'', JStr callSID)])])"

definition mediaFormat :: json where
  "mediaFormat = JObj [(''encoding'', JStr ''audio/x-mulaw''), (''sampleRate'', JInt 8000), (''channels'', JInt 1)]"

definition EncodeStart :: "string \<Rightarrow> string \<Rightarrow> string \<Rightarrow> int \<Rightarrow> json" where
  "EncodeStart streamSID callSID accountSID seqNum =
     JObj (outboundBase EventStart streamSID @
       [(''sequenceNumber'', JStr (itoa seqNum)),
        (''start'', JObj [(''streamSid'', JStr streamSID), (''accountSid'', JStr accountSID), (''callSid'', JStr callSID),
          (''tracks'', JArr [JStr ''inbound'']), (''customParameters'', JObj []), (''mediaFormat'', mediaFormat)])])"

definition EncodeConnected :: json where
  "EncodeConnected = JObj [(''event'', JStr ''connected''), (''protocol'', JStr ''Call''), (''version'', JStr ''1.0.0'')]"

section \<open>Audio length of a payload\<close>

text \<open>How many bytes a base64 payload decodes to, read off its length.\<close>

definition muLawBytesInB64 :: "string \<Rightarrow> int" where
  "muLawBytesInB64 payloadB64 = int (length (trimRight ''='' payloadB64) * 6 div 8)"

lemma trimRight_snoc: "trimRight cs (xs @ [x]) = (if x \<in> set cs then trimRight cs xs else xs @ [x])"
  by (simp add: trimRight_def)

lemma trimRight_append: "trimRight cs ys \<noteq> [] \<Longrightarrow> trimRight cs (xs @ ys) = xs @ trimRight cs ys"
proof (induction ys rule: rev_induct)
  case (snoc y ys)
  with trimRight_snoc [of cs "xs @ ys" y] trimRight_snoc [of cs ys y] show ?case
    by (cases "y \<in> set cs") simp_all
qed (simp add: trimRight_def)

lemma dec6_not_pad: "dec6 c = Some k \<Longrightarrow> c \<noteq> CHR ''=''"
  by auto

lemma b64quads_length: "b64quads s = Some bs \<Longrightarrow> length (trimRight ''='' s) * 6 div 8 = length bs \<and> (s = [] \<or> trimRight ''='' s \<noteq> [])"
proof (induction s arbitrary: bs rule: b64quads.induct)
  case (2 w x y z s)
  obtain i j where w: "dec6 w = Some i" "dec6 x = Some j"
    using "2.prems" by (auto split: option.splits)
  then have nw: "w \<noteq> CHR ''=''" "x \<noteq> CHR ''=''" by auto
  have sn: "[w, x, y, z] = ([w, x, y] @ [z])" "[w, x, y] = [w, x] @ [y]" "[w, x] = [w] @ [x]" by simp_all
  show ?case
  proof (cases "dec6 y")
    case None
    with w "2.prems" have e: "y = CHR ''=''" "z = CHR ''=''" "s = []" "length bs = 1" by (auto split: if_splits)
    then show ?thesis using nw by (simp add: trimRight_def)
  next
    case (Some k)
    show ?thesis
    proof (cases "dec6 z")
      case None
      with w Some "2.prems" have e: "z = CHR ''=''" "s = []" "length bs = 2" by (auto simp: Let_def split: if_splits)
      then show ?thesis using dec6_not_pad [OF Some] by (simp add: trimRight_def)
    next
      case (Some l)
      with w \<open>dec6 y = Some k\<close> "2.prems" obtain bs' where bs': "b64quads s = Some bs'" "length bs = length bs' + 3"
        by (auto simp: Let_def)
      with "2.IH" w Some \<open>dec6 y = Some k\<close>
      have ih: "length (trimRight ''='' s) * 6 div 8 = length bs'" "s = [] \<or> trimRight ''='' s \<noteq> []" by simp_all
      show ?thesis
      proof (cases "s = []")
        case True
        with ih bs' dec6_not_pad [OF Some] show ?thesis by (simp add: trimRight_def)
      next
        case False
        with ih have "trimRight ''='' ([w, x, y, z] @ s) = [w, x, y, z] @ trimRight ''='' s" by (intro trimRight_append) simp
        with ih bs' show ?thesis by simp
      qed
    qed
  qed
qed (simp_all add: trimRight_def)

section \<open>Properties\<close>

lemmas encode_defs = EncodeMedia_def EncodeMediaB64_def EncodeMediaWithMetadata_def EncodeMark_def EncodeClear_def
  EncodeStop_def EncodeStart_def EncodeConnected_def outboundBase_def mediaFormat_def event_names

lemmas decode_defs = DecodeFrame_def unmarshal_inbound_def decodeMedia_def doc_members_def string_field_def struct_field_def
  raw_field_def members_def zeroFrame_def toLower_def toLower_char_def

text \<open>A frame the program encodes is the frame it decodes.  Media frames give back the audio and
  the base64 text they carry (with metadata also the chunk number and the time stamp), a mark its name,
  a start its call, and stop, clear and connected frames themselves.\<close>

theorem frame_roundtrip:
  assumes "int64_ok chunk"
  shows "DecodeFrame (Some (EncodeMedia sid bs)) =
      Inr (zeroFrame\<lparr>Event := EventMedia, StreamSID := sid, Payload := Some bs, EncodedPayload := b64enc bs\<rparr>) \<and>
    DecodeFrame (Some (EncodeMediaWithMetadata sid bs chunk seq)) =
      Inr (zeroFrame\<lparr>Event := EventMedia, StreamSID := sid, Payload := Some bs, EncodedPayload := b64enc bs,
        Chunk := chunk, Timestamp := itoa ((chunk - 1) * 20)\<rparr>) \<and>
    DecodeFrame (Some (EncodeMark sid name)) = Inr (zeroFrame\<lparr>Event := EventMark, StreamSID := sid, MarkName := name\<rparr>) \<and>
    DecodeFrame (Some (EncodeStart sid call acct seq)) = Inr (zeroFrame\<lparr>Event := EventStart, StreamSID := sid, frCallSID := call\<rparr>) \<and>
    DecodeFrame (Some (EncodeStop sid call acct seq)) = Inr (zeroFrame\<lparr>Event := EventStop, StreamSID := sid\<rparr>) \<and>
    DecodeFrame (Some (EncodeClear sid)) = Inr (zeroFrame\<lparr>Event := EventClear, StreamSID := sid\<rparr>) \<and>
    DecodeFrame (Some EncodeConnected) = Inr (zeroFrame\<lparr>Event := EventConnected\<rparr>)"
  using assms
  by (intro conjI) (simp_all add: encode_defs decode_defs b64_roundtrip atoi_itoa)

theorem frame_roundtrip_witness:
  "DecodeFrame (Some (EncodeMediaWithMetadata ''MZ1'' [1, 2, 3] 7 9)) =
     Inr (zeroFrame\<lparr>Event := EventMedia, StreamSID := ''MZ1'', Payload := Some [1, 2, 3], EncodedPayload := b64enc [1, 2, 3],
       Chunk := 7, Timestamp := itoa ((7 - 1) * 20)\<rparr>)"
  using frame_roundtrip [of 7] by (simp add: int64_ok_def)

text \<open>The playout clock counts the right number of samples.  For every payload that decodes and
  has no line breaks, padded or not counted alike, the length read off the base64 text is the length of
  the audio it decodes to; the audio the engine encodes itself is such a payload.\<close>

theorem b64_length_exact:
  "(b64dec s = Some bs \<and> CHR 10 \<notin> set s \<and> CHR 13 \<notin> set s \<longrightarrow> muLawBytesInB64 s = int (length bs)) \<and>
   muLawBytesInB64 (b64enc audio) = int (length audio)"
proof -
  have "muLawBytesInB64 s = int (length bs)" if s: "b64dec s = Some bs" "CHR 10 \<notin> set s" "CHR 13 \<notin> set s"
  proof -
    have "filter (\<lambda>c. c \<noteq> CHR 10 \<and> c \<noteq> CHR 13) s = s" using s by (intro filter_True) auto
    with s b64quads_length [of s bs] show ?thesis by (simp add: b64dec_def muLawBytesInB64_def)
  qed
  moreover have "muLawBytesInB64 (b64enc audio) = int (length audio)"
    using b64quads_length [OF b64quads_enc, of audio] by (simp add: muLawBytesInB64_def)
  ultimately show ?thesis by blast
qed

theorem b64_length_exact_witness: "muLawBytesInB64 ''AQID'' = 3 \<and> muLawBytesInB64 (b64enc [1, 2]) = 2"
proof -
  have "b64dec ''AQID'' = Some [1, 2, 3]" by (simp add: b64dec_def dec6_def)
  then show ?thesis using b64_length_exact [of "''AQID''" "[1, 2, 3]" "[1, 2]"] by simp
qed

end
