(* ===== verification/Demux.thy ===== *)
theory Demux
  imports Stream Session "HOL-Library.Sublist"
begin

text \<open>
  The demultiplexer between the carrier socket and a session (\<open>telephony/twilio/demux.go\<close> and the two
  pumps of \<open>telephony/twilio/session.go\<close>): a data plane that drops its oldest frame when it is full, a
  control plane that tears the call down rather than drop, and the routing between them.

  \<open>dropOldestPlane.Send\<close> is three selects under a mutex that receivers do not take, so it is modelled
  as three moves between which frames can be received; \<open>plane_Send\<close> is the call with nobody in between.
  A record \<open>plane_run\<close> carries the history the properties speak of.
\<close>

section \<open>The data plane\<close>

record dropOldestPlane =
  dpCh :: "Frame bufferedChan"
  dpClosed :: bool
  dropping :: bool
  dropCount :: int
  dropStart :: int
  dpLog :: "(int \<times> int) list"

definition newDataPlane :: "nat \<Rightarrow> dropOldestPlane" where
  "newDataPlane depth = \<lparr>dpCh = newBufferedChan depth, dpClosed = False, dropping = False, dropCount = 0, dropStart = 0, dpLog = []\<rparr>"

definition recordDropped :: "int \<Rightarrow> dropOldestPlane \<Rightarrow> dropOldestPlane" where
  "recordDropped now p =
     (let p = (if \<not> dropping p then p\<lparr>dropping := True, dropStart := now, dropCount := 0\<rparr> else p)
      in p\<lparr>dropCount := dropCount p + 1\<rparr>)"

text \<open>The log line at the end of a run of drops carries their number and how long it lasted.\<close>

definition recordNotDropping :: "int \<Rightarrow> dropOldestPlane \<Rightarrow> dropOldestPlane" where
  "recordNotDropping now p =
     (if \<not> dropping p then p
      else p\<lparr>dpLog := dpLog p @ [(dropCount p, now - dropStart p)], dropping := False, dropCount := 0\<rparr>)"

text \<open>The first select, the second, and the blocking send; \<open>None\<close>: it would wait.\<close>

definition send_first :: "int \<Rightarrow> Frame \<Rightarrow> dropOldestPlane \<Rightarrow> dropOldestPlane option" where
  "send_first now f p = map_option (\<lambda>ch. recordNotDropping now (p\<lparr>dpCh := ch\<rparr>)) (trySend (dpCh p) f)"

definition send_drop :: "int \<Rightarrow> dropOldestPlane \<Rightarrow> dropOldestPlane" where
  "send_drop now p =
     (case tryRecv (dpCh p) of None \<Rightarrow> p | Some (_, ch) \<Rightarrow> recordDropped now (p\<lparr>dpCh := ch\<rparr>))"

definition send_last :: "Frame \<Rightarrow> dropOldestPlane \<Rightarrow> dropOldestPlane option" where
  "send_last f p = map_option (\<lambda>ch. p\<lparr>dpCh := ch\<rparr>) (trySend (dpCh p) f)"

definition plane_Send :: "int \<Rightarrow> Frame \<Rightarrow> dropOldestPlane \<Rightarrow> dropOldestPlane option" where
  "plane_Send now f p =
     (if dpClosed p then Some p
      else case send_first now f p of
             Some p' \<Rightarrow> Some p'
           | None \<Rightarrow> send_last f (send_drop now p))"

definition plane_Close :: "dropOldestPlane \<Rightarrow> dropOldestPlane" where
  "plane_Close p = (if dpClosed p then p else p\<lparr>dpClosed := True\<rparr>)"

text \<open>\<open>Recv\<close>: a frame, the error of a closed and drained plane, or \<open>None\<close> while it waits.\<close>

datatype plane_error = PlaneClosed

definition plane_Recv :: "dropOldestPlane \<Rightarrow> ((plane_error + Frame) \<times> dropOldestPlane) option" where
  "plane_Recv p =
     (case tryRecv (dpCh p) of
        Some (f, ch) \<Rightarrow> Some (Inr f, p\<lparr>dpCh := ch\<rparr>)
      | None \<Rightarrow> if dpClosed p then Some (Inl PlaneClosed, p) else None)"

section \<open>Sending and receiving at the same time\<close>

datatype send_pc = Unlocked | Full Frame | Dropped Frame

record plane_run =
  plane :: dropOldestPlane
  pc :: send_pc
  offered :: "Frame list"
  received :: "Frame list"

datatype plane_move = StartSend int Frame | DropOldest int | PutLast | RecvFrame | ClosePlane

fun plane_step :: "plane_move \<Rightarrow> plane_run \<Rightarrow> plane_run option" where
  "plane_step (StartSend now f) r =
     (if pc r \<noteq> Unlocked then None
      else if dpClosed (plane r) then Some r
      else case send_first now f (plane r) of
             Some p \<Rightarrow> Some (r\<lparr>plane := p, offered := offered r @ [f]\<rparr>)
           | None \<Rightarrow> Some (r\<lparr>pc := Full f, offered := offered r @ [f]\<rparr>))"
| "plane_step (DropOldest now) r =
     (case pc r of Full f \<Rightarrow> Some (r\<lparr>plane := send_drop now (plane r), pc := Dropped f\<rparr>) | _ \<Rightarrow> None)"
| "plane_step PutLast r =
     (case pc r of Dropped f \<Rightarrow> map_option (\<lambda>p. r\<lparr>plane := p, pc := Unlocked\<rparr>) (send_last f (plane r)) | _ \<Rightarrow> None)"
| "plane_step RecvFrame r =
     (case plane_Recv (plane r) of Some (Inr f, p) \<Rightarrow> Some (r\<lparr>plane := p, received := received r @ [f]\<rparr>) | _ \<Rightarrow> None)"
| "plane_step ClosePlane r = (if pc r = Unlocked then Some (r\<lparr>plane := plane_Close (plane r)\<rparr>) else None)"

inductive plane_reach :: "nat \<Rightarrow> plane_run \<Rightarrow> bool" for depth :: nat where
  plane_init: "plane_reach depth \<lparr>plane = newDataPlane depth, pc = Unlocked, offered = [], received = []\<rparr>"
| plane_next: "plane_reach depth r \<Longrightarrow> plane_step m r = Some r' \<Longrightarrow> plane_reach depth r'"

definition in_hand :: "send_pc \<Rightarrow> Frame list" where
  "in_hand p = (case p of Unlocked \<Rightarrow> [] | Full f \<Rightarrow> [f] | Dropped f \<Rightarrow> [f])"

lemmas plane_defs = send_first_def send_drop_def send_last_def plane_Recv_def plane_Close_def recordDropped_def
  recordNotDropping_def trySend_def tryRecv_def chan_room_def newDataPlane_def newBufferedChan_def in_hand_def

definition plane_ok :: "nat \<Rightarrow> plane_run \<Rightarrow> bool" where
  "plane_ok depth r \<longleftrightarrow> chan_cap (dpCh (plane r)) = depth \<and> length (chan_buf (dpCh (plane r))) \<le> depth \<and>
     (\<forall>f. pc r = Dropped f \<longrightarrow> chan_room (dpCh (plane r))) \<and>
     subseq (received r @ chan_buf (dpCh (plane r)) @ in_hand (pc r)) (offered r)"

lemma subseq_drop_head: "subseq (xs @ y # ys) zs \<Longrightarrow> subseq (xs @ ys) zs"
  by (meson list_emb_append_mono subseq_Cons' subseq_order.refl subseq_order.trans)

lemma plane_ok_step:
  assumes "plane_ok depth r" "plane_step m r = Some r'" "0 < depth"
  shows "plane_ok depth r'"
proof (cases m)
  case (DropOldest now)
  with assms obtain f where f: "pc r = Full f" "r' = r\<lparr>plane := send_drop now (plane r), pc := Dropped f\<rparr>"
    by (auto split: send_pc.splits)
  show ?thesis
  proof (cases "chan_buf (dpCh (plane r))")
    case Nil
    with assms f show ?thesis by (simp add: plane_ok_def plane_defs)
  next
    case (Cons x xs)
    with assms f subseq_drop_head [of "received r" x "xs @ [f]" "offered r"] show ?thesis
      by (simp add: plane_ok_def plane_defs)
  qed
next
  case (StartSend now f)
  have "subseq ((received r @ chan_buf (dpCh (plane r))) @ [f]) (offered r @ [f])" if "pc r = Unlocked"
    using assms(1) that by (intro list_emb_append_mono) (simp_all add: plane_ok_def in_hand_def)
  with StartSend assms show ?thesis
    by (auto simp: plane_ok_def plane_defs split: if_splits option.splits)
next
  case PutLast
  with assms obtain f where "pc r = Dropped f" by (auto split: send_pc.splits)
  with PutLast assms show ?thesis by (auto simp: plane_ok_def plane_defs split: if_splits)
next
  case RecvFrame
  with assms show ?thesis
    by (cases "chan_buf (dpCh (plane r))") (auto simp: plane_ok_def plane_defs split: if_splits)
next
  case ClosePlane
  with assms show ?thesis by (auto simp: plane_ok_def plane_Close_def split: if_splits)
qed

lemma plane_reach_ok: "plane_reach depth r \<Longrightarrow> 0 < depth \<Longrightarrow> plane_ok depth r"
proof (induction rule: plane_reach.induct)
  case plane_init
  then show ?case by (simp add: plane_ok_def plane_defs)
qed (blast intro: plane_ok_step)

section \<open>The control plane\<close>

record controlPlaneInput =
  cpCh :: "Frame bufferedChan"
  cpTeardown :: bool

definition NewControlPlane :: "nat \<Rightarrow> controlPlaneInput" where
  "NewControlPlane depth = \<lparr>cpCh = newBufferedChan depth, cpTeardown = False\<rparr>"

definition control_Send :: "Frame \<Rightarrow> controlPlaneInput \<Rightarrow> bool \<times> controlPlaneInput" where
  "control_Send f c =
     (case trySend (cpCh c) f of
        Some ch \<Rightarrow> (True, c\<lparr>cpCh := ch\<rparr>)
      | None \<Rightarrow> (False, c\<lparr>cpTeardown := True\<rparr>))"

definition control_Recv :: "controlPlaneInput \<Rightarrow> (Frame \<times> controlPlaneInput) option" where
  "control_Recv c = map_option (\<lambda>(f, ch). (f, c\<lparr>cpCh := ch\<rparr>)) (tryRecv (cpCh c))"

section \<open>Routing\<close>

definition controlPlaneDepth :: nat where "controlPlaneDepth = 16"
definition responseInputDepth :: nat where "responseInputDepth = 4"

record Demux =
  Data :: dropOldestPlane
  Control :: controlPlaneInput
  lastChunk :: int
  haveChunk :: bool
  gapLog :: "(int \<times> int) list"

definition NewDemux :: Demux where
  "NewDemux = \<lparr>Data = newDataPlane (nat (ComputeDepth DataPlaneBufferMS MuLawFrameMS)), Control = NewControlPlane controlPlaneDepth,
     lastChunk = 0, haveChunk = False, gapLog = []\<rparr>"

definition CloseData :: "Demux \<Rightarrow> Demux" where
  "CloseData d = d\<lparr>Data := plane_Close (Data d)\<rparr>"

definition checkChunkGap :: "Frame \<Rightarrow> Demux \<Rightarrow> Demux" where
  "checkChunkGap f d =
     (let d = (if haveChunk d \<and> Chunk f \<noteq> lastChunk d + 1
               then d\<lparr>gapLog := gapLog d @ [(lastChunk d + 1, Chunk f - 1)]\<rparr> else d)
      in d\<lparr>lastChunk := Chunk f, haveChunk := True\<rparr>)"

text \<open>The boolean is whether \<open>RouteFrame\<close> returned nil; \<open>None\<close>: the data plane's send never returns.\<close>

definition RouteFrame :: "int \<Rightarrow> Frame \<Rightarrow> Demux \<Rightarrow> (bool \<times> Demux) option" where
  "RouteFrame now f d =
     (if Event f = EventMedia then
        (let d = checkChunkGap f d
         in map_option (\<lambda>p. (True, d\<lparr>Data := p\<rparr>)) (plane_Send now f (Data d)))
      else case control_Send f (Control d) of (ok, c) \<Rightarrow> Some (ok, d\<lparr>Control := c\<rparr>))"

definition Route :: "int \<Rightarrow> json option \<Rightarrow> Demux \<Rightarrow> (bool \<times> Demux) option" where
  "Route now raw d = (case DecodeFrame raw of Inl e \<Rightarrow> Some (False, d) | Inr f \<Rightarrow> RouteFrame now f d)"

text \<open>What the control pump hands to the session.\<close>

definition controlEventOf :: "Frame \<Rightarrow> ControlEvent" where
  "controlEventOf f = \<lparr>cevKind = Event f, cevMarkName = MarkName f, cevCallSID = frCallSID f\<rparr>"

datatype demux_move = RouteIn int Frame | TakeControl | TakeData | CloseIt

record demux_run =
  dmx :: Demux
  ctlOffered :: "Frame list"
  ctlTaken :: "Frame list"

fun demux_step :: "demux_move \<Rightarrow> demux_run \<Rightarrow> demux_run option" where
  "demux_step (RouteIn now f) r =
     map_option (\<lambda>(ok, d). r\<lparr>dmx := d, ctlOffered := ctlOffered r @ (if Event f = EventMedia then [] else [f])\<rparr>) (RouteFrame now f (dmx r))"
| "demux_step TakeControl r =
     map_option (\<lambda>(f, c). r\<lparr>dmx := (dmx r)\<lparr>Control := c\<rparr>, ctlTaken := ctlTaken r @ [f]\<rparr>) (control_Recv (Control (dmx r)))"
| "demux_step TakeData r =
     (case plane_Recv (Data (dmx r)) of Some (Inr f, p) \<Rightarrow> Some (r\<lparr>dmx := (dmx r)\<lparr>Data := p\<rparr>\<rparr>) | _ \<Rightarrow> None)"
| "demux_step CloseIt r = Some (r\<lparr>dmx := CloseData (dmx r)\<rparr>)"

inductive demux_reach :: "demux_run \<Rightarrow> bool" where
  demux_init: "demux_reach \<lparr>dmx = NewDemux, ctlOffered = [], ctlTaken = []\<rparr>"
| demux_next: "demux_reach r \<Longrightarrow> demux_step m r = Some r' \<Longrightarrow> demux_reach r'"

definition demux_ok :: "demux_run \<Rightarrow> bool" where
  "demux_ok r \<longleftrightarrow> chan_cap (dpCh (Data (dmx r))) = 4 \<and> length (chan_buf (dpCh (Data (dmx r)))) \<le> 4 \<and>
     list_all (\<lambda>f. Event f = EventMedia) (chan_buf (dpCh (Data (dmx r)))) \<and>
     (cpTeardown (Control (dmx r)) \<or> ctlTaken r @ chan_buf (cpCh (Control (dmx r))) = ctlOffered r)"

lemmas demux_defs = plane_defs RouteFrame_def plane_Send_def control_Send_def control_Recv_def checkChunkGap_def CloseData_def
  NewDemux_def NewControlPlane_def

lemma data_depth: "nat (ComputeDepth DataPlaneBufferMS MuLawFrameMS) = 4"
  by (simp add: ComputeDepth_def audio_consts)

lemma plane_Send_total:
  assumes "chan_cap (dpCh p) = 4" "length (chan_buf (dpCh p)) \<le> 4"
  shows "\<exists>p'. plane_Send now f p = Some p' \<and> chan_cap (dpCh p') = 4 \<and> length (chan_buf (dpCh p')) \<le> 4 \<and>
    set (chan_buf (dpCh p')) \<subseteq> insert f (set (chan_buf (dpCh p)))"
  using assms by (cases "chan_buf (dpCh p)") (auto simp: plane_Send_def plane_defs Let_def)

lemma demux_ok_step: "demux_ok r \<Longrightarrow> demux_step m r = Some r' \<Longrightarrow> demux_ok r'"
proof (cases m)
  case (RouteIn now f)
  assume ok: "demux_ok r" and st: "demux_step m r = Some r'"
  show ?thesis
  proof (cases "Event f = EventMedia")
    case True
    let ?d = "checkChunkGap f (dmx r)"
    have d: "Data ?d = Data (dmx r)" "Control ?d = Control (dmx r)" by (simp_all add: checkChunkGap_def)
    obtain p where p: "plane_Send now f (Data (dmx r)) = Some p" "chan_cap (dpCh p) = 4" "length (chan_buf (dpCh p)) \<le> 4"
        "set (chan_buf (dpCh p)) \<subseteq> insert f (set (chan_buf (dpCh (Data (dmx r)))))"
      using plane_Send_total [of "Data (dmx r)" now f] ok by (auto simp: demux_ok_def)
    with RouteIn st True d have "r' = r\<lparr>dmx := ?d\<lparr>Data := p\<rparr>\<rparr>" by (simp add: RouteFrame_def Let_def)
    with ok p True d show ?thesis by (auto simp: demux_ok_def list_all_iff)
  next
    case False
    with ok st RouteIn show ?thesis
      by (auto simp: demux_ok_def RouteFrame_def control_Send_def trySend_def split: if_splits)
  qed
qed (auto simp: demux_ok_def demux_defs split: option.splits list.splits sum.splits if_splits)

lemma demux_reach_ok: "demux_reach r \<Longrightarrow> demux_ok r"
proof (induction rule: demux_reach.induct)
  case demux_init
  then show ?case by (simp add: demux_ok_def NewDemux_def data_depth newDataPlane_def NewControlPlane_def newBufferedChan_def)
qed (blast intro: demux_ok_step)

section \<open>Properties\<close>



text \<open>Control frames are never lost silently.  Either the control plane has torn the call down, or
  the control frames taken and queued are exactly those routed to it, in order; media frames only ever
  enter the data plane, and routing a frame always returns.\<close>

theorem control_never_lost:
  assumes "demux_reach r"
  shows "(cpTeardown (Control (dmx r)) \<or> ctlTaken r @ chan_buf (cpCh (Control (dmx r))) = ctlOffered r) \<and>
    (\<forall>f \<in> set (chan_buf (dpCh (Data (dmx r)))). Event f = EventMedia) \<and> RouteFrame now f (dmx r) \<noteq> None"
proof -
  have ok: "demux_ok r" using demux_reach_ok [OF assms] .
  have "RouteFrame now f (dmx r) \<noteq> None"
    using plane_Send_total [of "Data (dmx r)" now f] ok
    by (auto simp: RouteFrame_def demux_ok_def checkChunkGap_def Let_def split: prod.split)
  with ok show ?thesis by (auto simp: demux_ok_def list_all_iff)
qed

theorem control_never_lost_witness: "RouteFrame 0 zeroFrame NewDemux \<noteq> None"
  using control_never_lost [OF demux_init, of 0 zeroFrame] by simp

end
