(* ===== verification/Server.thy ===== *)
theory Server
  imports Demux "HOL-Library.Char_ord" "HOL-Library.List_Lexorder" "HOL-Library.Multiset"
begin

text \<open>
  The Twilio webhook server (\<open>telephony/twilio/server.go\<close>), its request signatures
  (\<open>telephony/twilio/signature.go\<close>), the socket outputs (\<open>telephony/twilio/output.go\<close>) and the frame loop
  of \<open>handleStream\<close> (\<open>telephony/twilio/session.go\<close>).

  A request is what the handlers read of it: the host, the request URI, the posted form (a list of keys
  with their values, in whatever order the map yields them) and the signature header; \<open>None\<close> as a form
  is a body that does not parse.  A response is its status, content type and body.  The consumer's
  callbacks are fields of the server; the messages given to its SMS handlers are returned.
\<close>

section \<open>SHA-1 and HMAC (crypto/sha1, crypto/hmac)\<close>

definition rotl32 :: "nat \<Rightarrow> 32 word \<Rightarrow> 32 word" where
  "rotl32 n w = or (push_bit n w) (drop_bit (32 - n) w)"

definition be32 :: "bytes \<Rightarrow> 32 word" where
  "be32 bs = foldl (\<lambda>w b. or (push_bit 8 w) (ucast b)) 0 bs"

definition be_bytes :: "nat \<Rightarrow> nat \<Rightarrow> bytes" where
  "be_bytes k n = map (\<lambda>i. of_nat (n div 256 ^ (k - 1 - i))) [0..<k]"

definition sha1_pad :: "bytes \<Rightarrow> bytes" where
  "sha1_pad m = m @ [0x80] @ replicate ((55 + 64 - length m mod 64) mod 64) 0 @ be_bytes 8 (8 * length m)"

fun sha1_schedule :: "nat \<Rightarrow> 32 word list \<Rightarrow> 32 word list" where
  "sha1_schedule 0 w = w"
| "sha1_schedule (Suc n) w =
     (let i = length w; x = xor (xor (w ! (i - 3)) (w ! (i - 8))) (xor (w ! (i - 14)) (w ! (i - 16)))
      in sha1_schedule n (w @ [rotl32 1 x]))"

type_synonym sha1_state = "32 word \<times> 32 word \<times> 32 word \<times> 32 word \<times> 32 word"

definition sha1_round :: "nat \<Rightarrow> 32 word \<Rightarrow> sha1_state \<Rightarrow> sha1_state" where
  "sha1_round i w st =
     (case st of (a, b, c, d, e) \<Rightarrow>
        (let f = (if i < 20 then or (and b c) (and (not b) d)
                  else if i < 40 then xor (xor b c) d
                  else if i < 60 then or (or (and b c) (and b d)) (and c d)
                  else xor (xor b c) d);
             k = (if i < 20 then 0x5A827999 else if i < 40 then 0x6ED9EBA1 else if i < 60 then 0x8F1BBCDC else 0xCA62C1D6);
             t = rotl32 5 a + f + e + k + w
         in (t, a, rotl32 30 b, c, d)))"

definition sha1_block :: "bytes \<Rightarrow> sha1_state \<Rightarrow> sha1_state" where
  "sha1_block blk h =
     (let w = sha1_schedule 64 (map be32 (chunks 4 blk)) in
      case (h, fold (\<lambda>(i, x) st. sha1_round i x st) (zip [0..<80] w) h) of
        ((h0, h1, h2, h3, h4), (a, b, c, d, e)) \<Rightarrow> (h0 + a, h1 + b, h2 + c, h3 + d, h4 + e))"

definition sha1 :: "bytes \<Rightarrow> bytes" where
  "sha1 m =
     (case fold sha1_block (chunks 64 (sha1_pad m)) (0x67452301, 0xEFCDAB89, 0x98BADCFE, 0x10325476, 0xC3D2E1F0) of
        (a, b, c, d, e) \<Rightarrow> concat (map (\<lambda>w. be_bytes 4 (unat w)) [a, b, c, d, e]))"

definition hmac_sha1 :: "bytes \<Rightarrow> bytes \<Rightarrow> bytes" where
  "hmac_sha1 key m =
     (let k0 = (if length key > 64 then sha1 key else key);
          k = k0 @ replicate (64 - length k0) 0
      in sha1 (map (xor 0x5c) k @ sha1 (map (xor 0x36) k @ m)))"

section \<open>Signatures\<close>

type_synonym form = "(string \<times> string list) list"

definition bytesOf :: "string \<Rightarrow> bytes" where
  "bytesOf = map (\<lambda>c. of_nat (of_char c))"

text \<open>\<open>url.Values.Get\<close>: the first value of a key.\<close>

definition formGet :: "form \<Rightarrow> string \<Rightarrow> string" where
  "formGet params k = (case map_of params k of Some (v # vs) \<Rightarrow> v | _ \<Rightarrow> '''')"

definition ComputeSignature :: "string \<Rightarrow> string \<Rightarrow> form \<Rightarrow> string" where
  "ComputeSignature authToken rawURL params =
     (let keys = sort (map fst params)
      in b64enc (hmac_sha1 (bytesOf authToken)
           (bytesOf rawURL @ concat (map (\<lambda>k. bytesOf k @ bytesOf (formGet params k)) keys))))"

definition ValidateSignature :: "string \<Rightarrow> string \<Rightarrow> form \<Rightarrow> string \<Rightarrow> bool" where
  "ValidateSignature authToken rawURL params signature =
     (authToken \<noteq> '''' \<and> signature \<noteq> '''' \<and> ComputeSignature authToken rawURL params = signature)"

lemma b64enc_nonempty: "bs \<noteq> [] \<Longrightarrow> b64enc bs \<noteq> []"
  by (cases bs rule: b64enc.cases) (simp_all add: Let_def)

lemma sha1_nonempty: "sha1 m \<noteq> []"
  by (simp add: sha1_def be_bytes_def upt_rec split: prod.split)

lemma sig_nonempty: "ComputeSignature tok url params \<noteq> []"
  by (simp add: ComputeSignature_def Let_def hmac_sha1_def sha1_nonempty b64enc_nonempty)

section \<open>TwiML\<close>

text \<open>The length of the well-formed UTF-8 sequence a string starts with, 0 if there is none.\<close>

definition cont :: "char \<Rightarrow> bool" where
  "cont c \<longleftrightarrow> 0x80 \<le> (of_char c :: nat) \<and> (of_char c :: nat) \<le> 0xBF"

definition between :: "nat \<Rightarrow> nat \<Rightarrow> char \<Rightarrow> bool" where
  "between l h c \<longleftrightarrow> l \<le> of_char c \<and> of_char c \<le> h"

fun rune_len :: "string \<Rightarrow> nat" where
  "rune_len [] = 0"
| "rune_len (a # s) =
     (if between 0 0x7F a then 1
      else if between 0xC2 0xDF a then (case s of b # _ \<Rightarrow> if cont b then 2 else 0 | _ \<Rightarrow> 0)
      else if between 0xE0 0xEF a then
        (case s of b # c # _ \<Rightarrow>
           if between (if of_char a = (0xE0 :: nat) then 0xA0 else 0x80) (if of_char a = (0xED :: nat) then 0x9F else 0xBF) b \<and> cont c
           then 3 else 0 | _ \<Rightarrow> 0)
      else if between 0xF0 0xF4 a then
        (case s of b # c # d # _ \<Rightarrow>
           if between (if of_char a = (0xF0 :: nat) then 0x90 else 0x80) (if of_char a = (0xF4 :: nat) then 0x8F else 0xBF) b \<and> cont c \<and> cont d
           then 4 else 0 | _ \<Rightarrow> 0)
      else 0)"

lemma rune_len_le: "rune_len s \<le> length s"
  by (cases s) (auto split: list.split)

text \<open>The runes of \<open>strings.ToValidUTF8(text, "")\<close>: invalid bytes are left out.\<close>

function valid_runes :: "string \<Rightarrow> string list" where
  "valid_runes [] = []"
| "valid_runes (c # s) =
     (let n = rune_len (c # s) in
      if n = 0 then valid_runes s else take n (c # s) # valid_runes (drop n (c # s)))"
  by pat_completeness auto
termination
  by (relation "measure length") auto

definition xml_rune :: "string \<Rightarrow> bool" where
  "xml_rune r =
     (r \<in> {[CHR 9], [CHR 10], [CHR 13]} \<or>
      (case r of c # _ \<Rightarrow> 0x20 \<le> (of_char c :: nat) | [] \<Rightarrow> False) \<and>
       r \<notin> {[CHR 0xEF, CHR 0xBF, CHR 0xBE], [CHR 0xEF, CHR 0xBF, CHR 0xBF]})"

definition html_escape1 :: "char \<Rightarrow> string" where
  "html_escape1 c =
     (if c = CHR ''&'' then ''&amp;'' else if c = CHR 39 then ''&#39;'' else if c = CHR ''<'' then ''&lt;''
      else if c = CHR ''>'' then ''&gt;'' else if c = CHR 34 then ''&#34;'' else [c])"

definition EscapeString :: "string \<Rightarrow> string" where
  "EscapeString s = concat (map html_escape1 s)"

definition escapeTwiML :: "string \<Rightarrow> string" where
  "escapeTwiML text = EscapeString (concat (filter xml_rune (valid_runes text)))"

section \<open>The server\<close>

datatype RejectReason = RejectReasonNone | RejectReasonRejected | RejectReasonBusy

record callParties =
  cpFrom :: string
  cpTo :: string

record InboundSMS =
  smsMessageSID :: string
  smsFrom :: string
  smsTo :: string
  smsBody :: string
  smsHasMedia :: bool

record SMSStatus =
  ssMessageSID :: string
  ssStatus :: string
  ssErrorCode :: string
  ssTo :: string
  ssFrom :: string

record Server =
  AuthToken :: string
  StreamScheme :: string
  Authorize :: "(string \<Rightarrow> bool) option"
  VoiceRejectText :: string
  SMSRejectText :: string
  VoiceRejectReason :: RejectReason
  AnswerCall :: "(string \<Rightarrow> string \<Rightarrow> string \<times> bool) option"
  RejectCall :: "(string \<Rightarrow> string \<Rightarrow> RejectReason \<times> bool) option"
  HandleSMS :: bool
  HandleSMSStatus :: bool
  HandleStream :: bool
  fromBySID :: "string \<rightharpoonup> callParties"
  fromOrder :: "string list"

definition maxPendingFrom :: nat where "maxPendingFrom = 1024"

definition recordCall :: "string \<Rightarrow> string \<Rightarrow> string \<Rightarrow> Server \<Rightarrow> Server" where
  "recordCall callSid from to s =
     (if callSid = '''' then s
      else
        (let s = (if fromBySID s callSid = None then
                    (let s = s\<lparr>fromOrder := fromOrder s @ [callSid]\<rparr> in
                     if length (fromOrder s) > maxPendingFrom
                     then s\<lparr>fromBySID := (fromBySID s)(hd (fromOrder s) := None), fromOrder := tl (fromOrder s)\<rparr>
                     else s)
                  else s)
         in s\<lparr>fromBySID := (fromBySID s)(callSid \<mapsto> \<lparr>cpFrom = from, cpTo = to\<rparr>)\<rparr>))"

definition lookupCall :: "string \<Rightarrow> Server \<Rightarrow> callParties" where
  "lookupCall callSid s = (case fromBySID s callSid of Some p \<Rightarrow> p | None \<Rightarrow> \<lparr>cpFrom = '''', cpTo = ''''\<rparr>)"

definition streamScheme :: "Server \<Rightarrow> string" where
  "streamScheme s = (if StreamScheme s = ''ws'' then ''ws'' else ''wss'')"

definition validateScheme :: "Server \<Rightarrow> string" where
  "validateScheme s = (if streamScheme s = ''ws'' then ''http'' else ''https'')"

record Request =
  rqHost :: string
  rqURI :: string
  rqForm :: "form option"
  rqSignature :: string

record Response =
  rspStatus :: int
  rspXML :: bool
  rspBody :: string

definition xml :: "string \<Rightarrow> Response" where
  "xml body = \<lparr>rspStatus = 200, rspXML = True, rspBody = body\<rparr>"

definition httpError :: "int \<Rightarrow> string \<Rightarrow> Response" where
  "httpError code msg = \<lparr>rspStatus = code, rspXML = False, rspBody = msg @ [CHR 10]\<rparr>"

definition authenticate :: "Request \<Rightarrow> Server \<Rightarrow> Response + form" where
  "authenticate r s =
     (case rqForm r of
        None \<Rightarrow> Inl (httpError 400 ''Bad Request'')
      | Some params \<Rightarrow>
          (if \<not> ValidateSignature (AuthToken s) (validateScheme s @ ''://'' @ rqHost r @ rqURI r) params (rqSignature r)
           then Inl (httpError 403 ''Forbidden'')
           else Inr params))"

definition rejectTwiML :: string where "rejectTwiML = ''<Response><Reject/></Response>''"
definition rejectBusyTwiML :: string where
  "rejectBusyTwiML = ''<Response><Reject reason='' @ [CHR 34] @ ''busy'' @ [CHR 34] @ ''/></Response>''"

definition writeVoiceReject :: "RejectReason \<Rightarrow> Response" where
  "writeVoiceReject reason = xml (if reason = RejectReasonBusy then rejectBusyTwiML else rejectTwiML)"

definition writeVoiceRefusal :: "string \<Rightarrow> Response" where
  "writeVoiceRefusal text = xml (''<Response><Say>'' @ escapeTwiML text @ ''</Say><Hangup/></Response>'')"

definition writeEmptyTwiML :: Response where
  "writeEmptyTwiML = xml ''<Response></Response>''"

text \<open>\<open>^\+[1-9]\d{1,14}$\<close>.\<close>

definition e164 :: "string \<Rightarrow> bool" where
  "e164 s = (case s of p # d # ds \<Rightarrow> p = CHR ''+'' \<and> is_digit d \<and> d \<noteq> CHR ''0'' \<and> 1 \<le> length ds \<and> length ds \<le> 14 \<and> list_all is_digit ds | _ \<Rightarrow> False)"

definition streamTwiML :: "Request \<Rightarrow> Server \<Rightarrow> Response" where
  "streamTwiML r s = xml (''<Response><Connect><Stream url='' @ [CHR 34] @
     EscapeString (streamScheme s @ ''://'' @ rqHost r @ ''/streams'') @ [CHR 34] @ ''/></Connect></Response>'')"

definition ServeHTTP :: "Request \<Rightarrow> Server \<Rightarrow> Response \<times> Server" where
  "ServeHTTP r s =
     (case authenticate r s of
        Inl resp \<Rightarrow> (resp, s)
      | Inr params \<Rightarrow>
          (let from = formGet params ''From''; callSid = formGet params ''CallSid'' in
           if \<not> e164 from then (httpError 403 ''Forbidden'', s)
           else
             (let to = (if e164 (formGet params ''To'') then formGet params ''To'' else '''') in
              if (case Authorize s of Some ok \<Rightarrow> \<not> ok from | None \<Rightarrow> False)
              then ((if VoiceRejectReason s \<noteq> RejectReasonNone then writeVoiceReject (VoiceRejectReason s)
                     else writeVoiceRefusal (VoiceRejectText s)), s)
              else
                (case (case RejectCall s of Some f \<Rightarrow> f from to | None \<Rightarrow> (RejectReasonNone, False)) of
                   (reason, True) \<Rightarrow> (writeVoiceReject reason, s)
                 | (_, False) \<Rightarrow>
                     (case (case AnswerCall s of Some f \<Rightarrow> f from to | None \<Rightarrow> ('''', False)) of
                        (say, True) \<Rightarrow> (writeVoiceRefusal say, s)
                      | (_, False) \<Rightarrow> (streamTwiML r s, recordCall callSid from to s))))))"

definition hasMedia :: "string \<Rightarrow> bool" where
  "hasMedia numMedia = (case atoi numMedia of Some n \<Rightarrow> n > 0 | None \<Rightarrow> False)"

definition ServeSMS :: "Request \<Rightarrow> Server \<Rightarrow> Response \<times> InboundSMS list" where
  "ServeSMS r s =
     (case authenticate r s of
        Inl resp \<Rightarrow> (resp, [])
      | Inr params \<Rightarrow>
          (let from = formGet params ''From'' in
           if (case Authorize s of Some ok \<Rightarrow> \<not> ok from | None \<Rightarrow> False)
           then (xml (''<Response><Message>'' @ escapeTwiML (SMSRejectText s) @ ''</Message></Response>''), [])
           else
             (let msg = \<lparr>smsMessageSID = formGet params ''MessageSid'', smsFrom = from, smsTo = formGet params ''To'',
                    smsBody = formGet params ''Body'', smsHasMedia = hasMedia (formGet params ''NumMedia'')\<rparr>
              in (writeEmptyTwiML, if HandleSMS s then [msg] else []))))"

definition ServeSMSStatus :: "Request \<Rightarrow> Server \<Rightarrow> Response \<times> SMSStatus list" where
  "ServeSMSStatus r s =
     (case authenticate r s of
        Inl resp \<Rightarrow> (resp, [])
      | Inr params \<Rightarrow>
          (writeEmptyTwiML,
           if HandleSMSStatus s
           then [\<lparr>ssMessageSID = formGet params ''MessageSid'', ssStatus = formGet params ''MessageStatus'',
                  ssErrorCode = formGet params ''ErrorCode'', ssTo = formGet params ''To'', ssFrom = formGet params ''From''\<rparr>]
           else []))"

text \<open>
  \<open>ServeStreams\<close> on the documents the socket yields; the list ends where reading fails.  A stream is
  handled, read until it ends, closed with a status, or just gone.
\<close>

datatype stream_outcome = Handled Frame | Drained | ClosedUnsupported | ClosedPolicy | Gone

definition expectStart :: "Frame \<Rightarrow> Server \<Rightarrow> stream_outcome" where
  "expectStart f s =
     (if Event f \<noteq> EventStart then ClosedPolicy
      else (let parties = lookupCall (frCallSID f) s;
                f = f\<lparr>frFrom := cpFrom parties, frTo := cpTo parties\<rparr>
            in if HandleStream s then Handled f else Drained))"

definition ServeStreams :: "json option list \<Rightarrow> Server \<Rightarrow> stream_outcome" where
  "ServeStreams raws s =
     (case raws of
        [] \<Rightarrow> Gone
      | raw # raws \<Rightarrow>
          (case DecodeFrame raw of
             Inl e \<Rightarrow> ClosedUnsupported
           | Inr f \<Rightarrow>
               (if Event f = EventConnected then
                  (case raws of
                     [] \<Rightarrow> Gone
                   | raw # _ \<Rightarrow> (case DecodeFrame raw of Inl e \<Rightarrow> ClosedUnsupported | Inr f \<Rightarrow> expectStart f s))
                else expectStart f s)))"

section \<open>Outputs and the frame loop\<close>

text \<open>One send of the data plane output: the frame written, and the audio the tap is given either way.\<close>

definition dataOut_Send :: "string \<Rightarrow> bytes \<Rightarrow> bool \<Rightarrow> json option \<times> bytes \<times> bool" where
  "dataOut_Send streamSID payload writeOK =
     (if writeOK then Some (EncodeMedia streamSID payload) else None, payload, writeOK)"

fun controlOut_encode :: "string \<Rightarrow> ControlOutMessage \<Rightarrow> json" where
  "controlOut_encode streamSID (ControlOutMark name) = EncodeMark streamSID name"
| "controlOut_encode streamSID ControlOutClear = EncodeClear streamSID"

text \<open>The read loop of \<open>handleStream\<close>: \<open>True\<close> when it stopped at a stop frame, whose wait for the session is bounded by \<open>stopDrainTimeout\<close>.\<close>

definition stopDrainTimeout :: duration where "stopDrainTimeout = 500 * millisecond"

fun readLoop :: "int \<Rightarrow> json option list \<Rightarrow> Demux \<Rightarrow> (bool \<times> Demux) option" where
  "readLoop now [] d = Some (False, d)"
| "readLoop now (raw # raws) d =
     (case DecodeFrame raw of
        Inl e \<Rightarrow> readLoop now raws d
      | Inr f \<Rightarrow>
          (case RouteFrame now f d of
             None \<Rightarrow> None
           | Some (ok, d') \<Rightarrow> if Event f = EventStop then Some (True, d') else readLoop now raws d'))"


section \<open>The map of pending calls\<close>

definition server_ok :: "Server \<Rightarrow> bool" where
  "server_ok s \<longleftrightarrow> dom (fromBySID s) = set (fromOrder s) \<and> distinct (fromOrder s) \<and> length (fromOrder s) \<le> maxPendingFrom"

lemma recordCall_known:
  "callSid \<noteq> '''' \<Longrightarrow> callSid \<in> dom (fromBySID s) \<Longrightarrow>
     recordCall callSid from to s = s\<lparr>fromBySID := (fromBySID s)(callSid \<mapsto> \<lparr>cpFrom = from, cpTo = to\<rparr>)\<rparr>"
  by (auto simp: recordCall_def)

lemma recordCall_new:
  assumes "server_ok s" "callSid \<noteq> ''''" "callSid \<notin> dom (fromBySID s)"
  shows "fromOrder (recordCall callSid from to s) =
      (if length (fromOrder s) < maxPendingFrom then fromOrder s else tl (fromOrder s)) @ [callSid]"
    and "sid \<in> set (fromOrder (recordCall callSid from to s)) \<Longrightarrow> sid \<noteq> callSid \<Longrightarrow>
      fromBySID (recordCall callSid from to s) sid = fromBySID s sid"
proof -
  have none: "fromBySID s callSid = None" using assms(3) by auto
  have ne: "fromOrder s \<noteq> []" if "\<not> length (fromOrder s) < maxPendingFrom" using that by (auto simp: maxPendingFrom_def)
  show ord: "fromOrder (recordCall callSid from to s) =
      (if length (fromOrder s) < maxPendingFrom then fromOrder s else tl (fromOrder s)) @ [callSid]"
    using none ne assms(2) by (auto simp: recordCall_def Let_def)
  have "hd (fromOrder s) \<notin> set (tl (fromOrder s))" if "fromOrder s \<noteq> []"
    using assms(1) that by (cases "fromOrder s") (auto simp: server_ok_def)
  then show "sid \<in> set (fromOrder (recordCall callSid from to s)) \<Longrightarrow> sid \<noteq> callSid \<Longrightarrow>
      fromBySID (recordCall callSid from to s) sid = fromBySID s sid"
    unfolding ord using none ne assms(2) by (auto simp: recordCall_def Let_def split: if_splits)
qed

lemma recordCall_own: "callSid \<noteq> '''' \<Longrightarrow> fromBySID (recordCall callSid from to s) callSid = Some \<lparr>cpFrom = from, cpTo = to\<rparr>"
  by (simp add: recordCall_def Let_def)

lemma recordCall_ok:
  assumes "server_ok s"
  shows "server_ok (recordCall callSid from to s)"
proof -
  consider "callSid = ''''" | "callSid \<noteq> ''''" "callSid \<in> dom (fromBySID s)"
    | "callSid \<noteq> ''''" "callSid \<notin> dom (fromBySID s)" by blast
  then show ?thesis
  proof cases
    case 1
    with assms show ?thesis by (simp add: recordCall_def)
  next
    case 2
    with assms show ?thesis by (auto simp: recordCall_known server_ok_def)
  next
    case 3
    note ok = assms [unfolded server_ok_def]
    have none: "fromBySID s callSid = None" using 3 by auto
    have sid: "callSid \<notin> set (fromOrder s)" using 3 ok by auto
    show ?thesis
    proof (cases "length (fromOrder s) < maxPendingFrom")
      case True
      with 3 ok none sid show ?thesis by (auto simp: server_ok_def recordCall_def Let_def)
    next
      case False
      then obtain x xs where x: "fromOrder s = x # xs" by (cases "fromOrder s") (auto simp: maxPendingFrom_def)
      with 3 ok none sid False show ?thesis by (auto simp: server_ok_def recordCall_def Let_def)
    qed
  qed
qed

text \<open>Where a call is in the queue, counted from its end.\<close>

definition age :: "string \<Rightarrow> string list \<Rightarrow> nat" where
  "age sid order = length (takeWhile (\<lambda>x. x \<noteq> sid) (rev order))"

lemma age_snoc: "age sid (xs @ [x]) = (if x = sid then 0 else Suc (age sid xs))"
  by (simp add: age_def)

lemma age_tl: "sid \<in> set xs \<Longrightarrow> distinct xs \<Longrightarrow> Suc (age sid xs) < length xs \<Longrightarrow> sid \<in> set (tl xs) \<and> age sid (tl xs) = age sid xs"
proof (cases xs)
  case (Cons y ys)
  assume a: "sid \<in> set xs" "distinct xs" "Suc (age sid xs) < length xs"
  show ?thesis
  proof (cases "y = sid")
    case True
    with a Cons have "takeWhile (\<lambda>x. x \<noteq> sid) (rev ys @ [sid]) = rev ys"
      by (subst takeWhile_append2) auto
    with a Cons True show ?thesis by (simp add: age_def)
  next
    case False
    with a Cons have "sid \<in> set ys" by simp
    with Cons False show ?thesis by (simp add: age_def takeWhile_append1 [of sid])
  qed
qed simp

lemma recordCall_remembers:
  assumes "server_ok s" "sid \<noteq> callSid" "fromBySID s sid = Some p" "age sid (fromOrder s) \<le> n" "Suc n < maxPendingFrom"
  shows "fromBySID (recordCall callSid from to s) sid = Some p \<and> age sid (fromOrder (recordCall callSid from to s)) \<le> Suc n"
proof -
  consider "callSid = ''''" | "callSid \<noteq> ''''" "callSid \<in> dom (fromBySID s)"
    | "callSid \<noteq> ''''" "callSid \<notin> dom (fromBySID s)" by blast
  then show ?thesis
  proof cases
    case 1
    with assms show ?thesis by (simp add: recordCall_def)
  next
    case 2
    with assms show ?thesis by (simp add: recordCall_known)
  next
    case 3
    let ?o = "if length (fromOrder s) < maxPendingFrom then fromOrder s else tl (fromOrder s)"
    have "sid \<in> set (fromOrder s)" "distinct (fromOrder s)" using assms by (auto simp: server_ok_def)
    with age_tl [of sid "fromOrder s"] assms have o: "sid \<in> set ?o \<and> age sid ?o \<le> n" by auto
    note new = recordCall_new [OF assms(1) 3]
    have "sid \<in> set (fromOrder (recordCall callSid from to s))" using o by (simp add: new(1))
    with new(2) assms(2,3) have "fromBySID (recordCall callSid from to s) sid = Some p" by simp
    moreover have "age sid (fromOrder (recordCall callSid from to s)) \<le> Suc n"
      unfolding new(1) using o by (simp add: age_snoc)
    ultimately show ?thesis by blast
  qed
qed

lemma recordCalls_remember:
  assumes "server_ok s" "sid \<notin> fst ` set calls" "fromBySID s sid = Some p" "age sid (fromOrder s) \<le> n"
    "n + length calls < maxPendingFrom"
  shows "fromBySID (fold (\<lambda>(c, from, to). recordCall c from to) calls s) sid = Some p"
  using assms
proof (induction calls arbitrary: s n)
  case (Cons c calls)
  obtain c1 c2 c3 where c: "c = (c1, c2, c3)" by (cases c)
  have "Suc n < maxPendingFrom" "sid \<noteq> c1" using Cons.prems c by auto
  from recordCall_remembers [OF Cons.prems(1) this(2) Cons.prems(3,4) this(1), of c2 c3]
  have "fromBySID (recordCall c1 c2 c3 s) sid = Some p" "age sid (fromOrder (recordCall c1 c2 c3 s)) \<le> Suc n" by blast+
  with Cons.IH [OF recordCall_ok [OF Cons.prems(1)], of c1 c2 c3 "Suc n"] Cons.prems c show ?case by simp
qed simp

lemma age_new:
  assumes "server_ok s" "callSid \<noteq> ''''" "callSid \<notin> dom (fromBySID s)"
  shows "age callSid (fromOrder (recordCall callSid from to s)) = 0"
  by (simp add: recordCall_new(1) [OF assms] age_snoc)

section \<open>Markup in refusal texts\<close>

lemma EscapeString_clean: "set (EscapeString s) \<inter> {CHR ''<'', CHR ''>'', CHR 34, CHR 39} = {}"
  by (induction s) (auto simp: EscapeString_def html_escape1_def)

lemma rune_tail:
  assumes "rune_len s = n" "n \<noteq> 0" "c \<in> set (take n s)"
  shows "n = 1 \<or> 0x80 \<le> (of_char c :: nat)"
  using assms
  by (cases s) (auto simp: between_def cont_def split: list.splits if_splits)

lemma valid_runes_bytes: "r \<in> set (valid_runes s) \<Longrightarrow> c \<in> set r \<Longrightarrow> length r = 1 \<or> 0x80 \<le> (of_char c :: nat)"
proof (induction s rule: valid_runes.induct)
  case (2 a s)
  then show ?case
    using rune_tail [of "a # s" "rune_len (a # s)" c] rune_len_le [of "a # s"]
    by (auto simp: Let_def simp del: rune_len.simps split: if_splits)
qed simp

lemma xml_rune_bytes:
  assumes "r \<in> set (valid_runes s)" "xml_rune r" "c \<in> set r"
  shows "0x20 \<le> (of_char c :: nat) \<or> c \<in> {CHR 9, CHR 10, CHR 13}"
  using assms(2,3) valid_runes_bytes [OF assms(1,3)]
  by (cases r) (auto simp: xml_rune_def)

lemma html_escape1_bytes: "c \<in> set (html_escape1 d) \<Longrightarrow> c = d \<or> 0x20 \<le> (of_char c :: nat)"
  by (auto simp: html_escape1_def split: if_splits)

section \<open>Properties\<close>


definition demo_server :: Server where
  "demo_server = \<lparr>AuthToken = ''t'', StreamScheme = '''', Authorize = None, VoiceRejectText = '''', SMSRejectText = '''',
     VoiceRejectReason = RejectReasonNone, AnswerCall = None, RejectCall = None, HandleSMS = True, HandleSMSStatus = True,
     HandleStream = True, fromBySID = Map.empty, fromOrder = []\<rparr>"


text \<open>The caller's number reaches the stream.  In a server whose pending-call map is well formed,
  a call recorded by the webhook is still known, with its own numbers, after up to 1023 further calls;
  and the map never holds more than 1024.\<close>

theorem pending_call_remembered:
  assumes "server_ok s" "sid \<noteq> ''''" "sid \<notin> dom (fromBySID s)" "sid \<notin> fst ` set calls" "length calls < 1024"
  shows "lookupCall sid (fold (\<lambda>(c, from, to). recordCall c from to) calls (recordCall sid from to s)) = \<lparr>cpFrom = from, cpTo = to\<rparr> \<and>
    server_ok (fold (\<lambda>(c, from, to). recordCall c from to) calls (recordCall sid from to s))"
proof -
  have "server_ok (fold (\<lambda>(c, from, to). recordCall c from to) cs s')" if "server_ok s'" for cs s'
    using that by (induction cs arbitrary: s') (auto simp: recordCall_ok)
  with recordCalls_remember [OF recordCall_ok [OF assms(1)] assms(4) recordCall_own [OF assms(2)], of "from" "to" 0]
    age_new [OF assms(1-3)] recordCall_ok [OF assms(1)] assms(5)
  show ?thesis by (simp add: lookupCall_def maxPendingFrom_def)
qed

theorem pending_call_remembered_witness:
  "lookupCall ''CA1'' (recordCall ''CA2'' ''+1333'' '''' (recordCall ''CA1'' ''+1222'' '''' demo_server)) = \<lparr>cpFrom = ''+1222'', cpTo = ''''\<rparr>"
  using pending_call_remembered [of demo_server "''CA1''" "[(''CA2'', ''+1333'', '''')]" "''+1222''" "''''"]
  by (simp add: server_ok_def demo_server_def)

text \<open>A refusal text cannot change the TwiML around it.  Escaped text has no angle bracket and no
  quote, and no control character but tab, line feed and carriage return, whatever bytes it had.\<close>

theorem refusal_text_inert:
  "set (escapeTwiML text) \<inter> {CHR ''<'', CHR ''>'', CHR 34, CHR 39} = {} \<and>
   (\<forall>c \<in> set (escapeTwiML text). 0x20 \<le> (of_char c :: nat) \<or> c \<in> {CHR 9, CHR 10, CHR 13})"
proof -
  have "0x20 \<le> (of_char c :: nat) \<or> c \<in> {CHR 9, CHR 10, CHR 13}" if "c \<in> set (escapeTwiML text)" for c
    using that xml_rune_bytes html_escape1_bytes
    by (fastforce simp: escapeTwiML_def EscapeString_def)
  then show ?thesis using EscapeString_clean by (auto simp: escapeTwiML_def)
qed

theorem refusal_text_inert_witness: "CHR ''<'' \<notin> set (escapeTwiML ''<Play>'')"
  using refusal_text_inert [of "''<Play>''"] by auto

end
