(* ===== verification/Bridge.thy ===== *)
theory Bridge
  imports Stream Service
begin

text \<open>
  The realtime protocol (\<open>telephony/realtime/events.go\<close>), the client's handshake
  (\<open>telephony/realtime/client.go\<close>) and the bridge between a backend and a carrier
  (\<open>telephony/realtime/bridge.go\<close>).

  A server event carries the syntax tree of its frame as \<open>Raw\<close>.  The consumer's tool declarations are
  raw bytes that \<open>json.Valid\<close> may refuse: a text with the tree it parses to, if it does.
\<close>

section \<open>Event types\<close>

definition EventSessionUpdate :: string where "EventSessionUpdate = ''session.update''"
definition EventAudioAppend :: string where "EventAudioAppend = ''input_audio_buffer.append''"
definition EventSessionCreated :: string where "EventSessionCreated = ''session.created''"
definition EventSpeechStarted :: string where "EventSpeechStarted = ''input_audio_buffer.speech_started''"
definition EventSpeechStopped :: string where "EventSpeechStopped = ''input_audio_buffer.speech_stopped''"
definition EventTranscriptDelta :: string where "EventTranscriptDelta = ''conversation.item.input_audio_transcription.delta''"
definition EventTranscriptDone :: string where "EventTranscriptDone = ''conversation.item.input_audio_transcription.completed''"
definition EventAudioDelta :: string where "EventAudioDelta = ''response.output_audio.delta''"
definition EventResponseDone :: string where "EventResponseDone = ''response.done''"
definition EventTurnEnded :: string where "EventTurnEnded = ''turn.ended''"
definition EventTurnResumed :: string where "EventTurnResumed = ''turn.resumed''"
definition EventError :: string where "EventError = ''error''"
definition ItemTypeFunctionCall :: string where "ItemTypeFunctionCall = ''function_call''"
definition FormatG711ULaw :: string where "FormatG711ULaw = ''audio/pcmu''"
definition sessionTypeRealtime :: string where "sessionTypeRealtime = ''realtime''"

lemmas server_event_names = EventSpeechStarted_def EventSpeechStopped_def EventTranscriptDelta_def EventTranscriptDone_def
  EventAudioDelta_def EventResponseDone_def EventTurnEnded_def EventTurnResumed_def

lemma server_events_distinct [simp]:
  "EventAudioDelta \<noteq> EventSpeechStarted" "EventAudioDelta \<noteq> EventTurnResumed" "EventSpeechStopped \<noteq> EventSpeechStarted"
  "EventSpeechStopped \<noteq> EventTurnResumed" "EventResponseDone \<noteq> EventSpeechStarted" "EventResponseDone \<noteq> EventTurnResumed"
  "EventResponseDone \<noteq> EventSpeechStopped" "EventResponseDone \<noteq> EventTurnEnded" "EventResponseDone \<noteq> EventAudioDelta"
  "EventSpeechStarted \<noteq> EventAudioDelta" "EventTurnResumed \<noteq> EventAudioDelta" "EventSpeechStarted \<noteq> EventSpeechStopped"
  "EventTurnResumed \<noteq> EventSpeechStopped" "EventSpeechStarted \<noteq> EventResponseDone" "EventTurnResumed \<noteq> EventResponseDone"
  "EventSpeechStarted \<noteq> EventTurnEnded" "EventTurnResumed \<noteq> EventTurnEnded"
  by (simp_all add: server_event_names)

record ServerEvent =
  seType :: string
  seDelta :: string
  seTranscript :: string
  seRaw :: "json option"

text \<open>\<open>Client.Read\<close> on one frame.\<close>

definition readServerEvent :: "json option \<Rightarrow> json_error + ServerEvent" where
  "readServerEvent data =
     (case doc_members data of
        Inl e \<Rightarrow> Inl e
      | Inr kvs \<Rightarrow>
          (case (string_field ''type'' kvs, string_field ''delta'' kvs, string_field ''transcript'' kvs) of
             (Inr t, Inr d, Inr tr) \<Rightarrow> Inr \<lparr>seType = t, seDelta = d, seTranscript = tr, seRaw = data\<rparr>
           | _ \<Rightarrow> Inl BadType))"

section \<open>The end of a response\<close>

text \<open>The item types of a decoded output list.\<close>

fun item_types :: "json list \<Rightarrow> json_error + string list" where
  "item_types [] = Inr []"
| "item_types (j # js) =
     (case (store_struct [j], item_types js) of
        (Inr kvs, Inr ts) \<Rightarrow> map_sum id (\<lambda>t. t # ts) (string_field ''type'' kvs)
      | _ \<Rightarrow> Inl BadType)"

fun store_items :: "string list \<Rightarrow> json list \<Rightarrow> json_error + string list" where
  "store_items cur [] = Inr cur"
| "store_items cur (JArr js # vs) = (case item_types js of Inl e \<Rightarrow> Inl e | Inr ts \<Rightarrow> store_items ts vs)"
| "store_items cur (JNull # vs) = store_items [] vs"
| "store_items cur (v # vs) = Inl BadType"

definition ResponseEndedInFunctionCall :: "json option \<Rightarrow> bool" where
  "ResponseEndedInFunctionCall raw =
     (case doc_members raw of
        Inl e \<Rightarrow> False
      | Inr kvs \<Rightarrow>
          (case (string_field ''type'' kvs, struct_field ''response'' kvs) of
             (Inr t, Inr resp) \<Rightarrow>
               (case store_items [] (members ''output'' resp) of
                  Inl e \<Rightarrow> False
                | Inr ts \<Rightarrow> t = EventResponseDone \<and> ItemTypeFunctionCall \<in> set ts)
           | _ \<Rightarrow> False))"

section \<open>Session updates\<close>

definition audioFormat :: json where
  "audioFormat = JObj [(''type'', JStr FormatG711ULaw)]"

text \<open>A member with \<open>omitempty\<close>.\<close>

definition opt_member :: "string \<Rightarrow> string \<Rightarrow> (string \<times> json) list" where
  "opt_member name v = (if v = '''' then [] else [(name, JStr v)])"

definition sessionSpec :: "string \<Rightarrow> string \<Rightarrow> string \<Rightarrow> (string \<times> json) list" where
  "sessionSpec instructions voice sessionID =
     [(''type'', JStr sessionTypeRealtime)] @ opt_member ''instructions'' instructions @
     opt_member ''client_session_id'' sessionID @
     [(''audio'', JObj
        [(''input'', JObj [(''format'', audioFormat)]),
         (''output'', JObj ([(''format'', audioFormat)] @ opt_member ''voice'' voice))])]"

definition newSessionUpdate :: "string \<Rightarrow> string \<Rightarrow> string \<Rightarrow> json" where
  "newSessionUpdate instructions voice sessionID =
     JObj [(''type'', JStr EventSessionUpdate), (''session'', JObj (sessionSpec instructions voice sessionID))]"

type_synonym raw_json = "string \<times> json option"

datatype build_error = InvalidTools string | BadSuffix string

definition buildSessionUpdate :: "string \<Rightarrow> string \<Rightarrow> string \<Rightarrow> raw_json \<Rightarrow> build_error + string" where
  "buildSessionUpdate instructions voice sessionID tools =
     (let base = json_print (newSessionUpdate instructions voice sessionID) in
      if fst tools = '''' then Inr base
      else if snd tools = None then Inl (InvalidTools (fst tools))
      else if drop (length base - 2) base \<noteq> ''}}'' then Inl (BadSuffix base)
      else Inr (take (length base - 2) base @ '','' @ json_quote ''tools'' @ '':'' @ fst tools @ ''}}''))"

definition BuildVoiceUpdate :: "string \<Rightarrow> string" where
  "BuildVoiceUpdate voice =
     json_print (JObj [(''type'', JStr EventSessionUpdate),
       (''session'', JObj [(''type'', JStr sessionTypeRealtime),
         (''audio'', JObj [(''output'', JObj [(''voice'', JStr voice)])])])])"

definition AppendAudio :: "string \<Rightarrow> string" where
  "AppendAudio payload = json_print (JObj [(''type'', JStr EventAudioAppend), (''audio'', JStr payload)])"

section \<open>The handshake\<close>

text \<open>
  \<open>Dial\<close> after its own handshake went out: the events read until \<open>session.created\<close>, or until reading
  fails where the list ends.  A failure quotes the last frame, or the first that was an error.
\<close>

datatype dial_result = Dialed | DialFailed "json option option"

fun awaitCreated :: "json option option \<Rightarrow> bool \<Rightarrow> ServerEvent list \<Rightarrow> dial_result" where
  "awaitCreated lst haveError [] = DialFailed lst"
| "awaitCreated lst haveError (ev # evs) =
     (if seType ev = EventSessionCreated then Dialed
      else if \<not> haveError then awaitCreated (Some (seRaw ev)) (seType ev = EventError) evs
      else awaitCreated lst haveError evs)"

definition maxFrameInError :: nat where "maxFrameInError = 512"

definition clipFrame :: "string \<Rightarrow> string" where
  "clipFrame raw =
     (if length raw \<le> maxFrameInError then raw
      else take maxFrameInError raw @ [CHR 0xE2, CHR 0x80, CHR 0xA6] @ '' ('' @ itoa (int (length raw - maxFrameInError)) @ '' bytes truncated)'')"

section \<open>The bridge\<close>

record Transcript =
  trText :: string
  trFinal :: bool

record Bridge =
  brTranscripts :: "Transcript bufferedChan"
  brEvents :: "ServerEvent bufferedChan"
  eventsDropped :: int
  brActivity :: "unit bufferedChan"

definition NewBridge :: Bridge where
  "NewBridge = \<lparr>brTranscripts = newBufferedChan 16, brEvents = newBufferedChan 16, eventsDropped = 0, brActivity = newBufferedChan 1\<rparr>"

definition signalActivity :: "Bridge \<Rightarrow> Bridge" where
  "signalActivity b = (case trySend (brActivity b) () of Some ch \<Rightarrow> b\<lparr>brActivity := ch\<rparr> | None \<Rightarrow> b)"

definition dropLogEvery :: int where "dropLogEvery = 100"

definition LogDrop :: "int \<Rightarrow> bool" where
  "LogDrop n \<longleftrightarrow> n = 1 \<or> n smod dropLogEvery = 0"

definition publishEvent :: "ServerEvent \<Rightarrow> Bridge \<Rightarrow> Bridge" where
  "publishEvent ev b =
     (case trySend (brEvents b) ev of
        Some ch \<Rightarrow> b\<lparr>brEvents := ch\<rparr>
      | None \<Rightarrow> b\<lparr>eventsDropped := eventsDropped b + 1\<rparr>)"

text \<open>
  \<open>publish\<close> waits for room: \<open>None\<close> is waiting.  A cancelled context abandons the transcript.
\<close>

definition publish :: "bool \<Rightarrow> Transcript \<Rightarrow> Bridge \<Rightarrow> Bridge option" where
  "publish cancelled tr b =
     (case trySend (brTranscripts b) tr of
        Some ch \<Rightarrow> Some (b\<lparr>brTranscripts := ch\<rparr>)
      | None \<Rightarrow> if cancelled then Some b else None)"

datatype sink_call = SinkMedia string | SinkClear | SinkTranscript Transcript | SinkNothing

text \<open>What \<open>dispatch\<close> calls for an event.\<close>

definition bridgeDispatch :: "ServerEvent \<Rightarrow> sink_call" where
  "bridgeDispatch ev =
     (if seType ev = EventAudioDelta then SinkMedia (seDelta ev)
      else if seType ev = EventSpeechStarted \<or> seType ev = EventTurnResumed then SinkClear
      else if seType ev = EventTranscriptDelta then SinkTranscript \<lparr>trText = seTranscript ev, trFinal = False\<rparr>
      else if seType ev = EventTranscriptDone then SinkTranscript \<lparr>trText = seTranscript ev, trFinal = True\<rparr>
      else SinkNothing)"

text \<open>The twilio layer's non-blocking delivery to a consumer's channel.\<close>

definition sendOrDrop :: "'a bufferedChan \<Rightarrow> 'a \<Rightarrow> int \<Rightarrow> 'a bufferedChan \<times> int" where
  "sendOrDrop out v dropped =
     (case trySend out v of Some ch \<Rightarrow> (ch, dropped) | None \<Rightarrow> (out, dropped + 1))"

section \<open>Properties\<close>

lemma joinWith_snoc: "xs \<noteq> [] \<Longrightarrow> joinWith sep (xs @ [x]) = joinWith sep xs @ sep @ x"
proof (induction sep xs rule: joinWith.induct)
  case (3 sep x y ys)
  then show ?case by simp
qed simp_all

text \<open>Splicing equals printing.  When the tool declarations are JSON as the encoder prints it, the
  handshake built by cutting off the closing braces and appending bytes is exactly what printing the
  session object with \<open>tools\<close> as its last member gives; without tools it is the plain handshake.\<close>

theorem session_update_splice:
  "buildSessionUpdate i v sid (json_print tools, Some tools) =
     Inr (json_print (JObj [(''type'', JStr EventSessionUpdate),
       (''session'', JObj (sessionSpec i v sid @ (if json_print tools = '''' then [] else [(''tools'', tools)])))]))"
proof -
  let ?spec = "map (\<lambda>(k, v). json_quote k @ '':'' @ json_print v) (sessionSpec i v sid)"
  let ?pre = "''{'' @ (json_quote ''type'' @ '':'' @ json_print (JStr EventSessionUpdate)) @ '','' @ json_quote ''session'' @ '':'' @ ''{''"
  define body where "body = ?pre @ joinWith '','' ?spec"
  have ne: "sessionSpec i v sid \<noteq> []" by (simp add: sessionSpec_def)
  have base: "json_print (newSessionUpdate i v sid) = body @ ''}}''"
    by (simp add: newSessionUpdate_def body_def)
  have tools: "json_print (JObj [(''type'', JStr EventSessionUpdate), (''session'', JObj (sessionSpec i v sid @ [(''tools'', tools)]))]) =
      body @ '','' @ json_quote ''tools'' @ '':'' @ json_print tools @ ''}}''"
    by (simp add: joinWith_snoc ne body_def)
  have "length (body @ ''}}'') - 2 = length body" by simp
  then show ?thesis
    unfolding buildSessionUpdate_def base Let_def fst_conv snd_conv
    by (simp add: tools base [unfolded newSessionUpdate_def] del: json_print.simps)
qed

end
