(* ===== verification/Filler.thy ===== *)
theory Filler
  imports Bridge
begin

text \<open>
  The filler loop of the realtime relay (\<open>telephony/twilio/realtime_filler.go\<close>): a countdown armed by an
  event, a play goroutine started by the countdown, both cut off by the reply.

  A pending start is a \<open>time.AfterFunc\<close> that is either still armed or already running its function and
  waiting for the mutex, where \<open>Stop\<close> no longer reaches it (\<open>fArmed\<close> and \<open>fStarting\<close>, each entry the
  closure's generation and trigger).  \<open>fPlayers\<close> are the play goroutines that run, by generation.  A tick
  of a play goroutine is \<open>nextFrame\<close>, the decision it takes inside the carrier's write slot, then the
  write.
\<close>

section \<open>State\<close>

datatype armTrigger = armedByTurn | armedByCallOpen

record FillerConfig =
  fcLoop :: bytes
  fcDelay :: duration

record filler =
  fLoop :: bytes
  fDelay :: duration
  fGen :: nat
  fTimer :: "nat option"
  fPlaying :: bool
  fOff :: nat
  fStopped :: bool
  fArmed :: "(nat \<times> armTrigger) list"
  fStarting :: "(nat \<times> armTrigger) list"
  fPlayers :: "nat list"
  fCancelled :: bool
  fOpenLines :: nat

definition newFiller :: "FillerConfig \<Rightarrow> filler option" where
  "newFiller cfg =
     (if fcDelay cfg \<le> 0 \<or> length (fcLoop cfg) = 0 then None
      else Some \<lparr>fLoop = fcLoop cfg, fDelay = fcDelay cfg, fGen = 0, fTimer = None, fPlaying = False, fOff = 0, fStopped = False,
             fArmed = [], fStarting = [], fPlayers = [], fCancelled = False, fOpenLines = 0\<rparr>)"

definition defaultFrameBytes :: nat where "defaultFrameBytes = nat ((SampleRateHz * MuLawFrameMS) sdiv 1000)"

section \<open>Operations\<close>

definition cancelPendingLocked :: "filler \<Rightarrow> filler" where
  "cancelPendingLocked f =
     (let f = f\<lparr>fGen := fGen f + 1\<rparr> in
      case fTimer f of
        None \<Rightarrow> f
      | Some g \<Rightarrow> f\<lparr>fArmed := filter (\<lambda>(h, by). h \<noteq> g) (fArmed f), fTimer := None\<rparr>)"

definition filler_arm :: "armTrigger \<Rightarrow> filler \<Rightarrow> filler" where
  "filler_arm trig f =
     (if fStopped f then f
      else if fTimer f \<noteq> None then f
      else if fPlaying f then f
      else
        (let f = cancelPendingLocked f
         in f\<lparr>fTimer := Some (fGen f), fArmed := fArmed f @ [(fGen f, trig)]\<rparr>))"

definition filler_stop :: "filler \<Rightarrow> bool \<times> filler" where
  "filler_stop f = (fPlaying f, cancelPendingLocked (f\<lparr>fPlaying := False\<rparr>))"

definition filler_shutdown :: "filler \<Rightarrow> filler" where
  "filler_shutdown f = (cancelPendingLocked (f\<lparr>fStopped := True, fPlaying := False\<rparr>))\<lparr>fCancelled := True\<rparr>"

definition filler_observe :: "ServerEvent \<Rightarrow> filler \<Rightarrow> filler" where
  "filler_observe ev f =
     (if seType ev = EventSpeechStopped \<or> seType ev = EventTurnEnded then filler_arm armedByTurn f
      else if seType ev = EventResponseDone then
        (if ResponseEndedInFunctionCall (seRaw ev) then filler_arm armedByTurn f else snd (filler_stop f))
      else f)"

definition filler_start :: "nat \<Rightarrow> armTrigger \<Rightarrow> filler \<Rightarrow> filler" where
  "filler_start gen trig f =
     (if fStopped f \<or> fGen f \<noteq> gen \<or> fPlaying f then f
      else
        (let f = f\<lparr>fTimer := None, fPlaying := True, fOff := 0\<rparr>;
             f = (if trig = armedByCallOpen then f\<lparr>fOpenLines := fOpenLines f + 1\<rparr> else f)
         in f\<lparr>fPlayers := fPlayers f @ [gen]\<rparr>))"

definition endEpisode :: "nat \<Rightarrow> filler \<Rightarrow> filler" where
  "endEpisode gen f = (if fGen f \<noteq> gen then f else f\<lparr>fPlaying := False, fGen := fGen f + 1\<rparr>)"

text \<open>The loop of \<open>frameLocked\<close>.  An empty loop would divide by zero; \<open>newFiller\<close> makes none.\<close>

function frame_loop :: "bytes \<Rightarrow> nat \<Rightarrow> bytes \<Rightarrow> bytes" where
  "frame_loop lp off frame =
     (if length frame < defaultFrameBytes \<and> lp \<noteq> [] then
        (let i = off mod length lp;
             take_n = min (defaultFrameBytes - length frame) (length lp - i)
         in frame_loop lp (off + take_n) (frame @ take take_n (drop i lp)))
      else frame)"
  by pat_completeness auto
termination
proof (relation "measure (\<lambda>(lp, off, frame). defaultFrameBytes - length frame)", simp)
  fix lp :: bytes and off i t :: nat and frame :: bytes
  assume "length frame < defaultFrameBytes \<and> lp \<noteq> []" "i = off mod length lp" "t = min (defaultFrameBytes - length frame) (length lp - i)"
  moreover from this have "i < length lp" by simp
  then have "0 < length lp - i" by simp
  ultimately have "0 < t" "length (take t (drop i lp)) = t" "length frame < defaultFrameBytes" by simp_all
  then show "((lp, off + t, frame @ take t (drop i lp)), (lp, off, frame)) \<in> measure (\<lambda>(lp, off, frame). defaultFrameBytes - length frame)"
    by (simp only: in_measure case_prod_conv length_append)
qed

declare frame_loop.simps [simp del]

definition frameLocked :: "filler \<Rightarrow> bytes" where
  "frameLocked f = frame_loop (fLoop f) (fOff f) []"

text \<open>The decision \<open>writeFrame\<close> takes inside the write slot: the frame's base64, or to decline.\<close>

definition nextFrame :: "nat \<Rightarrow> filler \<Rightarrow> string option \<times> filler" where
  "nextFrame gen f =
     (if fStopped f \<or> fGen f \<noteq> gen \<or> \<not> fPlaying f then (None, f)
      else (let frame = frameLocked f
            in (Some (b64enc frame), f\<lparr>fOff := (fOff f + length frame) mod length (fLoop f)\<rparr>)))"

text \<open>A play goroutine returning: its deferred \<open>endEpisode\<close>.\<close>

definition playerLeaves :: "nat \<Rightarrow> filler \<Rightarrow> filler" where
  "playerLeaves gen f = endEpisode gen (f\<lparr>fPlayers := filter (\<lambda>h. h \<noteq> gen) (fPlayers f)\<rparr>)"

section \<open>Histories\<close>

datatype filler_op = FArm armTrigger | FStop | FShutdown | FTimerFires nat armTrigger | FStart nat armTrigger
  | FTick nat bool | FQuit nat

fun filler_step :: "filler_op \<Rightarrow> filler \<Rightarrow> filler option" where
  "filler_step (FArm trig) f = Some (filler_arm trig f)"
| "filler_step FStop f = Some (snd (filler_stop f))"
| "filler_step FShutdown f = Some (filler_shutdown f)"
| "filler_step (FTimerFires g trig) f =
     (if (g, trig) \<in> set (fArmed f)
      then Some (f\<lparr>fArmed := filter (\<lambda>x. x \<noteq> (g, trig)) (fArmed f), fStarting := fStarting f @ [(g, trig)]\<rparr>) else None)"
| "filler_step (FStart g trig) f =
     (if (g, trig) \<in> set (fStarting f)
      then Some (filler_start g trig (f\<lparr>fStarting := filter (\<lambda>x. x \<noteq> (g, trig)) (fStarting f)\<rparr>)) else None)"
| "filler_step (FTick g ok) f =
     (if g \<notin> set (fPlayers f) then None
      else case nextFrame g f of
             (None, f') \<Rightarrow> Some (playerLeaves g f')
           | (Some _, f') \<Rightarrow> Some (if ok then f' else playerLeaves g f'))"
| "filler_step (FQuit g) f = (if g \<in> set (fPlayers f) \<and> fCancelled f then Some (playerLeaves g f) else None)"

inductive filler_reach :: "FillerConfig \<Rightarrow> filler \<Rightarrow> bool" for cfg :: FillerConfig where
  filler_init: "newFiller cfg = Some f \<Longrightarrow> filler_reach cfg f"
| filler_next: "filler_reach cfg f \<Longrightarrow> filler_step op f = Some f' \<Longrightarrow> filler_reach cfg f'"

section \<open>The invariant\<close>

text \<open>
  The part of the state the generations protect: \<open>P\<close> the play goroutines, \<open>S\<close> the pending starts.  The loop
  plays exactly when a goroutine of the current generation runs; a countdown is held exactly when a start
  of the current generation is on its way.
\<close>

definition core :: "bool \<Rightarrow> nat \<Rightarrow> nat set \<Rightarrow> (nat \<times> armTrigger) set \<Rightarrow> nat option \<Rightarrow> bool \<Rightarrow> bool" where
  "core playing gen P S tm stopped \<longleftrightarrow>
     (playing \<longleftrightarrow> gen \<in> P) \<and> (\<forall>g \<in> P. g \<le> gen) \<and> (\<forall>(g, b) \<in> S. g \<le> gen) \<and> single_valued S \<and>
     (\<forall>g. tm = Some g \<longrightarrow> g = gen \<and> \<not> playing \<and> g \<in> Domain S) \<and> (gen \<in> Domain S \<longrightarrow> tm = Some gen) \<and>
     (stopped \<longrightarrow> \<not> playing \<and> tm = None)"

abbreviation starts :: "filler \<Rightarrow> (nat \<times> armTrigger) set" where
  "starts f \<equiv> set (fArmed f) \<union> set (fStarting f)"

definition filler_inv :: "filler \<Rightarrow> bool" where
  "filler_inv f \<longleftrightarrow> core (fPlaying f) (fGen f) (set (fPlayers f)) (starts f) (fTimer f) (fStopped f) \<and>
     set (fArmed f) \<inter> set (fStarting f) = {} \<and> distinct (fPlayers f) \<and> fLoop f \<noteq> [] \<and> fOff f < length (fLoop f)"

lemma core_le: "core p g P S t st \<Longrightarrow> (h, b) \<in> S \<Longrightarrow> h \<le> g" "core p g P S t st \<Longrightarrow> h \<in> P \<Longrightarrow> h \<le> g"
  unfolding core_def by blast+

lemma core_single: "core p g P S t st \<Longrightarrow> S' \<subseteq> S \<Longrightarrow> single_valued S'"
  unfolding core_def by (blast intro: single_valued_subset)

lemma core_cancel:
  assumes c: "core p g P S t st" and s: "S' \<subseteq> S"
  shows "core False (Suc g) P S' None st'"
proof -
  have "Suc g \<notin> P" "Suc g \<notin> Domain S'" using core_le [OF c] s by fastforce+
  moreover have "\<forall>h \<in> P. h \<le> Suc g" "\<forall>(h, b) \<in> S'. h \<le> Suc g" using core_le [OF c] s by (auto simp: le_SucI)
  ultimately show ?thesis using core_single [OF c s] by (simp add: core_def)
qed

lemma core_arm:
  assumes c: "core p g P S t st" and s: "S' \<subseteq> S"
  shows "core False (Suc g) P (insert (Suc g, b) S') (Some (Suc g)) False"
proof -
  have "Suc g \<notin> P" "\<And>b. (Suc g, b) \<notin> S'" using core_le [OF c] s by fastforce+
  moreover have "\<forall>h \<in> P. h \<le> Suc g" "\<forall>(h, b) \<in> S'. h \<le> Suc g" using core_le [OF c] s by (auto simp: le_SucI)
  moreover have "single_valued (insert (Suc g, b) S')"
    using core_single [OF c s] \<open>\<And>b. (Suc g, b) \<notin> S'\<close> by (auto simp: single_valued_def)
  ultimately show ?thesis by (simp add: core_def)
qed

lemma core_start: "core False g P S t False \<Longrightarrow> (g, b) \<in> S \<Longrightarrow> core True g (insert g P) (S - {(g, b)}) None False"
  unfolding core_def single_valued_def by blast

lemma core_drop: "core p g P S t st \<Longrightarrow> h \<noteq> g \<or> p \<or> st \<Longrightarrow> core p g P (S - {(h, b)}) t st"
  unfolding core_def single_valued_def by blast

lemma core_leave: "core p g P S t st \<Longrightarrow> h \<noteq> g \<Longrightarrow> core p g (P - {h}) S t st"
  unfolding core_def by blast

lemma core_end:
  assumes c: "core p g P S t st" and g: "g \<in> P"
  shows "core False (Suc g) (P - {g}) S t st"
proof -
  have "t = None" "\<not> st" using c g unfolding core_def by (cases t; blast)+
  moreover have "Suc g \<notin> P" using core_le(2) [OF c, of "Suc g"] by auto
  ultimately show ?thesis using core_cancel [OF c subset_refl, of st] unfolding core_def by simp
qed

lemma cancel_frame [simp]:
  "fGen (cancelPendingLocked f) = Suc (fGen f)" "fTimer (cancelPendingLocked f) = None" "fPlaying (cancelPendingLocked f) = fPlaying f"
  "fPlayers (cancelPendingLocked f) = fPlayers f" "fStopped (cancelPendingLocked f) = fStopped f" "fLoop (cancelPendingLocked f) = fLoop f"
  "fOff (cancelPendingLocked f) = fOff f" "fStarting (cancelPendingLocked f) = fStarting f"
  by (simp_all add: cancelPendingLocked_def Let_def split: option.split)

lemma cancel_armed: "set (fArmed (cancelPendingLocked f)) \<subseteq> set (fArmed f)"
  by (auto simp: cancelPendingLocked_def Let_def split: option.split)

lemma inv_filler_arm: "filler_inv f \<Longrightarrow> filler_inv (filler_arm b f)"
proof (cases "fStopped f \<or> fTimer f \<noteq> None \<or> fPlaying f")
  case False
  assume inv: "filler_inv f"
  let ?c = "cancelPendingLocked f"
  have "core False (Suc (fGen f)) (set (fPlayers f)) (insert (Suc (fGen f), b) (starts ?c)) (Some (Suc (fGen f))) False"
    using inv cancel_armed [of f] by (intro core_arm [of "fPlaying f" "fGen f" _ "starts f" "fTimer f" "fStopped f"]) (auto simp: filler_inv_def)
  moreover have "(Suc (fGen f), b) \<notin> set (fStarting f)" using inv core_le(1) by (fastforce simp: filler_inv_def)
  ultimately show ?thesis using inv False cancel_armed [of f] by (auto simp: filler_arm_def filler_inv_def Let_def)
qed (auto simp: filler_arm_def)

lemma inv_filler_stop: "filler_inv f \<Longrightarrow> filler_inv (snd (filler_stop f))"
proof -
  assume inv: "filler_inv f"
  let ?c = "cancelPendingLocked (f\<lparr>fPlaying := False\<rparr>)"
  have "starts ?c \<subseteq> starts f" using cancel_armed [of "f\<lparr>fPlaying := False\<rparr>"] by auto
  with inv core_cancel [of "fPlaying f" "fGen f" "set (fPlayers f)" "starts f" "fTimer f" "fStopped f"]
    cancel_armed [of "f\<lparr>fPlaying := False\<rparr>"] show ?thesis by (auto simp: filler_stop_def filler_inv_def)
qed

lemma inv_filler_shutdown: "filler_inv f \<Longrightarrow> filler_inv (filler_shutdown f)"
proof -
  assume inv: "filler_inv f"
  let ?c = "cancelPendingLocked (f\<lparr>fStopped := True, fPlaying := False\<rparr>)"
  have "starts ?c \<subseteq> starts f" using cancel_armed [of "f\<lparr>fStopped := True, fPlaying := False\<rparr>"] by auto
  with inv core_cancel [of "fPlaying f" "fGen f" "set (fPlayers f)" "starts f" "fTimer f" "fStopped f"]
    cancel_armed [of "f\<lparr>fStopped := True, fPlaying := False\<rparr>"] show ?thesis by (auto simp: filler_shutdown_def filler_inv_def)
qed

lemma inv_filler_start:
  assumes inv: "filler_inv f" and s: "(g, b) \<in> set (fStarting f)"
  shows "filler_inv (filler_start g b (f\<lparr>fStarting := filter (\<lambda>x. x \<noteq> (g, b)) (fStarting f)\<rparr>))"
proof -
  let ?f = "f\<lparr>fStarting := filter (\<lambda>x. x \<noteq> (g, b)) (fStarting f)\<rparr>"
  have c: "core (fPlaying f) (fGen f) (set (fPlayers f)) (starts f) (fTimer f) (fStopped f)" using inv by (simp add: filler_inv_def)
  have uniq: "starts ?f = starts f - {(g, b)}" using inv s by (auto simp: filler_inv_def)
  have dis: "set (fArmed f) \<inter> set (filter (\<lambda>x. x \<noteq> (g, b)) (fStarting f)) = {}" using inv by (auto simp: filler_inv_def)
  show ?thesis
  proof (cases "fStopped f \<or> fGen f \<noteq> g \<or> fPlaying f")
    case True
    with c have "core (fPlaying f) (fGen f) (set (fPlayers f)) (starts ?f) (fTimer f) (fStopped f)"
      unfolding uniq by (intro core_drop) auto
    with True inv dis show ?thesis by (simp add: filler_start_def filler_inv_def)
  next
    case False
    with c s have "core True g (insert g (set (fPlayers f))) (starts ?f) None False"
      unfolding uniq by (intro core_start) auto
    moreover have "g \<notin> set (fPlayers f)" using False c unfolding core_def by blast
    ultimately show ?thesis using False inv dis by (cases b) (simp_all add: filler_start_def filler_inv_def Let_def)
  qed
qed

lemma inv_playerLeaves: "filler_inv f \<Longrightarrow> g \<in> set (fPlayers f) \<Longrightarrow> filler_inv (playerLeaves g f)"
proof -
  assume inv: "filler_inv f" and g: "g \<in> set (fPlayers f)"
  then have c: "core (fPlaying f) (fGen f) (set (fPlayers f)) (starts f) (fTimer f) (fStopped f)" by (simp add: filler_inv_def)
  have s: "set (filter (\<lambda>h. h \<noteq> g) (fPlayers f)) = set (fPlayers f) - {g}" by auto
  show ?thesis
  proof (cases "g = fGen f")
    case True
    with core_end [OF c] g have "core False (Suc (fGen f)) (set (filter (\<lambda>h. h \<noteq> g) (fPlayers f))) (starts f) (fTimer f) (fStopped f)"
      unfolding s by simp
    with inv True show ?thesis by (simp add: playerLeaves_def endEpisode_def filler_inv_def)
  next
    case False
    with core_leave [OF c, of g] have "core (fPlaying f) (fGen f) (set (filter (\<lambda>h. h \<noteq> g) (fPlayers f))) (starts f) (fTimer f) (fStopped f)"
      unfolding s by simp
    with inv False show ?thesis by (simp add: playerLeaves_def endEpisode_def filler_inv_def)
  qed
qed

lemma inv_nextFrame: "filler_inv f \<Longrightarrow> filler_inv (snd (nextFrame g f)) \<and> fPlayers (snd (nextFrame g f)) = fPlayers f"
  by (auto simp: nextFrame_def filler_inv_def Let_def)

lemma inv_filler_step:
  assumes inv: "filler_inv f" and st: "filler_step op f = Some f'"
  shows "filler_inv f'"
proof (cases op)
  case (FTimerFires g b)
  with st have f': "f' = f\<lparr>fArmed := filter (\<lambda>x. x \<noteq> (g, b)) (fArmed f), fStarting := fStarting f @ [(g, b)]\<rparr>"
    "(g, b) \<in> set (fArmed f)" by (simp_all split: if_splits)
  then have "starts f' = starts f" "set (fArmed f') \<inter> set (fStarting f') = {}" using inv by (auto simp: filler_inv_def)
  with inv f' show ?thesis by (simp add: filler_inv_def)
next
  case (FStart g b)
  with st have "(g, b) \<in> set (fStarting f)" by (simp split: if_splits)
  with FStart st inv_filler_start [OF inv, of g b] show ?thesis by simp
next
  case (FTick g ok)
  then have g: "g \<in> set (fPlayers f)" using st by (simp split: if_splits)
  obtain r f1 where n: "nextFrame g f = (r, f1)" by (cases "nextFrame g f")
  with inv_nextFrame [OF inv, of g] have f1: "filler_inv f1" "fPlayers f1 = fPlayers f" by simp_all
  with FTick st n g inv_playerLeaves [OF f1(1), of g] show ?thesis by (auto split: option.splits if_splits)
next
  case (FQuit g)
  with st inv_playerLeaves [OF inv, of g] show ?thesis by (simp split: if_splits)
qed (use inv st inv_filler_arm inv_filler_stop inv_filler_shutdown in auto)

lemma reach_filler_inv: "filler_reach cfg f \<Longrightarrow> filler_inv f"
proof (induction rule: filler_reach.induct)
  case (filler_init f)
  then show ?case by (auto simp: newFiller_def filler_inv_def core_def single_valued_def split: if_splits)
qed (rule inv_filler_step)

section \<open>What a frame holds\<close>

lemma frame_loop_cyclic:
  assumes "lp \<noteq> []" "length frame \<le> defaultFrameBytes"
  shows "frame_loop lp off frame = frame @ map (\<lambda>i. lp ! ((off + i) mod length lp)) [0..<defaultFrameBytes - length frame]"
  using assms
proof (induction lp off frame rule: frame_loop.induct)
  case (1 lp off frame)
  define r where "r = defaultFrameBytes - length frame"
  define i where "i = off mod length lp"
  define t where "t = min r (length lp - i)"
  show ?case
  proof (cases "r = 0")
    case True
    then have "length frame = defaultFrameBytes" using "1.prems" by (simp add: r_def)
    then show ?thesis by (subst frame_loop.simps) simp
  next
    case False
    have i: "i < length lp" using "1.prems" by (simp add: i_def)
    have tk: "take t (drop i lp) = map (\<lambda>k. lp ! ((off + k) mod length lp)) [0..<t]"
    proof (rule nth_equalityI)
      show "length (take t (drop i lp)) = length (map (\<lambda>k. lp ! ((off + k) mod length lp)) [0..<t])" by (simp add: t_def)
      fix k assume "k < length (take t (drop i lp))"
      then have k: "k < t" "i + k < length lp" by (auto simp: t_def)
      have "(off + k) mod length lp = (i + k) mod length lp" unfolding i_def by (rule mod_add_left_eq [symmetric])
      with k show "take t (drop i lp) ! k = map (\<lambda>k. lp ! ((off + k) mod length lp)) [0..<t] ! k" by simp
    qed
    have lt: "length frame < defaultFrameBytes" using False by (simp add: r_def)
    have len: "length (take t (drop i lp)) = t" by (simp add: t_def)
    have "frame_loop lp off frame = frame_loop lp (off + t) (frame @ take t (drop i lp))"
      using lt "1.prems" by (subst frame_loop.simps) (simp add: t_def r_def i_def Let_def)
    also have "\<dots> = (frame @ take t (drop i lp)) @ map (\<lambda>k. lp ! ((off + t + k) mod length lp)) [0..<r - t]"
      using "1.IH" [of i t] lt "1.prems" len by (simp add: i_def t_def r_def)
    also have "map (\<lambda>k. lp ! ((off + t + k) mod length lp)) [0..<r - t] = map (\<lambda>k. lp ! ((off + k) mod length lp)) [t..<r]"
      by (rule nth_equalityI) (simp_all add: add.assoc)
    also have "(frame @ take t (drop i lp)) @ map (\<lambda>k. lp ! ((off + k) mod length lp)) [t..<r] =
        frame @ map (\<lambda>k. lp ! ((off + k) mod length lp)) ([0..<t] @ [t..<r])" by (simp add: tk)
    also have "[0..<t] @ [t..<r] = [0..<r]" using upt_add_eq_append [of 0 t "r - t"] by (simp add: t_def)
    finally show ?thesis by (simp add: r_def)
  qed
qed

lemma defaultFrameBytes_eq: "defaultFrameBytes = 160"
  by (simp add: defaultFrameBytes_def audio_consts)

text \<open>The audio of \<open>n\<close> ticks of the current play goroutine.\<close>

fun played_audio :: "nat \<Rightarrow> filler \<Rightarrow> bytes" where
  "played_audio 0 f = []"
| "played_audio (Suc n) f = frameLocked f @ played_audio n (snd (nextFrame (fGen f) f))"

lemma played_audio_cyclic:
  assumes "fLoop f \<noteq> []" "fPlaying f" "\<not> fStopped f"
  shows "played_audio n f = map (\<lambda>i. fLoop f ! ((fOff f + i) mod length (fLoop f))) [0..<160 * n]"
  using assms
proof (induction n arbitrary: f)
  case (Suc n)
  let ?f = "f\<lparr>fOff := (fOff f + 160) mod length (fLoop f)\<rparr>"
  have fr: "frameLocked f = map (\<lambda>i. fLoop f ! ((fOff f + i) mod length (fLoop f))) [0..<160]"
    using Suc.prems frame_loop_cyclic [of "fLoop f" "[]" "fOff f"] by (simp add: frameLocked_def defaultFrameBytes_eq)
  have "snd (nextFrame (fGen f) f) = ?f" using Suc.prems fr by (simp add: nextFrame_def Let_def)
  then have "played_audio (Suc n) f = frameLocked f @ played_audio n ?f" by simp
  also have "played_audio n ?f = map (\<lambda>i. fLoop f ! (((fOff f + 160) mod length (fLoop f) + i) mod length (fLoop f))) [0..<160 * n]"
    using Suc.IH [of ?f] Suc.prems by simp
  also have "\<dots> = map (\<lambda>i. fLoop f ! ((fOff f + i) mod length (fLoop f))) [160..<160 * Suc n]"
    by (rule nth_equalityI) (simp_all add: mod_add_left_eq add.assoc)
  finally show ?case
    using upt_add_eq_append [of 0 160 "160 * n"] by (simp add: fr)
qed simp

section \<open>Properties\<close>

text \<open>C5: the filler is never dead and never haunts.  After any history: the loop is marked playing
  exactly when one play goroutine of the current generation runs; a held countdown is really on its way;
  arming an idle machine that is not shut down puts a countdown in place; and once stopped or shut down,
  no play goroutine that exists can write another frame.\<close>

theorem filler_alive:
  assumes "filler_reach cfg f"
  shows "(fPlaying f \<longleftrightarrow> fGen f \<in> set (fPlayers f)) \<and> distinct (fPlayers f) \<and>
    (\<forall>g. fTimer f = Some g \<longrightarrow> g \<in> Domain (starts f)) \<and>
    (\<not> fStopped f \<and> \<not> fPlaying f \<longrightarrow> fTimer (filler_arm trig f) \<noteq> None) \<and>
    (\<forall>g \<in> set (fPlayers f). fst (nextFrame g (snd (filler_stop f))) = None \<and> fst (nextFrame g (filler_shutdown f)) = None)"
proof -
  have inv: "filler_inv f" using reach_filler_inv [OF assms] .
  then have c: "core (fPlaying f) (fGen f) (set (fPlayers f)) (starts f) (fTimer f) (fStopped f)" by (simp add: filler_inv_def)
  have "fPlaying f \<longleftrightarrow> fGen f \<in> set (fPlayers f)" "\<forall>g. fTimer f = Some g \<longrightarrow> g \<in> Domain (starts f)"
    using c unfolding core_def by blast+
  moreover have "\<not> fStopped f \<and> \<not> fPlaying f \<longrightarrow> fTimer (filler_arm trig f) \<noteq> None"
    by (auto simp: filler_arm_def Let_def)
  moreover have "\<forall>g \<in> set (fPlayers f). fst (nextFrame g (snd (filler_stop f))) = None \<and> fst (nextFrame g (filler_shutdown f)) = None"
    by (simp add: nextFrame_def filler_stop_def filler_shutdown_def)
  ultimately show ?thesis using inv by (simp add: filler_inv_def)
qed

definition demo_filler :: FillerConfig where
  "demo_filler = \<lparr>fcLoop = [1, 2, 3], fcDelay = 100\<rparr>"

theorem filler_alive_witness:
  "\<exists>f. newFiller demo_filler = Some f \<and> filler_reach demo_filler f \<and> fTimer (filler_arm armedByTurn f) \<noteq> None"
proof -
  obtain f where f: "newFiller demo_filler = Some f" "\<not> fStopped f" "\<not> fPlaying f" by (simp add: newFiller_def demo_filler_def)
  with filler_alive [OF filler_init [OF f(1)], of armedByTurn] filler_init [OF f(1)] show ?thesis by blast
qed

text \<open>The loop wraps without a seam.  From the moment it plays, the audio of any number of ticks
  is the clip repeated for ever, read on from the current offset: frames of exactly 160 bytes with
  nothing lost, doubled or padded where the clip ends.\<close>

theorem filler_seamless:
  assumes "filler_reach cfg f" "fPlaying f"
  shows "played_audio n f = map (\<lambda>i. fLoop f ! ((fOff f + i) mod length (fLoop f))) [0..<160 * n]"
proof -
  have inv: "filler_inv f" using reach_filler_inv [OF assms(1)] .
  then have "core (fPlaying f) (fGen f) (set (fPlayers f)) (starts f) (fTimer f) (fStopped f)" by (simp add: filler_inv_def)
  then have "\<not> fStopped f" using assms(2) unfolding core_def by blast
  with inv assms(2) show ?thesis by (intro played_audio_cyclic) (simp_all add: filler_inv_def)
qed

theorem filler_seamless_witness:
  "\<exists>f. filler_reach demo_filler f \<and> fPlaying f \<and> length (played_audio 2 f) = 320"
proof -
  obtain f0 where f0: "newFiller demo_filler = Some f0" by (simp add: newFiller_def demo_filler_def)
  define f1 where "f1 = filler_arm armedByTurn f0"
  have f1: "fArmed f1 = [(1, armedByTurn)]" "fStarting f1 = []" "fGen f1 = 1" "\<not> fStopped f1" "\<not> fPlaying f1"
    using f0 by (auto simp: f1_def newFiller_def demo_filler_def filler_arm_def cancelPendingLocked_def)
  define f2 where "f2 = f1\<lparr>fArmed := [], fStarting := [(1, armedByTurn)]\<rparr>"
  define f3 where "f3 = filler_start 1 armedByTurn (f2\<lparr>fStarting := []\<rparr>)"
  have r1: "filler_reach demo_filler f1" by (rule filler_next [OF filler_init [OF f0], where op = "FArm armedByTurn"]) (simp add: f1_def)
  have r2: "filler_reach demo_filler f2" by (rule filler_next [OF r1, where op = "FTimerFires 1 armedByTurn"]) (simp add: f2_def f1)
  have r3: "filler_reach demo_filler f3" by (rule filler_next [OF r2, where op = "FStart 1 armedByTurn"]) (simp add: f3_def f2_def)
  have "fPlaying f3" using f1 by (simp add: f3_def f2_def filler_start_def Let_def)
  with filler_seamless [OF r3, of 2] r3 show ?thesis by auto
qed

end
