(* ===== verification/Marks.thy ===== *)
theory Marks
  imports Bridge Session
begin

text \<open>
  The playout clock and the mark tracker of the realtime relay
  (\<open>telephony/twilio/realtime_marks.go\<close>).

  Instants are nanoseconds.  A bound is a \<open>time.AfterFunc\<close>: it is pending until it fires, and from then on
  its callback is in flight, waiting for the tracker's mutex, where \<open>Stop\<close> no longer reaches it; the two
  lists \<open>boundPending\<close> and \<open>boundFiring\<close> hold the (name, generation) pairs of either kind.  The channels
  \<open>await\<close> makes are numbered; \<open>awaitsClosed\<close> are those closed.  The callback of a playout mark is the
  generation the caller-silence bound is told; an operation returns the callbacks it makes.
\<close>

section \<open>The playout clock\<close>

definition clock_fed :: "int \<Rightarrow> int \<Rightarrow> int \<Rightarrow> int" where
  "clock_fed n now through =
     (let through = (if through < now then now else through) in through + MuLawDuration n)"

definition clock_flush :: "int \<Rightarrow> int \<Rightarrow> int" where
  "clock_flush now through = now"

definition clock_outstanding :: "int \<Rightarrow> int \<Rightarrow> duration" where
  "clock_outstanding now through = (let d = through - now in if d > 0 then d else 0)"

section \<open>The tracker\<close>

record MarkEcho =
  meName :: string
  meTimedOut :: bool

record outstandingMark =
  omGen :: nat
  omPlayed :: "nat option"

record markTracker =
  echoCh :: "MarkEcho bufferedChan option"
  logUnmatchedEchoes :: bool
  playoutArmed :: bool
  outstanding :: "string \<rightharpoonup> outstandingMark"
  mtGen :: nat
  mtDropped :: int
  awaitName :: string
  awaitCh :: "nat option"
  mtStopped :: bool
  boundPending :: "(string \<times> nat) list"
  boundFiring :: "(string \<times> nat) list"
  awaitsMade :: nat
  awaitsClosed :: "nat list"
  mtLog :: "string list"

definition realtimePlayoutMarkPrefix :: string where "realtimePlayoutMarkPrefix = ''aatoolkit-playout-''"

definition newMarkTracker :: "MarkEcho bufferedChan option \<Rightarrow> bool \<Rightarrow> markTracker" where
  "newMarkTracker ch consumerMarks =
     \<lparr>echoCh = ch, logUnmatchedEchoes = consumerMarks, playoutArmed = False, outstanding = Map.empty, mtGen = 0,
      mtDropped = 0, awaitName = '''', awaitCh = None, mtStopped = False, boundPending = [], boundFiring = [],
      awaitsMade = 0, awaitsClosed = [], mtLog = []\<rparr>"

text \<open>\<open>timer.Stop\<close> on the bound of an arming.\<close>

definition stopBound :: "string \<Rightarrow> outstandingMark \<Rightarrow> markTracker \<Rightarrow> markTracker" where
  "stopBound name m t = t\<lparr>boundPending := filter (\<lambda>b. b \<noteq> (name, omGen m)) (boundPending t)\<rparr>"

definition armLocked :: "string \<Rightarrow> nat option \<Rightarrow> markTracker \<Rightarrow> markTracker" where
  "armLocked name played t =
     (if mtStopped t then t
      else
        (let t = (case outstanding t name of Some old \<Rightarrow> stopBound name old t | None \<Rightarrow> t);
             t = t\<lparr>mtGen := mtGen t + 1\<rparr>
         in t\<lparr>outstanding := (outstanding t)(name \<mapsto> \<lparr>omGen = mtGen t, omPlayed = played\<rparr>),
              boundPending := boundPending t @ [(name, mtGen t)]\<rparr>))"

definition mt_arm :: "string \<Rightarrow> markTracker \<Rightarrow> markTracker" where
  "mt_arm name t = armLocked name None t"

definition armPlayout :: "string \<Rightarrow> nat \<Rightarrow> markTracker \<Rightarrow> markTracker" where
  "armPlayout name played t = armLocked name (Some played) (t\<lparr>playoutArmed := True\<rparr>)"

definition resolveAwaitLocked :: "string \<Rightarrow> markTracker \<Rightarrow> bool \<times> markTracker" where
  "resolveAwaitLocked name t =
     (case awaitCh t of
        None \<Rightarrow> (False, t)
      | Some c \<Rightarrow>
          if name \<noteq> '''' \<and> name \<noteq> awaitName t then (False, t)
          else (True, t\<lparr>awaitsClosed := awaitsClosed t @ [c], awaitName := '''', awaitCh := None\<rparr>))"

definition await :: "string \<Rightarrow> markTracker \<Rightarrow> nat \<times> markTracker" where
  "await name t =
     (let c = awaitsMade t; t = t\<lparr>awaitsMade := awaitsMade t + 1\<rparr> in
      if mtStopped t then (c, t\<lparr>awaitsClosed := awaitsClosed t @ [c]\<rparr>)
      else
        (let t = snd (resolveAwaitLocked '''' t)
         in (c, t\<lparr>awaitName := name, awaitCh := Some c\<rparr>)))"

definition mt_deliver :: "MarkEcho \<Rightarrow> markTracker \<Rightarrow> markTracker" where
  "mt_deliver rec t =
     (case echoCh t of
        None \<Rightarrow> t
      | Some ch \<Rightarrow> (case sendOrDrop ch rec (mtDropped t) of (ch', n) \<Rightarrow> t\<lparr>echoCh := Some ch', mtDropped := n\<rparr>))"

definition echo :: "string \<Rightarrow> markTracker \<Rightarrow> nat list \<times> markTracker" where
  "echo name t =
     (if mtStopped t then ([], t)
      else case outstanding t name of
        None \<Rightarrow>
          ([], if logUnmatchedEchoes t \<and> \<not> (playoutArmed t \<and> has_prefix realtimePlayoutMarkPrefix name)
               then t\<lparr>mtLog := mtLog t @ [name]\<rparr> else t)
      | Some m \<Rightarrow>
          (let t = stopBound name m t;
               t = t\<lparr>outstanding := (outstanding t)(name := None)\<rparr>
           in case omPlayed m of
                Some g \<Rightarrow> ([g], t)
              | None \<Rightarrow>
                  (case resolveAwaitLocked name t of
                     (True, t) \<Rightarrow> ([], t)
                   | (False, t) \<Rightarrow> ([], mt_deliver \<lparr>meName = name, meTimedOut = False\<rparr> t))))"

definition expire :: "string \<Rightarrow> nat \<Rightarrow> markTracker \<Rightarrow> nat list \<times> markTracker" where
  "expire name gen t =
     (if mtStopped t then ([], t)
      else case outstanding t name of
        None \<Rightarrow> ([], t)
      | Some m \<Rightarrow>
          if omGen m \<noteq> gen then ([], t)
          else
            (let t = t\<lparr>outstanding := (outstanding t)(name := None)\<rparr> in
             case resolveAwaitLocked name t of (engineOwned, t) \<Rightarrow>
               (case omPlayed m of
                  Some g \<Rightarrow> ([g], t)
                | None \<Rightarrow> if engineOwned then ([], t)
                          else ([], mt_deliver \<lparr>meName = name, meTimedOut = True\<rparr> t))))"

definition mt_stop :: "markTracker \<Rightarrow> markTracker" where
  "mt_stop t =
     (let t = t\<lparr>mtStopped := True\<rparr>;
          t = snd (resolveAwaitLocked '''' t)
      in t\<lparr>boundPending := filter (\<lambda>(n, g). case outstanding t n of None \<Rightarrow> True | Some m \<Rightarrow> omGen m \<noteq> g) (boundPending t),
           outstanding := Map.empty\<rparr>)"

text \<open>\<open>handleMarkRequest\<close>'s decision on one receive: stop listening, ignore, or write a mark.\<close>

datatype mark_request = MarkChanClosed | MarkRefused | MarkWrite string

definition handleMarkRequest :: "string \<Rightarrow> bool \<Rightarrow> mark_request" where
  "handleMarkRequest name ok = (if \<not> ok then MarkChanClosed else if name = '''' then MarkRefused else MarkWrite name)"

section \<open>Histories\<close>

datatype mark_op = Arm string | ArmPlayout string nat | Await string | Echo string
  | BoundFires string nat | Expire string nat | StopMarks | ConsumeEcho

text \<open>What an operation resolves: the generation of the arming, by its echo or by its bound.\<close>

datatype resolution = Echoed string nat | Expired string nat

fun mark_step :: "mark_op \<Rightarrow> markTracker \<Rightarrow> markTracker option" where
  "mark_step (Arm name) t = Some (mt_arm name t)"
| "mark_step (ArmPlayout name g) t = Some (armPlayout name g t)"
| "mark_step (Await name) t = Some (snd (await name t))"
| "mark_step (Echo name) t = Some (snd (echo name t))"
| "mark_step (BoundFires name g) t =
     (if (name, g) \<in> set (boundPending t)
      then Some (t\<lparr>boundPending := filter (\<lambda>b. b \<noteq> (name, g)) (boundPending t), boundFiring := boundFiring t @ [(name, g)]\<rparr>) else None)"
| "mark_step (Expire name g) t =
     (if (name, g) \<in> set (boundFiring t)
      then Some (snd (expire name g (t\<lparr>boundFiring := filter (\<lambda>b. b \<noteq> (name, g)) (boundFiring t)\<rparr>))) else None)"
| "mark_step StopMarks t = Some (mt_stop t)"
| "mark_step ConsumeEcho t =
     (case echoCh t of None \<Rightarrow> None
      | Some ch \<Rightarrow> map_option (\<lambda>(r, ch'). t\<lparr>echoCh := Some ch'\<rparr>) (tryRecv ch))"

fun resolves :: "mark_op \<Rightarrow> markTracker \<Rightarrow> resolution list" where
  "resolves (Echo name) t =
     (if mtStopped t then [] else case outstanding t name of None \<Rightarrow> [] | Some m \<Rightarrow> [Echoed name (omGen m)])"
| "resolves (Expire name g) t =
     (if mtStopped t then [] else case outstanding t name of None \<Rightarrow> [] | Some m \<Rightarrow> if omGen m = g then [Expired name g] else [])"
| "resolves _ t = []"

fun res_gen :: "resolution \<Rightarrow> nat" where
  "res_gen (Echoed n g) = g" | "res_gen (Expired n g) = g"

inductive mark_reach :: "markTracker \<Rightarrow> resolution list \<Rightarrow> bool" where
  mark_init: "mark_reach (newMarkTracker ch b) []"
| mark_next: "mark_reach t rs \<Longrightarrow> mark_step op t = Some t' \<Longrightarrow> mark_reach t' (rs @ resolves op t)"

section \<open>The invariant\<close>

text \<open>
  Every outstanding mark's own bound is alive; generations are not reused; a tracker that stopped holds
  nothing; and every channel the engine waits on is the current one or closed.
\<close>

definition marks_inv :: "markTracker \<Rightarrow> resolution list \<Rightarrow> bool" where
  "marks_inv t rs \<longleftrightarrow>
     (\<forall>n m. outstanding t n = Some m \<longrightarrow> omGen m \<le> mtGen t \<and> omGen m \<notin> res_gen ` set rs \<and>
        (n, omGen m) \<in> set (boundPending t) \<union> set (boundFiring t)) \<and>
     (\<forall>n n' m m'. outstanding t n = Some m \<longrightarrow> outstanding t n' = Some m' \<longrightarrow> omGen m = omGen m' \<longrightarrow> n = n') \<and>
     (\<forall>n g. (n, g) \<in> set (boundPending t) \<union> set (boundFiring t) \<longrightarrow> g \<le> mtGen t) \<and>
     (\<forall>r \<in> set rs. res_gen r \<le> mtGen t) \<and> distinct (map res_gen rs) \<and>
     (mtStopped t \<longrightarrow> outstanding t = Map.empty \<and> awaitCh t = None) \<and>
     (\<forall>c < awaitsMade t. c \<in> set (awaitsClosed t) \<or> awaitCh t = Some c)"

lemma deliver_frame [simp]:
  "outstanding (mt_deliver r t) = outstanding t" "mtGen (mt_deliver r t) = mtGen t" "boundPending (mt_deliver r t) = boundPending t"
  "boundFiring (mt_deliver r t) = boundFiring t" "mtStopped (mt_deliver r t) = mtStopped t" "awaitCh (mt_deliver r t) = awaitCh t"
  "awaitsMade (mt_deliver r t) = awaitsMade t" "awaitsClosed (mt_deliver r t) = awaitsClosed t"
  by (simp_all add: mt_deliver_def split: option.split prod.split)

lemma resolveAwait_frame [simp]:
  "outstanding (snd (resolveAwaitLocked n t)) = outstanding t" "mtGen (snd (resolveAwaitLocked n t)) = mtGen t"
  "boundPending (snd (resolveAwaitLocked n t)) = boundPending t" "boundFiring (snd (resolveAwaitLocked n t)) = boundFiring t"
  "mtStopped (snd (resolveAwaitLocked n t)) = mtStopped t" "awaitsMade (snd (resolveAwaitLocked n t)) = awaitsMade t"
  by (simp_all add: resolveAwaitLocked_def split: option.split)

definition awaits_ok :: "markTracker \<Rightarrow> bool" where
  "awaits_ok t \<longleftrightarrow> (mtStopped t \<longrightarrow> awaitCh t = None) \<and> (\<forall>c < awaitsMade t. c \<in> set (awaitsClosed t) \<or> awaitCh t = Some c)"

lemma awaits_resolve: "awaits_ok t \<Longrightarrow> awaits_ok (snd (resolveAwaitLocked n t))"
  by (auto simp: awaits_ok_def resolveAwaitLocked_def split: option.splits)

lemma resolveAwait_any: "awaitCh (snd (resolveAwaitLocked '''' t)) = None"
  by (simp add: resolveAwaitLocked_def split: option.split)

lemma awaits_await: "awaits_ok t \<Longrightarrow> awaits_ok (snd (await n t))"
  by (auto simp: awaits_ok_def await_def resolveAwaitLocked_def Let_def less_Suc_eq split: option.splits)

lemma awaits_cong:
  "awaitCh t' = awaitCh t \<Longrightarrow> awaitsMade t' = awaitsMade t \<Longrightarrow> awaitsClosed t' = awaitsClosed t \<Longrightarrow> mtStopped t' = mtStopped t \<Longrightarrow>
     awaits_ok t' = awaits_ok t"
  by (simp add: awaits_ok_def)

definition armings_ok :: "(string \<rightharpoonup> outstandingMark) \<Rightarrow> nat \<Rightarrow> (string \<times> nat) set \<Rightarrow> bool \<Rightarrow> resolution list \<Rightarrow> bool" where
  "armings_ok om gen bounds stopped rs \<longleftrightarrow>
     (\<forall>n m. om n = Some m \<longrightarrow> omGen m \<le> gen \<and> omGen m \<notin> res_gen ` set rs \<and> (n, omGen m) \<in> bounds) \<and>
     (\<forall>n n' m m'. om n = Some m \<longrightarrow> om n' = Some m' \<longrightarrow> omGen m = omGen m' \<longrightarrow> n = n') \<and>
     (\<forall>n g. (n, g) \<in> bounds \<longrightarrow> g \<le> gen) \<and> (\<forall>r \<in> set rs. res_gen r \<le> gen) \<and> distinct (map res_gen rs) \<and>
     (stopped \<longrightarrow> om = Map.empty)"

abbreviation bounds :: "markTracker \<Rightarrow> (string \<times> nat) set" where
  "bounds t \<equiv> set (boundPending t) \<union> set (boundFiring t)"

lemma marks_inv_split:
  "marks_inv t rs \<longleftrightarrow> armings_ok (outstanding t) (mtGen t) (bounds t) (mtStopped t) rs \<and> awaits_ok t"
  by (auto simp: marks_inv_def armings_ok_def awaits_ok_def)

lemma armings_arm:
  assumes "armings_ok om g bs False rs" "bs' \<subseteq> bs" "\<And>n m. om n = Some m \<Longrightarrow> n \<noteq> name \<Longrightarrow> (n, omGen m) \<in> bs'"
  shows "armings_ok (om(name \<mapsto> \<lparr>omGen = Suc g, omPlayed = p\<rparr>)) (Suc g) (insert (name, Suc g) bs') False rs"
proof -
  have le: "om n = Some m \<Longrightarrow> omGen m \<le> g" "(n, h) \<in> bs' \<Longrightarrow> h \<le> g" "r \<in> set rs \<Longrightarrow> res_gen r \<le> g" for n m h r
    using assms(1,2) by (auto simp: armings_ok_def)
  have inj: "om n = Some m \<Longrightarrow> om n' = Some m' \<Longrightarrow> omGen m = omGen m' \<Longrightarrow> n = n'" for n m n' m'
    using assms(1) by (simp add: armings_ok_def)
  show ?thesis
    unfolding armings_ok_def
  proof (intro conjI allI ballI impI)
    fix n m assume "(om(name \<mapsto> \<lparr>omGen = Suc g, omPlayed = p\<rparr>)) n = Some m"
    then show "omGen m \<le> Suc g" "omGen m \<notin> res_gen ` set rs" "(n, omGen m) \<in> insert (name, Suc g) bs'"
      using le assms(1,3) by (fastforce simp: armings_ok_def split: if_splits)+
  next
    fix n n' m m' assume "(om(name \<mapsto> \<lparr>omGen = Suc g, omPlayed = p\<rparr>)) n = Some m"
      "(om(name \<mapsto> \<lparr>omGen = Suc g, omPlayed = p\<rparr>)) n' = Some m'" "omGen m = omGen m'"
    then show "n = n'"
      using le(1) [of n m] le(1) [of n' m'] inj [of n m n' m'] by (cases "n = name"; cases "n' = name") auto
  qed (use le assms(1) in \<open>auto simp: armings_ok_def le_SucI\<close>)
qed

lemma armings_resolve:
  assumes "armings_ok om g bs False rs" "om name = Some m" "bs' \<subseteq> bs" "\<And>n m. om n = Some m \<Longrightarrow> n \<noteq> name \<Longrightarrow> (n, omGen m) \<in> bs'"
    "res_gen r = omGen m"
  shows "armings_ok (om(name := None)) g bs' False (rs @ [r])"
  unfolding armings_ok_def
proof (intro conjI allI ballI impI)
  fix n m' assume "(om(name := None)) n = Some m'"
  then have n: "om n = Some m'" "n \<noteq> name" by (auto split: if_splits)
  with assms show "omGen m' \<le> g" "(n, omGen m') \<in> bs'" by (auto simp: armings_ok_def)
  have "omGen m' \<noteq> omGen m" using n assms(1,2) by (auto simp: armings_ok_def)
  with n assms(1,5) show "omGen m' \<notin> res_gen ` set (rs @ [r])" by (auto simp: armings_ok_def)
qed (use assms in \<open>auto simp: armings_ok_def split: if_splits\<close>)

lemma armings_bound: "armings_ok om g bs st rs \<Longrightarrow> om n = Some m \<Longrightarrow> (n, omGen m) \<in> bs"
  by (simp add: armings_ok_def)

lemma armings_stopped: "armings_ok om g bs True rs \<Longrightarrow> om = Map.empty"
  by (simp add: armings_ok_def)

lemma armings_mono:
  "armings_ok om g bs st rs \<Longrightarrow> bs' \<subseteq> bs \<Longrightarrow> (\<And>n m. om n = Some m \<Longrightarrow> (n, omGen m) \<in> bs') \<Longrightarrow> armings_ok om g bs' st rs"
  by (auto simp: armings_ok_def)

lemma inv_armLocked:
  assumes "marks_inv t rs"
  shows "marks_inv (armLocked name p t) rs"
proof (cases "mtStopped t")
  case True
  with assms show ?thesis by (simp add: armLocked_def)
next
  case False
  let ?t = "case outstanding t name of Some old \<Rightarrow> stopBound name old t | None \<Rightarrow> t"
  have t: "outstanding ?t = outstanding t" "mtGen ?t = mtGen t" "bounds ?t \<subseteq> bounds t" "awaits_ok ?t = awaits_ok t"
    by (auto simp: stopBound_def awaits_ok_def split: option.split)
  have b: "outstanding t n = Some m \<Longrightarrow> n \<noteq> name \<Longrightarrow> (n, omGen m) \<in> bounds ?t" for n m
    using assms by (auto simp: marks_inv_def stopBound_def split: option.split)
  have ok: "armings_ok (outstanding t) (mtGen t) (bounds t) False rs" using assms False by (simp add: marks_inv_split)
  have eq: "armLocked name p t = ?t\<lparr>mtGen := Suc (mtGen t), outstanding := (outstanding t)(name \<mapsto> \<lparr>omGen = Suc (mtGen t), omPlayed = p\<rparr>),
      boundPending := boundPending ?t @ [(name, Suc (mtGen t))]\<rparr>"
    using False by (simp add: armLocked_def Let_def stopBound_def split: option.split)
  have "bounds (armLocked name p t) = insert (name, Suc (mtGen t)) (bounds ?t)" unfolding eq by auto
  moreover have "mtStopped (armLocked name p t) = False" unfolding eq using False by (simp add: stopBound_def split: option.split)
  moreover have "awaits_ok (armLocked name p t)"
    unfolding eq using assms t(4) by (simp add: marks_inv_split awaits_ok_def)
  ultimately show ?thesis
    using armings_arm [OF ok t(3) b, where p = p] by (simp add: marks_inv_split eq)
qed

lemma echo_Some:
  assumes "\<not> mtStopped t" "outstanding t name = Some m"
  shows "outstanding (snd (echo name t)) = (outstanding t)(name := None)" "mtGen (snd (echo name t)) = mtGen t"
    "boundPending (snd (echo name t)) = filter (\<lambda>b. b \<noteq> (name, omGen m)) (boundPending t)"
    "boundFiring (snd (echo name t)) = boundFiring t" "mtStopped (snd (echo name t)) = False"
    "awaits_ok t \<Longrightarrow> awaits_ok (snd (echo name t))"
proof -
  let ?t = "(stopBound name m t)\<lparr>outstanding := (outstanding t)(name := None)\<rparr>"
  obtain b t' where r: "resolveAwaitLocked name ?t = (b, t')" by (cases "resolveAwaitLocked name ?t")
  have t': "t' = snd (resolveAwaitLocked name ?t)" using r by simp
  have fr: "outstanding t' = (outstanding t)(name := None)" "mtGen t' = mtGen t" "boundFiring t' = boundFiring t" "mtStopped t' = mtStopped t"
    "boundPending t' = filter (\<lambda>b. b \<noteq> (name, omGen m)) (boundPending t)"
    unfolding t' by (simp_all add: stopBound_def)
  have eq: "snd (echo name t) = (if omPlayed m \<noteq> None then ?t else if b then t' else mt_deliver \<lparr>meName = name, meTimedOut = False\<rparr> t')"
    using assms r by (auto simp: echo_def Let_def stopBound_def split: option.split)
  show "outstanding (snd (echo name t)) = (outstanding t)(name := None)" "mtGen (snd (echo name t)) = mtGen t"
    "boundPending (snd (echo name t)) = filter (\<lambda>b. b \<noteq> (name, omGen m)) (boundPending t)"
    "boundFiring (snd (echo name t)) = boundFiring t" "mtStopped (snd (echo name t)) = False"
    unfolding eq using assms(1) fr by (simp_all add: stopBound_def)
  assume "awaits_ok t"
  then have "awaits_ok ?t" by (simp add: stopBound_def awaits_ok_def)
  with awaits_resolve [of ?t name] have "awaits_ok t'" by (simp add: t')
  with \<open>awaits_ok ?t\<close> awaits_cong [of "mt_deliver \<lparr>meName = name, meTimedOut = False\<rparr> t'" t']
  show "awaits_ok (snd (echo name t))" unfolding eq by simp
qed

lemma inv_echo:
  assumes "marks_inv t rs"
  shows "marks_inv (snd (echo name t)) (rs @ resolves (Echo name) t)"
proof (cases "mtStopped t \<or> outstanding t name = None")
  case True
  then have "resolves (Echo name) t = []" "snd (echo name t) = t \<or> snd (echo name t) = t\<lparr>mtLog := mtLog t @ [name]\<rparr>"
    by (auto simp: echo_def)
  with assms show ?thesis by (auto simp: marks_inv_split awaits_ok_def)
next
  case False
  then obtain m where m: "\<not> mtStopped t" "outstanding t name = Some m" by auto
  have ok: "armings_ok (outstanding t) (mtGen t) (bounds t) False rs" using assms m by (simp add: marks_inv_split)
  let ?bs = "set (filter (\<lambda>b. b \<noteq> (name, omGen m)) (boundPending t)) \<union> set (boundFiring t)"
  have "armings_ok ((outstanding t)(name := None)) (mtGen t) ?bs False (rs @ [Echoed name (omGen m)])"
    using armings_bound [OF ok] by (intro armings_resolve [OF ok m(2)]) auto
  with echo_Some [OF m] assms m show ?thesis by (simp add: marks_inv_split)
qed

lemma expire_Some:
  assumes "\<not> mtStopped t" "outstanding t name = Some m" "omGen m = g"
  shows "outstanding (snd (expire name g t)) = (outstanding t)(name := None)" "mtGen (snd (expire name g t)) = mtGen t"
    "boundPending (snd (expire name g t)) = boundPending t" "boundFiring (snd (expire name g t)) = boundFiring t"
    "mtStopped (snd (expire name g t)) = False" "awaits_ok t \<Longrightarrow> awaits_ok (snd (expire name g t))"
proof -
  let ?t = "t\<lparr>outstanding := (outstanding t)(name := None)\<rparr>"
  obtain b t' where r: "resolveAwaitLocked name ?t = (b, t')" by (cases "resolveAwaitLocked name ?t")
  have t': "t' = snd (resolveAwaitLocked name ?t)" using r by simp
  have fr: "outstanding t' = (outstanding t)(name := None)" "mtGen t' = mtGen t" "boundFiring t' = boundFiring t" "mtStopped t' = mtStopped t"
    "boundPending t' = boundPending t"
    unfolding t' by simp_all
  have eq: "snd (expire name g t) = (if omPlayed m \<noteq> None \<or> b then t' else mt_deliver \<lparr>meName = name, meTimedOut = True\<rparr> t')"
    using assms r by (auto simp: expire_def Let_def split: option.split)
  show "outstanding (snd (expire name g t)) = (outstanding t)(name := None)" "mtGen (snd (expire name g t)) = mtGen t"
    "boundPending (snd (expire name g t)) = boundPending t" "boundFiring (snd (expire name g t)) = boundFiring t"
    "mtStopped (snd (expire name g t)) = False"
    unfolding eq using assms(1) fr by simp_all
  assume "awaits_ok t"
  then have "awaits_ok ?t" by (simp add: awaits_ok_def)
  with awaits_resolve [of ?t name] have "awaits_ok t'" by (simp add: t')
  with awaits_cong [of "mt_deliver \<lparr>meName = name, meTimedOut = True\<rparr> t'" t']
  show "awaits_ok (snd (expire name g t))" unfolding eq by simp
qed

lemma inv_expire:
  assumes "marks_inv t rs" "(name, g) \<in> set (boundFiring t)"
  shows "marks_inv (snd (expire name g (t\<lparr>boundFiring := filter (\<lambda>b. b \<noteq> (name, g)) (boundFiring t)\<rparr>))) (rs @ resolves (Expire name g) t)"
proof -
  let ?t = "t\<lparr>boundFiring := filter (\<lambda>b. b \<noteq> (name, g)) (boundFiring t)\<rparr>"
  have aw: "awaits_ok ?t" using assms by (simp add: marks_inv_split awaits_ok_def)
  show ?thesis
  proof (cases "\<exists>m. \<not> mtStopped t \<and> outstanding t name = Some m \<and> omGen m = g")
    case True
    then obtain m where m: "\<not> mtStopped ?t" "outstanding ?t name = Some m" "omGen m = g" by auto
    have ok: "armings_ok (outstanding t) (mtGen t) (bounds t) False rs" using assms m by (simp add: marks_inv_split)
    have "armings_ok ((outstanding t)(name := None)) (mtGen t) (bounds ?t) False (rs @ [Expired name g])"
      using m armings_bound [OF ok] by (intro armings_resolve [OF ok, of name m]) auto
    with expire_Some [OF m] aw m show ?thesis by (simp add: marks_inv_split)
  next
    case False
    then have ex: "snd (expire name g ?t) = ?t" "resolves (Expire name g) t = []"
      by (auto simp: expire_def split: option.split)
    have "armings_ok (outstanding t) (mtGen t) (bounds ?t) (mtStopped t) rs"
    proof (rule armings_mono)
      show ok: "armings_ok (outstanding t) (mtGen t) (bounds t) (mtStopped t) rs" using assms by (simp add: marks_inv_split)
      show "(n, omGen m) \<in> bounds ?t" if "outstanding t n = Some m" for n m
      proof (cases "mtStopped t")
        case True
        with ok armings_stopped that show ?thesis by fastforce
      next
        case unstopped: False
        with armings_bound [OF ok that] that False show ?thesis by auto
      qed
    qed auto
    with ex aw show ?thesis by (simp add: marks_inv_split)
  qed
qed

lemma inv_stop: "marks_inv t rs \<Longrightarrow> marks_inv (mt_stop t) rs"
proof -
  assume inv: "marks_inv t rs"
  let ?t = "snd (resolveAwaitLocked '''' (t\<lparr>mtStopped := True\<rparr>))"
  have "(\<forall>c < awaitsMade t. c \<in> set (awaitsClosed t) \<or> awaitCh t = Some c)" using inv by (simp add: marks_inv_def)
  then have "\<forall>c < awaitsMade ?t. c \<in> set (awaitsClosed ?t)"
    by (auto simp: resolveAwaitLocked_def split: option.splits)
  with inv resolveAwait_any [of "t\<lparr>mtStopped := True\<rparr>"] show ?thesis
    by (auto simp: mt_stop_def marks_inv_def Let_def)
qed

lemma inv_mark_step:
  assumes "marks_inv t rs" "mark_step op t = Some t'"
  shows "marks_inv t' (rs @ resolves op t)"
proof (cases op)
  case (Await name)
  let ?u = "snd (await name t)"
  have "outstanding ?u = outstanding t \<and> mtGen ?u = mtGen t \<and> boundPending ?u = boundPending t \<and> boundFiring ?u = boundFiring t \<and> mtStopped ?u = mtStopped t"
    by (simp add: await_def Let_def)
  with assms Await awaits_await [of t name] show ?thesis by (simp add: marks_inv_split)
next
  case (ArmPlayout name g)
  with assms inv_armLocked [of "t\<lparr>playoutArmed := True\<rparr>" rs name "Some g"] show ?thesis
    by (simp add: armPlayout_def marks_inv_def)
next
  case (BoundFires name g)
  with assms have t': "t' = t\<lparr>boundPending := filter (\<lambda>b. b \<noteq> (name, g)) (boundPending t), boundFiring := boundFiring t @ [(name, g)]\<rparr>"
    "(name, g) \<in> set (boundPending t)" by (simp_all split: if_splits)
  then have "bounds t' = bounds t" by auto
  with assms BoundFires t' show ?thesis by (simp add: marks_inv_split awaits_ok_def)
next
  case (Expire name g)
  with assms inv_expire [of t rs name g] show ?thesis by (simp split: if_splits)
next
  case ConsumeEcho
  with assms obtain ch where "t' = t\<lparr>echoCh := Some ch\<rparr>" by (auto split: option.splits)
  with assms ConsumeEcho show ?thesis by (simp add: marks_inv_split awaits_ok_def)
next
  case (Echo name)
  with assms inv_echo [of t rs name] show ?thesis by (simp del: resolves.simps)
next
  case (Arm name)
  with assms inv_armLocked [of t rs name None] show ?thesis by (simp add: mt_arm_def)
next
  case StopMarks
  with assms inv_stop [of t rs] show ?thesis by simp
qed

lemma reach_marks_inv: "mark_reach t rs \<Longrightarrow> marks_inv t rs"
proof (induction rule: mark_reach.induct)
  case (mark_init ch b)
  show ?case by (simp add: marks_inv_def newMarkTracker_def)
qed (rule inv_mark_step)

section \<open>The clock as a player\<close>

text \<open>
  A carrier that plays in real time: the audio it still holds and when that was last looked at.  Every
  operation first lets the time since then play out.
\<close>

datatype play_op = Fed int int | Flush int

fun op_time :: "play_op \<Rightarrow> int" where
  "op_time (Fed n now) = now" | "op_time (Flush now) = now"

definition left_at :: "int \<Rightarrow> int \<times> int \<Rightarrow> int" where
  "left_at now p = (case p of (held, seen) \<Rightarrow> max 0 (held - (now - seen)))"

fun player_op :: "play_op \<Rightarrow> int \<times> int \<Rightarrow> int \<times> int" where
  "player_op (Fed n now) p = (left_at now p + MuLawDuration n, now)"
| "player_op (Flush now) p = (0, now)"

fun clock_op :: "play_op \<Rightarrow> int \<Rightarrow> int" where
  "clock_op (Fed n now) through = clock_fed n now through"
| "clock_op (Flush now) through = clock_flush now through"

lemma clock_simulates_player:
  assumes "sorted (l # map op_time ops)" "last (l # map op_time ops) \<le> now"
    "\<And>t. l \<le> t \<Longrightarrow> clock_outstanding t through = left_at t (held, l)"
  shows "clock_outstanding now (fold clock_op ops through) = left_at now (fold player_op ops (held, l))"
  using assms
proof (induction ops arbitrary: l held through)
  case (Cons op ops)
  obtain held' where p: "player_op op (held, l) = (held', op_time op)" by (cases op) auto
  have "clock_outstanding t (clock_op op through) = left_at t (held', op_time op)" if "op_time op \<le> t" for t
    using that p Cons.prems(3) [of "op_time op"] Cons.prems(1)
    by (cases op) (auto simp: clock_outstanding_def clock_fed_def clock_flush_def left_at_def Let_def max_def split: if_splits)
  from Cons.IH [OF _ _ this] Cons.prems p show ?case by simp
qed simp

section \<open>Properties\<close>

text \<open>C4: every mark resolves once and no one waits for ever.  After any history, each arming has been
  resolved at most once, whether by echo or by bound; every mark still outstanding has its own bound
  running or about to act; a bound that belongs to an older arming of a name changes nothing; every
  channel the engine waited on is closed unless it is the current one; and a stopped tracker holds no
  mark and no waiter.\<close>

theorem marks_resolve_once:
  assumes "mark_reach t rs"
  shows "distinct (map res_gen rs) \<and>
    (\<forall>n m. outstanding t n = Some m \<longrightarrow> (n, omGen m) \<in> bounds t) \<and>
    (\<forall>n m g. outstanding t n = Some m \<and> g \<noteq> omGen m \<longrightarrow> expire n g t = ([], t)) \<and>
    (\<forall>c < awaitsMade t. c \<in> set (awaitsClosed t) \<or> awaitCh t = Some c) \<and>
    (mtStopped t \<longrightarrow> outstanding t = Map.empty \<and> awaitCh t = None)"
  using reach_marks_inv [OF assms] by (auto simp: marks_inv_def expire_def)

theorem marks_resolve_once_witness:
  "\<exists>t rs. mark_reach t rs \<and> rs = [Echoed ''a'' 2] \<and> distinct (map res_gen rs)"
proof -
  let ?t0 = "newMarkTracker None True"
  let ?t1 = "mt_arm ''a'' ?t0"
  let ?t2 = "mt_arm ''a'' ?t1"
  have 1: "mark_reach ?t1 ([] @ resolves (Arm ''a'') ?t0)" by (rule mark_next [OF mark_init]) simp
  have 2: "mark_reach ?t2 (([] @ resolves (Arm ''a'') ?t0) @ resolves (Arm ''a'') ?t1)" by (rule mark_next [OF 1]) simp
  have 3: "mark_reach (snd (echo ''a'' ?t2)) ((([] @ resolves (Arm ''a'') ?t0) @ resolves (Arm ''a'') ?t1) @ resolves (Echo ''a'') ?t2)"
    by (rule mark_next [OF 2]) simp
  have "resolves (Echo ''a'') ?t2 = [Echoed ''a'' 2]"
    by (simp add: mt_arm_def armLocked_def newMarkTracker_def stopBound_def Let_def)
  with 3 marks_resolve_once [OF 3] show ?thesis by auto
qed

text \<open>C20: the playout clock is a real-time player.  Over any sequence of writes and clears in time
  order, the audio the single instant \<open>through\<close> says is still to be heard is what a player that consumes
  8000 bytes a second, empties itself on a clear and never owes negative time would still hold.\<close>

theorem playout_clock_refines:
  assumes "sorted (t0 # map op_time ops)" "last (t0 # map op_time ops) \<le> now"
  shows "clock_outstanding now (fold clock_op ops t0) = left_at now (fold player_op ops (0, t0))"
  by (rule clock_simulates_player [OF assms]) (simp add: clock_outstanding_def left_at_def)

theorem playout_clock_refines_witness:
  "clock_outstanding 30000000 (fold clock_op [Fed 160 0, Fed 160 10000000] 0) = 10000000"
proof -
  have "left_at 30000000 (fold player_op [Fed 160 0, Fed 160 10000000] (0, 0)) = 10000000"
    by (simp add: left_at_def MuLawDuration_def second_def SampleRateHz_def signed_divide_int_def)
  then show ?thesis
    using playout_clock_refines [of 0 "[Fed 160 0, Fed 160 10000000]" 30000000] by simp
qed

end
