(* ===== verification/CallerSilence.thy ===== *)
theory CallerSilence
  imports Marks
begin

text \<open>
  The caller-silence bound of the realtime relay (\<open>telephony/twilio/realtime_callersilence.go\<close>).

  The count is a \<open>time.AfterFunc\<close>; as in the mark tracker it is armed or already running its function
  (\<open>csArmed\<close>, \<open>csFiring\<close>, by generation).  The two one-slot channels are the flags \<open>dueCh\<close> and \<open>firedCh\<close>.
\<close>

section \<open>State\<close>

record callerSilence =
  csAfter :: duration
  dueCh :: bool
  firedCh :: bool
  csStarts :: nat
  csHeard :: nat
  wantHeard :: nat
  csGen :: nat
  csSeq :: nat
  csSpeaking :: bool
  csAudio :: bool
  csPending :: bool
  csWant :: bool
  csRunning :: bool
  csDue :: bool
  csStopped :: bool
  csTimer :: "nat option"
  csArmed :: "nat list"
  csFiring :: "nat list"

definition newCallerSilence :: "duration \<Rightarrow> callerSilence option" where
  "newCallerSilence after =
     (if after \<le> 0 then None
      else Some \<lparr>csAfter = after, dueCh = False, firedCh = False, csStarts = 0, csHeard = 0, wantHeard = 0, csGen = 0, csSeq = 0,
             csSpeaking = False, csAudio = False, csPending = False, csWant = False, csRunning = False, csDue = False,
             csStopped = False, csTimer = None, csArmed = [], csFiring = []\<rparr>)"

section \<open>Operations\<close>

definition stopTimerLocked :: "callerSilence \<Rightarrow> callerSilence" where
  "stopTimerLocked s =
     (let s = (case csTimer s of None \<Rightarrow> s | Some g \<Rightarrow> s\<lparr>csArmed := remove1 g (csArmed s), csTimer := None\<rparr>)
      in s\<lparr>csRunning := False, csDue := False\<rparr>)"

definition callerSpoke :: "callerSilence \<Rightarrow> callerSilence" where
  "callerSpoke s = stopTimerLocked (s\<lparr>csStarts := csStarts s + 1, csAudio := False, csGen := csGen s + 1\<rparr>)"

definition agentAudio :: "callerSilence \<Rightarrow> callerSilence" where
  "agentAudio s = stopTimerLocked (s\<lparr>csAudio := True, csGen := csGen s + 1\<rparr>)"

definition silence_observe :: "ServerEvent \<Rightarrow> callerSilence \<Rightarrow> callerSilence" where
  "silence_observe ev s =
     (if seType ev = EventSpeechStarted \<or> seType ev = EventTurnResumed
      then s\<lparr>csHeard := csHeard s + 1, csSpeaking := True\<rparr>
      else if seType ev = EventSpeechStopped then s\<lparr>csSpeaking := False\<rparr>
      else if seType ev = EventResponseDone then
        (if ResponseEndedInFunctionCall (seRaw ev)
         then stopTimerLocked (s\<lparr>csPending := True, csWant := False\<rparr>)
         else
           (let s = s\<lparr>csPending := False\<rparr> in
            if csSpeaking s then s
            else s\<lparr>csWant := True, wantHeard := csHeard s, dueCh := True\<rparr>))
      else s)"

definition takeRequest :: "callerSilence \<Rightarrow> nat option \<times> callerSilence" where
  "takeRequest s =
     (if \<not> csWant s \<or> csStopped s then (None, s) else (Some (wantHeard s), s\<lparr>csWant := False\<rparr>))"

definition nextMarkName :: "string \<Rightarrow> callerSilence \<Rightarrow> string \<times> callerSilence" where
  "nextMarkName streamSID s =
     (let s = s\<lparr>csSeq := csSeq s + 1\<rparr>
      in (realtimePlayoutMarkPrefix @ streamSID @ ''-'' @ nat_dec (csSeq s), s))"

definition claim :: "nat \<Rightarrow> callerSilence \<Rightarrow> nat option \<times> callerSilence" where
  "claim tag s =
     (if csStopped s \<or> csStarts s \<noteq> tag \<or> \<not> csAudio s then (None, s)
      else (Some (csGen s), s\<lparr>csAudio := False\<rparr>))"

definition played :: "nat \<Rightarrow> callerSilence \<Rightarrow> callerSilence" where
  "played gen s =
     (if csStopped s \<or> gen \<noteq> csGen s \<or> csPending s \<or> csRunning s then s
      else s\<lparr>csRunning := True, csDue := False, csTimer := Some gen, csArmed := csArmed s @ [gen]\<rparr>)"

definition fire :: "nat \<Rightarrow> callerSilence \<Rightarrow> callerSilence" where
  "fire gen s =
     (if csStopped s \<or> gen \<noteq> csGen s \<or> \<not> csRunning s then s
      else s\<lparr>csRunning := False, csTimer := None, csDue := True, firedCh := True\<rparr>)"

definition silence_end :: "callerSilence \<Rightarrow> bool \<times> callerSilence" where
  "silence_end s =
     (if csStopped s \<or> \<not> csDue s then (False, s) else (True, stopTimerLocked (s\<lparr>csStopped := True\<rparr>)))"

definition silence_stop :: "callerSilence \<Rightarrow> callerSilence" where
  "silence_stop s = stopTimerLocked (s\<lparr>csStopped := True\<rparr>)"

section \<open>Histories\<close>

datatype cs_event = Spoke | AgentAudio | Observed ServerEvent | TookRequest | Claimed nat nat | Refused nat
  | Played nat | CountElapses nat | Fired nat | EndTried bool | Stopped | NamedMark | TookDue | TookFired

fun cs_step :: "cs_event \<Rightarrow> callerSilence \<Rightarrow> callerSilence option" where
  "cs_step Spoke s = Some (callerSpoke s)"
| "cs_step AgentAudio s = Some (agentAudio s)"
| "cs_step (Observed ev) s = Some (silence_observe ev s)"
| "cs_step TookRequest s = Some (snd (takeRequest s))"
| "cs_step (Claimed tag g) s = (case claim tag s of (Some h, s') \<Rightarrow> if h = g then Some s' else None | _ \<Rightarrow> None)"
| "cs_step (Refused tag) s = (case claim tag s of (None, s') \<Rightarrow> Some s' | _ \<Rightarrow> None)"
| "cs_step (Played g) s = Some (played g s)"
| "cs_step (CountElapses g) s =
     (if g \<in> set (csArmed s) then Some (s\<lparr>csArmed := remove1 g (csArmed s), csFiring := csFiring s @ [g]\<rparr>) else None)"
| "cs_step (Fired g) s =
     (if g \<in> set (csFiring s) then Some (fire g (s\<lparr>csFiring := remove1 g (csFiring s)\<rparr>)) else None)"
| "cs_step (EndTried ok) s = (case silence_end s of (b, s') \<Rightarrow> if b = ok then Some s' else None)"
| "cs_step Stopped s = Some (silence_stop s)"
| "cs_step NamedMark s = Some (s\<lparr>csSeq := csSeq s + 1\<rparr>)"
| "cs_step TookDue s = (if dueCh s then Some (s\<lparr>dueCh := False\<rparr>) else None)"
| "cs_step TookFired s = (if firedCh s then Some (s\<lparr>firedCh := False\<rparr>) else None)"

text \<open>The mark tracker calls back only for marks it was armed with, and those carry claimed generations.\<close>

definition cs_allowed :: "cs_event \<Rightarrow> cs_event list \<Rightarrow> bool" where
  "cs_allowed e hist = (case e of Played g \<Rightarrow> (\<exists>tag. Claimed tag g \<in> set hist) | _ \<Rightarrow> True)"

inductive cs_reach :: "callerSilence \<Rightarrow> cs_event list \<Rightarrow> bool" where
  cs_init: "newCallerSilence after = Some s \<Longrightarrow> cs_reach s []"
| cs_next: "cs_reach s hist \<Longrightarrow> cs_allowed e hist \<Longrightarrow> cs_step e s = Some s' \<Longrightarrow> cs_reach s' (hist @ [e])"

section \<open>What the history shows\<close>

definition toolDone :: "cs_event \<Rightarrow> bool" where
  "toolDone e = (case e of Observed ev \<Rightarrow> seType ev = EventResponseDone \<and> ResponseEndedInFunctionCall (seRaw ev) | _ \<Rightarrow> False)"

definition lively :: "cs_event \<Rightarrow> bool" where
  "lively e \<longleftrightarrow> e = Spoke \<or> e = AgentAudio"

text \<open>The caller has been silent since agent audio was written.\<close>

definition unanswered :: "cs_event list \<Rightarrow> bool" where
  "unanswered hist \<longleftrightarrow> (\<exists>p q. hist = p @ AgentAudio # q \<and> Spoke \<notin> set q)"

text \<open>The count was started by a mark of generation \<open>g\<close> and nothing has stopped it.\<close>

definition counting :: "nat \<Rightarrow> bool \<Rightarrow> cs_event list \<Rightarrow> bool" where
  "counting g elapsed hist \<longleftrightarrow> (\<exists>p q tag. hist = p @ Played g # q \<and> Claimed tag g \<in> set p \<and>
     (\<forall>e \<in> set q. \<not> lively e \<and> \<not> toolDone e) \<and> (elapsed \<longrightarrow> Fired g \<in> set q))"

definition silence_inv :: "callerSilence \<Rightarrow> cs_event list \<Rightarrow> bool" where
  "silence_inv s hist \<longleftrightarrow>
     (\<forall>p tag g q. hist = p @ Claimed tag g # q \<longrightarrow> g \<le> csGen s \<and> unanswered p \<and> (g = csGen s \<longrightarrow> (\<forall>e \<in> set q. \<not> lively e))) \<and>
     (csAudio s \<longrightarrow> unanswered hist) \<and>
     (csRunning s \<or> csDue s \<longrightarrow> counting (csGen s) (csDue s) hist) \<and> (csDue s \<longrightarrow> \<not> csRunning s)"

lemma stopTimer_frame [simp]:
  "csGen (stopTimerLocked s) = csGen s" "csAudio (stopTimerLocked s) = csAudio s" "\<not> csRunning (stopTimerLocked s)"
  "\<not> csDue (stopTimerLocked s)" "csStopped (stopTimerLocked s) = csStopped s"
  by (simp_all add: stopTimerLocked_def Let_def split: option.split)

lemma snoc_decomp: "hist @ [e] = p @ x # q \<longleftrightarrow> (q = [] \<and> p = hist \<and> x = e) \<or> (\<exists>q'. q = q' @ [e] \<and> hist = p @ x # q')"
  by (cases q rule: rev_cases) auto

lemma unanswered_snoc: "unanswered hist \<Longrightarrow> e \<noteq> Spoke \<Longrightarrow> unanswered (hist @ [e])"
  unfolding unanswered_def by (metis Un_iff append.assoc append_Cons list.set(1) list.set(2) set_append singletonD)

lemma unanswered_audio: "unanswered (hist @ [AgentAudio])"
  unfolding unanswered_def by (intro exI [of _ hist] exI [of _ "[]"]) simp

lemma counting_snoc: "counting g el hist \<Longrightarrow> \<not> lively e \<Longrightarrow> \<not> toolDone e \<Longrightarrow> (el' \<longrightarrow> el \<or> e = Fired g) \<Longrightarrow> counting g el' (hist @ [e])"
proof -
  assume "counting g el hist" and e: "\<not> lively e" "\<not> toolDone e" "el' \<longrightarrow> el \<or> e = Fired g"
  then obtain p q tag where h: "hist = p @ Played g # q" "Claimed tag g \<in> set p" "\<forall>e \<in> set q. \<not> lively e \<and> \<not> toolDone e"
    "el \<longrightarrow> Fired g \<in> set q" unfolding counting_def by blast
  then show ?thesis
    unfolding counting_def using e by (intro exI [of _ p] exI [of _ "q @ [e]"] exI [of _ tag]) auto
qed

lemma counting_played: "Claimed tag g \<in> set hist \<Longrightarrow> counting g False (hist @ [Played g])"
  unfolding counting_def by (intro exI [of _ hist] exI [of _ "[]"] exI [of _ tag]) simp

text \<open>An event that is neither speech nor agent audio nor a claim.\<close>

lemma inv_quiet:
  assumes inv: "silence_inv s hist" and e: "\<not> lively e" "\<And>tag g. e \<noteq> Claimed tag g"
    and gen: "csGen s' = csGen s" and au: "csAudio s' \<longrightarrow> csAudio s"
    and co: "csRunning s' \<or> csDue s' \<longrightarrow> counting (csGen s) (csDue s') (hist @ [e])" and du: "csDue s' \<longrightarrow> \<not> csRunning s'"
  shows "silence_inv s' (hist @ [e])"
  unfolding silence_inv_def
proof (intro conjI allI impI)
  fix p tag g q assume "hist @ [e] = p @ Claimed tag g # q"
  with e(2) obtain q' where q: "q = q' @ [e]" "hist = p @ Claimed tag g # q'" by (auto simp: snoc_decomp)
  with inv have c: "g \<le> csGen s" "unanswered p" "g = csGen s \<longrightarrow> (\<forall>e \<in> set q'. \<not> lively e)" by (auto simp: silence_inv_def)
  then show "g \<le> csGen s'" "unanswered p" using gen by simp_all
  show "\<forall>e \<in> set q. \<not> lively e" if "g = csGen s'" using that c gen e(1) q by auto
next
  show "unanswered (hist @ [e])" if "csAudio s'"
    using that inv au e(1) by (auto simp: silence_inv_def lively_def intro: unanswered_snoc)
qed (use co du gen in auto)

text \<open>Speech and agent audio void every mark and every count.\<close>

lemma inv_lively:
  assumes inv: "silence_inv s hist" and e: "lively e" and gen: "csGen s' = csGen s + 1"
    and no: "\<not> csRunning s'" "\<not> csDue s'" and au: "csAudio s' \<longrightarrow> e = AgentAudio"
  shows "silence_inv s' (hist @ [e])"
  unfolding silence_inv_def
proof (intro conjI allI impI)
  fix p tag g q assume "hist @ [e] = p @ Claimed tag g # q"
  with e obtain q' where q: "q = q' @ [e]" "hist = p @ Claimed tag g # q'" by (auto simp: snoc_decomp lively_def)
  with inv have c: "g \<le> csGen s" "unanswered p" by (auto simp: silence_inv_def)
  then show "g \<le> csGen s'" "unanswered p" using gen by simp_all
  show "\<forall>e \<in> set q. \<not> lively e" if "g = csGen s'" using that c gen by simp
next
  show "unanswered (hist @ [e])" if "csAudio s'" using that au unanswered_audio by auto
qed (use no in auto)

lemma inv_claim:
  "silence_inv s hist \<Longrightarrow> hist = p @ Claimed tag g # q \<Longrightarrow>
   g \<le> csGen s \<and> unanswered p \<and> (g = csGen s \<longrightarrow> (\<forall>e \<in> set q. \<not> lively e))"
  unfolding silence_inv_def by blast

lemma inv_claimed:
  assumes inv: "silence_inv s hist" and a: "csAudio s"
  shows "silence_inv (s\<lparr>csAudio := False\<rparr>) (hist @ [Claimed tag (csGen s)])"
proof -
  have cl: "g \<le> csGen s \<and> unanswered p \<and> (g = csGen s \<longrightarrow> (\<forall>e \<in> set q. \<not> lively e))"
    if d: "hist @ [Claimed tag (csGen s)] = p @ Claimed tag' g # q" for p tag' g q
  proof (cases q rule: rev_cases)
    case Nil
    with d inv a show ?thesis by (simp add: silence_inv_def)
  next
    case (snoc q' e)
    with d have "hist = p @ Claimed tag' g # q'" and e: "e = Claimed tag (csGen s)" by simp_all
    with inv_claim [OF inv] show ?thesis using snoc by (simp add: lively_def)
  qed
  have co: "counting (csGen s) (csDue s) (hist @ [Claimed tag (csGen s)])" if "csRunning s \<or> csDue s"
    by (rule counting_snoc [of _ "csDue s"]) (use that inv in \<open>simp_all add: silence_inv_def lively_def toolDone_def\<close>)
  have "csDue s \<longrightarrow> \<not> csRunning s" using inv by (simp add: silence_inv_def)
  with cl co show ?thesis unfolding silence_inv_def by simp
qed

lemma inv_counting_step:
  assumes "silence_inv s hist" "\<not> lively e" "\<not> toolDone e" "\<And>tag g. e \<noteq> Claimed tag g" "csGen s' = csGen s" "csAudio s' = csAudio s"
    "csRunning s' = csRunning s" "csDue s' = csDue s"
  shows "silence_inv s' (hist @ [e])"
  by (rule inv_quiet [OF assms(1,2,4,5)]) (use assms in \<open>auto simp: silence_inv_def intro: counting_snoc\<close>)

lemma inv_stopped_step:
  assumes "silence_inv s hist" "\<not> lively e" "\<And>tag g. e \<noteq> Claimed tag g" "csGen s' = csGen s" "csAudio s' = csAudio s"
    "\<not> csRunning s'" "\<not> csDue s'"
  shows "silence_inv s' (hist @ [e])"
  by (rule inv_quiet [OF assms(1-4)]) (use assms in auto)

lemma inv_cs_step:
  assumes inv: "silence_inv s hist" and al: "cs_allowed e hist" and st: "cs_step e s = Some s'"
  shows "silence_inv s' (hist @ [e])"
proof (cases e)
  case Spoke
  show ?thesis by (rule inv_lively [OF inv]) (use Spoke st in \<open>auto simp: callerSpoke_def lively_def\<close>)
next
  case AgentAudio
  show ?thesis by (rule inv_lively [OF inv]) (use AgentAudio st in \<open>auto simp: agentAudio_def lively_def\<close>)
next
  case (Observed ev)
  show ?thesis
  proof (cases "toolDone e")
    case True
    show ?thesis
      by (rule inv_stopped_step [OF inv]) (use True Observed st in \<open>auto simp: silence_observe_def toolDone_def lively_def\<close>)
  next
    case False
    show ?thesis
      by (rule inv_counting_step [OF inv]) (use False Observed st in \<open>auto simp: silence_observe_def toolDone_def lively_def Let_def split: if_splits\<close>)
  qed
next
  case (Claimed tag g)
  with st have "csAudio s" "s' = s\<lparr>csAudio := False\<rparr>" "g = csGen s" by (auto simp: claim_def split: if_splits)
  with Claimed inv_claimed [OF inv] show ?thesis by simp
next
  case (Played g)
  then obtain tag where tag: "Claimed tag g \<in> set hist" using al by (auto simp: cs_allowed_def)
  show ?thesis
  proof (cases "csStopped s \<or> g \<noteq> csGen s \<or> csPending s \<or> csRunning s")
    case True
    show ?thesis by (rule inv_counting_step [OF inv]) (use True Played st in \<open>auto simp: played_def lively_def toolDone_def\<close>)
  next
    case False
    show ?thesis
      by (rule inv_quiet [OF inv]) (use False Played st counting_played [OF tag] in \<open>auto simp: played_def lively_def\<close>)
  qed
next
  case (Fired g)
  let ?s = "s\<lparr>csFiring := remove1 g (csFiring s)\<rparr>"
  show ?thesis
  proof (cases "csStopped s \<or> g \<noteq> csGen s \<or> \<not> csRunning s")
    case True
    show ?thesis by (rule inv_counting_step [OF inv]) (use True Fired st in \<open>auto simp: fire_def lively_def toolDone_def split: if_splits\<close>)
  next
    case False
    with inv have "counting g (csDue s) hist" by (auto simp: silence_inv_def)
    then have "counting g True (hist @ [Fired g])" by (rule counting_snoc) (auto simp: lively_def toolDone_def)
    show ?thesis
      by (rule inv_quiet [OF inv]) (use \<open>counting g True (hist @ [Fired g])\<close> False Fired st in \<open>auto simp: fire_def lively_def split: if_splits\<close>)
  qed
next
  case (EndTried ok)
  show ?thesis
  proof (cases "csStopped s \<or> \<not> csDue s")
    case True
    show ?thesis by (rule inv_counting_step [OF inv]) (use True EndTried st in \<open>auto simp: silence_end_def lively_def toolDone_def split: if_splits\<close>)
  next
    case False
    show ?thesis by (rule inv_stopped_step [OF inv]) (use False EndTried st in \<open>auto simp: silence_end_def lively_def split: if_splits\<close>)
  qed
next
  case Stopped
  show ?thesis by (rule inv_stopped_step [OF inv]) (use Stopped st in \<open>auto simp: silence_stop_def lively_def\<close>)
next
  case TookRequest
  show ?thesis by (rule inv_counting_step [OF inv]) (use TookRequest st in \<open>auto simp: takeRequest_def lively_def toolDone_def split: if_splits\<close>)
next
  case (Refused tag)
  show ?thesis by (rule inv_counting_step [OF inv]) (use Refused st in \<open>auto simp: claim_def lively_def toolDone_def split: if_splits\<close>)
next
  case NamedMark
  show ?thesis by (rule inv_counting_step [OF inv]) (use NamedMark st in \<open>auto simp: lively_def toolDone_def\<close>)
next
  case TookDue
  show ?thesis by (rule inv_counting_step [OF inv]) (use TookDue st in \<open>auto simp: lively_def toolDone_def split: if_splits\<close>)
next
  case TookFired
  show ?thesis by (rule inv_counting_step [OF inv]) (use TookFired st in \<open>auto simp: lively_def toolDone_def split: if_splits\<close>)
next
  case (CountElapses g)
  show ?thesis by (rule inv_counting_step [OF inv]) (use CountElapses st in \<open>auto simp: lively_def toolDone_def split: if_splits\<close>)
qed

lemma reach_silence_inv: "cs_reach s hist \<Longrightarrow> silence_inv s hist"
proof (induction rule: cs_reach.induct)
  case (cs_init after s)
  then show ?case by (auto simp: newCallerSilence_def silence_inv_def split: if_splits)
qed (rule inv_cs_step)

section \<open>Properties\<close>

text \<open>A caller is hung up on only after a silence of their own.  Whenever the bound ends a call,
  agent audio had reached the carrier with no caller speech after it, a playout mark was claimed behind
  it, that very mark was reported played, the count it started ran out, and between the claim and the
  hang-up neither the caller spoke nor more agent audio was written, nor did a tool call announce a
  reply after the count began.\<close>

theorem silence_end_justified:
  assumes "cs_reach s hist" "fst (silence_end s)"
  shows "\<exists>a tag g b c. hist = a @ [Claimed tag g] @ b @ [Played g] @ c \<and> Fired g \<in> set c \<and>
    (\<exists>p q. a = p @ AgentAudio # q \<and> Spoke \<notin> set q) \<and>
    Spoke \<notin> set b \<union> set c \<and> AgentAudio \<notin> set b \<union> set c \<and> (\<forall>e \<in> set c. \<not> toolDone e)"
proof -
  have inv: "silence_inv s hist" using reach_silence_inv [OF assms(1)] .
  have "csDue s" using assms(2) by (auto simp: silence_end_def split: if_splits)
  with inv obtain p q tag where h: "hist = p @ Played (csGen s) # q" "Claimed tag (csGen s) \<in> set p"
      "\<forall>e \<in> set q. \<not> lively e \<and> \<not> toolDone e" "Fired (csGen s) \<in> set q"
    unfolding silence_inv_def counting_def by blast
  then obtain a b where p: "p = a @ Claimed tag (csGen s) # b" by (meson split_list)
  with h have hist: "hist = a @ Claimed tag (csGen s) # (b @ Played (csGen s) # q)" by simp
  from inv_claim [OF inv hist] have "unanswered a" "\<forall>e \<in> set (b @ Played (csGen s) # q). \<not> lively e" by simp_all
  then have "\<exists>p q. a = p @ AgentAudio # q \<and> Spoke \<notin> set q" "Spoke \<notin> set b \<union> set q" "AgentAudio \<notin> set b \<union> set q"
    unfolding unanswered_def lively_def by auto
  moreover have "hist = a @ [Claimed tag (csGen s)] @ b @ [Played (csGen s)] @ q" using hist by simp
  ultimately show ?thesis using h(3,4) by blast
qed

text \<open>A run that ends on the bound: audio, its mark claimed and played, the count run out.\<close>

lemma bound_run:
  fixes s :: callerSilence
  assumes "newCallerSilence 5 = Some s"
  defines "t \<equiv> s\<lparr>csGen := 1\<rparr>"
  shows "cs_step AgentAudio s = Some (t\<lparr>csAudio := True\<rparr>)"
    "cs_step (Claimed 0 1) (t\<lparr>csAudio := True\<rparr>) = Some t"
    "cs_step (Played 1) t = Some (t\<lparr>csRunning := True, csTimer := Some 1, csArmed := [1]\<rparr>)"
    "cs_step (CountElapses 1) (t\<lparr>csRunning := True, csTimer := Some 1, csArmed := [1]\<rparr>)
       = Some (t\<lparr>csRunning := True, csTimer := Some 1, csFiring := [1]\<rparr>)"
    "cs_step (Fired 1) (t\<lparr>csRunning := True, csTimer := Some 1, csFiring := [1]\<rparr>) = Some (t\<lparr>csDue := True, firedCh := True\<rparr>)"
    "fst (silence_end (t\<lparr>csDue := True, firedCh := True\<rparr>))"
  using assms(1) unfolding t_def newCallerSilence_def
  by (auto simp: agentAudio_def stopTimerLocked_def claim_def played_def fire_def silence_end_def)

theorem silence_end_justified_witness:
  "\<exists>s hist. cs_reach s hist \<and> fst (silence_end s) \<and> Spoke \<notin> set hist \<and> Fired 1 \<in> set hist"
proof -
  obtain s where n: "newCallerSilence 5 = Some s" by (simp add: newCallerSilence_def)
  note run = bound_run [OF n]
  have r1: "cs_reach (s\<lparr>csGen := 1, csAudio := True\<rparr>) ([] @ [AgentAudio])"
    by (rule cs_next [OF cs_init [OF n] _ run(1)]) (simp add: cs_allowed_def)
  have r2: "cs_reach (s\<lparr>csGen := 1\<rparr>) (([] @ [AgentAudio]) @ [Claimed 0 1])"
    by (rule cs_next [OF r1 _ run(2)]) (simp add: cs_allowed_def)
  note r3 = cs_next [OF r2 _ run(3)] and r4 = cs_next [OF _ _ run(4)] and r5 = cs_next [OF _ _ run(5)]
  have r: "cs_reach (s\<lparr>csGen := 1, csDue := True, firedCh := True\<rparr>)
      ((((([] @ [AgentAudio]) @ [Claimed 0 1]) @ [Played 1]) @ [CountElapses 1]) @ [Fired 1])"
    by (rule r5, rule r4, rule r3) (auto simp: cs_allowed_def)
  from silence_end_justified [OF r run(6)] r run(6) show ?thesis
    by (intro exI conjI) (assumption | simp)+
qed

end
