(* ===== verification/Sink.thy ===== *)
theory Sink
  imports Filler CallerSilence
begin

text \<open>
  The carrier-facing side of the realtime relay: \<open>carrierMediaSink\<close> of \<open>telephony/twilio/realtime.go\<close>.

  A carrier message is what is written on the socket; two of its constructors also carry a number the
  wire does not show: a filler frame the episode it belongs to, a clear the filler's generation once the
  loop was stopped for it.  A write holds the slot \<open>writeSem\<close> through three steps (build, write, bookkeeping),
  so everything that does not need the slot can happen in between.  The log \<open>silenceLog\<close> lists the calls the
  caller-silence bound received, \<open>markBounds\<close> the bounds the marks were armed with.
\<close>

section \<open>Messages\<close>

record CarrierAudio =
  caPayload :: string
  caClear :: bool
  caFiller :: bool
  caFarewell :: bool

datatype carrier_msg = MsgBackend string | MsgFiller nat string | MsgFarewell string | MsgClear nat | MsgMark string

fun carrier_json :: "string \<Rightarrow> carrier_msg \<Rightarrow> json" where
  "carrier_json sid (MsgBackend p) = EncodeMediaB64 sid p"
| "carrier_json sid (MsgFiller g p) = EncodeMediaB64 sid p"
| "carrier_json sid (MsgFarewell p) = EncodeMediaB64 sid p"
| "carrier_json sid (MsgClear k) = EncodeClear sid"
| "carrier_json sid (MsgMark n) = EncodeMark sid n"

section \<open>The sink\<close>

datatype job = JMedia string | JFarewell string | JFiller nat | JClear nat | JMark string | JPlayout string nat

datatype stage = Building | Ready carrier_msg "nat option" | Sent carrier_msg "nat option"

datatype writer = WRead | WSelect | WPlayer nat

record carrierMediaSink =
  streamSID :: string
  carrierAudioCh :: "CarrierAudio bufferedChan option"
  carrierAudioDropped :: int
  writeSem :: "(writer \<times> job \<times> stage) option"
  playout :: int
  marks :: "markTracker option"
  farewelling :: bool
  fill :: "filler option"
  silence :: "callerSilence option"
  wire :: "carrier_msg list"
  markBounds :: "(string \<times> duration) list"
  silenceLog :: "cs_event list"

definition newCarrierMediaSink ::
  "string \<Rightarrow> CarrierAudio bufferedChan option \<Rightarrow> markTracker option \<Rightarrow> filler option \<Rightarrow> callerSilence option \<Rightarrow> carrierMediaSink" where
  "newCarrierMediaSink sid ch mt f cs =
     \<lparr>streamSID = sid, carrierAudioCh = ch, carrierAudioDropped = 0, writeSem = None, playout = 0, marks = mt,
      farewelling = False, fill = f, silence = cs, wire = [], markBounds = [], silenceLog = []\<rparr>"

text \<open>A call of the bound, none of which does anything when there is no bound.\<close>

definition silence_do :: "cs_event \<Rightarrow> 'a carrierMediaSink_scheme \<Rightarrow> 'a carrierMediaSink_scheme option" where
  "silence_do e s =
     (case silence s of
        None \<Rightarrow> Some s
      | Some cs \<Rightarrow> map_option (\<lambda>cs'. s\<lparr>silence := Some cs', silenceLog := silenceLog s @ [e]\<rparr>) (cs_step e cs))"

definition fill_stop :: "'a carrierMediaSink_scheme \<Rightarrow> bool \<times> 'a carrierMediaSink_scheme" where
  "fill_stop s =
     (case fill s of None \<Rightarrow> (False, s) | Some f \<Rightarrow> (case filler_stop f of (b, f') \<Rightarrow> (b, s\<lparr>fill := Some f'\<rparr>)))"

definition fill_do :: "(filler \<Rightarrow> filler) \<Rightarrow> 'a carrierMediaSink_scheme \<Rightarrow> 'a carrierMediaSink_scheme" where
  "fill_do h s = s\<lparr>fill := map_option h (fill s)\<rparr>"

definition marks_do :: "(markTracker \<Rightarrow> markTracker) \<Rightarrow> 'a carrierMediaSink_scheme \<Rightarrow> 'a carrierMediaSink_scheme" where
  "marks_do h s = s\<lparr>marks := map_option h (marks s)\<rparr>"

definition fill_gen :: "'a carrierMediaSink_scheme \<Rightarrow> nat" where
  "fill_gen s = (case fill s of None \<Rightarrow> 0 | Some f \<Rightarrow> fGen f)"

definition deliverCarrierAudio :: "CarrierAudio \<Rightarrow> 'a carrierMediaSink_scheme \<Rightarrow> 'a carrierMediaSink_scheme" where
  "deliverCarrierAudio rec s =
     (case carrierAudioCh s of
        None \<Rightarrow> s
      | Some ch \<Rightarrow> (case sendOrDrop ch rec (carrierAudioDropped s) of
                      (ch', n) \<Rightarrow> s\<lparr>carrierAudioCh := Some ch', carrierAudioDropped := n\<rparr>))"

definition markEchoBound :: "int \<Rightarrow> 'a carrierMediaSink_scheme \<Rightarrow> duration" where
  "markEchoBound now s = clock_outstanding now (playout s) + MarkEchoGraceMS * millisecond"

section \<open>A write\<close>

text \<open>The build callbacks: the decision taken inside the slot.\<close>

definition staticMessage :: "carrier_msg \<Rightarrow> (carrier_msg \<times> nat option) option" where
  "staticMessage m = Some (m, None)"

definition gatedMessage :: "carrier_msg \<Rightarrow> 'a carrierMediaSink_scheme \<Rightarrow> (carrier_msg \<times> nat option) option" where
  "gatedMessage m s = (if farewelling s then None else Some (m, None))"

fun build_job :: "job \<Rightarrow> 'a carrierMediaSink_scheme \<Rightarrow> (carrier_msg \<times> nat option) option \<times> 'a carrierMediaSink_scheme" where
  "build_job (JMedia p) s = (gatedMessage (MsgBackend p) s, s)"
| "build_job (JClear k) s = (gatedMessage (MsgClear k) s, s)"
| "build_job (JFarewell p) s = (staticMessage (MsgFarewell p), s)"
| "build_job (JMark n) s = (staticMessage (MsgMark n), s)"
| "build_job (JPlayout n tag) s =
     (case silence s of
        None \<Rightarrow> (None, s)
      | Some cs \<Rightarrow>
          (case claim tag cs of
             (None, cs') \<Rightarrow> (None, s\<lparr>silence := Some cs', silenceLog := silenceLog s @ [Refused tag]\<rparr>)
           | (Some g, cs') \<Rightarrow> (Some (MsgMark n, Some g), s\<lparr>silence := Some cs', silenceLog := silenceLog s @ [Claimed tag g]\<rparr>)))"
| "build_job (JFiller g) s =
     (case fill s of
        None \<Rightarrow> (None, s)
      | Some f \<Rightarrow> (case nextFrame g f of
                     (None, f') \<Rightarrow> (None, s\<lparr>fill := Some f'\<rparr>)
                   | (Some p, f') \<Rightarrow> (Some (MsgFiller g p, None), s\<lparr>fill := Some f'\<rparr>)))"

text \<open>The bookkeeping that belongs to a write (\<open>afterWrite\<close>), still inside the slot.\<close>

definition account :: "int \<Rightarrow> string \<Rightarrow> CarrierAudio \<Rightarrow> 'a carrierMediaSink_scheme \<Rightarrow> 'a carrierMediaSink_scheme" where
  "account now p rec s = deliverCarrierAudio rec (s\<lparr>playout := clock_fed (muLawBytesInB64 p) now (playout s)\<rparr>)"

definition armMark :: "int \<Rightarrow> string \<Rightarrow> nat option \<Rightarrow> 'a carrierMediaSink_scheme \<Rightarrow> 'a carrierMediaSink_scheme" where
  "armMark now n gen s =
     marks_do (case gen of None \<Rightarrow> mt_arm n | Some g \<Rightarrow> armPlayout n g)
       (s\<lparr>markBounds := markBounds s @ [(n, markEchoBound now s)]\<rparr>)"

fun after_job :: "int \<Rightarrow> carrier_msg \<Rightarrow> nat option \<Rightarrow> 'a carrierMediaSink_scheme \<Rightarrow> 'a carrierMediaSink_scheme option" where
  "after_job now (MsgBackend p) gen s =
     silence_do AgentAudio (account now p \<lparr>caPayload = p, caClear = False, caFiller = False, caFarewell = False\<rparr> s)"
| "after_job now (MsgFarewell p) gen s =
     Some (account now p \<lparr>caPayload = p, caClear = False, caFiller = False, caFarewell = True\<rparr> s)"
| "after_job now (MsgFiller g p) gen s =
     Some (account now p \<lparr>caPayload = p, caClear = False, caFiller = True, caFarewell = False\<rparr> s)"
| "after_job now (MsgClear k) gen s =
     Some (deliverCarrierAudio \<lparr>caPayload = '''', caClear = True, caFiller = False, caFarewell = False\<rparr>
             (s\<lparr>playout := clock_flush now (playout s)\<rparr>))"
| "after_job now (MsgMark n) gen s = Some (armMark now n gen s)"

end
