(* ===== verification/RelayOptions.thy ===== *)
theory RelayOptions
  imports Filler
begin

text \<open>
  The options of the realtime transport and the decisions of its select loop
  (\<open>telephony/twilio/realtime.go\<close>): option resolution, client events, voice updates, the idle guard.

  A consumer's channel is a handle; \<open>None\<close> is the nil channel.  A resolver is a function of the start frame.
\<close>

section \<open>Options\<close>

type_synonym chan = nat

record realtimeConfig =
  idleTimeout :: duration
  callerSilenceTimeout :: duration
  instructionsFor :: "(Frame \<Rightarrow> string) option"
  rtVoice :: string
  rtTools :: string
  sessionIDFor :: "(Frame \<Rightarrow> string) option"
  transcriptChanFor :: "(Frame \<Rightarrow> chan option) option"
  serverEventChanFor :: "(Frame \<Rightarrow> chan option) option"
  clientEventChanFor :: "(Frame \<Rightarrow> chan option) option"
  voiceUpdateChanFor :: "(Frame \<Rightarrow> chan option) option"
  carrierAudioChanFor :: "(Frame \<Rightarrow> chan option) option"
  inboundAudioChanFor :: "(Frame \<Rightarrow> chan option) option"
  markRequestChanFor :: "(Frame \<Rightarrow> chan option) option"
  markEchoChanFor :: "(Frame \<Rightarrow> chan option) option"
  farewell :: bytes
  fillerFor :: "(Frame \<Rightarrow> FillerConfig) option"

definition zeroConfig :: realtimeConfig where
  "zeroConfig =
     \<lparr>idleTimeout = 0, callerSilenceTimeout = 0, instructionsFor = None, rtVoice = '''', rtTools = '''', sessionIDFor = None,
      transcriptChanFor = None, serverEventChanFor = None, clientEventChanFor = None, voiceUpdateChanFor = None,
      carrierAudioChanFor = None, inboundAudioChanFor = None, markRequestChanFor = None, markEchoChanFor = None,
      farewell = [], fillerFor = None\<rparr>"

datatype RealtimeOption =
    WithIdleTimeout duration
  | WithCallerSilenceTimeout duration
  | WithFarewellAudio bytes
  | WithInstructionsFor "Frame \<Rightarrow> string"
  | WithVoice string
  | WithTools string
  | WithSessionIDFor "Frame \<Rightarrow> string"
  | WithTranscriptChanFor "Frame \<Rightarrow> chan option"
  | WithServerEventChanFor "Frame \<Rightarrow> chan option"
  | WithCarrierAudioChanFor "Frame \<Rightarrow> chan option"
  | WithInboundAudioChanFor "Frame \<Rightarrow> chan option"
  | WithClientEventChanFor "Frame \<Rightarrow> chan option"
  | WithVoiceUpdateChanFor "Frame \<Rightarrow> chan option"
  | WithMarkRequestChanFor "Frame \<Rightarrow> chan option"
  | WithMarkEchoChanFor "Frame \<Rightarrow> chan option"
  | WithFillerAudioFor "Frame \<Rightarrow> FillerConfig"

definition WithInstructions :: "string \<Rightarrow> RealtimeOption" where "WithInstructions text = WithInstructionsFor (\<lambda>_. text)"
definition WithSessionID :: "string \<Rightarrow> RealtimeOption" where "WithSessionID sid = WithSessionIDFor (\<lambda>_. sid)"
definition WithTranscriptChan :: "chan option \<Rightarrow> RealtimeOption" where "WithTranscriptChan ch = WithTranscriptChanFor (\<lambda>_. ch)"
definition WithServerEventChan :: "chan option \<Rightarrow> RealtimeOption" where "WithServerEventChan ch = WithServerEventChanFor (\<lambda>_. ch)"
definition WithCarrierAudioChan :: "chan option \<Rightarrow> RealtimeOption" where "WithCarrierAudioChan ch = WithCarrierAudioChanFor (\<lambda>_. ch)"
definition WithInboundAudioChan :: "chan option \<Rightarrow> RealtimeOption" where "WithInboundAudioChan ch = WithInboundAudioChanFor (\<lambda>_. ch)"
definition WithClientEventChan :: "chan option \<Rightarrow> RealtimeOption" where "WithClientEventChan ch = WithClientEventChanFor (\<lambda>_. ch)"
definition WithVoiceUpdateChan :: "chan option \<Rightarrow> RealtimeOption" where "WithVoiceUpdateChan ch = WithVoiceUpdateChanFor (\<lambda>_. ch)"
definition WithMarkRequestChan :: "chan option \<Rightarrow> RealtimeOption" where "WithMarkRequestChan ch = WithMarkRequestChanFor (\<lambda>_. ch)"
definition WithMarkEchoChan :: "chan option \<Rightarrow> RealtimeOption" where "WithMarkEchoChan ch = WithMarkEchoChanFor (\<lambda>_. ch)"
definition WithFillerAudio :: "FillerConfig \<Rightarrow> RealtimeOption" where "WithFillerAudio cfg = WithFillerAudioFor (\<lambda>_. cfg)"

fun applyRealtimeOption :: "RealtimeOption \<Rightarrow> realtimeConfig \<Rightarrow> realtimeConfig" where
  "applyRealtimeOption (WithIdleTimeout d) c = c\<lparr>idleTimeout := d\<rparr>"
| "applyRealtimeOption (WithCallerSilenceTimeout d) c = c\<lparr>callerSilenceTimeout := d\<rparr>"
| "applyRealtimeOption (WithFarewellAudio clip) c = c\<lparr>farewell := clip\<rparr>"
| "applyRealtimeOption (WithInstructionsFor fn) c = c\<lparr>instructionsFor := Some fn\<rparr>"
| "applyRealtimeOption (WithVoice name) c = c\<lparr>rtVoice := name\<rparr>"
| "applyRealtimeOption (WithTools tools) c = c\<lparr>rtTools := tools\<rparr>"
| "applyRealtimeOption (WithSessionIDFor fn) c = c\<lparr>sessionIDFor := Some fn\<rparr>"
| "applyRealtimeOption (WithTranscriptChanFor fn) c = c\<lparr>transcriptChanFor := Some fn\<rparr>"
| "applyRealtimeOption (WithServerEventChanFor fn) c = c\<lparr>serverEventChanFor := Some fn\<rparr>"
| "applyRealtimeOption (WithCarrierAudioChanFor fn) c = c\<lparr>carrierAudioChanFor := Some fn\<rparr>"
| "applyRealtimeOption (WithInboundAudioChanFor fn) c = c\<lparr>inboundAudioChanFor := Some fn\<rparr>"
| "applyRealtimeOption (WithClientEventChanFor fn) c = c\<lparr>clientEventChanFor := Some fn\<rparr>"
| "applyRealtimeOption (WithVoiceUpdateChanFor fn) c = c\<lparr>voiceUpdateChanFor := Some fn\<rparr>"
| "applyRealtimeOption (WithMarkRequestChanFor fn) c = c\<lparr>markRequestChanFor := Some fn\<rparr>"
| "applyRealtimeOption (WithMarkEchoChanFor fn) c = c\<lparr>markEchoChanFor := Some fn\<rparr>"
| "applyRealtimeOption (WithFillerAudioFor fn) c = c\<lparr>fillerFor := Some fn\<rparr>"

definition resolveRealtimeConfig :: "RealtimeOption list \<Rightarrow> realtimeConfig" where
  "resolveRealtimeConfig opts = fold applyRealtimeOption opts zeroConfig"

section \<open>Resolvers\<close>

definition transcriptChan :: "realtimeConfig \<Rightarrow> Frame \<Rightarrow> chan option" where
  "transcriptChan c start = (case transcriptChanFor c of None \<Rightarrow> None | Some fn \<Rightarrow> fn start)"

definition serverEventChan :: "realtimeConfig \<Rightarrow> Frame \<Rightarrow> chan option" where
  "serverEventChan c start = (case serverEventChanFor c of None \<Rightarrow> None | Some fn \<Rightarrow> fn start)"

definition clientEventChan :: "realtimeConfig \<Rightarrow> Frame \<Rightarrow> chan option" where
  "clientEventChan c start = (case clientEventChanFor c of None \<Rightarrow> None | Some fn \<Rightarrow> fn start)"

definition voiceUpdateChan :: "realtimeConfig \<Rightarrow> Frame \<Rightarrow> chan option" where
  "voiceUpdateChan c start = (case voiceUpdateChanFor c of None \<Rightarrow> None | Some fn \<Rightarrow> fn start)"

definition carrierAudioChan :: "realtimeConfig \<Rightarrow> Frame \<Rightarrow> chan option" where
  "carrierAudioChan c start = (case carrierAudioChanFor c of None \<Rightarrow> None | Some fn \<Rightarrow> fn start)"

definition inboundAudioChan :: "realtimeConfig \<Rightarrow> Frame \<Rightarrow> chan option" where
  "inboundAudioChan c start = (case inboundAudioChanFor c of None \<Rightarrow> None | Some fn \<Rightarrow> fn start)"

definition markRequestChan :: "realtimeConfig \<Rightarrow> Frame \<Rightarrow> chan option" where
  "markRequestChan c start = (case markRequestChanFor c of None \<Rightarrow> None | Some fn \<Rightarrow> fn start)"

definition markEchoChan :: "realtimeConfig \<Rightarrow> Frame \<Rightarrow> chan option" where
  "markEchoChan c start = (case markEchoChanFor c of None \<Rightarrow> None | Some fn \<Rightarrow> fn start)"

definition fillerOf :: "realtimeConfig \<Rightarrow> Frame \<Rightarrow> FillerConfig" where
  "fillerOf c start = (case fillerFor c of None \<Rightarrow> \<lparr>fcLoop = [], fcDelay = 0\<rparr> | Some fn \<Rightarrow> fn start)"

definition instructions :: "realtimeConfig \<Rightarrow> Frame \<Rightarrow> string" where
  "instructions c start = (case instructionsFor c of None \<Rightarrow> '''' | Some fn \<Rightarrow> fn start)"

definition sessionID :: "realtimeConfig \<Rightarrow> Frame \<Rightarrow> string" where
  "sessionID c start = (case sessionIDFor c of None \<Rightarrow> '''' | Some fn \<Rightarrow> fn start)"

text \<open>\<open>resolveHandshake\<close>: the resolver's value, and whether the slow-resolver line was due.\<close>

definition realtimeDialTimeout :: duration where "realtimeDialTimeout = 10 * 1000 * millisecond"
definition realtimeSlowResolverWarning :: duration where "realtimeSlowResolverWarning = 2 * 1000 * millisecond"
definition realtimeClientEventSendTimeout :: duration where "realtimeClientEventSendTimeout = 5 * 1000 * millisecond"

definition resolveHandshake :: "duration \<Rightarrow> (Frame \<Rightarrow> string) \<Rightarrow> Frame \<Rightarrow> string \<times> bool" where
  "resolveHandshake took resolve start = (resolve start, realtimeSlowResolverWarning \<le> took)"

text \<open>The handshake frame of a call: what \<open>HandleStreamRealtime\<close> gives \<open>Dial\<close>, which builds the update.\<close>

definition handshake :: "realtimeConfig \<Rightarrow> json option \<Rightarrow> Frame \<Rightarrow> build_error + string" where
  "handshake c tools start = buildSessionUpdate (instructions c start) (rtVoice c) (sessionID c start) (rtTools c, tools)"

section \<open>Consumer events\<close>

datatype backend_msg = BAppend string | BClient string | BVoice string

text \<open>
  What one receive on a consumer channel leads to: stop listening, nothing, or a frame for the backend.
  An event is its bytes and what \<open>encoding/json\<close> reads in them.
\<close>

datatype consumer_act = Unsubscribe | Ignore | SendBackend backend_msg

definition handleClientEvent :: "raw_json \<Rightarrow> bool \<Rightarrow> consumer_act" where
  "handleClientEvent ev ok =
     (if \<not> ok then Unsubscribe
      else case doc_members (snd ev) of
        Inl e \<Rightarrow> SendBackend (BClient (fst ev))
      | Inr ms \<Rightarrow>
          (case string_field ''type'' ms of
             Inl e \<Rightarrow> SendBackend (BClient (fst ev))
           | Inr t \<Rightarrow> if t = EventSessionUpdate then Ignore else SendBackend (BClient (fst ev))))"

definition handleVoiceUpdate :: "string \<Rightarrow> bool \<Rightarrow> consumer_act" where
  "handleVoiceUpdate v ok =
     (if \<not> ok then Unsubscribe else if v = '''' then Ignore else SendBackend (BVoice (BuildVoiceUpdate v)))"

section \<open>The idle guard\<close>

datatype idleGuard = GuardOff | GuardRunning | GuardFired

definition newIdleGuard :: "duration \<Rightarrow> idleGuard" where
  "newIdleGuard after = (if after \<le> 0 then GuardOff else GuardRunning)"

definition guard_reset :: "idleGuard \<Rightarrow> idleGuard" where
  "guard_reset g = (case g of GuardOff \<Rightarrow> GuardOff | _ \<Rightarrow> GuardRunning)"

definition guard_stop :: "idleGuard \<Rightarrow> idleGuard" where
  "guard_stop g = (case g of GuardRunning \<Rightarrow> GuardOff | _ \<Rightarrow> g)"

section \<open>Delivery to a consumer\<close>

text \<open>One value through \<open>deliver\<close>, after \<open>observe\<close>.\<close>

definition deliver1 :: "'a \<Rightarrow> 'a bufferedChan option \<times> int \<Rightarrow> 'a bufferedChan option \<times> int" where
  "deliver1 v od =
     (case fst od of None \<Rightarrow> od | Some ch \<Rightarrow> (case sendOrDrop ch v (snd od) of (ch', n) \<Rightarrow> (Some ch', n)))"

text \<open>An option supplied later replaces an earlier one of its kind; a constant is a resolver that ignores the call.\<close>

lemma last_option_wins: "resolveRealtimeConfig (opts @ [opt]) = applyRealtimeOption opt (resolveRealtimeConfig opts)"
  by (simp add: resolveRealtimeConfig_def)

lemma handleClientEvent_sent:
  "handleClientEvent ev ok = SendBackend m \<Longrightarrow> m = BClient (fst ev) \<and>
     \<not> (\<exists>ms. doc_members (snd ev) = Inr ms \<and> string_field ''type'' ms = Inr EventSessionUpdate)"
  by (auto simp: handleClientEvent_def split: if_splits sum.splits)

end
