(* ===== verification/Relay.thy ===== *)
theory Relay
  imports Sink RelayOptions
begin

text \<open>
  One call on the realtime transport: \<open>HandleStreamRealtime\<close> and the goroutines it starts
  (\<open>telephony/twilio/realtime.go\<close>).

  The goroutines are the backend read loop (\<open>Bridge.Run\<close>, which calls the sink's \<open>Media\<close> and \<open>Clear\<close>), the
  server-event drain (\<open>deliver\<close>), the carrier pump, the filler's play goroutines, the timers' callbacks and
  the select loop.  Each of the first, second and last has a program counter that stops at every point
  where another goroutine can be noticed: a test of \<open>farewelling\<close>, a mutex, the write slot.  A step of the
  system is one action of one of them; \<open>relay_step\<close> is \<open>None\<close> where the action is not enabled.
\<close>

section \<open>State\<close>

text \<open>\<open>RClear k\<close> and the two after it are inside \<open>clear\<close>; \<open>k\<close> is the frame \<open>Media\<close> writes next, if \<open>Media\<close> called it.\<close>

datatype read_pc = RWait | RMedia string | RStop string | RSpeech | RPublish Transcript
  | RClear "string option" | RClearStop "string option" | RClearQ "string option" nat | RMediaQ string | REnded

datatype drain_pc = DWait | DSilence ServerEvent | DDeliver ServerEvent

datatype call_end = EndBackend | EndCarrier | EndIdle | EndSilence | EndSend

datatype sel_pc = SLoop | SMarkQ string | SPlayoutQ string nat
  | FStopFill call_end | FClear call_end | FClearStop call_end | FClearQ call_end nat | FStore call_end | FShut call_end
  | FFrames call_end nat | FFrameQ call_end nat | FAwait call_end | FMarkQ call_end nat | FWait call_end nat
  | STeardown call_end nat | SEnded call_end

record relay = carrierMediaSink +
  farewellClip :: bytes
  readPC :: read_pc
  drainPC :: drain_pc
  selPC :: sel_pc
  bridge :: Bridge
  idle :: idleGuard
  pumpDone :: bool
  connOpen :: bool
  backendLog :: "backend_msg list"
  carrierMedia :: "string list"
  eventOut :: "ServerEvent bufferedChan option \<times> int"
  transcriptOut :: "Transcript bufferedChan option \<times> int"
  inboundOut :: "string bufferedChan option"
  clientEventOpen :: bool
  voiceUpdateOpen :: bool
  markRequestOpen :: bool

text \<open>The consumer's channels at the start of the call.\<close>

record consumer =
  coEvents :: "ServerEvent bufferedChan option"
  coTranscripts :: "Transcript bufferedChan option"
  coAudio :: "CarrierAudio bufferedChan option"
  coInbound :: "string bufferedChan option"
  coEchoes :: "MarkEcho bufferedChan option"

definition newRelay :: "realtimeConfig \<Rightarrow> consumer \<Rightarrow> Frame \<Rightarrow> relay" where
  "newRelay cfg co start =
     (let cs = newCallerSilence (callerSilenceTimeout cfg);
          consumerMarks = (markRequestChan cfg start \<noteq> None \<or> markEchoChan cfg start \<noteq> None);
          mt = (if consumerMarks \<or> 0 < length (farewell cfg) \<or> cs \<noteq> None then Some (newMarkTracker (coEchoes co) consumerMarks) else None);
          f = map_option (filler_arm armedByCallOpen) (newFiller (fillerOf cfg start))
      in carrierMediaSink.extend (newCarrierMediaSink (StreamSID start) (coAudio co) mt f cs)
           (relay.fields (farewell cfg) RWait DWait SLoop NewBridge (newIdleGuard (idleTimeout cfg)) False True [] []
              (coEvents co, 0) (coTranscripts co, 0) (coInbound co)
              (clientEventChan cfg start \<noteq> None) (voiceUpdateChan cfg start \<noteq> None) (markRequestChan cfg start \<noteq> None)))"

section \<open>The backend read loop\<close>

datatype read_act = BackendEvent ServerEvent | BackendGone | ReadNext | PublishCancelled | ReadAcquire | ReadAbort

definition afterClear :: "string option \<Rightarrow> read_pc" where
  "afterClear k = (case k of None \<Rightarrow> RWait | Some p \<Rightarrow> RMediaQ p)"

text \<open>\<open>Run\<close> reads one event: signal, publish, dispatch.\<close>

definition readEvent :: "ServerEvent \<Rightarrow> relay \<Rightarrow> relay" where
  "readEvent ev r =
     r\<lparr>bridge := publishEvent ev (signalActivity (bridge r)),
       readPC := (case bridgeDispatch ev of SinkMedia p \<Rightarrow> RMedia p | SinkClear \<Rightarrow> RSpeech
                    | SinkTranscript t \<Rightarrow> RPublish t | SinkNothing \<Rightarrow> RWait)\<rparr>"

text \<open>\<open>Media\<close>, \<open>stopFillerAndClear\<close>, \<open>Clear\<close> and \<open>clear\<close>, up to the write slot.\<close>

definition readNext :: "relay \<Rightarrow> relay option" where
  "readNext r =
     (case readPC r of
        RMedia p \<Rightarrow> Some (r\<lparr>readPC := (if farewelling r then RWait else RStop p)\<rparr>)
      | RStop p \<Rightarrow> (case fill_stop r of (edge, r') \<Rightarrow> Some (r'\<lparr>readPC := (if edge then RClear (Some p) else RMediaQ p)\<rparr>))
      | RSpeech \<Rightarrow> map_option (\<lambda>r'. r'\<lparr>readPC := RClear None\<rparr>) (silence_do Spoke r)
      | RClear k \<Rightarrow> Some (r\<lparr>readPC := (if farewelling r then afterClear k else RClearStop k)\<rparr>)
      | RClearStop k \<Rightarrow> (case fill_stop r of (_, r') \<Rightarrow> Some (r'\<lparr>readPC := RClearQ k (fill_gen r')\<rparr>))
      | RPublish t \<Rightarrow> map_option (\<lambda>b. r\<lparr>bridge := b, readPC := RWait\<rparr>) (publish False t (bridge r))
      | _ \<Rightarrow> None)"

definition acquire :: "writer \<Rightarrow> job \<Rightarrow> relay \<Rightarrow> relay option" where
  "acquire w j r = (if writeSem r = None then Some (r\<lparr>writeSem := Some (w, j, Building)\<rparr>) else None)"

text \<open>Whether a writer holds the slot.\<close>

definition holds :: "writer \<Rightarrow> relay \<Rightarrow> bool" where
  "holds w r = (case writeSem r of None \<Rightarrow> False | Some (w', j, st) \<Rightarrow> w' = w)"

lemma holds_iff [simp]: "holds w r \<longleftrightarrow> (\<exists>j st. writeSem r = Some (w, j, st))"
  by (auto simp: holds_def split: option.splits)

fun read_step :: "read_act \<Rightarrow> relay \<Rightarrow> relay option" where
  "read_step (BackendEvent ev) r = (if readPC r = RWait then Some (readEvent ev r) else None)"
| "read_step BackendGone r = (if readPC r = RWait then Some (r\<lparr>readPC := REnded\<rparr>) else None)"
| "read_step ReadNext r = readNext r"
| "read_step PublishCancelled r =
     (case readPC r of
        RPublish t \<Rightarrow> map_option (\<lambda>b. r\<lparr>bridge := b, readPC := RWait\<rparr>) (publish True t (bridge r))
      | _ \<Rightarrow> None)"
| "read_step ReadAcquire r =
     (case readPC r of
        RMediaQ p \<Rightarrow> acquire WRead (JMedia p) r
      | RClearQ k n \<Rightarrow> acquire WRead (JClear n) r
      | _ \<Rightarrow> None)"
| "read_step ReadAbort r =
     (case readPC r of
        RMediaQ p \<Rightarrow> if holds WRead r then None else Some (r\<lparr>readPC := REnded\<rparr>)
      | RClearQ k n \<Rightarrow> if holds WRead r then None else Some (r\<lparr>readPC := REnded\<rparr>)
      | _ \<Rightarrow> None)"

section \<open>The write slot\<close>

datatype outcome = Wrote | Declined | Failed

definition leave_fill :: "nat \<Rightarrow> relay \<Rightarrow> relay" where
  "leave_fill g r = fill_do (playerLeaves g) r"

definition farewellFrame :: "bytes \<Rightarrow> nat \<Rightarrow> string" where
  "farewellFrame clip off = b64enc (take defaultFrameBytes (drop off clip))"

definition realtimeFarewellMarkPrefix :: string where "realtimeFarewellMarkPrefix = ''aatoolkit-farewell-''"

definition farewellMark :: "relay \<Rightarrow> string" where
  "farewellMark r = realtimeFarewellMarkPrefix @ streamSID r"

text \<open>Where a writer goes on when its write has returned.\<close>

fun after_select :: "bool \<Rightarrow> sel_pc \<Rightarrow> sel_pc" where
  "after_select ok (SMarkQ n) = (if ok then SLoop else STeardown EndSend 0)"
| "after_select ok (SPlayoutQ n tag) = (if ok then SLoop else STeardown EndSend 0)"
| "after_select ok (FClearQ e k) = (if ok then FStore e else STeardown e 0)"
| "after_select ok (FFrameQ e off) = (if ok then FFrames e (off + defaultFrameBytes) else STeardown e 0)"
| "after_select ok (FMarkQ e c) = (if ok then FWait e c else STeardown e 0)"
| "after_select ok pc = pc"

fun after_read :: "bool \<Rightarrow> read_pc \<Rightarrow> read_pc" where
  "after_read ok (RMediaQ p) = (if ok then RWait else REnded)"
| "after_read ok (RClearQ k n) = (if ok then afterClear k else REnded)"
| "after_read ok pc = pc"

definition release :: "outcome \<Rightarrow> writer \<Rightarrow> relay \<Rightarrow> relay" where
  "release out w r =
     (case w of
        WRead \<Rightarrow> r\<lparr>writeSem := None, readPC := after_read (out \<noteq> Failed) (readPC r)\<rparr>
      | WSelect \<Rightarrow> r\<lparr>writeSem := None, selPC := after_select (out \<noteq> Failed) (selPC r)\<rparr>
      | WPlayer g \<Rightarrow> (if out = Wrote then r\<lparr>writeSem := None\<rparr> else leave_fill g (r\<lparr>writeSem := None\<rparr>)))"

datatype slot_act = SlotBuild | SlotWrite bool | SlotAfter int | PlayerAcquire nat

fun slot_step :: "slot_act \<Rightarrow> relay \<Rightarrow> relay option" where
  "slot_step SlotBuild r =
     (case writeSem r of
        Some (w, j, Building) \<Rightarrow>
          (case build_job j r of
             (None, r') \<Rightarrow> Some (release Declined w r')
           | (Some (m, g), r') \<Rightarrow> Some (r'\<lparr>writeSem := Some (w, j, Ready m g)\<rparr>))
      | _ \<Rightarrow> None)"
| "slot_step (SlotWrite ok) r =
     (case writeSem r of
        Some (w, j, Ready m g) \<Rightarrow>
          (if ok then (if connOpen r then Some (r\<lparr>wire := wire r @ [m], writeSem := Some (w, j, Sent m g)\<rparr>) else None)
           else Some (release Failed w r))
      | _ \<Rightarrow> None)"
| "slot_step (SlotAfter now) r =
     (case writeSem r of
        Some (w, j, Sent m g) \<Rightarrow> map_option (release Wrote w) (after_job now m g r)
      | _ \<Rightarrow> None)"
| "slot_step (PlayerAcquire g) r =
     (case fill r of
        None \<Rightarrow> None
      | Some f \<Rightarrow> if g \<in> set (fPlayers f) then acquire (WPlayer g) (JFiller g) r else None)"

section \<open>Timers, carrier frames and the drain\<close>

datatype env_act = DrainTake | DrainSilence | DrainDeliver | TakeTranscript
  | FillFires nat armTrigger | FillStart nat armTrigger | FillQuit nat
  | CarrierFrame "json option" bool | CarrierGone
  | BoundElapses string nat | BoundExpires string nat | CountRunsOut nat | CountFires nat | IdleElapses | ConsumerTakesEcho

text \<open>The tracker's callbacks, made under its lock.\<close>

definition report :: "nat list \<Rightarrow> relay \<Rightarrow> relay option" where
  "report gs r = (case gs of [] \<Rightarrow> Some r | g # _ \<Rightarrow> silence_do (Played g) r)"

definition tracker_step :: "mark_op \<Rightarrow> relay \<Rightarrow> relay option" where
  "tracker_step op r =
     (case marks r of None \<Rightarrow> None | Some t \<Rightarrow> map_option (\<lambda>t'. r\<lparr>marks := Some t'\<rparr>) (mark_step op t))"

definition carrierMark :: "string \<Rightarrow> relay \<Rightarrow> relay option" where
  "carrierMark name r =
     (case marks r of None \<Rightarrow> Some r | Some t \<Rightarrow> (case echo name t of (gs, t') \<Rightarrow> report gs (r\<lparr>marks := Some t'\<rparr>)))"

definition boundExpires :: "string \<Rightarrow> nat \<Rightarrow> relay \<Rightarrow> relay option" where
  "boundExpires name g r =
     (case marks r of
        None \<Rightarrow> None
      | Some t \<Rightarrow>
          if (name, g) \<in> set (boundFiring t)
          then (case expire name g (t\<lparr>boundFiring := filter (\<lambda>b. b \<noteq> (name, g)) (boundFiring t)\<rparr>) of
                  (gs, t') \<Rightarrow> report gs (r\<lparr>marks := Some t'\<rparr>))
          else None)"

text \<open>One frame through \<open>pumpCarrierToBridge\<close>; \<open>ok\<close> is whether the backend accepted the forward.\<close>

definition pumpFrame :: "json option \<Rightarrow> bool \<Rightarrow> relay \<Rightarrow> relay option" where
  "pumpFrame raw ok r =
     (case DecodeFrame raw of
        Inl e \<Rightarrow> Some r
      | Inr f \<Rightarrow>
          if Event f = EventMedia then
            (let r = r\<lparr>carrierMedia := carrierMedia r @ [EncodedPayload f],
                       inboundOut := (case inboundOut r of None \<Rightarrow> None
                          | Some ch \<Rightarrow> if EncodedPayload f = '''' then Some ch
                                       else Some (case trySend ch (EncodedPayload f) of Some ch' \<Rightarrow> ch' | None \<Rightarrow> ch))\<rparr>
             in if ok then Some (r\<lparr>backendLog := backendLog r @ [BAppend (EncodedPayload f)]\<rparr>) else Some (r\<lparr>pumpDone := True\<rparr>))
          else if Event f = EventStop then Some (r\<lparr>pumpDone := True\<rparr>)
          else if Event f = EventMark then carrierMark (MarkName f) r
          else Some r)"

definition filler_only :: "filler_op \<Rightarrow> relay \<Rightarrow> relay option" where
  "filler_only op r = (case fill r of None \<Rightarrow> None | Some f \<Rightarrow> map_option (\<lambda>f'. r\<lparr>fill := Some f'\<rparr>) (filler_step op f))"

fun env_step :: "env_act \<Rightarrow> relay \<Rightarrow> relay option" where
  "env_step DrainTake r =
     (if drainPC r = DWait then
        map_option (\<lambda>(ev, ch). fill_do (filler_observe ev) (r\<lparr>bridge := (bridge r)\<lparr>brEvents := ch\<rparr>, drainPC := DSilence ev\<rparr>))
          (tryRecv (brEvents (bridge r)))
      else None)"
| "env_step DrainSilence r =
     (case drainPC r of DSilence ev \<Rightarrow> map_option (\<lambda>r'. r'\<lparr>drainPC := DDeliver ev\<rparr>) (silence_do (Observed ev) r) | _ \<Rightarrow> None)"
| "env_step DrainDeliver r =
     (case drainPC r of DDeliver ev \<Rightarrow> Some (r\<lparr>drainPC := DWait, eventOut := deliver1 ev (eventOut r)\<rparr>) | _ \<Rightarrow> None)"
| "env_step TakeTranscript r =
     map_option (\<lambda>(t, ch). r\<lparr>bridge := (bridge r)\<lparr>brTranscripts := ch\<rparr>, transcriptOut := deliver1 t (transcriptOut r)\<rparr>)
       (tryRecv (brTranscripts (bridge r)))"
| "env_step (FillFires g trig) r = filler_only (FTimerFires g trig) r"
| "env_step (FillStart g trig) r = filler_only (FStart g trig) r"
| "env_step (FillQuit g) r =
     (if holds (WPlayer g) r then None else filler_only (FQuit g) r)"
| "env_step (CarrierFrame raw ok) r = (if pumpDone r then None else pumpFrame raw ok r)"
| "env_step CarrierGone r = Some (r\<lparr>pumpDone := True\<rparr>)"
| "env_step (BoundElapses name g) r = tracker_step (BoundFires name g) r"
| "env_step (BoundExpires name g) r = boundExpires name g r"
| "env_step (CountRunsOut g) r = (if silence r = None then None else silence_do (CountElapses g) r)"
| "env_step (CountFires g) r = (if silence r = None then None else silence_do (Fired g) r)"
| "env_step IdleElapses r = (if idle r = GuardRunning then Some (r\<lparr>idle := GuardFired\<rparr>) else None)"
| "env_step ConsumerTakesEcho r = tracker_step ConsumeEcho r"

section \<open>The select loop\<close>

datatype sel_act = SelBackendDone | SelCarrierDone | SelIdle | SelSilence | SelMarkDue | SelActivity
  | SelClientEvent raw_json bool bool | SelVoice string bool bool | SelMark string bool
  | SelNext | SelAcquire | SelTimeout | SelPlayed | SelCtxDone

text \<open>\<open>endWithFarewell\<close>: an empty clip plays nothing.\<close>

definition endWithFarewell :: "call_end \<Rightarrow> relay \<Rightarrow> relay" where
  "endWithFarewell e r = r\<lparr>selPC := (if length (farewellClip r) = 0 then STeardown e 0 else FStopFill e)\<rparr>"

text \<open>A frame for the backend, written under the bound; \<open>ok\<close> is whether it was.\<close>

definition sendBounded :: "backend_msg \<Rightarrow> bool \<Rightarrow> relay \<Rightarrow> relay" where
  "sendBounded m ok r = (if ok then r\<lparr>backendLog := backendLog r @ [m]\<rparr> else r\<lparr>selPC := STeardown EndSend 0\<rparr>)"

definition handlePlayoutMark :: "relay \<Rightarrow> relay option" where
  "handlePlayoutMark r =
     (case silence r of
        None \<Rightarrow> None
      | Some cs \<Rightarrow>
          (case takeRequest cs of
             (None, _) \<Rightarrow> silence_do TookRequest r
           | (Some tag, _) \<Rightarrow>
               (case silence_do TookRequest r of
                  None \<Rightarrow> None
                | Some r' \<Rightarrow> map_option (\<lambda>r''. r''\<lparr>selPC := SPlayoutQ (fst (nextMarkName (streamSID r) cs)) tag\<rparr>) (silence_do NamedMark r'))))"

definition selSilence :: "relay \<Rightarrow> relay option" where
  "selSilence r =
     (case silence r of
        None \<Rightarrow> None
      | Some cs \<Rightarrow>
          (case silence_do TookFired r of
             None \<Rightarrow> None
           | Some r' \<Rightarrow> map_option (\<lambda>r''. if fst (silence_end cs) then endWithFarewell EndSilence r'' else r'')
                          (silence_do (EndTried (fst (silence_end cs))) r')))"

text \<open>\<open>playFarewell\<close> between its writes, and the deferred calls of the function's return.\<close>

definition selNext :: "relay \<Rightarrow> relay option" where
  "selNext r =
     (case selPC r of
        FStopFill e \<Rightarrow> (case fill_stop r of (_, r') \<Rightarrow> Some (r'\<lparr>selPC := FClear e\<rparr>))
      | FClear e \<Rightarrow> Some (r\<lparr>selPC := (if farewelling r then FStore e else FClearStop e)\<rparr>)
      | FClearStop e \<Rightarrow> (case fill_stop r of (_, r') \<Rightarrow> Some (r'\<lparr>selPC := FClearQ e (fill_gen r')\<rparr>))
      | FStore e \<Rightarrow> Some (r\<lparr>farewelling := True, selPC := FShut e\<rparr>)
      | FShut e \<Rightarrow> Some (fill_do filler_shutdown (r\<lparr>selPC := FFrames e 0\<rparr>))
      | FFrames e off \<Rightarrow> Some (r\<lparr>selPC := (if off < length (farewellClip r) then FFrameQ e off else FAwait e)\<rparr>)
      | FAwait e \<Rightarrow>
          (case marks r of
             None \<Rightarrow> None
           | Some t \<Rightarrow> (case await (farewellMark r) t of (c, t') \<Rightarrow> Some (r\<lparr>marks := Some t', selPC := FMarkQ e c\<rparr>)))
      | STeardown e n \<Rightarrow>
          (if n = 0 then Some (r\<lparr>idle := guard_stop (idle r), selPC := STeardown e 1\<rparr>)
           else if n = 1 then Some (fill_do filler_shutdown (r\<lparr>selPC := STeardown e 2\<rparr>))
           else if n = 2 then Some (marks_do mt_stop (r\<lparr>selPC := STeardown e 3\<rparr>))
           else if n = 3 then map_option (\<lambda>r'. r'\<lparr>selPC := STeardown e 4\<rparr>) (silence_do Stopped r)
           else Some (r\<lparr>connOpen := False, selPC := SEnded e\<rparr>))
      | _ \<Rightarrow> None)"

definition selJob :: "relay \<Rightarrow> job option" where
  "selJob r =
     (case selPC r of
        SMarkQ n \<Rightarrow> Some (JMark n)
      | SPlayoutQ n tag \<Rightarrow> Some (JPlayout n tag)
      | FClearQ e k \<Rightarrow> Some (JClear k)
      | FFrameQ e off \<Rightarrow> Some (JFarewell (farewellFrame (farewellClip r) off))
      | FMarkQ e c \<Rightarrow> Some (JMark (farewellMark r))
      | _ \<Rightarrow> None)"

definition consume :: "consumer_act \<Rightarrow> bool \<Rightarrow> (relay \<Rightarrow> relay) \<Rightarrow> relay \<Rightarrow> relay" where
  "consume a sent unsub r = (case a of Unsubscribe \<Rightarrow> unsub r | Ignore \<Rightarrow> r | SendBackend m \<Rightarrow> sendBounded m sent r)"

definition sel_case :: "sel_act \<Rightarrow> relay \<Rightarrow> relay option" where
  "sel_case a r =
     (case a of
        SelBackendDone \<Rightarrow> if readPC r = REnded then Some (r\<lparr>selPC := STeardown EndBackend 0\<rparr>) else None
      | SelCarrierDone \<Rightarrow> if pumpDone r then Some (r\<lparr>selPC := STeardown EndCarrier 0\<rparr>) else None
      | SelIdle \<Rightarrow> if idle r = GuardFired then Some (endWithFarewell EndIdle r) else None
      | SelSilence \<Rightarrow> selSilence r
      | SelMarkDue \<Rightarrow> (case silence_do TookDue r of None \<Rightarrow> None | Some r' \<Rightarrow> handlePlayoutMark r')
      | SelActivity \<Rightarrow>
          map_option (\<lambda>(_, ch). r\<lparr>bridge := (bridge r)\<lparr>brActivity := ch\<rparr>, idle := guard_reset (idle r)\<rparr>) (tryRecv (brActivity (bridge r)))
      | SelClientEvent ev ok sent \<Rightarrow>
          if clientEventOpen r then Some (consume (handleClientEvent ev ok) sent (\<lambda>r. r\<lparr>clientEventOpen := False\<rparr>) r) else None
      | SelVoice v ok sent \<Rightarrow>
          if voiceUpdateOpen r then Some (consume (handleVoiceUpdate v ok) sent (\<lambda>r. r\<lparr>voiceUpdateOpen := False\<rparr>) r) else None
      | SelMark name ok \<Rightarrow>
          if markRequestOpen r then
            Some (case handleMarkRequest name ok of
                    MarkChanClosed \<Rightarrow> r\<lparr>markRequestOpen := False\<rparr> | MarkRefused \<Rightarrow> r | MarkWrite n \<Rightarrow> r\<lparr>selPC := SMarkQ n\<rparr>)
          else None
      | _ \<Rightarrow> None)"

fun sel_step :: "sel_act \<Rightarrow> relay \<Rightarrow> relay option" where
  "sel_step SelNext r = selNext r"
| "sel_step SelAcquire r = (case selJob r of None \<Rightarrow> None | Some j \<Rightarrow> acquire WSelect j r)"
| "sel_step SelTimeout r =
     (if selJob r = None \<or> holds WSelect r then None
      else Some (r\<lparr>selPC := after_select False (selPC r)\<rparr>))"
| "sel_step SelPlayed r =
     (case (selPC r, marks r) of
        (FWait e c, Some t) \<Rightarrow> if c \<in> set (awaitsClosed t) then Some (r\<lparr>selPC := STeardown e 0\<rparr>) else None
      | _ \<Rightarrow> None)"
| "sel_step SelCtxDone r = (case selPC r of FWait e c \<Rightarrow> Some (r\<lparr>selPC := STeardown e 0\<rparr>) | _ \<Rightarrow> None)"
| "sel_step a r = (if selPC r = SLoop then sel_case a r else None)"

section \<open>Runs\<close>

datatype relay_act = ARead read_act | ASlot slot_act | AEnv env_act | ASel sel_act

fun relay_step :: "relay_act \<Rightarrow> relay \<Rightarrow> relay option" where
  "relay_step (ARead a) r = read_step a r"
| "relay_step (ASlot a) r = slot_step a r"
| "relay_step (AEnv a) r = env_step a r"
| "relay_step (ASel a) r = sel_step a r"

inductive relay_reach :: "relay \<Rightarrow> bool" where
  relay_init: "relay_reach (newRelay cfg co start)"
| relay_next: "relay_reach r \<Longrightarrow> relay_step a r = Some r' \<Longrightarrow> relay_reach r'"

fun relay_run :: "relay_act list \<Rightarrow> relay \<Rightarrow> relay option" where
  "relay_run [] r = Some r"
| "relay_run (a # as) r = (case relay_step a r of None \<Rightarrow> None | Some r' \<Rightarrow> relay_run as r')"

end
