(* ===== verification/RelayInv.thy ===== *)
theory RelayInv
  imports Relay
begin

text \<open>What each step of the relay leaves alone, and the invariant of the farewell.\<close>

section \<open>Frames\<close>

definition fill_off :: "'a carrierMediaSink_scheme \<Rightarrow> bool" where
  "fill_off s \<longleftrightarrow> (\<forall>f. fill s = Some f \<longrightarrow> fStopped f)"

definition view :: "relay \<Rightarrow> carrier_msg list \<times> sel_pc \<times> bool \<times> bytes \<times> string" where
  "view r = (wire r, selPC r, farewelling r, farewellClip r, streamSID r)"

lemma fill_upd [simp]:
  fixes r :: relay
  shows "fill_off (r\<lparr>selPC := a\<rparr>) = fill_off r" "fill_off (r\<lparr>readPC := b\<rparr>) = fill_off r" "fill_off (r\<lparr>writeSem := c\<rparr>) = fill_off r"
    "fill_off (r\<lparr>farewelling := d\<rparr>) = fill_off r" "fill_off (r\<lparr>marks := m\<rparr>) = fill_off r" "fill_off (r\<lparr>silenceLog := l\<rparr>) = fill_off r"
    "fill_off (r\<lparr>silence := cs\<rparr>) = fill_off r" "fill_off (r\<lparr>idle := i\<rparr>) = fill_off r" "fill_off (r\<lparr>connOpen := d\<rparr>) = fill_off r"
    "fill_off (r\<lparr>wire := w\<rparr>) = fill_off r"
    "fill_gen (r\<lparr>selPC := a\<rparr>) = fill_gen r" "fill_gen (r\<lparr>readPC := b\<rparr>) = fill_gen r" "fill_gen (r\<lparr>writeSem := c\<rparr>) = fill_gen r"
    "fill_gen (r\<lparr>farewelling := d\<rparr>) = fill_gen r" "fill_gen (r\<lparr>marks := m\<rparr>) = fill_gen r" "fill_gen (r\<lparr>silenceLog := l\<rparr>) = fill_gen r"
    "fill_gen (r\<lparr>silence := cs\<rparr>) = fill_gen r" "fill_gen (r\<lparr>idle := i\<rparr>) = fill_gen r" "fill_gen (r\<lparr>connOpen := d\<rparr>) = fill_gen r"
    "fill_gen (r\<lparr>wire := w\<rparr>) = fill_gen r"
  by (simp_all add: fill_off_def fill_gen_def)

lemma silence_doE:
  assumes "silence_do e s = Some s'"
  obtains cs l where "s' = s\<lparr>silence := cs, silenceLog := l\<rparr>"
proof (cases "silence s")
  case None
  with assms have "s' = s\<lparr>silence := silence s, silenceLog := silenceLog s\<rparr>" by (simp add: silence_do_def)
  with that show thesis .
next
  case (Some cs)
  with assms that show thesis by (auto simp: silence_do_def)
qed

lemma fill_stopE:
  assumes "fill_stop s = (b, s')"
  obtains f where "s' = s\<lparr>fill := f\<rparr>" "fill_off s \<Longrightarrow> fill_off s'" "fill_gen s \<le> fill_gen s'"
    "fill s \<noteq> None \<Longrightarrow> fill_gen s < fill_gen s'" "fill s' = None \<longleftrightarrow> fill s = None"
proof (cases "fill s")
  case None
  then have "s' = s" using assms by (simp add: fill_stop_def)
  then show thesis using that [of "fill s"] None by simp
next
  case (Some f)
  with assms have "s' = s\<lparr>fill := Some (snd (filler_stop f))\<rparr>" by (simp add: fill_stop_def split: prod.splits)
  with Some that show thesis
    by (simp add: fill_off_def fill_gen_def filler_stop_def cancelPendingLocked_def Let_def split: option.split)
qed

lemma filler_step_frame:
  assumes "filler_step op f = Some f'"
  shows "fStopped f \<Longrightarrow> fStopped f'" "fGen f \<le> fGen f'"
  using assms
  by (cases op; auto simp: filler_arm_def filler_stop_def filler_shutdown_def filler_start_def cancelPendingLocked_def nextFrame_def
      playerLeaves_def endEpisode_def Let_def split: if_splits option.splits prod.splits)+

lemma filler_observe_frame:
  "fStopped f \<Longrightarrow> fStopped (filler_observe ev f)" "fGen f \<le> fGen (filler_observe ev f)"
  by (auto simp: filler_observe_def filler_arm_def filler_stop_def cancelPendingLocked_def Let_def split: option.splits)

lemma playerLeaves_frame: "fStopped (playerLeaves g f) = fStopped f" "fGen f \<le> fGen (playerLeaves g f)"
  by (auto simp: playerLeaves_def endEpisode_def)

lemma reportE:
  assumes "report gs r = Some r'"
  obtains cs l where "r' = r\<lparr>silence := cs, silenceLog := l\<rparr>"
proof (cases gs)
  case Nil
  with assms have "r' = r\<lparr>silence := silence r, silenceLog := silenceLog r\<rparr>" by (simp add: report_def)
  with that show thesis .
next
  case (Cons g gs')
  with assms have "silence_do (Played g) r = Some r'" by (simp add: report_def)
  from silence_doE [OF this] that show thesis .
qed

text \<open>The read loop touches neither the wire nor the select loop; it takes a free slot.\<close>

lemma read_frame:
  assumes "read_step a r = Some r'"
  shows "view r' = view r" "fill_off r \<Longrightarrow> fill_off r'" "fill_gen r \<le> fill_gen r'" "marks r' = marks r"
    "writeSem r' = writeSem r \<or> writeSem r = None \<and> (\<exists>j. writeSem r' = Some (WRead, j, Building) \<and> ((\<exists>p. j = JMedia p) \<or> (\<exists>k. j = JClear k)))"
proof -
  have "view r' = view r \<and> (fill_off r \<longrightarrow> fill_off r') \<and> fill_gen r \<le> fill_gen r' \<and> marks r' = marks r \<and>
    (writeSem r' = writeSem r \<or> writeSem r = None \<and> (\<exists>j. writeSem r' = Some (WRead, j, Building) \<and> ((\<exists>p. j = JMedia p) \<or> (\<exists>k. j = JClear k))))"
  proof (cases a)
    case ReadNext
    with assms show ?thesis
      by (auto simp: readNext_def view_def fill_off_def fill_gen_def split: read_pc.splits prod.splits if_splits
          elim!: silence_doE fill_stopE)
  qed (use assms in \<open>auto simp: readEvent_def acquire_def view_def fill_off_def fill_gen_def split: read_pc.splits if_splits\<close>)
  then show "view r' = view r" "fill_off r \<Longrightarrow> fill_off r'" "fill_gen r \<le> fill_gen r'" "marks r' = marks r"
    "writeSem r' = writeSem r \<or> writeSem r = None \<and> (\<exists>j. writeSem r' = Some (WRead, j, Building) \<and> ((\<exists>p. j = JMedia p) \<or> (\<exists>k. j = JClear k)))"
    by blast+
qed

text \<open>Timers, drain and pump touch neither the slot, the wire nor the select loop.\<close>

lemma env_frame:
  assumes "env_step a r = Some r'"
  shows "view r' = view r" "fill_off r \<Longrightarrow> fill_off r'" "fill_gen r \<le> fill_gen r'" "writeSem r' = writeSem r" "readPC r' = readPC r"
proof -
  have "view r' = view r \<and> (fill_off r \<longrightarrow> fill_off r') \<and> fill_gen r \<le> fill_gen r' \<and> writeSem r' = writeSem r \<and> readPC r' = readPC r"
  proof (cases a)
    case DrainTake
    with assms show ?thesis
      by (auto simp: view_def fill_off_def fill_gen_def fill_do_def filler_observe_frame split: if_splits option.splits)
  next
    case (CarrierFrame raw ok)
    with assms show ?thesis
      by (auto simp: pumpFrame_def carrierMark_def view_def fill_off_def fill_gen_def Let_def split: if_splits sum.splits option.splits prod.splits
          elim!: reportE)
  next
    case (BoundExpires name g)
    with assms show ?thesis
      by (auto simp: boundExpires_def view_def fill_off_def fill_gen_def split: if_splits option.splits prod.splits elim!: reportE)
  qed (use assms in \<open>auto simp: filler_only_def tracker_step_def view_def fill_off_def fill_gen_def filler_step_frame
         split: if_splits option.splits drain_pc.splits simp del: filler_step.simps mark_step.simps elim!: silence_doE\<close>)
  then show "view r' = view r" "fill_off r \<Longrightarrow> fill_off r'" "fill_gen r \<le> fill_gen r'" "writeSem r' = writeSem r" "readPC r' = readPC r"
    by blast+
qed

section \<open>The farewell\<close>

fun is_farewell :: "carrier_msg \<Rightarrow> bool" where
  "is_farewell (MsgFarewell p) = True"
| "is_farewell m = False"

definition spoken :: "relay \<Rightarrow> carrier_msg list" where
  "spoken r = dropWhile (\<lambda>m. \<not> is_farewell m) (wire r)"

definition farewellMsgs :: "bytes \<Rightarrow> carrier_msg list" where
  "farewellMsgs clip = map (\<lambda>c. MsgFarewell (b64enc c)) (chunks defaultFrameBytes clip)"

definition sent :: "relay \<Rightarrow> bool" where
  "sent r \<longleftrightarrow> (\<exists>j m g. writeSem r = Some (WSelect, j, Sent m g))"

text \<open>How far the farewell has come, by the place of the select loop.\<close>

definition farewell_phase :: "relay \<Rightarrow> bool" where
  "farewell_phase r =
     (let all = farewellMsgs (farewellClip r); mark = MsgMark (farewellMark r); w = spoken r in
      case selPC r of
        FFrames e off \<Rightarrow> w @ farewellMsgs (drop off (farewellClip r)) = all
      | FFrameQ e off \<Rightarrow> off < length (farewellClip r) \<and>
          w @ farewellMsgs (drop (if sent r then off + defaultFrameBytes else off) (farewellClip r)) = all
      | FAwait e \<Rightarrow> w = all
      | FMarkQ e c \<Rightarrow> w = all @ (if sent r then [mark] else [])
      | FWait e c \<Rightarrow> w = all @ [mark]
      | STeardown e n \<Rightarrow> prefix w (all @ [mark])
      | SEnded e \<Rightarrow> prefix w (all @ [mark])
      | _ \<Rightarrow> w = [])"

fun on_air :: "sel_pc \<Rightarrow> bool" where
  "on_air (FFrames e off) = True" | "on_air (FFrameQ e off) = True" | "on_air (FAwait e) = True"
| "on_air (FMarkQ e c) = True" | "on_air (FWait e c) = True" | "on_air pc = False"

text \<open>The places inside \<open>playFarewell\<close>, which an empty clip never reaches.\<close>

fun ending :: "sel_pc \<Rightarrow> bool" where
  "ending SLoop = False" | "ending (SMarkQ n) = False" | "ending (SPlayoutQ n tag) = False"
| "ending (STeardown e n) = False" | "ending (SEnded e) = False" | "ending pc = True"

lemma on_air_ending: "on_air pc \<Longrightarrow> ending pc"
  by (cases pc) simp_all

text \<open>What a job's message is, with the generation a playout mark carries.\<close>

fun job_msg :: "job \<Rightarrow> carrier_msg \<Rightarrow> nat option \<Rightarrow> bool" where
  "job_msg (JMedia p) m g = (m = MsgBackend p \<and> g = None)"
| "job_msg (JFarewell p) m g = (m = MsgFarewell p \<and> g = None)"
| "job_msg (JFiller h) m g = ((\<exists>p. m = MsgFiller h p) \<and> g = None)"
| "job_msg (JClear k) m g = (m = MsgClear k \<and> g = None)"
| "job_msg (JMark n) m g = (m = MsgMark n \<and> g = None)"
| "job_msg (JPlayout n tag) m g = (m = MsgMark n \<and> g \<noteq> None)"

definition stage_ok :: "job \<Rightarrow> stage \<Rightarrow> bool" where
  "stage_ok j st = (case st of Building \<Rightarrow> True | Ready m g \<Rightarrow> job_msg j m g | Sent m g \<Rightarrow> job_msg j m g)"

fun writer_job :: "writer \<Rightarrow> job \<Rightarrow> bool" where
  "writer_job WRead j = ((\<exists>p. j = JMedia p) \<or> (\<exists>k. j = JClear k))"
| "writer_job (WPlayer g) j = (j = JFiller g)"
| "writer_job WSelect j = True"

definition slot_ok :: "relay \<Rightarrow> bool" where
  "slot_ok r \<longleftrightarrow> (\<forall>w j st. writeSem r = Some (w, j, st) \<longrightarrow>
     stage_ok j st \<and> writer_job w j \<and> (w = WSelect \<longrightarrow> selJob r = Some j) \<and>
     (w \<noteq> WSelect \<and> spoken r \<noteq> [] \<longrightarrow> st = Building))"

definition farewell_inv :: "relay \<Rightarrow> bool" where
  "farewell_inv r \<longleftrightarrow> farewell_phase r \<and> slot_ok r \<and> (on_air (selPC r) \<or> spoken r \<noteq> [] \<longrightarrow> farewelling r \<and> fill_off r) \<and>
     (\<forall>e. selPC r = FShut e \<longrightarrow> farewelling r) \<and> (ending (selPC r) \<longrightarrow> farewellClip r \<noteq> [])"

lemma spoken_snoc:
  "spoken (r\<lparr>wire := wire r @ [m], writeSem := x\<rparr>) = (if spoken r = [] then (if is_farewell m then [m] else []) else spoken r @ [m])"
  by (auto simp: spoken_def dropWhile_append dropWhile_eq_Nil_conv)

lemma viewD:
  assumes "view r' = view r"
  shows "wire r' = wire r" "selPC r' = selPC r" "farewelling r' = farewelling r" "farewellClip r' = farewellClip r"
    "spoken r' = spoken r" "farewellMark r' = farewellMark r" "selJob r' = selJob r"
  using assms by (auto simp: view_def spoken_def farewellMark_def selJob_def split: sel_pc.split)

lemma farewell_inv_frame:
  assumes inv: "farewell_inv r" and v: "view r' = view r" and f: "fill_off r \<Longrightarrow> fill_off r'"
    and w: "writeSem r' = writeSem r \<or> writeSem r = None \<and> (\<exists>w j. writeSem r' = Some (w, j, Building) \<and> writer_job w j \<and> w \<noteq> WSelect)"
  shows "farewell_inv r'"
proof -
  note vs = viewD [OF v]
  have "sent r' = sent r" using w by (elim disjE conjE exE) (simp_all add: sent_def)
  then have "farewell_phase r' = farewell_phase r" by (simp add: farewell_phase_def vs cong: sel_pc.case_cong)
  moreover have "slot_ok r'" using inv w unfolding farewell_inv_def slot_ok_def vs by (auto simp: stage_ok_def)
  ultimately show ?thesis using inv f unfolding farewell_inv_def vs by blast
qed

lemma farewell_read: "read_step a r = Some r' \<Longrightarrow> farewell_inv r \<Longrightarrow> farewell_inv r'"
  using read_frame [of a r r'] by (intro farewell_inv_frame [of r r']) auto

lemma farewell_env: "env_step a r = Some r' \<Longrightarrow> farewell_inv r \<Longrightarrow> farewell_inv r'"
  using env_frame [of a r r'] by (intro farewell_inv_frame [of r r']) auto

lemma build_frame:
  assumes "build_job j r = (res, r')"
  shows "view r' = view r" "fill_off r \<Longrightarrow> fill_off r'" "fill_gen r' = fill_gen r" "writeSem r' = writeSem r" "marks r' = marks r"
    "readPC r' = readPC r" "res = Some (m, g) \<Longrightarrow> job_msg j m g"
    "farewelling r \<Longrightarrow> fill_off r \<Longrightarrow> writer_job w j \<Longrightarrow> w \<noteq> WSelect \<Longrightarrow> res = None"
  using assms
  by (cases j; cases w; auto simp: gatedMessage_def staticMessage_def nextFrame_def claim_def view_def fill_off_def fill_gen_def Let_def
      split: if_splits option.splits prod.splits)+

lemma after_frame:
  assumes "after_job now m g r = Some r'"
  shows "view r' = view r" "fill r' = fill r" "writeSem r' = writeSem r" "readPC r' = readPC r"
proof -
  have "view r' = view r \<and> fill r' = fill r \<and> writeSem r' = writeSem r \<and> readPC r' = readPC r"
    using assms
    by (cases m) (auto simp: account_def deliverCarrierAudio_def armMark_def marks_do_def view_def split: option.splits prod.splits
        elim!: silence_doE)
  then show "view r' = view r" "fill r' = fill r" "writeSem r' = writeSem r" "readPC r' = readPC r" by blast+
qed

text \<open>Leaving the slot.\<close>

lemma release_other:
  assumes "w \<noteq> WSelect"
  shows "view (release out w r) = view r" "fill_off r \<Longrightarrow> fill_off (release out w r)" "writeSem (release out w r) = None"
    "fill_gen r \<le> fill_gen (release out w r)" "marks (release out w r) = marks r"
  using assms
  by (cases w; auto simp: release_def leave_fill_def fill_do_def view_def fill_off_def fill_gen_def playerLeaves_frame split: option.split)+

lemma farewell_free:
  assumes inv: "farewell_inv r" and v: "view r' = view r" and f: "fill_off r \<Longrightarrow> fill_off r'" and w: "writeSem r' = None"
    and ns: "\<not> sent r"
  shows "farewell_inv r'"
proof -
  note vs = viewD [OF v]
  have "\<not> sent r'" using w by (simp add: sent_def)
  then have "farewell_phase r' = farewell_phase r" using ns by (simp add: farewell_phase_def vs cong: sel_pc.case_cong)
  moreover have "slot_ok r'" using w by (simp add: slot_ok_def)
  ultimately show ?thesis using inv f unfolding farewell_inv_def vs by blast
qed

lemma farewell_release_other:
  assumes "farewell_inv r" "writeSem r = Some (w, j, st)" "w \<noteq> WSelect"
  shows "farewell_inv (release out w r)"
  by (rule farewell_free [OF assms(1) release_other(1) [OF assms(3)]]) (use assms release_other in \<open>auto simp: sent_def\<close>)

text \<open>Moving the select loop while it holds no slot.\<close>

lemma slot_ok_move:
  assumes "slot_ok r" "selJob r = None" "wire r' = wire r" "writeSem r' = writeSem r"
  shows "slot_ok r'" "\<not> sent r'"
proof -
  have ns: "writeSem r \<noteq> Some (WSelect, j, st)" for j st using assms(1,2) by (fastforce simp: slot_ok_def)
  have "spoken r' = spoken r" using assms(3) by (simp add: spoken_def)
  with assms(1) ns show "slot_ok r'" unfolding slot_ok_def assms(4) by fastforce
  show "\<not> sent r'" using ns unfolding sent_def assms(4) by simp
qed

lemma farewell_move:
  assumes inv: "farewell_inv r" and j: "selJob r = None" and w: "wire r' = wire r" "writeSem r' = writeSem r"
    and ph: "farewell_phase r'" and air: "on_air (selPC r') \<or> spoken r \<noteq> [] \<Longrightarrow> farewelling r' \<and> fill_off r'"
    and sh: "\<And>e. selPC r' = FShut e \<Longrightarrow> farewelling r'" and ne: "ending (selPC r') \<Longrightarrow> farewellClip r' \<noteq> []"
  shows "farewell_inv r'"
proof -
  have "spoken r' = spoken r" using w by (simp add: spoken_def)
  moreover have "slot_ok r'" using slot_ok_move(1) [OF _ j w] inv by (simp add: farewell_inv_def)
  ultimately show ?thesis using ph air sh ne by (simp add: farewell_inv_def)
qed

lemma loop_quiet:
  assumes "farewell_inv r" "selPC r = SLoop"
  shows "spoken r = []" "selJob r = None"
  using assms by (simp_all add: farewell_inv_def farewell_phase_def selJob_def)

lemma phase_early:
  "spoken r = [] \<Longrightarrow> \<not> on_air (selPC r) \<Longrightarrow> farewell_phase r"
  by (cases "selPC r") (simp_all add: farewell_phase_def)

text \<open>
  A case of the select loop leaves the wire, the slot, the marks, the clip, the filler and the reader alone, and goes to one of
  a few places; to the farewell only when there is a clip.
\<close>

definition still :: "relay \<Rightarrow> relay \<Rightarrow> bool" where
  "still r r' \<longleftrightarrow> wire r' = wire r \<and> writeSem r' = writeSem r \<and> marks r' = marks r \<and> farewellClip r' = farewellClip r
     \<and> fill r' = fill r \<and> readPC r' = readPC r"

definition case_pc :: "relay \<Rightarrow> bool" where
  "case_pc r = (case selPC r of SLoop \<Rightarrow> True | SMarkQ _ \<Rightarrow> True | SPlayoutQ _ _ \<Rightarrow> True | STeardown _ _ \<Rightarrow> True
     | FStopFill _ \<Rightarrow> farewellClip r \<noteq> [] | _ \<Rightarrow> False)"

lemma silence_do_still: "silence_do e r = Some r' \<Longrightarrow> still r r' \<and> selPC r' = selPC r"
  by (erule silence_doE) (simp add: still_def)

lemma still_trans: "still r r' \<Longrightarrow> still r' r'' \<Longrightarrow> still r r''"
  by (simp add: still_def)

lemma endWithFarewell_still: "still r (endWithFarewell e r) \<and> case_pc (endWithFarewell e r)"
  by (simp add: still_def endWithFarewell_def case_pc_def)

lemma handlePlayoutMark_still:
  assumes "handlePlayoutMark r = Some r'" "selPC r = SLoop"
  shows "still r r' \<and> case_pc r'"
proof (cases "\<exists>cs tag. silence r = Some cs \<and> fst (takeRequest cs) = Some tag")
  case True
  then obtain cs tag r1 r2 where s: "silence_do TookRequest r = Some r1" "silence_do NamedMark r1 = Some r2"
    "r' = r2\<lparr>selPC := SPlayoutQ (fst (nextMarkName (streamSID r) cs)) tag\<rparr>"
    using assms(1) by (auto simp: handlePlayoutMark_def split: option.splits prod.splits)
  have "still r r2" using silence_do_still s(1,2) still_trans by blast
  with s(3) show ?thesis by (simp add: still_def case_pc_def)
next
  case False
  then have "silence_do TookRequest r = Some r'"
    using assms(1) by (auto simp: handlePlayoutMark_def split: option.splits prod.splits)
  then show ?thesis using silence_do_still assms(2) by (fastforce simp: case_pc_def)
qed

lemma selSilence_still:
  assumes "selSilence r = Some r'" "selPC r = SLoop"
  shows "still r r' \<and> case_pc r'"
proof -
  obtain cs r1 r2 where s: "silence_do TookFired r = Some r1" "silence_do (EndTried (fst (silence_end cs))) r1 = Some r2"
    "r' = (if fst (silence_end cs) then endWithFarewell EndSilence r2 else r2)"
    using assms(1) by (auto simp: selSilence_def split: option.splits)
  have "still r r2" "selPC r2 = SLoop" using silence_do_still s(1,2) still_trans assms(2) by metis+
  then show ?thesis using s(3) endWithFarewell_still [of r2 EndSilence] still_trans by (auto simp: case_pc_def)
qed

lemma sel_case_still:
  assumes "sel_case a r = Some r'" "selPC r = SLoop"
  shows "still r r' \<and> case_pc r'"
proof (cases a)
  case SelSilence
  then show ?thesis using assms selSilence_still by (simp add: sel_case_def)
next
  case SelMarkDue
  then obtain r1 where "silence_do TookDue r = Some r1" "handlePlayoutMark r1 = Some r'"
    using assms(1) by (auto simp: sel_case_def split: option.splits)
  then show ?thesis using silence_do_still handlePlayoutMark_still assms(2) still_trans by metis
next
  case SelIdle
  then show ?thesis using assms endWithFarewell_still by (auto simp: sel_case_def split: if_splits)
qed (use assms in \<open>auto simp: sel_case_def consume_def sendBounded_def still_def case_pc_def
       split: if_splits consumer_act.splits mark_request.splits\<close>)

lemma farewell_case:
  assumes inv: "farewell_inv r" and pc: "selPC r = SLoop" and st: "sel_case a r = Some r'"
  shows "farewell_inv r'"
proof -
  have fr: "wire r' = wire r" "writeSem r' = writeSem r" and cp: "case_pc r'"
    using sel_case_still [OF st pc] by (simp_all add: still_def)
  then have "\<not> on_air (selPC r')" "\<And>e. selPC r' \<noteq> FShut e" and ne: "ending (selPC r') \<longrightarrow> farewellClip r' \<noteq> []"
    by (cases "selPC r'"; simp add: case_pc_def)+
  note fr = fr this(1,2)
  have q: "spoken r = []" "selJob r = None" using loop_quiet [OF inv pc] .
  then have "spoken r' = []" using fr(1) by (simp add: spoken_def)
  then show ?thesis using fr q ne by (intro farewell_move [OF inv] phase_early) auto
qed

lemma fill_off_shutdown: "fill_off (fill_do filler_shutdown r)"
  by (auto simp: fill_off_def fill_do_def filler_shutdown_def cancelPendingLocked_def Let_def split: option.splits)

lemma chunks_step: "off < length clip \<Longrightarrow>
    farewellMsgs (drop off clip) = MsgFarewell (farewellFrame clip off) # farewellMsgs (drop (off + defaultFrameBytes) clip)"
  using chunks.simps [of defaultFrameBytes "drop off clip"]
  by (simp add: farewellMsgs_def farewellFrame_def defaultFrameBytes_eq add.commute)

lemma farewell_next:
  assumes inv: "farewell_inv r" and st: "selNext r = Some r'"
  shows "farewell_inv r'"
proof -
  have j: "selJob r = None" using st by (auto simp: selNext_def selJob_def split: sel_pc.splits)
  then have ns: "\<not> sent r" using inv slot_ok_move(2) [of r r] by (simp add: farewell_inv_def)
  have fr: "wire r' = wire r" "writeSem r' = writeSem r" "farewellClip r' = farewellClip r" "streamSID r' = streamSID r"
      "farewelling r \<Longrightarrow> farewelling r'" "selPC r' = FShut e \<Longrightarrow> farewelling r'"
      "on_air (selPC r') \<Longrightarrow> \<not> on_air (selPC r) \<Longrightarrow> \<exists>e. selPC r = FShut e" "ending (selPC r') \<Longrightarrow> ending (selPC r)" for e
    using st
    by (auto simp: selNext_def fill_do_def marks_do_def split: sel_pc.splits if_splits option.splits prod.splits elim!: silence_doE fill_stopE)
  have off: "fill_off r \<Longrightarrow> fill_off r'" "selPC r = FShut e \<Longrightarrow> fill_off r'" for e
    using st fill_off_shutdown
    by (auto simp: selNext_def marks_do_def split: sel_pc.splits if_splits option.splits prod.splits elim!: silence_doE fill_stopE)
  have mk: "farewellMark r' = farewellMark r" using fr(4) by (simp add: farewellMark_def)
  have sp: "spoken r' = spoken r" using fr(1) by (simp add: spoken_def)
  have ns': "\<not> sent r'" using ns fr(2) by (simp add: sent_def)
  have ph: "farewell_phase r" using inv by (simp add: farewell_inv_def)
  have pc: "(case selPC r of FStopFill e \<Rightarrow> selPC r' = FClear e | FClear e \<Rightarrow> selPC r' \<in> {FStore e, FClearStop e}
      | FClearStop e \<Rightarrow> (\<exists>k. selPC r' = FClearQ e k) | FStore e \<Rightarrow> selPC r' = FShut e | FShut e \<Rightarrow> selPC r' = FFrames e 0
      | FFrames e off \<Rightarrow> selPC r' = (if off < length (farewellClip r) then FFrameQ e off else FAwait e)
      | FAwait e \<Rightarrow> (\<exists>c. selPC r' = FMarkQ e c) | STeardown e n \<Rightarrow> (\<exists>k. selPC r' = STeardown e k) \<or> selPC r' = SEnded e | _ \<Rightarrow> False)"
    using st by (auto simp: selNext_def fill_do_def marks_do_def split: sel_pc.splits if_splits option.splits prod.splits)
  have "farewell_phase r'"
    using ph pc unfolding farewell_phase_def sp mk fr(3)
    by (auto simp: Let_def ns ns' farewellMsgs_def split: sel_pc.splits if_splits)
  moreover have "farewelling r' \<and> fill_off r'" if "on_air (selPC r') \<or> spoken r \<noteq> []"
  proof (cases "on_air (selPC r) \<or> spoken r \<noteq> []")
    case True
    then show ?thesis using inv fr(5) off(1) by (simp add: farewell_inv_def)
  next
    case False
    with that fr(7) obtain e where "selPC r = FShut e" by blast
    then show ?thesis using inv fr(5) off(2) by (simp add: farewell_inv_def)
  qed
  moreover have "ending (selPC r') \<Longrightarrow> farewellClip r' \<noteq> []" using inv fr(3,8) by (simp add: farewell_inv_def)
  ultimately show ?thesis using fr(6) by (intro farewell_move [OF inv j fr(1,2)]) auto
qed

lemma phase_prefix:
  assumes "farewell_phase r"
  shows "prefix (spoken r) (farewellMsgs (farewellClip r) @ [MsgMark (farewellMark r)])"
proof -
  have pre: "prefix xs all" if "xs @ ys = all" for xs ys all :: "carrier_msg list"
    using that by (metis prefixI)
  show ?thesis
    using assms unfolding farewell_phase_def Let_def
    by (cases "selPC r") (auto dest: pre split: if_splits)
qed

text \<open>The call may turn to its end at any point where the select loop holds no slot.\<close>

lemma farewell_teardown:
  assumes inv: "farewell_inv r" and pc: "selPC r' = STeardown e n"
    and fr: "wire r' = wire r" "farewellClip r' = farewellClip r" "streamSID r' = streamSID r" "farewelling r' = farewelling r"
      "fill_off r' = fill_off r"
    and sl: "writeSem r' = None \<or> writeSem r' = writeSem r \<and> (\<forall>j st. writeSem r \<noteq> Some (WSelect, j, st))"
  shows "farewell_inv r'"
proof -
  have sp: "spoken r' = spoken r" "farewellMark r' = farewellMark r" using fr by (simp_all add: spoken_def farewellMark_def)
  have "farewell_phase r'" using phase_prefix [of r] inv pc by (simp add: farewell_phase_def farewell_inv_def sp fr)
  moreover have "slot_ok r'"
    using sl
  proof
    assume "writeSem r' = writeSem r \<and> (\<forall>j st. writeSem r \<noteq> Some (WSelect, j, st))"
    with inv show ?thesis unfolding farewell_inv_def slot_ok_def sp by metis
  qed (simp add: slot_ok_def)
  ultimately show ?thesis using inv pc fr by (auto simp: farewell_inv_def sp)
qed

lemma select_holds:
  assumes "farewell_inv r" "writeSem r = Some (WSelect, j, st)"
  shows "selJob r = Some j" "stage_ok j st"
  using assms by (simp_all add: farewell_inv_def slot_ok_def)

lemma farewell_sel:
  assumes inv: "farewell_inv r" and st: "sel_step a r = Some r'"
  shows "farewell_inv r'"
proof -
  consider "a = SelNext" | "a = SelAcquire" | "a = SelTimeout" | "a = SelPlayed" | "a = SelCtxDone"
    | "selPC r = SLoop" "sel_case a r = Some r'"
    using st by (cases a) (auto split: if_splits)
  then show ?thesis
  proof cases
    case 1
    with st farewell_next [OF inv] show ?thesis by simp
  next
    case 2
    with st obtain j where j: "selJob r = Some j" and w: "writeSem r = None" and r': "r' = r\<lparr>writeSem := Some (WSelect, j, Building)\<rparr>"
      by (auto simp: acquire_def split: option.splits if_splits)
    have v: "view r' = view r" using r' by (simp add: view_def)
    have "\<not> sent r" "\<not> sent r'" using w r' by (simp_all add: sent_def)
    then have "farewell_phase r' = farewell_phase r" by (simp add: farewell_phase_def viewD [OF v] cong: sel_pc.case_cong)
    moreover have "slot_ok r'" using j r' viewD(7) [OF v] by (simp add: slot_ok_def stage_ok_def)
    ultimately show ?thesis using inv r' viewD(5) [OF v] by (simp add: farewell_inv_def)
  next
    case 3
    with st have "selJob r \<noteq> None" and ns: "\<forall>j st. writeSem r \<noteq> Some (WSelect, j, st)" and r': "r' = r\<lparr>selPC := after_select False (selPC r)\<rparr>"
      by (auto split: if_splits)
    then obtain e where "selPC r' = STeardown e 0" by (cases "selPC r") (auto simp: selJob_def)
    then show ?thesis by (rule farewell_teardown [OF inv]) (use ns r' in auto)
  next
    case 4
    with st obtain e c where pc: "selPC r = FWait e c" "r' = r\<lparr>selPC := STeardown e 0\<rparr>"
      by (auto split: sel_pc.splits option.splits if_splits)
    then have "selJob r = None" by (simp add: selJob_def)
    then show ?thesis
      using pc select_holds(1) [OF inv] by (intro farewell_teardown [OF inv, of r' e 0]) auto
  next
    case 5
    with st obtain e c where pc: "selPC r = FWait e c" "r' = r\<lparr>selPC := STeardown e 0\<rparr>"
      by (auto split: sel_pc.splits)
    then have "selJob r = None" by (simp add: selJob_def)
    then show ?thesis
      using pc select_holds(1) [OF inv] by (intro farewell_teardown [OF inv, of r' e 0]) auto
  next
    case 6
    with farewell_case [OF inv] show ?thesis by simp
  qed
qed

text \<open>The select loop's own write returning.\<close>

lemma farewell_release_select:
  assumes inv: "farewell_inv r" and w: "writeSem r = Some (WSelect, j, st)" and out: "out = Wrote \<longleftrightarrow> (\<exists>m g. st = Sent m g)"
    and dec: "out = Declined \<Longrightarrow> (\<exists>k. j = JClear k) \<or> (\<exists>n tag. j = JPlayout n tag)"
  shows "farewell_inv (release out WSelect r)"
proof (cases "out = Failed")
  case True
  then obtain e where "selPC (release out WSelect r) = STeardown e 0"
    using select_holds(1) [OF inv w] by (cases "selPC r") (auto simp: selJob_def release_def)
  then show ?thesis by (rule farewell_teardown [OF inv]) (auto simp: release_def)
next
  case False
  let ?r = "release out WSelect r"
  have sent: "sent r \<longleftrightarrow> out = Wrote" using w out by (simp add: sent_def)
  have fr: "spoken ?r = spoken r" "farewellMark ?r = farewellMark r" "farewellClip ?r = farewellClip r" "farewelling ?r = farewelling r"
    "fill_off ?r = fill_off r" "writeSem ?r = None" "selPC ?r = after_select True (selPC r)" "\<not> sent ?r"
    using False by (simp_all add: release_def spoken_def farewellMark_def sent_def)
  have "farewell_phase ?r"
    using inv select_holds(1) [OF inv w] False dec sent unfolding farewell_inv_def farewell_phase_def fr
    by (cases out; cases "selPC r") (auto simp: selJob_def fr)
  moreover have "slot_ok ?r" using fr(6) by (simp add: slot_ok_def)
  moreover have "on_air (selPC ?r) \<longrightarrow> on_air (selPC r)" "\<And>e. selPC ?r \<noteq> FShut e" "ending (selPC ?r) \<longrightarrow> ending (selPC r)"
    using select_holds(1) [OF inv w] fr(7) by (cases "selPC r"; auto simp: selJob_def)+
  ultimately show ?thesis using inv unfolding farewell_inv_def fr(1,3,4,5) by auto
qed

text \<open>A message going out on the wire.\<close>

lemma farewell_write:
  assumes inv: "farewell_inv r" and w: "writeSem r = Some (w, j, Ready m g)"
  shows "farewell_inv (r\<lparr>wire := wire r @ [m], writeSem := Some (w, j, Sent m g)\<rparr>)"
proof -
  let ?r = "r\<lparr>wire := wire r @ [m], writeSem := Some (w, j, Sent m g)\<rparr>"
  have jm: "job_msg j m g" and wj: "writer_job w j" using inv w by (auto simp: farewell_inv_def slot_ok_def stage_ok_def)
  have fr: "farewellMark ?r = farewellMark r" "selJob ?r = selJob r" by (auto simp: farewellMark_def selJob_def split: sel_pc.split)
  show ?thesis
  proof (cases "w = WSelect")
    case False
    then have e: "spoken r = []" and nf: "\<not> is_farewell m" using inv w jm wj by (cases w; auto simp: farewell_inv_def slot_ok_def)+
    then have sp: "spoken ?r = []" by (simp add: spoken_snoc)
    have "sent ?r = sent r" using False w by (simp add: sent_def)
    then have "farewell_phase ?r = farewell_phase r" by (simp add: farewell_phase_def sp e fr cong: sel_pc.case_cong)
    moreover have "slot_ok ?r" using False jm wj sp by (simp add: slot_ok_def stage_ok_def)
    ultimately show ?thesis using inv e sp by (simp add: farewell_inv_def)
  next
    case True
    have job: "selJob r = Some j" using select_holds(1) [OF inv] w True by simp
    have ns: "\<not> sent r" "sent ?r" using w True by (simp_all add: sent_def)
    have ne: "ending (selPC r) \<Longrightarrow> farewellMsgs (farewellClip r) \<noteq> []"
      using inv chunks_step [of 0 "farewellClip r"] by (auto simp: farewell_inv_def)
    have ph: "farewell_phase ?r"
      using inv job jm ns ne unfolding farewell_inv_def farewell_phase_def fr
      by (cases "selPC r") (auto simp: selJob_def spoken_snoc chunks_step fr)
    have air: "on_air (selPC r)" if "spoken ?r \<noteq> []"
      using that inv job jm unfolding farewell_inv_def farewell_phase_def
      by (cases "selPC r") (auto simp: selJob_def spoken_snoc split: if_splits)
    have "slot_ok ?r" using True jm wj job fr by (simp add: slot_ok_def stage_ok_def)
    with ph air inv show ?thesis by (auto simp: farewell_inv_def)
  qed
qed

text \<open>A message built.\<close>

lemma farewell_stage:
  assumes inv: "farewell_inv r" and w: "writeSem r = Some (w, j, Building)" and st: "stage_ok j st" "\<And>m g. st \<noteq> Sent m g"
    and q: "w \<noteq> WSelect \<Longrightarrow> spoken r = []"
  shows "farewell_inv (r\<lparr>writeSem := Some (w, j, st)\<rparr>)"
proof -
  let ?r = "r\<lparr>writeSem := Some (w, j, st)\<rparr>"
  have v: "view ?r = view r" by (simp add: view_def)
  have "\<not> sent r" "\<not> sent ?r" using w st(2) by (simp_all add: sent_def)
  then have "farewell_phase ?r = farewell_phase r" by (simp add: farewell_phase_def viewD [OF v] cong: sel_pc.case_cong)
  moreover have "slot_ok ?r" using inv w st(1) q viewD(5,7) [OF v] by (auto simp: slot_ok_def farewell_inv_def)
  ultimately show ?thesis using inv viewD(5) [OF v] by (simp add: farewell_inv_def)
qed

lemma farewell_slot:
  assumes inv: "farewell_inv r" and st: "slot_step a r = Some r'"
  shows "farewell_inv r'"
proof (cases a)
  case SlotBuild
  with st obtain w j where w: "writeSem r = Some (w, j, Building)" by (auto split: option.splits stage.splits)
  obtain res r1 where b: "build_job j r = (res, r1)" by (cases "build_job j r")
  note bf = build_frame [OF b]
  have i1: "farewell_inv r1" by (rule farewell_inv_frame [OF inv bf(1,2)]) (simp_all add: bf)
  have w1: "writeSem r1 = Some (w, j, Building)" using bf(4) w by simp
  show ?thesis
  proof (cases res)
    case None
    with SlotBuild st w b have r': "r' = release Declined w r1" by simp
    show ?thesis
    proof (cases "w = WSelect")
      case True
      have "(\<exists>k. j = JClear k) \<or> (\<exists>n tag. j = JPlayout n tag)"
        using b None select_holds(1) [OF inv] w True by (cases j) (auto simp: staticMessage_def selJob_def split: sel_pc.splits)
      then show ?thesis using r' w1 True by (simp add: farewell_release_select [OF i1, of j Building])
    next
      case False
      then show ?thesis using farewell_release_other [OF i1 w1] r' by simp
    qed
  next
    case (Some mg)
    then obtain m g where res: "res = Some (m, g)" by (cases mg) auto
    with SlotBuild st w b have r': "r' = r1\<lparr>writeSem := Some (w, j, Ready m g)\<rparr>" by simp
    have "\<not> (w \<noteq> WSelect \<and> spoken r \<noteq> [])"
      using inv w bf(8) [of w] res unfolding farewell_inv_def slot_ok_def by auto
    then show ?thesis
      using farewell_stage [OF i1 w1, of "Ready m g"] bf(7) [OF res] viewD(5) [OF bf(1)] r' by (auto simp: stage_ok_def)
  qed
next
  case (SlotWrite ok)
  with st obtain w j m g where w: "writeSem r = Some (w, j, Ready m g)"
    and r': "r' = (if ok then r\<lparr>wire := wire r @ [m], writeSem := Some (w, j, Sent m g)\<rparr> else release Failed w r)"
    by (auto split: option.splits stage.splits if_splits)
  show ?thesis
  proof (cases ok)
    case True
    with r' farewell_write [OF inv w] show ?thesis by simp
  next
    case False
    with r' farewell_release_other [OF inv w] farewell_release_select [OF inv, of j "Ready m g" Failed] w show ?thesis
      by (cases "w = WSelect") simp_all
  qed
next
  case (SlotAfter now)
  with st obtain w j m g r1 where w: "writeSem r = Some (w, j, Sent m g)" and a: "after_job now m g r = Some r1" and r': "r' = release Wrote w r1"
    by (auto split: option.splits stage.splits)
  note af = after_frame [OF a]
  have i1: "farewell_inv r1" by (rule farewell_inv_frame [OF inv af(1)]) (simp_all add: af fill_off_def)
  have w1: "writeSem r1 = Some (w, j, Sent m g)" using af(3) w by simp
  with r' farewell_release_other [OF i1 w1] farewell_release_select [OF i1, of j "Sent m g" Wrote] show ?thesis
    by (cases "w = WSelect") simp_all
next
  case (PlayerAcquire g)
  with st have "writeSem r = None" "r' = r\<lparr>writeSem := Some (WPlayer g, JFiller g, Building)\<rparr>"
    by (auto simp: acquire_def split: option.splits if_splits)
  then show ?thesis by (intro farewell_inv_frame [OF inv]) (auto simp: view_def)
qed

lemma farewell_step: "relay_step a r = Some r' \<Longrightarrow> farewell_inv r \<Longrightarrow> farewell_inv r'"
  by (cases a) (auto intro: farewell_read farewell_env farewell_slot farewell_sel simp del: read_step.simps env_step.simps slot_step.simps sel_step.simps)

lemma reach_farewell: "relay_reach r \<Longrightarrow> farewell_inv r"
proof (induction rule: relay_reach.induct)
  case (relay_init cfg co start)
  show ?case
    by (simp add: farewell_inv_def farewell_phase_def slot_ok_def spoken_def newRelay_def newCarrierMediaSink_def Let_def
        carrierMediaSink.defs relay.defs)
qed (rule farewell_step)

end
