(* ===== verification/RelayMarks.thy ===== *)
theory RelayMarks
  imports RelayInv
begin

text \<open>
  The relay's tracker and caller-silence bound: the farewell's wait always has a live bound behind it, and
  the bound is only told of generations it was asked for.
\<close>

section \<open>The engine's wait on the tracker\<close>

definition registered :: "string \<Rightarrow> nat \<Rightarrow> markTracker \<Rightarrow> bool" where
  "registered name c t \<longleftrightarrow> c \<in> set (awaitsClosed t) \<or> (awaitCh t = Some c \<and> awaitName t = name \<and> \<not> mtStopped t)"

definition guarded :: "string \<Rightarrow> nat \<Rightarrow> markTracker \<Rightarrow> bool" where
  "guarded name c t \<longleftrightarrow> c \<in> set (awaitsClosed t) \<or>
     (awaitCh t = Some c \<and> awaitName t = name \<and> \<not> mtStopped t \<and> (\<exists>g. outstanding t name = Some \<lparr>omGen = g, omPlayed = None\<rparr>))"

fun unprompted :: "mark_op \<Rightarrow> bool" where
  "unprompted (Echo n) = True" | "unprompted (BoundFires n g) = True" | "unprompted (Expire n g) = True" | "unprompted ConsumeEcho = True"
| "unprompted op = False"

lemma deliver_await [simp]: "awaitName (mt_deliver m t) = awaitName t" "awaitsClosed (mt_deliver m t) = awaitsClosed t"
  by (simp_all add: mt_deliver_def split: option.split prod.split)

lemma resolve_cases:
  obtains "resolveAwaitLocked n t = (False, t)" "awaitCh t = None \<or> n \<noteq> '''' \<and> n \<noteq> awaitName t"
  | c where "awaitCh t = Some c" "resolveAwaitLocked n t = (True, t\<lparr>awaitsClosed := awaitsClosed t @ [c], awaitName := '''', awaitCh := None\<rparr>)"
proof (cases "awaitCh t = None \<or> n \<noteq> '''' \<and> n \<noteq> awaitName t")
  case True
  then have "resolveAwaitLocked n t = (False, t)" by (auto simp: resolveAwaitLocked_def split: option.split)
  with True that(1) show thesis by blast
next
  case False
  then obtain c where "awaitCh t = Some c" "\<not> (n \<noteq> '''' \<and> n \<noteq> awaitName t)" by auto
  with that(2) [of c] show thesis by (simp only: resolveAwaitLocked_def option.case if_False simp_thms)
qed

lemma resolve_outstanding: "resolveAwaitLocked n t = (b, u) \<Longrightarrow> outstanding u = outstanding t"
  using resolveAwait_frame(1) [of n t] by simp

lemma await_outstanding: "outstanding (snd (await n t)) = outstanding t"
  by (simp add: await_def Let_def)

text \<open>The waiting part of the tracker: the same, or the awaited channel closed.\<close>

definition keeps_wait :: "string \<Rightarrow> markTracker \<Rightarrow> markTracker \<Rightarrow> bool" where
  "keeps_wait name t t' \<longleftrightarrow> set (awaitsClosed t) \<subseteq> set (awaitsClosed t') \<and>
     (\<forall>c. awaitCh t = Some c \<longrightarrow> c \<in> set (awaitsClosed t') \<or>
        awaitCh t' = Some c \<and> awaitName t' = awaitName t \<and> mtStopped t' = mtStopped t \<and>
        (awaitName t = name \<longrightarrow> \<not> mtStopped t \<longrightarrow> (\<exists>g. outstanding t name = Some \<lparr>omGen = g, omPlayed = None\<rparr>) \<longrightarrow> outstanding t' name = outstanding t name))"

lemma keeps_wait_id:
  "awaitsClosed t' = awaitsClosed t \<Longrightarrow> awaitCh t' = awaitCh t \<Longrightarrow> awaitName t' = awaitName t \<Longrightarrow> mtStopped t' = mtStopped t \<Longrightarrow>
   outstanding t' = outstanding t \<Longrightarrow> keeps_wait name t t'"
  by (simp add: keeps_wait_def)

lemma keeps_wait_echo: "keeps_wait name t (snd (echo n t))"
proof (cases "mtStopped t \<or> outstanding t n = None")
  case True
  then have "snd (echo n t) = t \<or> (\<exists>l. snd (echo n t) = t\<lparr>mtLog := l\<rparr>)" by (auto simp: echo_def split: option.splits)
  then show ?thesis by (auto intro!: keeps_wait_id)
next
  case False
  then obtain m where m: "outstanding t n = Some m" and ns: "\<not> mtStopped t" by auto
  let ?t = "(stopBound n m t)\<lparr>outstanding := (outstanding t)(n := None)\<rparr>"
  show ?thesis
  proof (cases "omPlayed m")
    case (Some g)
    then have "snd (echo n t) = ?t" using m ns by (simp add: echo_def stopBound_def Let_def)
    then show ?thesis using m Some by (auto simp: keeps_wait_def stopBound_def)
  next
    case None
    then have e: "snd (echo n t) = (case resolveAwaitLocked n ?t of (True, u) \<Rightarrow> u | (False, u) \<Rightarrow> mt_deliver \<lparr>meName = n, meTimedOut = False\<rparr> u)"
      using m ns by (simp add: echo_def stopBound_def Let_def split: prod.split bool.split)
    show ?thesis
      unfolding e by (rule resolve_cases [of n ?t]) (auto simp: keeps_wait_def stopBound_def)
  qed
qed

lemma keeps_wait_expire: "keeps_wait name t (snd (expire n g t))"
proof (cases "mtStopped t \<or> outstanding t n = None \<or> omGen (the (outstanding t n)) \<noteq> g")
  case True
  then have "snd (expire n g t) = t" by (auto simp: expire_def split: option.splits)
  then show ?thesis by (simp add: keeps_wait_id)
next
  case False
  then obtain m where m: "outstanding t n = Some m" "omGen m = g" and ns: "\<not> mtStopped t" by auto
  let ?t = "t\<lparr>outstanding := (outstanding t)(n := None)\<rparr>"
  let ?u = "snd (resolveAwaitLocked n ?t)"
  have "snd (expire n g t) = ?u \<or> (\<exists>r. snd (expire n g t) = mt_deliver r ?u)"
    using m ns by (auto simp: expire_def Let_def split: prod.split option.split)
  moreover have "keeps_wait name t ?u" by (rule resolve_cases [of n ?t]) (auto simp: keeps_wait_def)
  then have "keeps_wait name t ?u" "keeps_wait name t (mt_deliver r ?u)" for r by (simp_all add: keeps_wait_def)
  ultimately show ?thesis by auto
qed

lemma keeps_wait_step:
  assumes "mark_step op t = Some t'" "unprompted op"
  shows "keeps_wait name t t'"
proof (cases op)
  case (Echo n)
  with assms keeps_wait_echo show ?thesis by auto
next
  case (Expire n g)
  let ?t = "t\<lparr>boundFiring := filter (\<lambda>b. b \<noteq> (n, g)) (boundFiring t)\<rparr>"
  from Expire assms have "t' = snd (expire n g ?t)" by (auto split: if_splits)
  with keeps_wait_expire [of name ?t n g] show ?thesis by (simp add: keeps_wait_def)
qed (use assms in \<open>auto intro!: keeps_wait_id split: if_splits option.splits\<close>)

lemma registered_unprompted: "keeps_wait name t t' \<Longrightarrow> registered name c t \<Longrightarrow> registered name c t'"
  unfolding keeps_wait_def registered_def by (metis subsetD)

lemma guarded_unprompted: "keeps_wait name t t' \<Longrightarrow> guarded name c t \<Longrightarrow> guarded name c t'"
  unfolding keeps_wait_def guarded_def by (metis subsetD)

lemma registered_await: "await name t = (c, t') \<Longrightarrow> registered name c t'"
  by (auto simp: registered_def await_def Let_def split: if_splits)

lemma guarded_arm: "registered name c t \<Longrightarrow> guarded name c (mt_arm name t)"
  by (auto simp: registered_def guarded_def mt_arm_def armLocked_def stopBound_def Let_def split: option.split)

section \<open>What the tracker reports\<close>

text \<open>
  The contract between the tracker and whoever asks it to report playouts: it reports no generation it
  was not armed with.
\<close>

locale playout_reporter =
  fixes op_step :: "'op \<Rightarrow> 't \<Rightarrow> 't option"
    and op_reports :: "'op \<Rightarrow> 't \<Rightarrow> nat list"
    and owed :: "'t \<Rightarrow> nat set"
    and op_armed :: "'op \<Rightarrow> nat set"
  assumes owed_step: "op_step op t = Some t' \<Longrightarrow> owed t' \<union> set (op_reports op t) \<subseteq> owed t \<union> op_armed op"
begin

fun reports_run :: "'op list \<Rightarrow> 't \<Rightarrow> nat list" where
  "reports_run [] t = []"
| "reports_run (op # ops) t = (case op_step op t of None \<Rightarrow> [] | Some t' \<Rightarrow> op_reports op t @ reports_run ops t')"

lemma within: "op_step op t = Some t' \<Longrightarrow> owed t \<subseteq> C \<Longrightarrow> op_armed op \<subseteq> C \<Longrightarrow> owed t' \<subseteq> C \<and> set (op_reports op t) \<subseteq> C"
  using owed_step by blast

lemma reports_armed: "set (reports_run ops t) \<subseteq> owed t \<union> (\<Union>op \<in> set ops. op_armed op)"
proof (induction ops t rule: reports_run.induct)
  case (2 op ops t)
  show ?case
  proof (cases "op_step op t")
    case (Some t')
    with 2 [OF Some] owed_step [OF Some] show ?thesis by auto
  qed simp
qed simp

end

definition playouts :: "markTracker \<Rightarrow> nat set" where
  "playouts t = {g. \<exists>n m. outstanding t n = Some m \<and> omPlayed m = Some g}"

fun mark_reports :: "mark_op \<Rightarrow> markTracker \<Rightarrow> nat list" where
  "mark_reports (Echo n) t = fst (echo n t)"
| "mark_reports (Expire n g) t = fst (expire n g (t\<lparr>boundFiring := filter (\<lambda>b. b \<noteq> (n, g)) (boundFiring t)\<rparr>))"
| "mark_reports op t = []"

fun mark_armed :: "mark_op \<Rightarrow> nat set" where
  "mark_armed (ArmPlayout n g) = {g}"
| "mark_armed op = {}"

lemma playouts_arm: "playouts (armLocked n p t) \<subseteq> playouts t \<union> set_option p"
  by (auto simp: playouts_def armLocked_def stopBound_def Let_def split: option.splits if_splits)

lemma playouts_same: "outstanding t' = outstanding t \<Longrightarrow> playouts t' = playouts t"
  by (simp add: playouts_def)

lemma playouts_echo: "playouts (snd (echo n t)) \<union> set (fst (echo n t)) \<subseteq> playouts t"
  by (auto simp: playouts_def echo_def stopBound_def resolveAwaitLocked_def Let_def split: option.splits if_splits prod.splits bool.splits)

lemma playouts_expire: "playouts (snd (expire n g t)) \<union> set (fst (expire n g t)) \<subseteq> playouts t"
proof (cases "mtStopped t \<or> outstanding t n = None \<or> omGen (the (outstanding t n)) \<noteq> g")
  case True
  then have "expire n g t = ([], t)" by (auto simp: expire_def split: option.splits)
  then show ?thesis by simp
next
  case False
  then obtain m where m: "outstanding t n = Some m" by auto
  have "outstanding (snd (expire n g t)) = (outstanding t)(n := None)" "set (fst (expire n g t)) \<subseteq> set_option (omPlayed m)"
    using m False
    by (auto simp: expire_def Let_def resolve_outstanding split: prod.splits option.splits)
  with m show ?thesis by (auto simp: playouts_def split: if_splits)
qed

interpretation mtr: playout_reporter mark_step mark_reports playouts mark_armed
proof
  fix op t t' assume st: "mark_step op t = Some t'"
  show "playouts t' \<union> set (mark_reports op t) \<subseteq> playouts t \<union> mark_armed op"
  proof (cases op)
    case (Arm n)
    with st playouts_arm [of n None t] show ?thesis by (simp add: mt_arm_def)
  next
    case (ArmPlayout n g)
    with st playouts_arm [of n "Some g" "t\<lparr>playoutArmed := True\<rparr>"] show ?thesis by (auto simp: armPlayout_def playouts_def)
  next
    case (Echo n)
    with st playouts_echo [of n t] show ?thesis by simp
  next
    case (Expire n g)
    with st playouts_expire [of n g "t\<lparr>boundFiring := filter (\<lambda>b. b \<noteq> (n, g)) (boundFiring t)\<rparr>"] show ?thesis
      by (auto simp: playouts_def split: if_splits)
  next
    case (Await n)
    with st have "outstanding t' = outstanding t" using await_outstanding by auto
    then show ?thesis using Await playouts_same [of t' t] by simp
  next
    case (BoundFires n g)
    with st have "outstanding t' = outstanding t" by (auto split: if_splits)
    then show ?thesis using BoundFires playouts_same [of t' t] by simp
  next
    case StopMarks
    with st have "outstanding t' = Map.empty" by (auto simp: mt_stop_def Let_def)
    with StopMarks show ?thesis by (simp add: playouts_def)
  next
    case ConsumeEcho
    with st have "outstanding t' = outstanding t" by (auto split: option.splits)
    then show ?thesis using ConsumeEcho playouts_same [of t' t] by simp
  qed
qed

section \<open>The tracker in the relay\<close>

definition tracker_ok :: "relay \<Rightarrow> bool" where
  "tracker_ok r \<longleftrightarrow> (\<forall>t. marks r = Some t \<longrightarrow> (\<exists>rs. mark_reach t rs)) \<and> (farewellClip r \<noteq> [] \<longrightarrow> marks r \<noteq> None) \<and>
     (\<forall>e c. selPC r = FMarkQ e c \<longrightarrow> (\<exists>t. marks r = Some t \<and> registered (farewellMark r) c t)) \<and>
     (\<forall>e c. selPC r = FWait e c \<longrightarrow> (\<exists>t. marks r = Some t \<and> guarded (farewellMark r) c t))"

lemma tracker_frame:
  assumes "tracker_ok r" "view r' = view r" "marks r' = marks r"
  shows "tracker_ok r'"
  using assms(1,3) by (simp add: tracker_ok_def viewD [OF assms(2)])

lemma tracker_op:
  assumes ok: "tracker_ok r" and v: "view r' = view r" and m: "marks r = Some t" "marks r' = Some t'"
    and op: "mark_step op t = Some t'" "unprompted op"
  shows "tracker_ok r'"
proof -
  note kw = keeps_wait_step [OF op]
  have "\<exists>rs. mark_reach t' rs" using ok m op(1) mark_reach.mark_next unfolding tracker_ok_def by blast
  moreover have "registered (farewellMark r') c t'" if "selPC r' = FMarkQ e c" for e c
    using that ok m registered_unprompted [OF kw] by (auto simp: tracker_ok_def viewD [OF v])
  moreover have "guarded (farewellMark r') c t'" if "selPC r' = FWait e c" for e c
    using that ok m guarded_unprompted [OF kw] by (auto simp: tracker_ok_def viewD [OF v])
  ultimately show ?thesis using m by (auto simp: tracker_ok_def)
qed

lemma report_marks: "report gs r = Some r' \<Longrightarrow> marks r' = marks r"
  by (auto elim!: reportE)

lemma env_marks:
  assumes "env_step a r = Some r'"
  shows "marks r' = marks r \<or> (\<exists>op t t'. marks r = Some t \<and> marks r' = Some t' \<and> mark_step op t = Some t' \<and> unprompted op)"
proof (cases a)
  case (CarrierFrame raw ok)
  show ?thesis
  proof (cases "marks r' = marks r")
    case False
    with CarrierFrame assms obtain name where "carrierMark name r = Some r'"
      by (auto simp: pumpFrame_def Let_def split: if_splits sum.splits)
    with False obtain t where "marks r = Some t" "marks r' = Some (snd (echo name t))"
      by (auto simp: carrierMark_def report_marks split: option.splits prod.splits)
    then show ?thesis by (intro disjI2 exI [of _ "Echo name"]) auto
  qed simp
next
  case (BoundExpires name g)
  let ?f = "\<lambda>t. t\<lparr>boundFiring := filter (\<lambda>b. b \<noteq> (name, g)) (boundFiring t)\<rparr>"
  from BoundExpires assms obtain t where "marks r = Some t" "(name, g) \<in> set (boundFiring t)" "marks r' = Some (snd (expire name g (?f t)))"
    by (auto simp: boundExpires_def report_marks split: option.splits prod.splits if_splits)
  then show ?thesis by (intro disjI2 exI [of _ "Expire name g"]) auto
next
  case (BoundElapses name g)
  with assms obtain t t' where "marks r = Some t" "mark_step (BoundFires name g) t = Some t'" "marks r' = Some t'"
    by (auto simp: tracker_step_def simp del: mark_step.simps split: option.splits)
  then show ?thesis by (intro disjI2 exI [of _ "BoundFires name g"]) auto
next
  case ConsumerTakesEcho
  with assms obtain t t' where "marks r = Some t" "mark_step ConsumeEcho t = Some t'" "marks r' = Some t'"
    by (auto simp: tracker_step_def simp del: mark_step.simps split: option.splits)
  then show ?thesis by (intro disjI2 exI [of _ ConsumeEcho]) auto
qed (use assms in \<open>auto simp: filler_only_def fill_do_def split: if_splits option.splits drain_pc.splits simp del: filler_step.simps elim!: silence_doE\<close>)

lemma tracker_env: "env_step a r = Some r' \<Longrightarrow> tracker_ok r \<Longrightarrow> tracker_ok r'"
  using env_marks [of a r r'] env_frame(1) [of a r r'] tracker_frame tracker_op by metis

lemma tracker_read: "read_step a r = Some r' \<Longrightarrow> tracker_ok r \<Longrightarrow> tracker_ok r'"
  using read_frame(1,4) [of a r r'] tracker_frame by blast


lemma guarded_registered: "guarded name c t \<Longrightarrow> registered name c t"
  by (auto simp: guarded_def registered_def)

lemma tracker_release:
  assumes ok: "tracker_ok r" and j: "w = WSelect \<Longrightarrow> selJob r \<noteq> None"
    and g: "\<And>e c. w = WSelect \<Longrightarrow> out \<noteq> Failed \<Longrightarrow> selPC r = FMarkQ e c \<Longrightarrow> \<exists>t. marks r = Some t \<and> guarded (farewellMark r) c t"
  shows "tracker_ok (release out w r)"
proof (cases "w = WSelect")
  case False
  with ok release_other [OF False] show ?thesis by (auto intro: tracker_frame)
next
  case True
  let ?r = "release out w r"
  have fr: "marks ?r = marks r" "farewellClip ?r = farewellClip r" "farewellMark ?r = farewellMark r" "selPC ?r = after_select (out \<noteq> Failed) (selPC r)"
    using True by (simp_all add: release_def farewellMark_def)
  have "selPC ?r \<noteq> FMarkQ e c" for e c
    using j [OF True] fr(4) by (cases "selPC r") (auto simp: selJob_def split: if_splits)
  moreover have "out \<noteq> Failed \<and> selPC r = FMarkQ e c" if "selPC ?r = FWait e c" for e c
    using that j [OF True] fr(4) by (cases "selPC r") (auto simp: selJob_def split: if_splits)
  ultimately show ?thesis using ok g [OF True] unfolding tracker_ok_def fr(1-3) by blast
qed

lemma after_marks:
  assumes "after_job now m g r = Some r'"
  shows "marks r' = marks r \<or> (\<exists>n. m = MsgMark n \<and> marks r' = map_option (case g of None \<Rightarrow> mt_arm n | Some h \<Rightarrow> armPlayout n h) (marks r))"
  using assms
  by (cases m) (auto simp: account_def deliverCarrierAudio_def armMark_def marks_do_def split: option.splits prod.splits elim!: silence_doE)

lemma tracker_arm:
  assumes ok: "tracker_ok r" and v: "view r' = view r" and j: "selJob r = Some j" "job_msg j (MsgMark n) g"
    and m: "marks r' = map_option (case g of None \<Rightarrow> mt_arm n | Some h \<Rightarrow> armPlayout n h) (marks r)"
  shows "tracker_ok r'" "selPC r = FMarkQ e c \<Longrightarrow> \<exists>t. marks r' = Some t \<and> guarded (farewellMark r') c t"
proof -
  have st: "\<exists>op. mark_step op t = Some ((case g of None \<Rightarrow> mt_arm n | Some h \<Rightarrow> armPlayout n h) t)" for t
    by (cases g) (use mark_step.simps(1) [of n t] mark_step.simps(2) [of n _ t] in \<open>(simp only: option.case, blast)+\<close>)
  have reach: "\<forall>t. marks r' = Some t \<longrightarrow> (\<exists>rs. mark_reach t rs)"
    using ok m st mark_reach.mark_next unfolding tracker_ok_def by (cases "marks r") (simp_all, metis)
  show g: "\<exists>t. marks r' = Some t \<and> guarded (farewellMark r') c t" if pc: "selPC r = FMarkQ e c" for e c
  proof -
    from pc j have "n = farewellMark r" "g = None" by (auto simp: selJob_def)
    moreover from ok pc obtain t where "marks r = Some t" "registered (farewellMark r) c t" by (auto simp: tracker_ok_def)
    ultimately show ?thesis using m guarded_arm by (simp add: viewD [OF v])
  qed
  have "selPC r' \<noteq> FWait e c" for e c using j(1) by (auto simp: viewD [OF v] selJob_def)
  moreover have "\<exists>t. marks r' = Some t \<and> registered (farewellMark r') c t" if "selPC r' = FMarkQ e c" for e c
    using g that guarded_registered by (metis viewD(2) [OF v])
  moreover have "farewellClip r' \<noteq> [] \<longrightarrow> marks r' \<noteq> None" using ok m by (simp add: tracker_ok_def viewD [OF v])
  ultimately show "tracker_ok r'" using reach unfolding tracker_ok_def by blast
qed

lemma tracker_slot:
  assumes inv: "farewell_inv r" and ok: "tracker_ok r" and st: "slot_step a r = Some r'"
  shows "tracker_ok r'"
proof (cases a)
  case SlotBuild
  with st obtain w j where w: "writeSem r = Some (w, j, Building)" by (auto split: option.splits stage.splits)
  obtain res r1 where b: "build_job j r = (res, r1)" by (cases "build_job j r")
  have ok1: "tracker_ok r1" using ok build_frame(1,5) [OF b] by (rule tracker_frame)
  show ?thesis
  proof (cases res)
    case None
    with SlotBuild st w b have r': "r' = release Declined w r1" by simp
    have j: "w = WSelect \<Longrightarrow> selJob r = Some j" using inv w by (simp add: farewell_inv_def slot_ok_def)
    then have "w = WSelect \<Longrightarrow> selPC r1 \<noteq> FMarkQ e c" for e c
      using b None viewD(2) [OF build_frame(1) [OF b]] by (auto simp: selJob_def staticMessage_def)
    then show ?thesis unfolding r' using j viewD(7) [OF build_frame(1) [OF b]] by (intro tracker_release [OF ok1]) auto
  next
    case (Some mg)
    with SlotBuild st w b obtain m g where "r' = r1\<lparr>writeSem := Some (w, j, Ready m g)\<rparr>" by (cases mg) auto
    with tracker_frame [OF ok1, of r'] show ?thesis by (simp add: view_def)
  qed
next
  case (SlotWrite okw)
  with st obtain w j m g where w: "writeSem r = Some (w, j, Ready m g)"
    and r': "r' = (if okw then r\<lparr>wire := wire r @ [m], writeSem := Some (w, j, Sent m g)\<rparr> else release Failed w r)"
    by (auto split: option.splits stage.splits if_splits)
  have "w = WSelect \<Longrightarrow> selJob r \<noteq> None" using inv w by (simp add: farewell_inv_def slot_ok_def)
  with ok r' tracker_release [OF ok, of w Failed] show ?thesis by (cases okw) (auto simp: tracker_ok_def farewellMark_def)
next
  case (SlotAfter now)
  with st obtain w j m g r1 where w: "writeSem r = Some (w, j, Sent m g)" and af: "after_job now m g r = Some r1" and r': "r' = release Wrote w r1"
    by (auto split: option.splits stage.splits)
  note v = after_frame(1) [OF af]
  have jm: "job_msg j m g" "writer_job w j" "w = WSelect \<Longrightarrow> selJob r = Some j"
    using inv w by (simp_all add: farewell_inv_def slot_ok_def stage_ok_def)
  show ?thesis
  proof (cases "\<exists>n. m = MsgMark n")
    case True
    then obtain n where n: "m = MsgMark n" by blast
    then have ws: "w = WSelect" using jm(1,2) by (cases w) auto
    have "marks r1 = map_option (case g of None \<Rightarrow> mt_arm n | Some h \<Rightarrow> armPlayout n h) (marks r)"
      using af n by (auto simp: armMark_def marks_do_def)
    note ta = tracker_arm [OF ok v jm(3) [OF ws] jm(1) [unfolded n] this]
    show ?thesis
      unfolding r' by (rule tracker_release [OF ta(1)]) (use ta(2) jm(3) [OF ws] viewD(2,7) [OF v] in simp_all)
  next
    case False
    then have "marks r1 = marks r" using after_marks [OF af] by blast
    then have "tracker_ok r1" using tracker_frame [OF ok v] by simp
    moreover have "w = WSelect \<Longrightarrow> selPC r1 \<noteq> FMarkQ e c" for e c
      using False jm(1,3) viewD(2) [OF v] by (auto simp: selJob_def)
    ultimately show ?thesis unfolding r' using jm(3) viewD(7) [OF v] by (intro tracker_release) auto
  qed
next
  case (PlayerAcquire g)
  with st have "r' = r\<lparr>writeSem := Some (WPlayer g, JFiller g, Building)\<rparr>"
    by (auto simp: acquire_def split: option.splits if_splits)
  then show ?thesis using tracker_frame [OF ok, of r'] by (simp add: view_def)
qed


lemma case_marks:
  assumes "sel_case a r = Some r'" "selPC r = SLoop"
  shows "marks r' = marks r" "farewellClip r' = farewellClip r" "\<And>e c. selPC r' \<noteq> FMarkQ e c" "\<And>e c. selPC r' \<noteq> FWait e c"
  using sel_case_still [OF assms] by (auto simp: still_def case_pc_def)

lemma tracker_move:
  assumes "tracker_ok r" "marks r' = marks r" "farewellClip r' = farewellClip r"
    "\<And>e c. selPC r' \<noteq> FMarkQ e c" "\<And>e c. selPC r' \<noteq> FWait e c"
  shows "tracker_ok r'"
  using assms by (simp add: tracker_ok_def)

lemma tracker_next:
  assumes ok: "tracker_ok r" and st: "selNext r = Some r'"
  shows "tracker_ok r'"
proof (cases "\<exists>e. selPC r = FAwait e \<or> selPC r = STeardown e 2")
  case False
  have "marks r' = marks r" "farewellClip r' = farewellClip r" "selPC r' \<noteq> FMarkQ e c" "selPC r' \<noteq> FWait e c" for e c
    using st False
    by (auto simp: selNext_def fill_do_def marks_do_def split: sel_pc.splits if_splits option.splits prod.splits elim!: silence_doE fill_stopE)
  with tracker_move [OF ok] show ?thesis by blast
next
  case True
  then obtain e where "selPC r = FAwait e \<or> selPC r = STeardown e 2" by blast
  then show ?thesis
  proof
    assume pc: "selPC r = FAwait e"
    then obtain t c t' where t: "marks r = Some t" "await (farewellMark r) t = (c, t')" "r' = r\<lparr>marks := Some t', selPC := FMarkQ e c\<rparr>"
      using st by (auto simp: selNext_def split: option.splits prod.splits)
    have m: "mark_step (Await (farewellMark r)) t = Some t'" using t(2) by simp
    obtain rs where "mark_reach t rs" using ok t(1) by (auto simp: tracker_ok_def)
    from mark_reach.mark_next [OF this m] have "\<exists>rs. mark_reach t' rs" by blast
    with registered_await [OF t(2)] t(3) show ?thesis by (auto simp: tracker_ok_def farewellMark_def)
  next
    assume pc: "selPC r = STeardown e 2"
    then have r': "r' = marks_do mt_stop (r\<lparr>selPC := STeardown e 3\<rparr>)" using st by (simp add: selNext_def)
    have "\<exists>rs. mark_reach (mt_stop t) rs" if "marks r = Some t" for t
      using ok that mark_reach.mark_next [of t _ StopMarks "mt_stop t"] unfolding tracker_ok_def by auto
    with ok r' show ?thesis by (auto simp: tracker_ok_def marks_do_def)
  qed
qed

lemma tracker_sel:
  assumes ok: "tracker_ok r" and st: "sel_step a r = Some r'"
  shows "tracker_ok r'"
proof -
  consider "a = SelNext" | "a = SelAcquire" | "a = SelTimeout" | "a = SelPlayed \<or> a = SelCtxDone"
    | "selPC r = SLoop" "sel_case a r = Some r'"
    using st by (cases a) (auto split: if_splits)
  then show ?thesis
  proof cases
    case 1
    with st tracker_next [OF ok] show ?thesis by simp
  next
    case 2
    with st obtain x where "r' = r\<lparr>writeSem := x\<rparr>" by (auto simp: acquire_def split: option.splits if_splits)
    then show ?thesis using tracker_frame [OF ok, of r'] by (simp add: view_def)
  next
    case 3
    with st have "selJob r \<noteq> None" "r' = r\<lparr>selPC := after_select False (selPC r)\<rparr>" by (auto split: if_splits)
    then show ?thesis by (intro tracker_move [OF ok]) (cases "selPC r"; auto simp: selJob_def)+
  next
    case 4
    with st obtain e where "r' = r\<lparr>selPC := STeardown e 0\<rparr>" by (auto split: sel_pc.splits option.splits if_splits)
    then show ?thesis by (intro tracker_move [OF ok]) auto
  next
    case 5
    then show ?thesis using case_marks [OF 5(2,1)] by (intro tracker_move [OF ok])
  qed
qed

lemma newRelay_simps:
  "marks (newRelay cfg co start) = (if markRequestChan cfg start \<noteq> None \<or> markEchoChan cfg start \<noteq> None \<or> farewell cfg \<noteq> [] \<or>
      newCallerSilence (callerSilenceTimeout cfg) \<noteq> None
     then Some (newMarkTracker (coEchoes co) (markRequestChan cfg start \<noteq> None \<or> markEchoChan cfg start \<noteq> None)) else None)"
  "farewellClip (newRelay cfg co start) = farewell cfg" "selPC (newRelay cfg co start) = SLoop" "wire (newRelay cfg co start) = []"
  "writeSem (newRelay cfg co start) = None" "silence (newRelay cfg co start) = newCallerSilence (callerSilenceTimeout cfg)"
  "silenceLog (newRelay cfg co start) = []" "readPC (newRelay cfg co start) = RWait"
  "fill (newRelay cfg co start) = map_option (filler_arm armedByCallOpen) (newFiller (fillerOf cfg start))"
  by (simp_all add: newRelay_def newCarrierMediaSink_def Let_def carrierMediaSink.defs relay.defs)

lemma reach_tracker: "relay_reach r \<Longrightarrow> tracker_ok r"
proof (induction rule: relay_reach.induct)
  case (relay_init cfg co start)
  show ?case using mark_reach.mark_init by (auto simp: tracker_ok_def newRelay_simps)
next
  case (relay_next r a r')
  then show ?case
    by (cases a) (auto intro: tracker_read tracker_env tracker_slot [OF reach_farewell] tracker_sel
        simp del: read_step.simps env_step.simps slot_step.simps sel_step.simps)
qed

end
