(* ===== verification/RelaySilence.thy ===== *)
theory RelaySilence
  imports RelayMarks
begin

text \<open>
  The caller-silence bound inside the relay: what it is told is a history the bound's own theory covers,
  because the tracker reports only generations the bound handed out inside the write slot.
\<close>

definition claimed :: "cs_event list \<Rightarrow> nat set" where
  "claimed hist = {g. \<exists>tag. Claimed tag g \<in> set hist}"

fun stage_gens :: "stage \<Rightarrow> nat set" where
  "stage_gens Building = {}" | "stage_gens (Ready m g) = set_option g" | "stage_gens (Sent m g) = set_option g"

definition owed_gens :: "relay \<Rightarrow> nat set" where
  "owed_gens r = (case marks r of None \<Rightarrow> {} | Some t \<Rightarrow> playouts t) \<union> (case writeSem r of None \<Rightarrow> {} | Some (w, j, st) \<Rightarrow> stage_gens st)"

definition bound_ok :: "relay \<Rightarrow> nat set \<Rightarrow> bool" where
  "bound_ok r P \<longleftrightarrow> (\<forall>cs. silence r = Some cs \<longrightarrow> cs_reach cs (silenceLog r)) \<and> P \<subseteq> claimed (silenceLog r)"

definition silence_ok :: "relay \<Rightarrow> bool" where
  "silence_ok r \<longleftrightarrow> bound_ok r (owed_gens r)"

lemma bound_mono: "bound_ok r P \<Longrightarrow> P' \<subseteq> P \<Longrightarrow> bound_ok r P'"
  by (auto simp: bound_ok_def)

lemma bound_frame: "bound_ok r P \<Longrightarrow> silence r' = silence r \<Longrightarrow> silenceLog r' = silenceLog r \<Longrightarrow> P' \<subseteq> P \<Longrightarrow> bound_ok r' P'"
  by (auto simp: bound_ok_def)

lemma allowed_other: "(\<And>g. e \<noteq> Played g) \<Longrightarrow> cs_allowed e hist"
  by (cases e) (auto simp: cs_allowed_def)

lemma allowed_claimed: "g \<in> claimed hist \<Longrightarrow> cs_allowed (Played g) hist"
  by (simp add: cs_allowed_def claimed_def)

lemma claimed_append: "claimed (hist @ hist') = claimed hist \<union> claimed hist'"
  by (auto simp: claimed_def)

lemma bound_event:
  assumes "bound_ok r P" "silence r = Some cs" "cs_step e cs = Some cs'" "cs_allowed e (silenceLog r)"
    "silence r' = Some cs'" "silenceLog r' = silenceLog r @ [e]" "P' \<subseteq> P \<union> claimed [e]"
  shows "bound_ok r' P'"
proof -
  have "cs_reach cs' (silenceLog r @ [e])" using assms(1-4) cs_reach.cs_next unfolding bound_ok_def by blast
  moreover have "P' \<subseteq> claimed (silenceLog r @ [e])" using assms(1,7) unfolding bound_ok_def claimed_append by blast
  ultimately show ?thesis using assms(5,6) by (simp add: bound_ok_def)
qed

lemma bound_do:
  assumes "silence_do e r = Some r'" "bound_ok r P" "silence r \<noteq> None \<Longrightarrow> cs_allowed e (silenceLog r)"
  shows "bound_ok r' P" "marks r' = marks r" "writeSem r' = writeSem r"
proof -
  show "bound_ok r' P"
  proof (cases "silence r")
    case None
    with assms show ?thesis by (simp add: silence_do_def)
  next
    case (Some cs)
    with assms(1) obtain cs' where "cs_step e cs = Some cs'" "r' = r\<lparr>silence := Some cs', silenceLog := silenceLog r @ [e]\<rparr>"
      by (auto simp: silence_do_def)
    then show ?thesis by (intro bound_event [OF assms(2) Some, of e cs' r']) (use assms(3) Some in auto)
  qed
  show "marks r' = marks r" "writeSem r' = writeSem r" using assms(1) by (auto elim!: silence_doE)
qed

lemma ok_do:
  assumes "silence_do e r = Some r'" "silence_ok r" "\<And>g. e \<noteq> Played g"
  shows "silence_ok r'"
  using bound_do [OF assms(1) _ allowed_other [OF assms(3)]] assms(2) by (simp add: silence_ok_def owed_gens_def)

lemma ok_frame:
  assumes "silence_ok r" "silence r' = silence r" "silenceLog r' = silenceLog r" "owed_gens r' \<subseteq> owed_gens r"
  shows "silence_ok r'"
  using bound_frame assms unfolding silence_ok_def by blast

lemma owed_same: "marks r' = marks r \<Longrightarrow> writeSem r' = writeSem r \<Longrightarrow> owed_gens r' = owed_gens r"
  by (simp add: owed_gens_def)

lemma silence_read:
  assumes st: "read_step a r = Some r'" and ok: "silence_ok r"
  shows "silence_ok r'"
proof (cases "a = ReadNext \<and> readPC r = RSpeech")
  case True
  with st obtain r1 where "silence_do Spoke r = Some r1" "r' = r1\<lparr>readPC := RClear None\<rparr>" by (auto simp: readNext_def)
  with ok_do [OF this(1) ok] show ?thesis by (auto intro: ok_frame simp: owed_gens_def)
next
  case False
  have "silence r' = silence r" "silenceLog r' = silenceLog r"
    using st False
    by (cases a; auto simp: readNext_def readEvent_def acquire_def split: read_pc.splits prod.splits if_splits elim!: fill_stopE)+
  moreover have "owed_gens r' \<subseteq> owed_gens r" using read_frame(4,5) [OF st] by (auto simp: owed_gens_def)
  ultimately show ?thesis using ok_frame [OF ok] by blast
qed

text \<open>The tracker calling back.\<close>

lemma report_Nil: "report [] r = Some r"
  by (simp add: report_def)

lemma silence_report:
  assumes ok: "silence_ok r" and m: "marks r = Some t" and op: "mark_step op t = Some t'" "unprompted op" "gs = mark_reports op t"
    and re: "report gs (r\<lparr>marks := Some t'\<rparr>) = Some r'"
  shows "silence_ok r'"
proof -
  let ?r = "r\<lparr>marks := Some t'\<rparr>"
  have "mark_armed op = {}" using op(2) by (cases op) simp_all
  then have pl: "playouts t' \<union> set gs \<subseteq> playouts t" using mtr.owed_step [OF op(1)] op(3) by simp
  then have "owed_gens ?r \<subseteq> owed_gens r" using m by (auto simp: owed_gens_def)
  then have ok': "silence_ok ?r" using ok_frame [OF ok] by simp
  show ?thesis
  proof (cases gs)
    case Nil
    with re ok' show ?thesis by (simp add: report_def)
  next
    case (Cons g gs')
    with pl m ok have "g \<in> claimed (silenceLog r)" by (auto simp: silence_ok_def bound_ok_def owed_gens_def)
    then have "cs_allowed (Played g) (silenceLog ?r)" by (simp add: allowed_claimed)
    with Cons re bound_do [of "Played g" ?r r'] ok' show ?thesis by (simp add: report_def silence_ok_def owed_gens_def)
  qed
qed

lemma silence_env:
  assumes st: "env_step a r = Some r'" and ok: "silence_ok r"
  shows "silence_ok r'"
proof (cases a)
  case DrainSilence
  with st obtain ev r1 where "silence_do (Observed ev) r = Some r1" "r' = r1\<lparr>drainPC := DDeliver ev\<rparr>" by (auto split: drain_pc.splits)
  with ok_do [OF this(1) ok] show ?thesis by (auto intro: ok_frame simp: owed_gens_def)
next
  case (CountRunsOut g)
  with st ok_do [OF _ ok] show ?thesis by (auto split: if_splits)
next
  case (CountFires g)
  with st ok_do [OF _ ok] show ?thesis by (auto split: if_splits)
next
  case (CarrierFrame raw okf)
  show ?thesis
  proof (cases "\<exists>name. carrierMark name r = Some r'")
    case True
    then obtain name where cm: "carrierMark name r = Some r'" by blast
    show ?thesis
    proof (cases "marks r")
      case None
      with cm ok show ?thesis by (simp add: carrierMark_def)
    next
      case (Some t)
      with cm show ?thesis by (intro silence_report [OF ok Some, of "Echo name"]) (auto simp: carrierMark_def split: prod.splits)
    qed
  next
    case False
    with CarrierFrame st have "silence r' = silence r" "silenceLog r' = silenceLog r" "owed_gens r' = owed_gens r"
      by (auto simp: pumpFrame_def Let_def owed_gens_def split: if_splits sum.splits)
    with ok_frame [OF ok] show ?thesis by simp
  qed
next
  case (BoundExpires name g)
  with st obtain t where t: "marks r = Some t" "(name, g) \<in> set (boundFiring t)"
      "report (mark_reports (Expire name g) t) (r\<lparr>marks := Some (snd (expire name g (t\<lparr>boundFiring := filter (\<lambda>b. b \<noteq> (name, g)) (boundFiring t)\<rparr>)))\<rparr>) = Some r'"
    by (auto simp: boundExpires_def split: option.splits prod.splits if_splits)
  show ?thesis by (rule silence_report [OF ok t(1) _ _ refl t(3)]) (use t(2) in simp_all)
next
  case (BoundElapses name g)
  with st obtain t t' where t: "marks r = Some t" "mark_step (BoundFires name g) t = Some t'" "r' = r\<lparr>marks := Some t'\<rparr>"
    by (auto simp: tracker_step_def simp del: mark_step.simps split: option.splits)
  show ?thesis by (rule silence_report [OF ok t(1,2) _ refl]) (use t(3) in \<open>simp_all add: report_Nil\<close>)
next
  case ConsumerTakesEcho
  with st obtain t t' where t: "marks r = Some t" "mark_step ConsumeEcho t = Some t'" "r' = r\<lparr>marks := Some t'\<rparr>"
    by (auto simp: tracker_step_def simp del: mark_step.simps split: option.splits)
  show ?thesis by (rule silence_report [OF ok t(1,2) _ refl]) (use t(3) in \<open>simp_all add: report_Nil\<close>)
qed (use st in \<open>auto intro!: ok_frame [OF ok] simp: filler_only_def fill_do_def owed_gens_def split: if_splits option.splits drain_pc.splits simp del: filler_step.simps\<close>)

text \<open>Inside the slot: a claim, agent audio, the arming of a claimed mark.\<close>

lemma silence_release:
  assumes "silence_ok r" "writeSem r = Some x"
  shows "silence_ok (release out w r)"
proof (rule ok_frame [OF assms(1)])
  show "owed_gens (release out w r) \<subseteq> owed_gens r"
    by (cases w) (simp_all add: release_def owed_gens_def leave_fill_def fill_do_def)
  show "silence (release out w r) = silence r" "silenceLog (release out w r) = silenceLog r"
    by (cases w; simp add: release_def leave_fill_def fill_do_def)+
qed

lemma silence_build:
  assumes ok: "silence_ok r" and w: "writeSem r = Some (w, j, Building)" and b: "build_job j r = (res, r1)"
  shows "silence_ok r1" "res = Some (m, g) \<Longrightarrow> set_option g \<subseteq> claimed (silenceLog r1)"
proof -
  have "silence_ok r1 \<and> (\<forall>m g. res = Some (m, g) \<longrightarrow> set_option g \<subseteq> claimed (silenceLog r1))"
  proof (cases "\<exists>n tag cs. j = JPlayout n tag \<and> silence r = Some cs")
    case True
    then obtain n tag cs where j: "j = JPlayout n tag" "silence r = Some cs" by blast
    obtain h cs' where c: "claim tag cs = (h, cs')" by (cases "claim tag cs")
    have og: "owed_gens r1 = owed_gens r" using build_frame(5,4) [OF b] by (rule owed_same)
    show ?thesis
    proof (cases h)
      case None
      then have r1: "res = None" "r1 = r\<lparr>silence := Some cs', silenceLog := silenceLog r @ [Refused tag]\<rparr>"
        using b j c by simp_all
      have "silence_ok r1"
        unfolding silence_ok_def og
        by (rule bound_event [OF ok [unfolded silence_ok_def] j(2), of "Refused tag" cs'])
           (use r1 c None in \<open>simp_all add: allowed_other\<close>)
      with r1(1) show ?thesis by simp
    next
      case (Some g)
      then have r1: "res = Some (MsgMark n, Some g)" "r1 = r\<lparr>silence := Some cs', silenceLog := silenceLog r @ [Claimed tag g]\<rparr>"
        using b j c by simp_all
      have "silence_ok r1"
        unfolding silence_ok_def og
        by (rule bound_event [OF ok [unfolded silence_ok_def] j(2), of "Claimed tag g" cs'])
           (use r1 c Some in \<open>simp_all add: allowed_other\<close>)
      with r1 show ?thesis by (auto simp: claimed_def)
    qed
  next
    case False
    then have fr: "silence r1 = silence r" "silenceLog r1 = silenceLog r" "\<forall>m g. res = Some (m, g) \<longrightarrow> g = None"
      using b by (cases j; auto simp: gatedMessage_def staticMessage_def split: if_splits option.splits prod.splits)+
    have "silence_ok r1" using ok_frame [OF ok fr(1,2)] owed_same [OF build_frame(5,4) [OF b]] by simp
    with fr(3) show ?thesis by fastforce
  qed
  then show "silence_ok r1" "res = Some (m, g) \<Longrightarrow> set_option g \<subseteq> claimed (silenceLog r1)" by simp_all
qed

lemma silence_after:
  assumes ok: "silence_ok r" and w: "writeSem r = Some (w, j, Sent m g)" and af: "after_job now m g r = Some r1"
  shows "silence_ok r1"
proof (cases m)
  case (MsgBackend p)
  let ?r = "account now p \<lparr>caPayload = p, caClear = False, caFiller = False, caFarewell = False\<rparr> r"
  have "silence_ok ?r"
    by (rule ok_frame [OF ok]) (auto simp: account_def deliverCarrierAudio_def owed_gens_def split: option.split prod.split)
  with af MsgBackend show ?thesis by (auto intro: ok_do)
next
  case (MsgMark n)
  have cl: "set_option g \<subseteq> claimed (silenceLog r)" using ok w by (auto simp: silence_ok_def bound_ok_def owed_gens_def)
  have r1: "r1 = armMark now n g r" using af MsgMark by simp
  have "playouts ((case g of None \<Rightarrow> mt_arm n | Some h \<Rightarrow> armPlayout n h) t) \<subseteq> playouts t \<union> set_option g" for t
    using playouts_arm [of n None t] playouts_arm [of n g "t\<lparr>playoutArmed := True\<rparr>"]
    by (cases g) (auto simp: mt_arm_def armPlayout_def playouts_def)
  note pl = this
  have "owed_gens r1 \<subseteq> owed_gens r \<union> set_option g"
  proof (cases "marks r")
    case (Some t)
    with pl [of t] show ?thesis unfolding r1 by (auto simp: owed_gens_def armMark_def marks_do_def)
  qed (auto simp: r1 owed_gens_def armMark_def marks_do_def)
  then have "bound_ok r1 (owed_gens r1)"
    using ok cl r1 unfolding silence_ok_def bound_ok_def by (auto simp: armMark_def marks_do_def)
  then show ?thesis by (simp add: silence_ok_def)
qed (use af in \<open>auto intro!: ok_frame [OF ok] simp: account_def deliverCarrierAudio_def owed_gens_def split: option.splits prod.splits\<close>)

lemma silence_slot:
  assumes st: "slot_step a r = Some r'" and ok: "silence_ok r"
  shows "silence_ok r'"
proof (cases a)
  case SlotBuild
  with st obtain w j where w: "writeSem r = Some (w, j, Building)" by (auto split: option.splits stage.splits)
  obtain res r1 where b: "build_job j r = (res, r1)" by (cases "build_job j r")
  note sb = silence_build [OF ok w b]
  show ?thesis
  proof (cases res)
    case None
    with SlotBuild st w b have "r' = release Declined w r1" by simp
    with silence_release [OF sb(1)] build_frame(4) [OF b] w show ?thesis by simp
  next
    case (Some mg)
    with SlotBuild st w b obtain m g where r': "res = Some (m, g)" "r' = r1\<lparr>writeSem := Some (w, j, Ready m g)\<rparr>" by (cases mg) auto
    then have "owed_gens r' \<subseteq> owed_gens r1 \<union> set_option g" by (auto simp: owed_gens_def)
    with sb(1) sb(2) [OF r'(1)] r'(2) show ?thesis unfolding silence_ok_def bound_ok_def by auto
  qed
next
  case (SlotWrite okw)
  with st obtain w j m g where w: "writeSem r = Some (w, j, Ready m g)"
    and r': "r' = (if okw then r\<lparr>wire := wire r @ [m], writeSem := Some (w, j, Sent m g)\<rparr> else release Failed w r)"
    by (auto split: option.splits stage.splits if_splits)
  show ?thesis
  proof (cases okw)
    case True
    with r' w show ?thesis by (intro ok_frame [OF ok]) (auto simp: owed_gens_def)
  qed (use r' silence_release [OF ok w] in simp)
next
  case (SlotAfter now)
  with st obtain w j m g r1 where w: "writeSem r = Some (w, j, Sent m g)" and af: "after_job now m g r = Some r1" and r': "r' = release Wrote w r1"
    by (auto split: option.splits stage.splits)
  show ?thesis unfolding r' by (rule silence_release [OF silence_after [OF ok w af]]) (simp add: after_frame(3) [OF af] w)
next
  case (PlayerAcquire g)
  with st have "writeSem r = None" "r' = r\<lparr>writeSem := Some (WPlayer g, JFiller g, Building)\<rparr>"
    by (auto simp: acquire_def split: option.splits if_splits)
  then show ?thesis by (intro ok_frame [OF ok]) (auto simp: owed_gens_def)
qed

text \<open>The select loop.\<close>

lemma ok_pc: "silence_ok (r\<lparr>selPC := pc\<rparr>) = silence_ok r"
  by (simp add: silence_ok_def bound_ok_def owed_gens_def)

lemma silence_case:
  assumes st: "sel_case a r = Some r'" and ok: "silence_ok r"
  shows "silence_ok r'"
proof (cases a)
  case SelSilence
  with st obtain cs r1 r2 where s: "silence_do TookFired r = Some r1" "silence_do (EndTried (fst (silence_end cs))) r1 = Some r2"
      "r' = (if fst (silence_end cs) then endWithFarewell EndSilence r2 else r2)"
    by (auto simp: sel_case_def selSilence_def split: option.splits)
  have "silence_ok r2" using ok_do [OF s(2) ok_do [OF s(1) ok]] by simp
  with s(3) show ?thesis by (simp add: endWithFarewell_def ok_pc)
next
  case SelMarkDue
  with st obtain r1 where s: "silence_do TookDue r = Some r1" "handlePlayoutMark r1 = Some r'"
    by (auto simp: sel_case_def split: option.splits)
  have ok1: "silence_ok r1" using ok_do [OF s(1) ok] by simp
  have "silence_do TookRequest r1 = Some r' \<or>
      (\<exists>r2 r3 pc. silence_do TookRequest r1 = Some r2 \<and> silence_do NamedMark r2 = Some r3 \<and> r' = r3\<lparr>selPC := pc\<rparr>)"
    using s(2) by (auto simp: handlePlayoutMark_def split: option.splits prod.splits)
  with ok_do [OF _ ok1] ok_do show ?thesis by (auto simp: ok_pc)
qed (use st in \<open>auto intro!: ok_frame [OF ok] simp: sel_case_def endWithFarewell_def consume_def sendBounded_def owed_gens_def
       split: if_splits consumer_act.splits mark_request.splits option.splits\<close>)

lemma silence_next:
  assumes st: "selNext r = Some r'" and ok: "silence_ok r"
  shows "silence_ok r'"
proof (cases "\<exists>e. selPC r = STeardown e 3")
  case True
  then obtain e r1 where "silence_do Stopped r = Some r1" "r' = r1\<lparr>selPC := STeardown e 4\<rparr>"
    using st by (auto simp: selNext_def)
  with ok_do [OF _ ok] show ?thesis by (simp add: ok_pc)
next
  case False
  have "silence r' = silence r" "silenceLog r' = silenceLog r" "writeSem r' = writeSem r"
    using st False
    by (auto simp: selNext_def fill_do_def marks_do_def split: sel_pc.splits if_splits option.splits prod.splits elim!: fill_stopE)
  moreover have "marks r' = marks r \<or> (\<exists>op t t'. marks r = Some t \<and> marks r' = Some t' \<and> mark_step op t = Some t' \<and> mark_armed op = {})"
  proof (cases "selPC r")
    case (FAwait e)
    then show ?thesis using st by (intro disjI2 exI [of _ "Await (farewellMark r)"]) (auto simp: selNext_def split: option.splits prod.splits)
  next
    case (STeardown e n)
    then show ?thesis
      using st False by (cases "marks r"; cases "n = 2") (auto simp: selNext_def fill_do_def marks_do_def intro!: exI [of _ StopMarks] split: if_splits)
  qed (use st in \<open>auto simp: selNext_def fill_do_def split: if_splits prod.splits elim!: fill_stopE\<close>)
  then have "(case marks r' of None \<Rightarrow> {} | Some t \<Rightarrow> playouts t) \<subseteq> (case marks r of None \<Rightarrow> {} | Some t \<Rightarrow> playouts t)"
    using mtr.owed_step by (fastforce split: option.splits)
  ultimately show ?thesis by (intro ok_frame [OF ok]) (auto simp: owed_gens_def)
qed

lemma silence_sel:
  assumes st: "sel_step a r = Some r'" and ok: "silence_ok r"
  shows "silence_ok r'"
proof -
  consider "a = SelNext" | "a = SelAcquire" | pc where "r' = r\<lparr>selPC := pc\<rparr>" | "sel_case a r = Some r'"
    using st by (cases a) (auto split: if_splits sel_pc.splits option.splits)
  then show ?thesis
  proof cases
    case 2
    with st obtain j where "writeSem r = None" "r' = r\<lparr>writeSem := Some (WSelect, j, Building)\<rparr>"
      by (auto simp: acquire_def split: option.splits if_splits)
    then show ?thesis by (intro ok_frame [OF ok]) (auto simp: owed_gens_def)
  qed (use st ok silence_next silence_case in \<open>auto simp: ok_pc\<close>)
qed

lemma reach_silence: "relay_reach r \<Longrightarrow> silence_ok r"
proof (induction rule: relay_reach.induct)
  case (relay_init cfg co start)
  show ?case
    using cs_reach.cs_init
    by (auto simp: silence_ok_def bound_ok_def owed_gens_def newRelay_simps playouts_def newMarkTracker_def)
next
  case (relay_next r a r')
  then show ?case
    by (cases a) (auto intro: silence_read silence_env silence_slot silence_sel
        simp del: read_step.simps env_step.simps slot_step.simps sel_step.simps)
qed

end
