(* ===== verification/RelayFence.thy ===== *)
theory RelayFence
  imports RelayInv
begin

text \<open>
  A clear and the filler: every clear stops the loop before it queues for the slot, and a filler frame
  takes its decision inside the slot, so no frame of an episode that began before the clear can follow
  it on the wire.
\<close>

definition clears :: "carrier_msg list \<Rightarrow> nat set" where
  "clears ms = {k. MsgClear k \<in> set ms}"

text \<open>The clears on their way: queued for the slot, or in it.\<close>

definition pending_clears :: "relay \<Rightarrow> nat set" where
  "pending_clears r =
     (case readPC r of RClearQ p k \<Rightarrow> {k} | _ \<Rightarrow> {}) \<union> (case selPC r of FClearQ e k \<Rightarrow> {k} | _ \<Rightarrow> {}) \<union>
     (case writeSem r of Some (w, JClear k, st) \<Rightarrow> {k} | _ \<Rightarrow> {})"

fun fenced :: "carrier_msg list \<Rightarrow> bool" where
  "fenced [] = True"
| "fenced (m # ms) = ((\<forall>k g p. m = MsgClear k \<longrightarrow> MsgFiller g p \<in> set ms \<longrightarrow> k \<le> g) \<and> fenced ms)"

lemma fenced_snoc: "fenced (ms @ [m]) \<longleftrightarrow> fenced ms \<and> (\<forall>g p. m = MsgFiller g p \<longrightarrow> (\<forall>k \<in> clears ms. k \<le> g))"
proof (induction ms)
  case (Cons x ms)
  have "(\<forall>k g p. x = MsgClear k \<longrightarrow> MsgFiller g p \<in> set (ms @ [m]) \<longrightarrow> k \<le> g) \<longleftrightarrow>
    (\<forall>k g p. x = MsgClear k \<longrightarrow> MsgFiller g p \<in> set ms \<longrightarrow> k \<le> g) \<and> (\<forall>k g p. x = MsgClear k \<longrightarrow> m = MsgFiller g p \<longrightarrow> k \<le> g)"
    by auto
  with Cons show ?case by (auto simp: clears_def)
qed (simp add: clears_def)

lemma fenced_split: "fenced (a @ MsgClear k # b) \<Longrightarrow> MsgFiller g p \<in> set b \<Longrightarrow> k \<le> g"
  by (induction a) auto

definition fence_inv :: "relay \<Rightarrow> bool" where
  "fence_inv r \<longleftrightarrow> fenced (wire r) \<and> (\<forall>k \<in> clears (wire r) \<union> pending_clears r. k \<le> fill_gen r) \<and>
     (\<forall>w j g p x. writeSem r = Some (w, j, Ready (MsgFiller g p) x) \<longrightarrow> (\<forall>k \<in> clears (wire r). k \<le> g))"

lemma fence_frame:
  assumes "fence_inv r" "wire r' = wire r" "fill_gen r \<le> fill_gen r'"
    and p: "\<And>k. k \<in> pending_clears r' \<Longrightarrow> k \<in> pending_clears r \<or> k \<le> fill_gen r'"
    and w: "\<And>w j g p x. writeSem r' = Some (w, j, Ready (MsgFiller g p) x) \<Longrightarrow> writeSem r' = writeSem r"
  shows "fence_inv r'"
proof -
  have "k \<le> fill_gen r'" if "k \<in> clears (wire r') \<union> pending_clears r'" for k
  proof -
    have "k \<in> clears (wire r) \<union> pending_clears r \<or> k \<le> fill_gen r'" using that p assms(2) by auto
    moreover have "k \<le> fill_gen r" if "k \<in> clears (wire r) \<union> pending_clears r" using that assms(1) by (simp add: fence_inv_def)
    ultimately show ?thesis using assms(3) by fastforce
  qed
  moreover have "k \<le> g" if "writeSem r' = Some (v, j, Ready (MsgFiller g q) x)" "k \<in> clears (wire r')" for v j g q x k
  proof -
    have "writeSem r = Some (v, j, Ready (MsgFiller g q) x)" using w [OF that(1)] that(1) by simp
    with assms(1,2) that(2) show ?thesis unfolding fence_inv_def by metis
  qed
  ultimately show ?thesis using assms(1,2) by (auto simp: fence_inv_def)
qed

lemma fence_read:
  assumes st: "read_step a r = Some r'" and inv: "fence_inv r"
  shows "fence_inv r'"
proof (rule fence_frame [OF inv])
  show "wire r' = wire r" "fill_gen r \<le> fill_gen r'" using viewD(1) [OF read_frame(1) [OF st]] read_frame(3) [OF st] .
  have s: "selPC r' = selPC r" using viewD(2) [OF read_frame(1) [OF st]] .
  show "writeSem r' = Some (w, j, Ready (MsgFiller g p) x) \<Longrightarrow> writeSem r' = writeSem r" for w j g p x
    using read_frame(5) [OF st] by auto
  show "k \<in> pending_clears r \<or> k \<le> fill_gen r'" if "k \<in> pending_clears r'" for k
  proof (cases a)
    case ReadNext
    then have w: "writeSem r' = writeSem r"
      using st by (auto simp: readNext_def split: read_pc.splits prod.splits elim!: silence_doE fill_stopE)
    have "(case readPC r' of RClearQ p k \<Rightarrow> k \<le> fill_gen r' | _ \<Rightarrow> True)"
      using st ReadNext by (auto simp: readNext_def afterClear_def split: read_pc.splits prod.splits option.splits if_splits)
    with that s w show ?thesis by (auto simp: pending_clears_def split: read_pc.splits)
  next
    case ReadAcquire
    with st that s show ?thesis by (auto simp: pending_clears_def acquire_def split: read_pc.splits if_splits job.splits)
  qed (use st that s in \<open>auto simp: pending_clears_def readEvent_def split: read_pc.splits if_splits sink_call.splits\<close>)
qed

lemma fence_env: "env_step a r = Some r' \<Longrightarrow> fence_inv r \<Longrightarrow> fence_inv r'"
  using env_frame [of a r r'] viewD [of r' r] by (auto intro!: fence_frame [of r r'] simp: pending_clears_def)

lemma pending_release: "pending_clears (release out w r) \<subseteq> pending_clears r"
  by (cases w; cases "readPC r"; cases "selPC r";
      auto simp: release_def leave_fill_def fill_do_def pending_clears_def afterClear_def split: option.splits if_splits)

lemma fence_release: "fence_inv r \<Longrightarrow> fence_inv (release out w r)"
proof (rule fence_frame)
  show "wire (release out w r) = wire r" "fill_gen r \<le> fill_gen (release out w r)" "\<And>w' j g p x. writeSem (release out w r) = Some (w', j, Ready (MsgFiller g p) x) \<Longrightarrow> writeSem (release out w r) = writeSem r"
    using release_other [where w = w and r = r and out = out] by (cases "w = WSelect"; auto simp: release_def view_def split: writer.splits)+
qed (use pending_release in auto)

lemma case_fence:
  assumes "sel_case a r = Some r'" "selPC r = SLoop"
  shows "wire r' = wire r" "fill r' = fill r" "writeSem r' = writeSem r" "readPC r' = readPC r" "\<And>e k. selPC r' \<noteq> FClearQ e k"
  using sel_case_still [OF assms] by (auto simp: still_def case_pc_def)

lemma next_fence:
  assumes "selNext r = Some r'"
  shows "wire r' = wire r" "fill_gen r \<le> fill_gen r'" "writeSem r' = writeSem r" "readPC r' = readPC r"
    "\<And>e k. selPC r' = FClearQ e k \<Longrightarrow> k \<le> fill_gen r'"
proof -
  have sh: "fill_gen x \<le> fill_gen (fill_do filler_shutdown x)" for x :: relay
    by (auto simp: fill_gen_def fill_do_def filler_shutdown_def cancelPendingLocked_def Let_def split: option.split)
  have mk: "fill_gen (marks_do f x) = fill_gen x" for f and x :: relay by (simp add: fill_gen_def marks_do_def)
  show "fill_gen r \<le> fill_gen r'"
    using assms order_trans [OF _ sh]
    by (auto simp: selNext_def mk split: sel_pc.splits if_splits option.splits prod.splits elim!: silence_doE fill_stopE)
  show "wire r' = wire r" "writeSem r' = writeSem r" "readPC r' = readPC r"
    using assms
    by (auto simp: selNext_def fill_do_def marks_do_def split: sel_pc.splits if_splits option.splits prod.splits elim!: silence_doE fill_stopE)
  show "k \<le> fill_gen r'" if "selPC r' = FClearQ e k" for e k
    using assms that by (auto simp: selNext_def fill_do_def marks_do_def split: sel_pc.splits if_splits option.splits prod.splits elim!: silence_doE)
qed

lemma fence_sel:
  assumes st: "sel_step a r = Some r'" and inv: "fence_inv r"
  shows "fence_inv r'"
proof -
  consider "a = SelNext" | "a = SelAcquire" | pc where "r' = r\<lparr>selPC := pc\<rparr>" "\<And>e k. pc \<noteq> FClearQ e k" | "selPC r = SLoop" "sel_case a r = Some r'"
    using st by (cases a) (auto split: if_splits sel_pc.splits option.splits simp: selJob_def)
  then show ?thesis
  proof cases
    case 1
    with st next_fence [of r r'] show ?thesis by (intro fence_frame [OF inv]) (auto simp: pending_clears_def split: sel_pc.splits)
  next
    case 2
    with st obtain j where "writeSem r = None" "selJob r = Some j" "r' = r\<lparr>writeSem := Some (WSelect, j, Building)\<rparr>"
      by (auto simp: acquire_def split: option.splits if_splits)
    then show ?thesis by (intro fence_frame [OF inv]) (auto simp: pending_clears_def selJob_def split: job.splits sel_pc.splits)
  next
    case 3
    then show ?thesis by (intro fence_frame [OF inv]) (auto simp: pending_clears_def split: sel_pc.splits)
  next
    case 4
    note f = case_fence [OF 4(2,1)]
    then show ?thesis by (intro fence_frame [OF inv]) (auto simp: pending_clears_def fill_gen_def split: sel_pc.splits)
  qed
qed

lemma build_filler: "build_job j r = (Some (MsgFiller g p, x), r1) \<Longrightarrow> fill_gen r = g"
  by (cases j) (auto simp: gatedMessage_def staticMessage_def nextFrame_def fill_gen_def Let_def split: if_splits option.splits prod.splits)

lemma fence_slot:
  assumes st: "slot_step a r = Some r'" and inv: "fence_inv r" and fi: "farewell_inv r"
  shows "fence_inv r'"
proof (cases a)
  case SlotBuild
  with st obtain w j where w: "writeSem r = Some (w, j, Building)" by (auto split: option.splits stage.splits)
  obtain res r1 where b: "build_job j r = (res, r1)" by (cases "build_job j r")
  note bf = build_frame [OF b]
  have i1: "fence_inv r1" using bf viewD [OF bf(1)] by (intro fence_frame [OF inv]) (auto simp: pending_clears_def)
  show ?thesis
  proof (cases res)
    case None
    with SlotBuild st w b have "r' = release Declined w r1" by simp
    with fence_release [OF i1] show ?thesis by simp
  next
    case (Some mg)
    with SlotBuild st w b obtain m x where m: "res = Some (m, x)" "r' = r1\<lparr>writeSem := Some (w, j, Ready m x)\<rparr>" by (cases mg) auto
    have "pending_clears r' = pending_clears r1" using m(2) w bf(4) by (auto simp: pending_clears_def split: job.split)
    moreover have "k \<le> g" if "m = MsgFiller g p" "k \<in> clears (wire r1)" for g p k
      using build_filler [of j r g p x r1] b m(1) that i1 bf(3) by (simp add: fence_inv_def)
    ultimately show ?thesis using i1 m(2) by (auto simp: fence_inv_def)
  qed
next
  case (SlotWrite okw)
  with st obtain w j m g where w: "writeSem r = Some (w, j, Ready m g)"
    and r': "r' = (if okw then r\<lparr>wire := wire r @ [m], writeSem := Some (w, j, Sent m g)\<rparr> else release Failed w r)"
    by (auto split: option.splits stage.splits if_splits)
  show ?thesis
  proof (cases okw)
    case True
    have jm: "job_msg j m g" using fi w by (simp add: farewell_inv_def slot_ok_def stage_ok_def)
    have p: "pending_clears r' = pending_clears r" using r' True w by (auto simp: pending_clears_def split: job.split)
    have c: "clears (wire r @ [m]) \<subseteq> clears (wire r) \<union> pending_clears r"
      using jm w by (cases j) (auto simp: clears_def pending_clears_def)
    have "fenced (wire r @ [m])" using inv w by (auto simp: fenced_snoc fence_inv_def)
    with True r' p c inv show ?thesis by (auto simp: fence_inv_def)
  qed (use r' fence_release [OF inv] in simp)
next
  case (SlotAfter now)
  with st obtain w j m g r1 where w: "writeSem r = Some (w, j, Sent m g)" and af: "after_job now m g r = Some r1" and r': "r' = release Wrote w r1"
    by (auto split: option.splits stage.splits)
  note f = after_frame [OF af]
  have "fence_inv r1" using f viewD [OF f(1)] by (intro fence_frame [OF inv]) (auto simp: pending_clears_def fill_gen_def)
  then show ?thesis unfolding r' by (rule fence_release)
next
  case (PlayerAcquire g)
  with st have "writeSem r = None" "r' = r\<lparr>writeSem := Some (WPlayer g, JFiller g, Building)\<rparr>"
    by (auto simp: acquire_def split: option.splits if_splits)
  then show ?thesis by (intro fence_frame [OF inv]) (auto simp: pending_clears_def)
qed


lemma reach_fence: "relay_reach r \<Longrightarrow> fence_inv r"
proof (induction rule: relay_reach.induct)
  case (relay_init cfg co start)
  have "wire (newRelay cfg co start) = []" "writeSem (newRelay cfg co start) = None" "readPC (newRelay cfg co start) = RWait" "selPC (newRelay cfg co start) = SLoop"
    by (simp_all add: newRelay_def newCarrierMediaSink_def Let_def carrierMediaSink.defs relay.defs)
  then show ?case by (simp add: fence_inv_def clears_def pending_clears_def)
next
  case (relay_next r a r')
  then show ?case
    by (cases a) (auto intro: fence_read fence_env fence_slot [OF _ _ reach_farewell] fence_sel
        simp del: read_step.simps env_step.simps slot_step.simps sel_step.simps)
qed

end
