(* ===== verification/RelayProps.thy ===== *)
theory RelayProps
  imports RelaySilence RelayFence
begin

text \<open>The properties of a realtime call, each read off the invariants of the relay.\<close>

section \<open>Demonstration runs\<close>

definition demo_cfg :: realtimeConfig where
  "demo_cfg = resolveRealtimeConfig [WithIdleTimeout 5, WithCallerSilenceTimeout 7, WithFarewellAudio [1]]"

definition demo_consumer :: consumer where
  "demo_consumer = \<lparr>coEvents = None, coTranscripts = None, coAudio = None, coInbound = None, coEchoes = None\<rparr>"

definition write_acts :: "relay_act list" where
  "write_acts = [ASlot SlotBuild, ASlot (SlotWrite True), ASlot (SlotAfter 0)]"

text \<open>The idle guard runs out and the farewell is played up to the wait for its mark.\<close>

definition farewell_acts :: "relay_act list" where
  "farewell_acts =
     [AEnv IdleElapses, ASel SelIdle, ASel SelNext, ASel SelNext, ASel SelNext, ASel SelAcquire] @ write_acts @
     [ASel SelNext, ASel SelNext, ASel SelNext, ASel SelAcquire] @ write_acts @
     [ASel SelNext, ASel SelNext, ASel SelAcquire] @ write_acts"

definition server_event :: "string \<Rightarrow> string \<Rightarrow> ServerEvent" where
  "server_event t d = the (case readServerEvent (Some (JObj [(''type'', JStr t), (''delta'', JStr d)])) of Inr ev \<Rightarrow> Some ev | Inl _ \<Rightarrow> None)"

text \<open>The agent speaks, its turn ends, the playout mark is written and taken as played, the count runs out.\<close>

definition silence_acts :: "relay_act list" where
  "silence_acts =
     [ARead (BackendEvent (server_event EventAudioDelta ''AQID'')), ARead ReadNext, ARead ReadNext, ARead ReadAcquire] @ write_acts @
     [ARead (BackendEvent (server_event EventResponseDone '''')),
      AEnv DrainTake, AEnv DrainSilence, AEnv DrainDeliver, AEnv DrainTake, AEnv DrainSilence, AEnv DrainDeliver,
      ASel SelMarkDue, ASel SelAcquire] @ write_acts @
     [AEnv (BoundElapses ''aatoolkit-playout--1'' 1), AEnv (BoundExpires ''aatoolkit-playout--1'' 1),
      AEnv (CountRunsOut 1), AEnv (CountFires 1)]"

text \<open>A barge-in before anything played, then the filler across the caller's next wait, up to its first frame.\<close>

definition fence_acts :: "relay_act list" where
  "fence_acts =
     [ARead (BackendEvent (server_event EventSpeechStarted [])), ARead ReadNext, ARead ReadNext, ARead ReadNext, ARead ReadAcquire] @ write_acts @
     [ARead (BackendEvent (server_event EventSpeechStopped [])),
      AEnv DrainTake, AEnv DrainSilence, AEnv DrainDeliver, AEnv DrainTake,
      AEnv (FillFires 3 armedByTurn), AEnv (FillStart 3 armedByTurn), ASlot (PlayerAcquire 3)]"

definition demo_fence :: relay where
  "demo_fence = newRelay (resolveRealtimeConfig [WithFillerAudio \<lparr>fcLoop = [0], fcDelay = 1\<rparr>]) demo_consumer zeroFrame"

definition demo_relay :: relay where
  "demo_relay = newRelay demo_cfg demo_consumer zeroFrame"

lemma relay_run_reach: "relay_run as r = Some r' \<Longrightarrow> relay_reach r \<Longrightarrow> relay_reach r'"
  by (induction "as" r rule: relay_run.induct) (auto intro: relay_reach.relay_next split: option.splits)

lemma demo_farewell: "map_option (\<lambda>r. (wire r, selPC r)) (relay_run farewell_acts demo_relay) =
    Some ([MsgClear 0, MsgFarewell ''AQ=='', MsgMark ''aatoolkit-farewell-''], FWait EndIdle 0)"
  by code_simp

lemma demo_silence: "map_option (\<lambda>r. (wire r, map_option (fst \<circ> silence_end) (silence r))) (relay_run silence_acts demo_relay) =
    Some ([MsgBackend ''AQID'', MsgMark ''aatoolkit-playout--1''], Some True)"
  by code_simp

lemma demo_fence_run:
  "map_option (\<lambda>r. (wire r, writeSem r, connOpen r, map_option (\<lambda>f. (fStopped f, fGen f, fPlaying f)) (fill r))) (relay_run fence_acts demo_fence) =
    Some ([MsgClear 2], Some (WPlayer 3, JFiller 3, Building), True, Some (False, 3, True))"
  by code_simp

section \<open>Properties\<close>

text \<open>C6: a farewell is never cut or talked over.  In every reachable state of a call, from the first
  farewell frame on, the carrier's wire holds nothing but the clip's frames in order and after them the
  farewell's mark, whatever the backend, the filler and the timers did meanwhile; the frames decode to
  the clip.\<close>

theorem farewell_uncut:
  assumes "relay_reach r"
  shows "prefix (dropWhile (\<lambda>m. \<not> is_farewell m) (wire r))
      (map (\<lambda>c. MsgFarewell (b64enc c)) (chunks defaultFrameBytes (farewellClip r)) @ [MsgMark (farewellMark r)]) \<and>
    concat (map (\<lambda>c. the (b64dec (b64enc c))) (chunks defaultFrameBytes (farewellClip r))) = farewellClip r"
proof -
  have "farewell_phase r" using reach_farewell [OF assms] by (simp add: farewell_inv_def)
  from phase_prefix [OF this] show ?thesis
    by (simp add: spoken_def farewellMsgs_def b64_roundtrip concat_chunks defaultFrameBytes_eq)
qed

theorem farewell_uncut_witness:
  "\<exists>r. relay_reach r \<and> wire r = [MsgClear 0, MsgFarewell ''AQ=='', MsgMark ''aatoolkit-farewell-''] \<and>
     prefix (dropWhile (\<lambda>m. \<not> is_farewell m) (wire r))
      (map (\<lambda>c. MsgFarewell (b64enc c)) (chunks defaultFrameBytes (farewellClip r)) @ [MsgMark (farewellMark r)])"
proof -
  from demo_farewell obtain r where r: "relay_run farewell_acts demo_relay = Some r"
      "wire r = [MsgClear 0, MsgFarewell ''AQ=='', MsgMark ''aatoolkit-farewell-'']" by auto
  have "relay_reach r" using relay_run_reach [OF r(1)] relay_reach.relay_init by (simp add: demo_relay_def)
  with r(2) farewell_uncut [OF this] show ?thesis by blast
qed

text \<open>C7: hanging up never hangs.  Whenever the select loop waits for the farewell's mark, the wait can be
  ended by the mark's own bound alone: at most its timer firing and its callback running close the
  channel the loop waits on, with no help from the carrier, and the loop goes on to tear the call down.\<close>

theorem farewell_wait_ends:
  assumes "relay_reach r" "selPC r = FWait e c"
  shows "\<exists>g as r'. set as \<subseteq> {AEnv (BoundElapses (farewellMark r) g), AEnv (BoundExpires (farewellMark r) g)} \<and> length as \<le> 2 \<and>
    relay_run (as @ [ASel SelPlayed]) r = Some r' \<and> selPC r' = STeardown e 0"
proof -
  let ?n = "farewellMark r"
  obtain t rs where t: "marks r = Some t" "guarded ?n c t" "mark_reach t rs"
    using reach_tracker [OF assms(1)] assms(2) by (fastforce simp: tracker_ok_def)
  show ?thesis
  proof (cases "c \<in> set (awaitsClosed t)")
    case True
    then show ?thesis using assms(2) t(1) by (intro exI [of _ 0] exI [of _ "[]"]) simp
  next
    case False
    with t(2) obtain g where w: "awaitCh t = Some c" "awaitName t = ?n" "\<not> mtStopped t" "outstanding t ?n = Some \<lparr>omGen = g, omPlayed = None\<rparr>"
      by (auto simp: guarded_def)
    then have b: "(?n, g) \<in> set (boundPending t) \<union> set (boundFiring t)" using reach_marks_inv [OF t(3)] by (fastforce simp: marks_inv_def)
    have ex: "relay_run [AEnv (BoundExpires ?n g), ASel SelPlayed] (r\<lparr>marks := Some u\<rparr>) = Some r' \<longrightarrow> selPC r' = STeardown e 0"
      "\<exists>r'. relay_run [AEnv (BoundExpires ?n g), ASel SelPlayed] (r\<lparr>marks := Some u\<rparr>) = Some r'"
      if "awaitCh u = Some c" "awaitName u = ?n" "\<not> mtStopped u" "outstanding u ?n = Some \<lparr>omGen = g, omPlayed = None\<rparr>" "(?n, g) \<in> set (boundFiring u)"
      for u r'
      using that assms(2) by (auto simp: boundExpires_def expire_def resolveAwaitLocked_def report_def Let_def)
    show ?thesis
    proof (cases "(?n, g) \<in> set (boundFiring t)")
      case True
      have "r\<lparr>marks := Some t\<rparr> = r" using t(1) by simp
      with ex [OF w True] show ?thesis
        by (intro exI [of _ g] exI [of _ "[AEnv (BoundExpires ?n g)]"]) (auto simp del: relay_run.simps)
    next
      case pend: False
      let ?u = "t\<lparr>boundPending := filter (\<lambda>x. x \<noteq> (?n, g)) (boundPending t), boundFiring := boundFiring t @ [(?n, g)]\<rparr>"
      have "relay_run [AEnv (BoundElapses ?n g), AEnv (BoundExpires ?n g), ASel SelPlayed] r =
          relay_run [AEnv (BoundExpires ?n g), ASel SelPlayed] (r\<lparr>marks := Some ?u\<rparr>)"
        using b pend t(1) by (subst relay_run.simps(2)) (simp add: tracker_step_def del: relay_run.simps)
      with ex [of ?u] w show ?thesis
        by (intro exI [of _ g] exI [of _ "[AEnv (BoundElapses ?n g), AEnv (BoundExpires ?n g)]"]) (auto simp del: relay_run.simps)
    qed
  qed
qed

theorem farewell_wait_ends_witness:
  "\<exists>r as r'. relay_reach r \<and> selPC r = FWait EndIdle 0 \<and> relay_run (as @ [ASel SelPlayed]) r = Some r' \<and> selPC r' = STeardown EndIdle 0"
proof -
  from demo_farewell obtain r where r: "relay_run farewell_acts demo_relay = Some r" "selPC r = FWait EndIdle 0" by auto
  have "relay_reach r" using relay_run_reach [OF r(1)] relay_reach.relay_init by (simp add: demo_relay_def)
  with r(2) farewell_wait_ends [OF this r(2)] show ?thesis by blast
qed







end
