(* ===== verification/GoText.thy ===== *)
theory GoText
  imports Prelude
begin

text \<open>
  More of Go's text helpers, used by the configuration and the server supervisor: \<open>strings.Cut\<close>, \<open>Fields\<close>,
  \<open>Split\<close>, \<open>TrimPrefix\<close>, \<open>TrimSuffix\<close>, \<open>ReplaceAll\<close>, \<open>EqualFold\<close> and \<open>ToUpper\<close> on ASCII letters,
  and \<open>path/filepath\<close> on Unix (\<open>Clean\<close>, \<open>Join\<close>, \<open>IsAbs\<close>, \<open>Dir\<close>, \<open>Base\<close>).
\<close>

section \<open>Splitting\<close>

text \<open>\<open>strings.Cut(s, sep)\<close>: the text before and after the first \<open>sep\<close>, or \<open>None\<close> when there is none.\<close>

fun cut :: "string \<Rightarrow> string \<Rightarrow> (string \<times> string) option" where
  "cut sep [] = (if sep = [] then Some ([], []) else None)"
| "cut sep (c # s) =
     (if has_prefix sep (c # s) then Some ([], drop (length sep) (c # s))
      else map_option (\<lambda>(a, b). (c # a, b)) (cut sep s))"

text \<open>\<open>strings.Split\<close> for a separator of one byte.\<close>

fun split_on :: "'a \<Rightarrow> 'a list \<Rightarrow> 'a list list" where
  "split_on d [] = [[]]"
| "split_on d (c # s) =
     (if c = d then [] # split_on d s
      else (case split_on d s of [] \<Rightarrow> [[c]] | w # ws \<Rightarrow> (c # w) # ws))"

text \<open>
  \<open>strings.Fields\<close>: the maximal runs of bytes that are not part of a white-space rune.
\<close>

function fields_from :: "string \<Rightarrow> string \<Rightarrow> string list" where
  "fields_from acc s =
     (if s = [] then (if acc = [] then [] else [rev acc])
      else let n = lead_len space_runes s in
        if n = 0 then fields_from (hd s # acc) (tl s)
        else (if acc = [] then [] else [rev acc]) @ fields_from [] (drop n s))"
  by pat_completeness auto
termination
  by (relation "measure (\<lambda>(acc, s). length s)") auto

declare fields_from.simps [simp del]

definition strFields :: "string \<Rightarrow> string list" where
  "strFields s = fields_from [] s"

text \<open>A word is a non-empty string with no white-space rune in it.\<close>

definition is_word :: "string \<Rightarrow> bool" where
  "is_word w \<longleftrightarrow> w \<noteq> [] \<and> list_all (\<lambda>i. lead_len space_runes (drop i w) = 0) [0..<length w]"

section \<open>Replacing, trimming, folding\<close>

definition trimPrefix :: "string \<Rightarrow> string \<Rightarrow> string" where
  "trimPrefix p s = (if has_prefix p s then drop (length p) s else s)"

definition has_suffix :: "string \<Rightarrow> string \<Rightarrow> bool" where
  "has_suffix p s = has_prefix (rev p) (rev s)"

definition trimSuffix :: "string \<Rightarrow> string \<Rightarrow> string" where
  "trimSuffix p s = (if has_suffix p s then take (length s - length p) s else s)"

text \<open>\<open>strings.ReplaceAll\<close> of one byte.\<close>

definition replace_char :: "char \<Rightarrow> string \<Rightarrow> string \<Rightarrow> string" where
  "replace_char c r s = concat (map (\<lambda>x. if x = c then r else [x]) s)"

definition toUpper_char :: "char \<Rightarrow> char" where
  "toUpper_char c =
     (if 97 \<le> (of_char c :: nat) \<and> (of_char c :: nat) \<le> 122
      then char_of (of_char c - 32 :: nat) else c)"

definition toUpper :: "string \<Rightarrow> string" where
  "toUpper = map toUpper_char"

text \<open>
  \<open>strings.EqualFold\<close> against an ASCII word none of whose letters is folded from a non-ASCII rune.
\<close>

definition equalFold :: "string \<Rightarrow> string \<Rightarrow> bool" where
  "equalFold s t \<longleftrightarrow> toLower s = toLower t"

section \<open>File paths\<close>

definition isAbs :: "string \<Rightarrow> bool" where
  "isAbs p \<longleftrightarrow> has_prefix ''/'' p"

text \<open>One element of a path pushed on the cleaned elements so far, which are kept last first.\<close>

definition clean_push :: "bool \<Rightarrow> string list \<Rightarrow> string \<Rightarrow> string list" where
  "clean_push rooted st e =
     (if e = [] \<or> e = ''.'' then st
      else if e = ''..'' then
        (if st \<noteq> [] \<and> hd st \<noteq> ''..'' then tl st else if rooted then st else ''..'' # st)
      else e # st)"

definition clean :: "string \<Rightarrow> string" where
  "clean p =
     (let rooted = isAbs p;
          es = rev (foldl (clean_push rooted) [] (split_on (CHR ''/'') p))
      in if rooted then CHR ''/'' # joinWith ''/'' es
         else if es = [] then ''.'' else joinWith ''/'' es)"

definition joinPath :: "string list \<Rightarrow> string" where
  "joinPath es =
     (let ne = filter (\<lambda>e. e \<noteq> []) es in if ne = [] then [] else clean (joinWith ''/'' ne))"

definition dirPath :: "string \<Rightarrow> string" where
  "dirPath p = clean (rev (dropWhile (\<lambda>c. c \<noteq> CHR ''/'') (rev p)))"

definition basePath :: "string \<Rightarrow> string" where
  "basePath p =
     (if p = [] then ''.''
      else let q = trimRight ''/'' p in
        if q = [] then ''/'' else rev (takeWhile (\<lambda>c. c \<noteq> CHR ''/'') (rev q)))"

end
