(* ===== verification/Config.thy ===== *)
theory Config
  imports GoText
begin

text \<open>
  The supervisor's configuration (\<open>config/types.go\<close>, \<open>validate.go\<close>, \<open>lookup.go\<close>, \<open>load.go\<close>): the records
  of a configuration file, the hand-written decoders of the \<open>health\<close> and \<open>warm\<close> keys, the structural
  validation and the loader.  The TOML parser and the file system are parameters of the loader.

  A Go map is the list of its entries, whose keys are distinct.  Errors are the constructors of one type,
  one for each \<open>fmt.Errorf\<close> of the source, carrying the values the message names.
\<close>

section \<open>Data\<close>

type_synonym envmap = "(string \<times> string) list"

record Supervisor =
  LogDir :: string
  LockFile :: string
  supGracePeriod :: duration
  supReadyTimeout :: duration
  PollInterval :: duration
  HealthTimeout :: duration
  BaseDir :: string

definition DefaultGracePeriod :: duration where "DefaultGracePeriod = 5 * second"
definition DefaultReadyTimeout :: duration where "DefaultReadyTimeout = 15 * second"
definition DefaultPollInterval :: duration where "DefaultPollInterval = 500 * millisecond"
definition DefaultHealthTimeout :: duration where "DefaultHealthTimeout = 2 * second"

definition applyDefaults :: "Supervisor \<Rightarrow> Supervisor" where
  "applyDefaults s =
     (let s1 = (if supGracePeriod s = 0 then s\<lparr>supGracePeriod := DefaultGracePeriod\<rparr> else s);
          s2 = (if supReadyTimeout s1 = 0 then s1\<lparr>supReadyTimeout := DefaultReadyTimeout\<rparr> else s1);
          s3 = (if PollInterval s2 = 0 then s2\<lparr>PollInterval := DefaultPollInterval\<rparr> else s2)
      in if HealthTimeout s3 = 0 then s3\<lparr>HealthTimeout := DefaultHealthTimeout\<rparr> else s3)"

type_synonym ServerType = string

definition TypeMLX :: ServerType where "TypeMLX = ''mlx''"
definition TypePython :: ServerType where "TypePython = ''python''"
definition TypeExec :: ServerType where "TypeExec = ''exec''"
definition TypeSource :: ServerType where "TypeSource = ''source''"

lemmas server_type_defs = TypeMLX_def TypePython_def TypeExec_def TypeSource_def

record SourceExec =
  seBuild :: string
  seBinary :: string

definition source_Declared :: "SourceExec \<Rightarrow> bool" where
  "source_Declared se \<longleftrightarrow> seBuild se \<noteq> '''' \<or> seBinary se \<noteq> ''''"

record Health =
  hHost :: string
  hPort :: int
  hPath :: string
  hExec :: "string list"
  hSource :: SourceExec

definition health_IsExec :: "Health \<Rightarrow> bool" where
  "health_IsExec h \<longleftrightarrow> length (hExec h) > 0"

definition health_Declared :: "Health \<Rightarrow> bool" where
  "health_Declared h \<longleftrightarrow> hPath h \<noteq> '''' \<or> health_IsExec h"

record Warm =
  wHost :: string
  wPort :: int
  wMethod :: string
  wPath :: string
  wBody :: string

record PromptSpec =
  Question :: string
  YesArgs :: "string list"
  NoArgs :: "string list"
  YesEnv :: envmap
  NoEnv :: envmap

record Server =
  sName :: string
  sType :: ServerType
  Enabled :: bool
  sHost :: string
  Prompt :: "PromptSpec option"
  sPort :: int
  Listens :: "int list"
  Model :: string
  Drafter :: string
  Venv :: string
  Entry :: string
  Packages :: "string list"
  sBuild :: string
  sBinary :: string
  sDir :: string
  Command :: string
  Args :: "string list"
  Detached :: bool
  TeardownArgs :: "string list"
  sHealth :: Health
  sWarm :: Warm
  Env :: envmap
  sGracePeriod :: duration
  sReadyTimeout :: duration

record Config =
  cfgSupervisor :: Supervisor
  Servers :: "Server list"

definition zeroSource :: SourceExec where "zeroSource = \<lparr>seBuild = '''', seBinary = ''''\<rparr>"

definition zeroHealth :: Health where
  "zeroHealth = \<lparr>hHost = '''', hPort = 0, hPath = '''', hExec = [], hSource = zeroSource\<rparr>"

definition zeroWarm :: Warm where
  "zeroWarm = \<lparr>wHost = '''', wPort = 0, wMethod = '''', wPath = '''', wBody = ''''\<rparr>"

definition zeroServer :: Server where
  "zeroServer =
     \<lparr>sName = '''', sType = '''', Enabled = False, sHost = '''', Prompt = None, sPort = 0, Listens = [], Model = '''',
      Drafter = '''', Venv = '''', Entry = '''', Packages = [], sBuild = '''', sBinary = '''', sDir = '''',
      Command = '''', Args = [], Detached = False, TeardownArgs = [], sHealth = zeroHealth, sWarm = zeroWarm,
      Env = [], sGracePeriod = 0, sReadyTimeout = 0\<rparr>"

section \<open>The decoders of \<open>health\<close> and \<open>warm\<close>\<close>

text \<open>
  The values the TOML decoder hands to \<open>UnmarshalTOML\<close>: strings, 64-bit integers, arrays, arrays of tables,
  tables, and the rest (floats, booleans, dates) by the name of its Go type.
\<close>

datatype toml =
    TomlString string
  | TomlInt int
  | TomlArray "toml list"
  | TomlTables "(string \<times> toml) list list"
  | TomlTable "(string \<times> toml) list"
  | TomlOther string

datatype toml_error =
    HealthStringForm string
  | HealthMethod string string
  | HealthNotTable toml
  | ExecNotArray toml
  | ExecEmpty
  | ExecElement nat toml
  | SourceNotTable toml
  | WarmStringForm string
  | WarmPath string string
  | WarmNotString toml

fun toml_string :: "toml \<Rightarrow> string option" where
  "toml_string (TomlString s) = Some s"
| "toml_string _ = None"

fun toml_int :: "toml \<Rightarrow> int option" where
  "toml_int (TomlInt i) = Some i"
| "toml_int _ = None"

definition get_string :: "(string \<times> toml) list \<Rightarrow> string \<Rightarrow> string option" where
  "get_string t k = Option.bind (map_of t k) toml_string"

definition get_int :: "(string \<times> toml) list \<Rightarrow> string \<Rightarrow> int option" where
  "get_int t k = Option.bind (map_of t k) toml_int"

fun execArgv_from :: "nat \<Rightarrow> toml list \<Rightarrow> toml_error + string list" where
  "execArgv_from i [] = Inr []"
| "execArgv_from i (e # es) =
     (case toml_string e of
        None \<Rightarrow> Inl (ExecElement i e)
      | Some s \<Rightarrow> (case execArgv_from (Suc i) es of Inl err \<Rightarrow> Inl err | Inr argv \<Rightarrow> Inr (s # argv)))"

fun execArgv :: "toml \<Rightarrow> toml_error + string list" where
  "execArgv (TomlArray elems) = (if elems = [] then Inl ExecEmpty else execArgv_from 0 elems)"
| "execArgv raw = Inl (ExecNotArray raw)"

fun sourceExecFrom :: "toml \<Rightarrow> toml_error + SourceExec" where
  "sourceExecFrom (TomlTable t) =
     (let se = (case get_string t ''build'' of Some b \<Rightarrow> zeroSource\<lparr>seBuild := b\<rparr> | None \<Rightarrow> zeroSource)
      in Inr (case get_string t ''binary'' of Some b \<Rightarrow> se\<lparr>seBinary := b\<rparr> | None \<Rightarrow> se))"
| "sourceExecFrom raw = Inl (SourceNotTable raw)"

text \<open>\<open>Health.UnmarshalTOML\<close> and \<open>Warm.UnmarshalTOML\<close>, as functions of the value decoded into.\<close>

fun health_UnmarshalTOML :: "Health \<Rightarrow> toml \<Rightarrow> toml_error + Health" where
  "health_UnmarshalTOML h (TomlString v) =
     (case cut '' '' v of
        None \<Rightarrow> Inl (HealthStringForm v)
      | Some (method, path) \<Rightarrow>
          if path = '''' then Inl (HealthStringForm v)
          else if \<not> equalFold method ''GET'' then Inl (HealthMethod method v)
          else Inr (h\<lparr>hPath := path\<rparr>))"
| "health_UnmarshalTOML h (TomlTable t) =
     (let h1 = (case get_string t ''host'' of Some x \<Rightarrow> h\<lparr>hHost := x\<rparr> | None \<Rightarrow> h);
          h2 = (case get_int t ''port'' of Some x \<Rightarrow> h1\<lparr>hPort := x\<rparr> | None \<Rightarrow> h1);
          h3 = (case get_string t ''path'' of Some x \<Rightarrow> h2\<lparr>hPath := x\<rparr> | None \<Rightarrow> h2)
      in case (case map_of t ''exec'' of
                 None \<Rightarrow> Inr h3
               | Some raw \<Rightarrow> (case execArgv raw of Inl e \<Rightarrow> Inl e | Inr argv \<Rightarrow> Inr (h3\<lparr>hExec := argv\<rparr>))) of
           Inl e \<Rightarrow> Inl e
         | Inr h4 \<Rightarrow>
             (case map_of t ''source'' of
                None \<Rightarrow> Inr h4
              | Some raw \<Rightarrow> (case sourceExecFrom raw of Inl e \<Rightarrow> Inl e | Inr src \<Rightarrow> Inr (h4\<lparr>hSource := src\<rparr>))))"
| "health_UnmarshalTOML h v = Inl (HealthNotTable v)"

fun warm_UnmarshalTOML :: "Warm \<Rightarrow> toml \<Rightarrow> toml_error + Warm" where
  "warm_UnmarshalTOML w (TomlString v) =
     (case cut '' '' (trimSpace v) of
        None \<Rightarrow> Inl (WarmStringForm v)
      | Some (method, rest) \<Rightarrow>
          if rest = '''' then Inl (WarmStringForm v)
          else let (path, body) = (case cut '' '' rest of Some pb \<Rightarrow> pb | None \<Rightarrow> (rest, '''')) in
            if \<not> has_prefix ''/'' path then Inl (WarmPath path v)
            else Inr (w\<lparr>wMethod := toUpper method, wPath := path, wBody := trimSpace body\<rparr>))"
| "warm_UnmarshalTOML w v = Inl (WarmNotString v)"

section \<open>Validation\<close>

definition reservedNames :: "string list" where
  "reservedNames =
     [''status'', ''up'', ''down'', ''dead'', ''build'', ''logs'', ''details'', ''help'', ''quit'', ''exit'', ''bye'']"

datatype config_error =
    NameRequired
  | NameReserved string
  | NameDuplicate string
  | MlxNeedsModel string
  | PythonNeedsFields string
  | SourceNeedsFields string
  | DirNeedsGo string string
  | ExecNeedsCommand string
  | DetachedNeedsTeardown string
  | TeardownNeedsDetached string
  | UnknownType string ServerType
  | NoPorts string
  | PortCollision string int string
  | HealthBothForms string
  | HealthRequired string
  | SourceNeedsExec string
  | ExecHost string
  | ExecPort string
  | ExecWarm string
  | ProbeNeedsBuild string
  | ProbeNeedsBinary string
  | ProbeMismatch string string string
  | HealthPortRequired string
  | HealthPortUndeclared string int "int list"
  | PromptNeedsQuestion string
  | PromptIneffective string
  | PromptUnsupported string ServerType

fun err_server :: "config_error \<Rightarrow> string" where
  "err_server NameRequired = ''''"
| "err_server (NameReserved n) = n" | "err_server (NameDuplicate n) = n" | "err_server (MlxNeedsModel n) = n"
| "err_server (PythonNeedsFields n) = n" | "err_server (SourceNeedsFields n) = n" | "err_server (DirNeedsGo n _) = n"
| "err_server (ExecNeedsCommand n) = n" | "err_server (DetachedNeedsTeardown n) = n"
| "err_server (TeardownNeedsDetached n) = n" | "err_server (UnknownType n _) = n" | "err_server (NoPorts n) = n"
| "err_server (PortCollision n _ _) = n" | "err_server (HealthBothForms n) = n" | "err_server (HealthRequired n) = n"
| "err_server (SourceNeedsExec n) = n" | "err_server (ExecHost n) = n" | "err_server (ExecPort n) = n"
| "err_server (ExecWarm n) = n" | "err_server (ProbeNeedsBuild n) = n" | "err_server (ProbeNeedsBinary n) = n"
| "err_server (ProbeMismatch n _ _) = n" | "err_server (HealthPortRequired n) = n"
| "err_server (HealthPortUndeclared n _ _) = n" | "err_server (PromptNeedsQuestion n) = n"
| "err_server (PromptIneffective n) = n" | "err_server (PromptUnsupported n _) = n"

text \<open>
  The two maps threaded through the loop: the names seen, and the server that owns each port.
\<close>

definition validateName :: "Server \<Rightarrow> string list \<Rightarrow> config_error + string list" where
  "validateName s seen =
     (if sName s = '''' then Inl NameRequired
      else if sName s \<in> set reservedNames then Inl (NameReserved (sName s))
      else if sName s \<in> set seen then Inl (NameDuplicate (sName s))
      else Inr (sName s # seen))"

definition serverPortSet :: "Server \<Rightarrow> int list" where
  "serverPortSet s = (if sPort s \<noteq> 0 then [sPort s] else []) @ Listens s"

fun claimPorts :: "string \<Rightarrow> int list \<Rightarrow> (int \<times> string) list \<Rightarrow> config_error + (int \<times> string) list" where
  "claimPorts n [] owners = Inr owners"
| "claimPorts n (p # ps) owners =
     (case map_of owners p of
        Some owner \<Rightarrow> Inl (PortCollision n p owner)
      | None \<Rightarrow> claimPorts n ps ((p, n) # owners))"

definition validatePorts :: "Server \<Rightarrow> (int \<times> string) list \<Rightarrow> config_error + (int \<times> string) list" where
  "validatePorts s owners =
     (let ports = serverPortSet s in
      if length ports = 0 then Inl (NoPorts (sName s)) else claimPorts (sName s) ports owners)"

definition validateType :: "Server \<Rightarrow> config_error option" where
  "validateType s =
     (if sType s = TypeMLX then
        (if Model s = '''' then Some (MlxNeedsModel (sName s)) else None)
      else if sType s = TypePython then
        (if Venv s = '''' \<or> Entry s = '''' \<or> length (Packages s) = 0 then Some (PythonNeedsFields (sName s)) else None)
      else if sType s = TypeSource then
        (if sBuild s = '''' \<or> sBinary s = '''' then Some (SourceNeedsFields (sName s))
         else if sDir s \<noteq> '''' \<and> \<not> has_prefix ''go '' (trimSpace (sBuild s)) then Some (DirNeedsGo (sName s) (sBuild s))
         else None)
      else if sType s = TypeExec then
        (if Command s = '''' then Some (ExecNeedsCommand (sName s))
         else if Detached s \<and> length (TeardownArgs s) = 0 then Some (DetachedNeedsTeardown (sName s))
         else if \<not> Detached s \<and> length (TeardownArgs s) > 0 then Some (TeardownNeedsDetached (sName s))
         else None)
      else Some (UnknownType (sName s) (sType s)))"

definition validateSourceExec :: "Server \<Rightarrow> config_error option" where
  "validateSourceExec s =
     (let se = hSource (sHealth s) in
      if seBuild se = '''' then Some (ProbeNeedsBuild (sName s))
      else if seBinary se = '''' then Some (ProbeNeedsBinary (sName s))
      else if hExec (sHealth s) ! 0 \<noteq> seBinary se
        then Some (ProbeMismatch (sName s) (hExec (sHealth s) ! 0) (seBinary se))
      else None)"

definition validateHealth :: "Server \<Rightarrow> config_error option" where
  "validateHealth s =
     (let h = sHealth s; n = sName s in
      if hPath h \<noteq> '''' \<and> health_IsExec h then Some (HealthBothForms n)
      else if \<not> health_Declared h then Some (HealthRequired n)
      else if source_Declared (hSource h) \<and> \<not> health_IsExec h then Some (SourceNeedsExec n)
      else if health_IsExec h then
        (if hHost h \<noteq> '''' then Some (ExecHost n)
         else if hPort h \<noteq> 0 then Some (ExecPort n)
         else if wPath (sWarm s) \<noteq> '''' then Some (ExecWarm n)
         else if source_Declared (hSource h) then validateSourceExec s
         else None)
      else if hPort h = 0 then (if sPort s = 0 then Some (HealthPortRequired n) else None)
      else if hPort h \<notin> set (serverPortSet s) then Some (HealthPortUndeclared n (hPort h) (serverPortSet s))
      else None)"

definition promptCapableTypes :: "ServerType list" where
  "promptCapableTypes = [TypeExec, TypeSource]"

definition promptDeclaresArgs :: "PromptSpec \<Rightarrow> bool" where
  "promptDeclaresArgs p \<longleftrightarrow> length (YesArgs p) > 0 \<or> length (NoArgs p) > 0"

definition validatePrompt :: "Server \<Rightarrow> config_error option" where
  "validatePrompt s =
     (case Prompt s of
        None \<Rightarrow> None
      | Some p \<Rightarrow>
          if Question p = '''' then Some (PromptNeedsQuestion (sName s))
          else if \<not> promptDeclaresArgs p \<and> length (YesEnv p) = 0 \<and> length (NoEnv p) = 0
            then Some (PromptIneffective (sName s))
          else if promptDeclaresArgs p \<and> sType s \<notin> set promptCapableTypes
            then Some (PromptUnsupported (sName s) (sType s))
          else None)"

definition validateServer ::
    "Server \<Rightarrow> string list \<times> (int \<times> string) list \<Rightarrow> config_error + (string list \<times> (int \<times> string) list)" where
  "validateServer s st =
     (case validateName s (fst st) of
        Inl e \<Rightarrow> Inl e
      | Inr seen \<Rightarrow>
          (case validateType s of
             Some e \<Rightarrow> Inl e
           | None \<Rightarrow>
               (case validatePorts s (snd st) of
                  Inl e \<Rightarrow> Inl e
                | Inr owners \<Rightarrow>
                    (case validateHealth s of
                       Some e \<Rightarrow> Inl e
                     | None \<Rightarrow>
                         (case validatePrompt s of
                            Some e \<Rightarrow> Inl e
                          | None \<Rightarrow> Inr (seen, owners))))))"

fun validate_loop :: "Server list \<Rightarrow> string list \<times> (int \<times> string) list \<Rightarrow> config_error option" where
  "validate_loop [] st = None"
| "validate_loop (s # ss) st =
     (case validateServer s st of Inl e \<Rightarrow> Some e | Inr st' \<Rightarrow> validate_loop ss st')"

definition Validate :: "Config \<Rightarrow> config_error option" where
  "Validate cfg = validate_loop (Servers cfg) ([], [])"

section \<open>Lookup\<close>

fun findServer :: "Server list \<Rightarrow> string \<Rightarrow> Server option" where
  "findServer [] n = None"
| "findServer (s # ss) n = (if sName s = n then Some s else findServer ss n)"

definition ServerByName :: "Config \<Rightarrow> string \<Rightarrow> Server option" where
  "ServerByName c n = findServer (Servers c) n"

definition WebhookPort :: "Server \<Rightarrow> int option" where
  "WebhookPort s = (if length (Listens s) < 2 then None else Some (Listens s ! 1))"

section \<open>Loading\<close>

definition anchor :: "string \<Rightarrow> string \<Rightarrow> string" where
  "anchor base v = (if v = '''' \<or> isAbs v then v else joinPath [base, v])"

definition resolveBaseDir :: "string \<Rightarrow> Supervisor \<Rightarrow> Supervisor" where
  "resolveBaseDir configDir s =
     (if BaseDir s = '''' then s
      else let b = (if isAbs (BaseDir s) then BaseDir s else joinPath [configDir, BaseDir s]) in
        s\<lparr>BaseDir := b, LogDir := anchor b (LogDir s), LockFile := anchor b (LockFile s)\<rparr>)"

text \<open>
  \<open>toml.Decode\<close> gives a configuration and the keys it did not use, or an error.
\<close>

datatype 'e load_error =
    ReadFailed 'e
  | ParseFailed 'e
  | UnknownKeys "string list"
  | Invalid config_error

type_synonym 'e decoder = "bytes \<Rightarrow> 'e + (Config \<times> string list)"

definition decodeStrict :: "'e decoder \<Rightarrow> bytes \<Rightarrow> 'e load_error + Config" where
  "decodeStrict decode data =
     (case decode data of
        Inl e \<Rightarrow> Inl (ParseFailed e)
      | Inr (cfg, undecoded) \<Rightarrow> if length undecoded > 0 then Inl (UnknownKeys undecoded) else Inr cfg)"

definition Load :: "(string \<Rightarrow> 'e + bytes) \<Rightarrow> 'e decoder \<Rightarrow> string \<Rightarrow> 'e load_error + Config" where
  "Load readFile decode path =
     (case readFile path of
        Inl e \<Rightarrow> Inl (ReadFailed e)
      | Inr data \<Rightarrow>
          (case decodeStrict decode data of
             Inl e \<Rightarrow> Inl e
           | Inr cfg \<Rightarrow>
               let cfg' = cfg\<lparr>cfgSupervisor := applyDefaults (resolveBaseDir (dirPath path) (cfgSupervisor cfg))\<rparr>
               in case Validate cfg' of Some e \<Rightarrow> Inl (Invalid e) | None \<Rightarrow> Inr cfg'))"

end
