(* ===== verification/ConfigSpec.thy ===== *)
theory ConfigSpec
  imports Config
begin

text \<open>
  What a validated configuration is, stated without the order of the checks, and that the validator accepts
  exactly those and blames the first server that breaks a rule.
\<close>

section \<open>A valid configuration\<close>

text \<open>The fields that each launch strategy needs.\<close>

definition type_ok :: "Server \<Rightarrow> bool" where
  "type_ok s \<longleftrightarrow>
     sType s = TypeMLX \<and> Model s \<noteq> ''''
   \<or> sType s = TypePython \<and> Venv s \<noteq> '''' \<and> Entry s \<noteq> '''' \<and> Packages s \<noteq> []
   \<or> sType s = TypeSource \<and> sBuild s \<noteq> '''' \<and> sBinary s \<noteq> ''''
       \<and> (sDir s = '''' \<or> has_prefix ''go '' (trimSpace (sBuild s)))
   \<or> sType s = TypeExec \<and> Command s \<noteq> '''' \<and> (Detached s \<longleftrightarrow> TeardownArgs s \<noteq> [])"

text \<open>The port a GET check goes to.\<close>

definition probe_port :: "Server \<Rightarrow> int" where
  "probe_port s = (if hPort (sHealth s) = 0 then sPort s else hPort (sHealth s))"

definition http_check :: "Server \<Rightarrow> bool" where
  "http_check s \<longleftrightarrow>
     hPath (sHealth s) \<noteq> '''' \<and> hExec (sHealth s) = [] \<and> \<not> source_Declared (hSource (sHealth s))
   \<and> probe_port s \<noteq> 0 \<and> probe_port s \<in> set (serverPortSet s)"

definition exec_check :: "Server \<Rightarrow> bool" where
  "exec_check s \<longleftrightarrow>
     hPath (sHealth s) = '''' \<and> hExec (sHealth s) \<noteq> [] \<and> hHost (sHealth s) = '''' \<and> hPort (sHealth s) = 0
   \<and> wPath (sWarm s) = ''''
   \<and> (source_Declared (hSource (sHealth s)) \<longrightarrow>
        seBuild (hSource (sHealth s)) \<noteq> '''' \<and> seBinary (hSource (sHealth s)) \<noteq> ''''
      \<and> hd (hExec (sHealth s)) = seBinary (hSource (sHealth s)))"

definition prompt_ok :: "Server \<Rightarrow> bool" where
  "prompt_ok s \<longleftrightarrow>
     (\<forall>p \<in> set_option (Prompt s).
        Question p \<noteq> ''''
      \<and> (YesArgs p \<noteq> [] \<or> NoArgs p \<noteq> [] \<or> YesEnv p \<noteq> [] \<or> NoEnv p \<noteq> [])
      \<and> (YesArgs p \<noteq> [] \<or> NoArgs p \<noteq> [] \<longrightarrow> sType s = TypeExec \<or> sType s = TypeSource))"

definition valid_server :: "Server \<Rightarrow> bool" where
  "valid_server s \<longleftrightarrow>
     sName s \<noteq> '''' \<and> sName s \<notin> set reservedNames \<and> type_ok s \<and> serverPortSet s \<noteq> []
   \<and> (http_check s \<or> exec_check s) \<and> prompt_ok s"

definition valid_servers :: "Server list \<Rightarrow> bool" where
  "valid_servers ss \<longleftrightarrow>
     (\<forall>s \<in> set ss. valid_server s) \<and> distinct (map sName ss) \<and> distinct (concat (map serverPortSet ss))"

section \<open>The checks of one server\<close>

lemma validateType_iff: "validateType s = None \<longleftrightarrow> type_ok s"
  by (auto simp: validateType_def type_ok_def server_type_defs)

lemma validateHealth_iff: "validateHealth s = None \<longleftrightarrow> http_check s \<or> exec_check s"
proof (cases "hExec (sHealth s)")
  case Nil
  then show ?thesis
    by (auto simp: validateHealth_def http_check_def exec_check_def probe_port_def health_IsExec_def
          health_Declared_def serverPortSet_def Let_def)
next
  case (Cons a as)
  then show ?thesis
    by (auto simp: validateHealth_def http_check_def exec_check_def validateSourceExec_def health_IsExec_def
          health_Declared_def source_Declared_def Let_def)
qed

lemma validatePrompt_iff: "validatePrompt s = None \<longleftrightarrow> prompt_ok s"
  by (cases "Prompt s")
     (auto simp: validatePrompt_def prompt_ok_def promptDeclaresArgs_def promptCapableTypes_def)

lemma validateName_Inr:
  "validateName s seen = Inr seen' \<longleftrightarrow>
     sName s \<noteq> '''' \<and> sName s \<notin> set reservedNames \<and> sName s \<notin> set seen \<and> seen' = sName s # seen"
  by (auto simp: validateName_def)

lemma claimPorts_Inr:
  "claimPorts n ps owners = Inr owners' \<longleftrightarrow>
     distinct ps \<and> (\<forall>p \<in> set ps. map_of owners p = None) \<and> owners' = rev (map (\<lambda>p. (p, n)) ps) @ owners"
  by (induction ps arbitrary: owners) (auto split: option.splits)

lemma validatePorts_Inr:
  "validatePorts s owners = Inr owners' \<longleftrightarrow>
     serverPortSet s \<noteq> [] \<and> distinct (serverPortSet s) \<and> (\<forall>p \<in> set (serverPortSet s). map_of owners p = None)
   \<and> owners' = rev (map (\<lambda>p. (p, sName s)) (serverPortSet s)) @ owners"
  by (auto simp: validatePorts_def Let_def claimPorts_Inr)

lemma sum_then_Inr: "(case x of Inl e \<Rightarrow> Inl e | Inr y \<Rightarrow> f y) = Inr z \<longleftrightarrow> (\<exists>y. x = Inr y \<and> f y = Inr z)"
  by (cases x) auto

lemma option_then_Inr: "(case x of Some e \<Rightarrow> Inl e | None \<Rightarrow> y) = Inr z \<longleftrightarrow> x = None \<and> y = Inr z"
  by (cases x) auto

lemma validateServer_Inr:
  "validateServer s st = Inr st' \<longleftrightarrow>
     valid_server s \<and> sName s \<notin> set (fst st) \<and> distinct (serverPortSet s)
   \<and> (\<forall>p \<in> set (serverPortSet s). map_of (snd st) p = None)
   \<and> st' = (sName s # fst st, rev (map (\<lambda>p. (p, sName s)) (serverPortSet s)) @ snd st)"
  by (auto simp: validateServer_def valid_server_def sum_then_Inr option_then_Inr validateName_Inr validatePorts_Inr
        validateType_iff validateHealth_iff validatePrompt_iff)

text \<open>The maps after the servers \<open>ss\<close>.\<close>

definition seen_state :: "Server list \<Rightarrow> string list \<times> (int \<times> string) list" where
  "seen_state ss =
     (rev (map sName ss), rev (concat (map (\<lambda>s. map (\<lambda>p. (p, sName s)) (serverPortSet s)) ss)))"

lemma seen_state_Nil [simp]: "seen_state [] = ([], [])"
  by (simp add: seen_state_def)

lemma seen_owner:
  "map_of (snd (seen_state ss)) p = None \<longleftrightarrow> p \<notin> set (concat (map serverPortSet ss))"
  by (auto simp: seen_state_def map_of_eq_None_iff image_iff)

lemma validateServer_step:
  assumes "valid_servers ss"
  shows "validateServer s (seen_state ss) = Inr st' \<longleftrightarrow> valid_servers (ss @ [s]) \<and> st' = seen_state (ss @ [s])"
proof -
  have "(\<forall>p \<in> set (serverPortSet s). map_of (snd (seen_state ss)) p = None)
        \<longleftrightarrow> set (concat (map serverPortSet ss)) \<inter> set (serverPortSet s) = {}"
    by (auto simp: seen_owner simp del: set_concat)
  moreover have "sName s \<notin> set (fst (seen_state ss)) \<longleftrightarrow> sName s \<notin> set (map sName ss)"
    by (simp add: seen_state_def)
  ultimately show ?thesis
    using assms unfolding validateServer_Inr
    by (auto simp: valid_servers_def distinct_append seen_state_def simp del: set_concat)
qed

lemma validate_loop_split:
  assumes "valid_servers pre"
  shows "case validate_loop ss (seen_state pre) of
           None \<Rightarrow> valid_servers (pre @ ss)
         | Some e \<Rightarrow> \<exists>m s post. ss = m @ s # post \<and> valid_servers (pre @ m) \<and> \<not> valid_servers (pre @ m @ [s])
                     \<and> validateServer s (seen_state (pre @ m)) = Inl e"
  using assms
proof (induction ss arbitrary: pre)
  case Nil
  then show ?case by simp
next
  case (Cons s ss)
  show ?case
  proof (cases "validateServer s (seen_state pre)")
    case (Inl e)
    then have "\<not> valid_servers (pre @ [s])"
      using validateServer_step [OF Cons.prems, of s "seen_state (pre @ [s])"] by auto
    with Inl Cons.prems show ?thesis
      by (auto intro!: exI [of _ "[]"])
  next
    case (Inr st')
    with validateServer_step [OF Cons.prems] have v: "valid_servers (pre @ [s])" and st: "st' = seen_state (pre @ [s])"
      by auto
    from Cons.IH [OF v] show ?thesis
      by (auto simp: Inr st split: option.splits) (metis append_Cons append_assoc append_Nil)
  qed
qed

lemma claimPorts_blames: "claimPorts n ps owners = Inl e \<Longrightarrow> err_server e = n"
  by (induction ps arbitrary: owners) (auto split: option.splits)

lemma check_blames:
  "validateName s seen = Inl e \<Longrightarrow> err_server e = sName s"
  "validateType s = Some e \<Longrightarrow> err_server e = sName s"
  "validatePorts s owners = Inl e \<Longrightarrow> err_server e = sName s"
  "validateHealth s = Some e \<Longrightarrow> err_server e = sName s"
  "validatePrompt s = Some e \<Longrightarrow> err_server e = sName s"
  by (auto simp: validateName_def validateType_def validatePorts_def validateHealth_def validateSourceExec_def
        validatePrompt_def Let_def claimPorts_blames split: option.splits if_splits)

lemma validateServer_blames: "validateServer s st = Inl e \<Longrightarrow> err_server e = sName s"
  by (auto simp: validateServer_def check_blames split: sum.splits option.splits)

section \<open>The validator\<close>

lemma valid_servers_Nil: "valid_servers []"
  by (simp add: valid_servers_def)

text \<open>C26: the validator accepts a configuration exactly when every server is valid on its own, no two servers share a
  name and no port is declared twice in the whole file; otherwise it reports the first server, in file order,
  that breaks a rule given the servers before it, and the error names that server.\<close>

theorem validate_exact:
  "case Validate cfg of
     None \<Rightarrow> valid_servers (Servers cfg)
   | Some e \<Rightarrow> \<exists>pre s post. Servers cfg = pre @ s # post \<and> valid_servers pre \<and> \<not> valid_servers (pre @ [s])
               \<and> err_server e = sName s"
  using validate_loop_split [OF valid_servers_Nil, of "Servers cfg"]
  by (auto simp: Validate_def split: option.splits dest: validateServer_blames)

lemma valid_servers_take: "valid_servers (xs @ ys) \<Longrightarrow> valid_servers xs"
  by (auto simp: valid_servers_def)

lemma Validate_iff: "Validate cfg = None \<longleftrightarrow> valid_servers (Servers cfg)"
proof
  assume "Validate cfg = None"
  then show "valid_servers (Servers cfg)" using validate_loop_split [of "[]" "Servers cfg"]
    by (simp add: Validate_def valid_servers_def)
next
  assume v: "valid_servers (Servers cfg)"
  show "Validate cfg = None"
  proof (rule ccontr)
    assume "Validate cfg \<noteq> None"
    then obtain e where "validate_loop (Servers cfg) (seen_state []) = Some e" by (auto simp: Validate_def)
    with validate_loop_split [of "[]" "Servers cfg"] obtain m s post
      where "Servers cfg = (m @ [s]) @ post" and "\<not> valid_servers (m @ [s])"
      using valid_servers_Nil by auto
    with v show False by (metis valid_servers_take)
  qed
qed

text \<open>A port of a validated configuration belongs to one server.\<close>

lemma valid_port_owner:
  assumes "valid_servers ss" and "s \<in> set ss" "t \<in> set ss" and "p \<in> set (serverPortSet s)" "p \<in> set (serverPortSet t)"
  shows "s = t"
proof (rule ccontr)
  assume "s \<noteq> t"
  moreover obtain xs ys where "ss = xs @ s # ys" using assms(2) by (meson split_list)
  ultimately show False using assms by (auto simp: valid_servers_def)
qed

lemma valid_ports_distinct: "valid_servers ss \<Longrightarrow> s \<in> set ss \<Longrightarrow> distinct (serverPortSet s)"
  by (auto simp: valid_servers_def distinct_concat_iff)

lemma valid_nonempty_ports: "valid_servers ss \<Longrightarrow> s \<in> set ss \<Longrightarrow> serverPortSet s \<noteq> []"
  by (auto simp: valid_servers_def valid_server_def)

lemma findServer_valid:
  "distinct (map sName ss) \<Longrightarrow> findServer ss n = Some s \<longleftrightarrow> s \<in> set ss \<and> sName s = n"
  by (induction ss) auto

lemma findServer_SomeD: "findServer ss n = Some s \<Longrightarrow> s \<in> set ss \<and> sName s = n"
  by (induction ss) (auto split: if_splits)

lemma findServer_None: "findServer ss n = None \<longleftrightarrow> n \<notin> sName ` set ss"
  by (induction ss) auto

lemma applyDefaults_nonzero:
  "supGracePeriod (applyDefaults s) \<noteq> 0" "supReadyTimeout (applyDefaults s) \<noteq> 0"
  "PollInterval (applyDefaults s) \<noteq> 0" "HealthTimeout (applyDefaults s) \<noteq> 0"
  by (simp_all add: applyDefaults_def Let_def DefaultGracePeriod_def DefaultReadyTimeout_def DefaultPollInterval_def
        DefaultHealthTimeout_def second_def millisecond_def)

lemma Load_sound:
  assumes "Load rd dec path = Inr cfg"
  shows "valid_servers (Servers cfg)" "HealthTimeout (cfgSupervisor cfg) \<noteq> 0" "supGracePeriod (cfgSupervisor cfg) \<noteq> 0"
  using assms
  by (auto simp: Load_def Let_def Validate_iff [symmetric] applyDefaults_nonzero split: sum.splits option.splits)

end
