(* ===== verification/Observe.thy ===== *)
theory Observe
  imports Prelude "HOL-Library.AList"
begin

text \<open>
  The observation layer of the supervisor (\<open>internal/observe/observe.go\<close>): the walk of a process tree, the
  ports it listens on with the corroboration of empty reads, and the comparison with the declared ports.

  The operating system is a parameter: for each query of the process library its answer.  A walk asks each
  question about a process once.  A Go map is an association list with distinct keys; where the source ranges
  over a map the order of the entries is this list's, and no result below depends on it.
\<close>

section \<open>Data\<close>

type_synonym pid = "32 word"

record Identity =
  idPID :: pid
  Cmdline :: "string list"
  Ours :: bool

record Holder =
  holderPort :: int
  holderIdentity :: Identity

record TreeObservation =
  Holders :: "(int \<times> Holder) list"
  Degraded :: "pid list"

record conn =
  connStatus :: string
  connPort :: int
  connPid :: pid

text \<open>How resolving a process can fail: confirmed gone, or any other failure.\<close>

datatype proc_error = NotRunning | ProcErrno int

text \<open>
  The answers of the process library: \<open>process.NewProcess\<close>, \<open>Children\<close>, \<open>CmdlineSlice\<close>, the per-process and
  the host-wide connection lists.  \<open>None\<close> is an error.
\<close>

record sysview =
  newProcess :: "pid \<Rightarrow> proc_error option"
  childrenOf :: "pid \<Rightarrow> pid list option"
  connsOf :: "pid \<Rightarrow> conn list option"
  hostConns :: "conn list option"
  cmdlineOf :: "pid \<Rightarrow> string list option"

definition NewForeignIdentity :: "sysview \<Rightarrow> pid \<Rightarrow> Identity option" where
  "NewForeignIdentity V p =
     (case newProcess V p of
        Some e \<Rightarrow> None
      | None \<Rightarrow> map_option (\<lambda>c. \<lparr>idPID = p, Cmdline = c, Ours = False\<rparr>) (cmdlineOf V p))"

text \<open>\<open>NewOursIdentity\<close> of a command, whose process is \<open>None\<close> until it has been started.\<close>

definition NewOursIdentity :: "sysview \<Rightarrow> pid option \<Rightarrow> Identity option" where
  "NewOursIdentity V cmd =
     (case cmd of
        None \<Rightarrow> None
      | Some p \<Rightarrow>
          (case newProcess V p of
             Some e \<Rightarrow> None
           | None \<Rightarrow> map_option (\<lambda>c. \<lparr>idPID = p, Cmdline = c, Ours = True\<rparr>) (cmdlineOf V p)))"

section \<open>The walk of the tree\<close>

text \<open>The children of one process: those not visited yet are appended to the order and to the queue.\<close>

fun visitChildren :: "pid list \<Rightarrow> pid list \<times> pid list \<times> pid list \<Rightarrow> pid list \<times> pid list \<times> pid list" where
  "visitChildren [] st = st"
| "visitChildren (c # cs) (visited, order, queue) =
     (if c \<in> set visited then visitChildren cs (visited, order, queue)
      else visitChildren cs (c # visited, order @ [c], queue @ [c]))"

lemma visitChildren_fst:
  "set (fst (visitChildren cs (v, ord, q))) = set v \<union> set cs"
  by (induction cs "(v, ord, q)" arbitrary: v ord q rule: visitChildren.induct) auto

lemma visitChildren_keep:
  "set cs \<subseteq> set v \<Longrightarrow> visitChildren cs (v, ord, q) = (v, ord, q)"
  by (induction cs) auto

function walk :: "(pid \<Rightarrow> pid list option) \<Rightarrow> pid list \<Rightarrow> pid list \<Rightarrow> pid list \<Rightarrow> pid list" where
  "walk children visited order queue =
     (case queue of
        [] \<Rightarrow> order
      | current # rest \<Rightarrow>
          (case children current of
             None \<Rightarrow> walk children visited order rest
           | Some cs \<Rightarrow>
               (let st = visitChildren cs (visited, order, rest)
                in walk children (fst st) (fst (snd st)) (snd (snd st)))))"
  by pat_completeness auto
termination
proof (relation "measures [\<lambda>(ch, v, ord, q). card (- set v), \<lambda>(ch, v, ord, q). length q]", goal_cases)
  case (3 ch v ord q current rest cs st)
  show ?case
  proof (cases "set cs \<subseteq> set v")
    case True
    with 3 show ?thesis by (simp add: visitChildren_keep)
  next
    case False
    then have "- set (fst st) \<subset> - set v"
      using 3 by (auto simp: visitChildren_fst)
    then have "card (- set (fst st)) < card (- set v)"
      by (intro psubset_card_mono) auto
    then show ?thesis by (cases st) simp
  qed
qed auto

declare walk.simps [simp del]

definition collectTreeProcesses :: "sysview \<Rightarrow> pid \<Rightarrow> pid list" where
  "collectTreeProcesses V rt = walk (childrenOf V) [rt] [rt] [rt]"

section \<open>Listening ports\<close>

definition listening :: "conn list \<Rightarrow> conn list" where
  "listening cs = filter (\<lambda>c. connStatus c = ''LISTEN'') cs"

definition listeningPorts :: "sysview \<Rightarrow> pid \<Rightarrow> int list option" where
  "listeningPorts V p = map_option (\<lambda>cs. map connPort (listening cs)) (connsOf V p)"

definition hostTCPScan :: "sysview \<Rightarrow> (conn list \<times> conn list) option" where
  "hostTCPScan V = map_option (\<lambda>cs. (cs, listening cs)) (hostConns V)"

definition SystemListenSet :: "sysview \<Rightarrow> (int \<times> pid) list option" where
  "SystemListenSet V =
     map_option (\<lambda>(_, ls). foldl (\<lambda>m c. AList.update (connPort c) (connPid c) m) [] ls) (hostTCPScan V)"

datatype corroborationResult = corroborationEmpty | corroborationHolds | corroborationFailed

text \<open>The cached scan of \<open>hostCorroboration\<close>: \<open>None\<close> until it is fetched, then the scan or its error.\<close>

type_synonym hostCorroboration = "(conn list \<times> conn list) option option"

definition holdsListen :: "sysview \<Rightarrow> pid \<Rightarrow> hostCorroboration \<Rightarrow> corroborationResult \<times> hostCorroboration" where
  "holdsListen V p h =
     (let scan = (case h of Some s \<Rightarrow> s | None \<Rightarrow> hostTCPScan V) in
      (case scan of
         None \<Rightarrow> corroborationFailed
       | Some (conns, ls) \<Rightarrow>
           if length conns = 0 then corroborationFailed
           else if list_ex (\<lambda>c. connPid c = p) ls then corroborationHolds
           else corroborationEmpty,
       Some scan))"

definition ambiguousEmptyReadIsDegraded :: "sysview \<Rightarrow> pid \<Rightarrow> hostCorroboration \<Rightarrow> bool \<times> hostCorroboration" where
  "ambiguousEmptyReadIsDegraded V p h =
     (let (r, h') = holdsListen V p h in (r \<noteq> corroborationEmpty, h'))"

text \<open>One process of the tree, and the whole walk.\<close>

definition observeProcess ::
    "sysview \<Rightarrow> bool \<Rightarrow> pid \<Rightarrow> TreeObservation \<times> hostCorroboration \<Rightarrow> TreeObservation \<times> hostCorroboration" where
  "observeProcess V ours p st =
     (let (obs, corrob) = st in
      case listeningPorts V p of
        None \<Rightarrow> (obs\<lparr>Degraded := Degraded obs @ [p]\<rparr>, corrob)
      | Some ports \<Rightarrow>
          if length ports = 0 then
            (let (degraded, corrob') = ambiguousEmptyReadIsDegraded V p corrob
             in (if degraded then obs\<lparr>Degraded := Degraded obs @ [p]\<rparr> else obs, corrob'))
          else
            (let (obs1, cmd) = (case cmdlineOf V p of
                                  None \<Rightarrow> (obs\<lparr>Degraded := Degraded obs @ [p]\<rparr>, [])
                                | Some c \<Rightarrow> (obs, c));
                 ident = \<lparr>idPID = p, Cmdline = cmd, Ours = ours\<rparr>
             in (obs1\<lparr>Holders := foldl (\<lambda>m port. AList.update port \<lparr>holderPort = port, holderIdentity = ident\<rparr> m)
                                    (Holders obs1) ports\<rparr>, corrob)))"

definition emptyObservation :: TreeObservation where
  "emptyObservation = \<lparr>Holders = [], Degraded = []\<rparr>"

definition treeListenSet :: "sysview \<Rightarrow> pid \<Rightarrow> bool \<Rightarrow> proc_error + TreeObservation" where
  "treeListenSet V rootPID ours =
     (case newProcess V rootPID of
        Some e \<Rightarrow> Inl e
      | None \<Rightarrow>
          Inr (fst (foldl (\<lambda>st p. observeProcess V ours p st) (emptyObservation, None)
                      (collectTreeProcesses V rootPID))))"

definition ListenSet :: "sysview \<Rightarrow> pid \<Rightarrow> proc_error + TreeObservation" where
  "ListenSet V p = treeListenSet V p False"

definition TreeListenSet :: "sysview \<Rightarrow> pid \<Rightarrow> proc_error + TreeObservation" where
  "TreeListenSet V p = treeListenSet V p True"

definition IsRootProcessGone :: "proc_error \<Rightarrow> bool" where
  "IsRootProcessGone e \<longleftrightarrow> e = NotRunning"

section \<open>Classification\<close>

datatype Classification = CandidateUp | Partial | StrayPort

record Result =
  resClassification :: Classification
  Declared :: "int list"
  Actual :: "int list"
  Missing :: "int list"
  Stray :: "int list"
  ForeignHolders :: "(int \<times> Identity) list"
  resDegraded :: "pid list"

text \<open>The deduplicating loops of the source: first occurrences, in order.\<close>

fun dedup_from :: "int list \<Rightarrow> int list \<Rightarrow> int list" where
  "dedup_from seen [] = []"
| "dedup_from seen (p # ps) = (if p \<in> set seen then dedup_from seen ps else p # dedup_from (p # seen) ps)"

definition Classify :: "int list \<Rightarrow> TreeObservation \<Rightarrow> Result" where
  "Classify decl obs =
     (let actual = Holders obs;
          dedup = dedup_from [] decl;
          missing = filter (\<lambda>p. map_of actual p = None) dedup;
          foreign = concat (map (\<lambda>p. case map_of actual p of
                                       None \<Rightarrow> []
                                     | Some h \<Rightarrow> if Ours (holderIdentity h) then [] else [(p, holderIdentity h)]) dedup);
          stray = filter (\<lambda>p. p \<notin> set decl) (map fst actual)
      in \<lparr>resClassification = (if length stray > 0 then StrayPort else if length missing > 0 then Partial else CandidateUp),
          Declared = dedup, Actual = map fst actual, Missing = missing, Stray = stray, ForeignHolders = foreign,
          resDegraded = Degraded obs\<rparr>)"

section \<open>The walk finds the tree\<close>

definition child_of :: "sysview \<Rightarrow> (pid \<times> pid) set" where
  "child_of V = {(p, c). \<exists>cs. childrenOf V p = Some cs \<and> c \<in> set cs}"

lemma visitChildren_shape:
  "\<exists>new. visitChildren cs (v, ord, q) = (rev new @ v, ord @ new, q @ new) \<and> distinct new
     \<and> set new = set cs - set v"
proof (induction cs arbitrary: v ord q)
  case Nil
  then show ?case by simp
next
  case (Cons c cs)
  show ?case
  proof (cases "c \<in> set v")
    case True
    with Cons [of v ord q] show ?thesis by auto
  next
    case False
    obtain new where "visitChildren cs (c # v, ord @ [c], q @ [c]) = (rev new @ c # v, (ord @ [c]) @ new, (q @ [c]) @ new)"
      "distinct new" "set new = set cs - set (c # v)"
      using Cons [of "c # v" "ord @ [c]" "q @ [c]"] by auto
    with False show ?thesis by (intro exI [of _ "c # new"]) auto
  qed
qed

text \<open>
  The loop's invariant: what is ordered is visited, distinct and reachable, the queue is part of it, and every
  child of an ordered process that has left the queue is visited.
\<close>

definition walk_inv :: "sysview \<Rightarrow> pid \<Rightarrow> pid list \<Rightarrow> pid list \<Rightarrow> pid list \<Rightarrow> bool" where
  "walk_inv V rt v ord q \<longleftrightarrow>
     set v = set ord \<and> distinct ord \<and> (\<exists>r. ord = rt # r) \<and> set q \<subseteq> set ord
   \<and> (\<forall>p \<in> set ord. (rt, p) \<in> (child_of V)\<^sup>*)
   \<and> (\<forall>p c. p \<in> set ord - set q \<longrightarrow> (p, c) \<in> child_of V \<longrightarrow> c \<in> set ord)"

lemma walk_step_None:
  "walk_inv V rt v ord (p # q) \<Longrightarrow> childrenOf V p = None \<Longrightarrow> walk_inv V rt v ord q"
  by (auto simp: walk_inv_def child_of_def)

lemma walk_step_Some:
  assumes inv: "walk_inv V rt v ord (p # q)" and cs: "childrenOf V p = Some cs"
    and new: "distinct new" "set new = set cs - set v"
  shows "walk_inv V rt (rev new @ v) (ord @ new) (q @ new)"
proof -
  have p: "(rt, p) \<in> (child_of V)\<^sup>*" using inv by (auto simp: walk_inv_def)
  have "(rt, c) \<in> (child_of V)\<^sup>*" if "c \<in> set new" for c
    using that new cs p by (auto simp: child_of_def intro: rtrancl_into_rtrancl)
  moreover have "c \<in> set ord \<union> set new"
    if "x \<in> set ord" "x \<notin> set q" "(x, c) \<in> child_of V" for x c
    using that inv cs new by (cases "x = p") (auto simp: walk_inv_def child_of_def)
  ultimately show ?thesis
    using inv new by (auto simp: walk_inv_def)
qed

lemma walk_eqs:
  "walk ch v ord [] = ord"
  "ch p = None \<Longrightarrow> walk ch v ord (p # q) = walk ch v ord q"
  "ch p = Some cs \<Longrightarrow> visitChildren cs (v, ord, q) = (v', ord', q') \<Longrightarrow> walk ch v ord (p # q) = walk ch v' ord' q'"
  by (simp_all add: walk.simps [of ch v ord "p # q"] walk.simps [of ch v ord "[]"])

lemma walk_spec:
  assumes "walk_inv V rt v ord q"
  shows "distinct (walk (childrenOf V) v ord q) \<and> (\<exists>r. walk (childrenOf V) v ord q = rt # r)
    \<and> set (walk (childrenOf V) v ord q) = {p. (rt, p) \<in> (child_of V)\<^sup>*}"
  using assms
proof (induction "childrenOf V" v ord q rule: walk.induct)
  case (1 v ord q)
  show ?case
  proof (cases q)
    case Nil
    then have closed: "c \<in> set ord" if "p \<in> set ord" "(p, c) \<in> child_of V" for p c
      using 1(3) that by (auto simp: walk_inv_def)
    have start: "rt \<in> set ord" using 1(3) by (auto simp: walk_inv_def)
    have "p \<in> set ord" if "(rt, p) \<in> (child_of V)\<^sup>*" for p
      using that by (induction rule: rtrancl_induct) (fact start, rule closed)
    moreover have "\<forall>p \<in> set ord. (rt, p) \<in> (child_of V)\<^sup>*" using 1(3) by (simp add: walk_inv_def)
    ultimately have "set ord = {p. (rt, p) \<in> (child_of V)\<^sup>*}" by blast
    with 1(3) Nil show ?thesis by (simp add: walk_eqs walk_inv_def)
  next
    case (Cons p rest)
    show ?thesis
    proof (cases "childrenOf V p")
      case None
      with 1(1) [OF Cons None] 1(3) Cons show ?thesis by (simp add: walk_eqs walk_step_None)
    next
      case (Some cs)
      obtain new where new: "visitChildren cs (v, ord, rest) = (rev new @ v, ord @ new, rest @ new)"
        "distinct new" "set new = set cs - set v"
        using visitChildren_shape by blast
      with 1(3) Cons Some have "walk_inv V rt (rev new @ v) (ord @ new) (rest @ new)"
        by (metis walk_step_Some)
      with 1(2) [OF Cons Some refl] have "distinct (walk (childrenOf V) (rev new @ v) (ord @ new) (rest @ new))
         \<and> (\<exists>r. walk (childrenOf V) (rev new @ v) (ord @ new) (rest @ new) = rt # r)
         \<and> set (walk (childrenOf V) (rev new @ v) (ord @ new) (rest @ new)) = {p. (rt, p) \<in> (child_of V)\<^sup>*}"
        by (simp add: new(1))
      then show ?thesis unfolding Cons walk_eqs(3) [of "childrenOf V" p cs, OF Some new(1)] .
    qed
  qed
qed

text \<open>The walk of a process tree ends whatever the children of a process are reported to be, cycles included, and
  returns the root first and then every descendant, each once.\<close>

theorem tree_walk_exact:
  "distinct (collectTreeProcesses V rt) \<and> hd (collectTreeProcesses V rt) = rt
   \<and> set (collectTreeProcesses V rt) = {p. (rt, p) \<in> (child_of V)\<^sup>*}"
proof -
  have "walk_inv V rt [rt] [rt] [rt]" by (auto simp: walk_inv_def)
  from walk_spec [OF this] show ?thesis by (auto simp: collectTreeProcesses_def)
qed

section \<open>What an observation tells\<close>

text \<open>Whether a process listens on a port, and whether what was read of it is unconfirmed.\<close>

definition listens_on :: "sysview \<Rightarrow> pid \<Rightarrow> int \<Rightarrow> bool" where
  "listens_on V p port \<longleftrightarrow> (\<exists>cs. connsOf V p = Some cs \<and> (\<exists>c \<in> set cs. connStatus c = ''LISTEN'' \<and> connPort c = port))"

definition confirmed_quiet :: "sysview \<Rightarrow> pid \<Rightarrow> bool" where
  "confirmed_quiet V p \<longleftrightarrow>
     (\<exists>cs. hostConns V = Some cs \<and> cs \<noteq> [] \<and> (\<forall>c \<in> set cs. connStatus c = ''LISTEN'' \<longrightarrow> connPid c \<noteq> p))"

definition unread :: "sysview \<Rightarrow> pid \<Rightarrow> bool" where
  "unread V p \<longleftrightarrow>
     (case listeningPorts V p of
        None \<Rightarrow> True
      | Some ports \<Rightarrow> if ports = [] then \<not> confirmed_quiet V p else cmdlineOf V p = None)"

definition observeAll :: "sysview \<Rightarrow> bool \<Rightarrow> pid list \<Rightarrow> TreeObservation \<times> hostCorroboration" where
  "observeAll V ours ps = foldl (\<lambda>st p. observeProcess V ours p st) (emptyObservation, None) ps"

lemma observeAll_simps [simp]:
  "observeAll V ours [] = (emptyObservation, None)"
  "observeAll V ours (ps @ [p]) = observeProcess V ours p (observeAll V ours ps)"
  by (simp_all add: observeAll_def)

lemma observeAll_corrob: "snd (observeAll V ours ps) \<in> {None, Some (hostTCPScan V)}"
  by (induction ps rule: rev_induct)
     (auto simp: observeProcess_def ambiguousEmptyReadIsDegraded_def holdsListen_def Let_def
       split: option.splits prod.splits)

lemma ambiguous_unconfirmed:
  "h \<in> {None, Some (hostTCPScan V)} \<Longrightarrow> fst (ambiguousEmptyReadIsDegraded V p h) \<longleftrightarrow> \<not> confirmed_quiet V p"
  by (cases "hostConns V")
     (auto simp: ambiguousEmptyReadIsDegraded_def holdsListen_def hostTCPScan_def confirmed_quiet_def listening_def
       list_ex_iff Let_def split: prod.splits if_splits)

lemma observeProcess_Degraded:
  assumes "snd st \<in> {None, Some (hostTCPScan V)}"
  shows "Degraded (fst (observeProcess V ours p st)) = Degraded (fst st) @ (if unread V p then [p] else [])"
  using ambiguous_unconfirmed [OF assms, of p]
  by (auto simp: observeProcess_def unread_def Let_def split: option.splits prod.splits)

lemma observeAll_Degraded: "Degraded (fst (observeAll V ours ps)) = filter (unread V) ps"
  by (induction ps rule: rev_induct)
     (simp_all add: emptyObservation_def observeProcess_Degraded [OF observeAll_corrob])

lemma fst_foldl_update:
  "fst ` set (foldl (\<lambda>m k. AList.update k (f k) m) m ks) = fst ` set m \<union> set ks"
  by (induction ks arbitrary: m) (auto simp: dom_update)

lemma observeProcess_Holders:
  "fst ` set (Holders (fst (observeProcess V ours p st))) = fst ` set (Holders (fst st)) \<union> {port. listens_on V p port}"
  by (auto simp: observeProcess_def listeningPorts_def listening_def listens_on_def Let_def fst_foldl_update
        filter_empty_conv split: option.splits prod.splits)

lemma observeAll_Holders:
  "fst ` set (Holders (fst (observeAll V ours ps))) = {port. \<exists>p \<in> set ps. listens_on V p port}"
  by (induction ps rule: rev_induct) (auto simp: emptyObservation_def observeProcess_Holders)

lemma observeAll_distinct: "distinct (map fst (Holders (fst (observeAll V ours ps))))"
proof (induction ps rule: rev_induct)
  case (snoc p ps)
  have "distinct (map fst (foldl (\<lambda>m k. AList.update k (f k) m) m ks))" if "distinct (map fst m)" for f :: "int \<Rightarrow> Holder" and m ks
    using that by (induction ks arbitrary: m) (auto intro: distinct_update)
  with snoc show ?case
    by (auto simp: observeProcess_def Let_def split: option.splits prod.splits)
qed (simp add: emptyObservation_def)

lemma map_of_foldl_update:
  "map_of (foldl (\<lambda>m k. AList.update k (f k) m) m ks) x = (if x \<in> set ks then Some (f x) else map_of m x)"
  by (induction ks arbitrary: m) (auto simp: update_conv)

definition holder_ok :: "bool \<Rightarrow> pid list \<Rightarrow> int \<Rightarrow> Holder \<Rightarrow> bool" where
  "holder_ok ours ps port h \<longleftrightarrow>
     holderPort h = port \<and> Ours (holderIdentity h) = ours \<and> idPID (holderIdentity h) \<in> set ps"

lemma observeAll_holder:
  "map_of (Holders (fst (observeAll V ours ps))) port = Some h \<Longrightarrow> holder_ok ours ps port h"
proof (induction ps arbitrary: h rule: rev_induct)
  case (snoc p ps)
  then show ?case
    by (auto simp: observeProcess_def Let_def map_of_foldl_update holder_ok_def
          split: option.splits prod.splits if_splits)
qed (simp add: emptyObservation_def)

text \<open>C27: an observation of a process tree is exact about what it could read.  Its ports are those some member of the
  tree is seen listening on, each attributed to a member, and it names as degraded exactly the members whose
  ports could not be read, whose command line could not be read, or whose empty read no host-wide scan
  confirmed; a scan of no rows confirms nothing.\<close>

theorem observation_exact:
  assumes "newProcess V rt = None"
  shows "\<exists>obs. treeListenSet V rt ours = Inr obs
    \<and> fst ` set (Holders obs) = {port. \<exists>p. (rt, p) \<in> (child_of V)\<^sup>* \<and> listens_on V p port}
    \<and> (\<forall>port h. map_of (Holders obs) port = Some h \<longrightarrow>
         Ours (holderIdentity h) = ours \<and> (rt, idPID (holderIdentity h)) \<in> (child_of V)\<^sup>*)
    \<and> set (Degraded obs) = {p. (rt, p) \<in> (child_of V)\<^sup>* \<and> unread V p}"
proof -
  let ?obs = "fst (observeAll V ours (collectTreeProcesses V rt))"
  have tree: "set (collectTreeProcesses V rt) = {p. (rt, p) \<in> (child_of V)\<^sup>*}"
    using walk_spec [of V rt "[rt]" "[rt]" "[rt]"] by (simp add: collectTreeProcesses_def walk_inv_def)
  have "treeListenSet V rt ours = Inr ?obs"
    using assms by (simp add: treeListenSet_def observeAll_def)
  moreover have "fst ` set (Holders ?obs) = {port. \<exists>p. (rt, p) \<in> (child_of V)\<^sup>* \<and> listens_on V p port}"
    by (simp add: observeAll_Holders tree)
  moreover have "set (Degraded ?obs) = {p. (rt, p) \<in> (child_of V)\<^sup>* \<and> unread V p}"
    by (simp add: observeAll_Degraded tree)
  moreover have "Ours (holderIdentity h) = ours \<and> (rt, idPID (holderIdentity h)) \<in> (child_of V)\<^sup>*"
    if "map_of (Holders ?obs) port = Some h" for port h
    using observeAll_holder [OF that] tree by (simp add: holder_ok_def)
  ultimately show ?thesis by blast
qed

text \<open>
  A tree of a launcher, a worker that listens on port 80 and has the launcher as a child again, and a worker
  whose read came back empty while the scan of the whole host came back empty as well.
\<close>

definition demoView :: sysview where
  "demoView =
     \<lparr>newProcess = (\<lambda>p. if p \<in> {1, 2, 3} then None else Some NotRunning),
      childrenOf = (\<lambda>p. if p = 1 then Some [2, 3] else if p = 2 then Some [1] else None),
      connsOf = (\<lambda>p. if p = 2 then Some [\<lparr>connStatus = ''LISTEN'', connPort = 80, connPid = 2\<rparr>] else Some []),
      hostConns = Some [],
      cmdlineOf = (\<lambda>p. Some [''srv''])\<rparr>"

lemma demo_tree: "collectTreeProcesses demoView 1 = [1, 2, 3]"
  by code_simp

theorem observation_exact_witness:
  "newProcess demoView 1 = None
   \<and> (\<exists>obs. treeListenSet demoView 1 True = Inr obs
        \<and> fst ` set (Holders obs) = {port. \<exists>p. (1, p) \<in> (child_of demoView)\<^sup>* \<and> listens_on demoView p port})"
  using observation_exact [of demoView 1 True] by (auto simp: demoView_def)

section \<open>Classification is a comparison of sets\<close>

lemma set_dedup_from: "set (dedup_from seen ps) = set ps - set seen"
  by (induction ps arbitrary: seen) auto

lemma distinct_dedup_from: "distinct (dedup_from seen ps)"
  by (induction ps arbitrary: seen) (auto simp: set_dedup_from)

lemma dedup_from_distinct: "distinct ps \<Longrightarrow> set ps \<inter> set seen = {} \<Longrightarrow> dedup_from seen ps = ps"
  by (induction ps arbitrary: seen) auto

lemma map_of_foreign:
  "map_of (concat (map (\<lambda>p. case map_of m p of None \<Rightarrow> []
      | Some h \<Rightarrow> if Ours (holderIdentity h) then [] else [(p, holderIdentity h)]) ps)) x =
   (case map_of m x of
      Some h \<Rightarrow> if x \<in> set ps \<and> \<not> Ours (holderIdentity h) then Some (holderIdentity h) else None
    | None \<Rightarrow> None)"
  by (induction ps) (auto split: option.splits)

lemma map_of_none_fst: "map_of m p = None \<longleftrightarrow> p \<notin> fst ` set m"
  by (simp add: map_of_eq_None_iff)

lemma Classify_sets:
  "set (Missing (Classify decl obs)) = set decl - fst ` set (Holders obs)"
  "set (Stray (Classify decl obs)) = fst ` set (Holders obs) - set decl"
  "set (Actual (Classify decl obs)) = fst ` set (Holders obs)"
  "resDegraded (Classify decl obs) = Degraded obs"
  by (auto simp: Classify_def Let_def set_dedup_from map_of_none_fst)

lemma Classify_foreign:
  "map_of (ForeignHolders (Classify decl obs)) p = Some i \<longleftrightarrow>
     p \<in> set decl \<and> (\<exists>h. map_of (Holders obs) p = Some h \<and> i = holderIdentity h \<and> \<not> Ours i)"
  by (auto simp: Classify_def Let_def map_of_foreign set_dedup_from split: option.splits)

lemma Classify_class:
  "resClassification (Classify decl obs) =
     (if Stray (Classify decl obs) \<noteq> [] then StrayPort else if Missing (Classify decl obs) \<noteq> [] then Partial else CandidateUp)"
  by (simp add: Classify_def Let_def)

text \<open>Classification compares two sets, the declared and the observed ports.  It is a stray when an observed port is
  not declared, partial when the observed ports are a proper subset of the declared ones, and up when they are
  equal; missing, stray and foreign holders are the corresponding differences, repeated declarations aside.\<close>

theorem classify_exact:
  "resClassification (Classify decl obs) =
     (let actual = fst ` set (Holders obs) in
      if \<not> actual \<subseteq> set decl then StrayPort else if actual \<subset> set decl then Partial else CandidateUp)
   \<and> set (Missing (Classify decl obs)) = set decl - fst ` set (Holders obs)
   \<and> set (Stray (Classify decl obs)) = fst ` set (Holders obs) - set decl
   \<and> set (Actual (Classify decl obs)) = fst ` set (Holders obs)
   \<and> (\<forall>p i. map_of (ForeignHolders (Classify decl obs)) p = Some i \<longleftrightarrow>
        p \<in> set decl \<and> (\<exists>h. map_of (Holders obs) p = Some h \<and> i = holderIdentity h \<and> \<not> Ours i))"
proof -
  have "Stray (Classify decl obs) = [] \<longleftrightarrow> fst ` set (Holders obs) \<subseteq> set decl"
    and "Missing (Classify decl obs) = [] \<longleftrightarrow> set decl \<subseteq> fst ` set (Holders obs)"
    by (auto simp: set_empty [symmetric] Classify_sets simp del: set_empty)
  then have "resClassification (Classify decl obs) =
     (let actual = fst ` set (Holders obs) in
      if \<not> actual \<subseteq> set decl then StrayPort else if actual \<subset> set decl then Partial else CandidateUp)"
    by (auto simp: Classify_class Let_def)
  then show ?thesis by (simp only: Classify_sets Classify_foreign) simp
qed

end
