(* ===== verification/HealthGate.thy ===== *)
theory HealthGate
  imports Config
begin

text \<open>
  The readiness gate of the supervisor (\<open>internal/health/health.go\<close>): the resolved check of a server in its
  HTTP and command forms, one probe, the warm-up and the poll loop.

  What a request or a command does is a parameter, given as its outcome.  A loop bounded by a context is given
  the outcomes of the rounds the environment lets it make: after the last of them the deadline is the case
  that \<open>select\<close> takes.  Every run of the loop has such a list, and the loop may leave it early.
\<close>

section \<open>Checks\<close>

record Spec =
  spHost :: string
  spPort :: int
  spPath :: string
  spExec :: "string list"

definition spec_IsExec :: "Spec \<Rightarrow> bool" where
  "spec_IsExec s \<longleftrightarrow> length (spExec s) > 0"

definition ResolveSpec :: "Health \<Rightarrow> string \<Rightarrow> int \<Rightarrow> Spec" where
  "ResolveSpec h serverHost serverPort =
     (let spec = \<lparr>spHost = hHost h, spPort = hPort h, spPath = hPath h, spExec = hExec h\<rparr> in
      if spec_IsExec spec then spec
      else let s1 = (if spHost spec = '''' then spec\<lparr>spHost := serverHost\<rparr> else spec)
           in if spPort s1 = 0 then s1\<lparr>spPort := serverPort\<rparr> else s1)"

definition SpecFor :: "Server \<Rightarrow> Spec option" where
  "SpecFor s = (if \<not> health_Declared (sHealth s) then None else Some (ResolveSpec (sHealth s) (sHost s) (sPort s)))"

definition spec_URL :: "Spec \<Rightarrow> string" where
  "spec_URL s = ''http://'' @ spHost s @ '':'' @ itoa (spPort s) @ spPath s"

definition Describe :: "Spec \<Rightarrow> string" where
  "Describe s = (if spec_IsExec s then ''exec '' @ joinWith '' '' (spExec s) else ''GET '' @ spec_URL s)"

section \<open>One probe\<close>

record probeResult =
  Healthy :: bool
  StatusCode :: int
  probeErr :: bool
  Rendered :: string
  Output :: string

definition zeroResult :: probeResult where
  "zeroResult = \<lparr>Healthy = False, StatusCode = 0, probeErr = False, Rendered = '''', Output = ''''\<rparr>"

definition maxProbeOutput :: nat where "maxProbeOutput = 4096"

record cappedBuffer =
  capBuf :: string
  overflow :: bool

definition capWrite :: "string \<Rightarrow> cappedBuffer \<Rightarrow> nat \<times> cappedBuffer" where
  "capWrite p c =
     (let room = int maxProbeOutput - int (length (capBuf c));
          c1 = (if int (length p) > room then c\<lparr>overflow := True\<rparr> else c);
          c2 = (if room > 0 then c1\<lparr>capBuf := capBuf c1 @ take (nat (min room (int (length p)))) p\<rparr> else c1)
      in (length p, c2))"

definition truncatedMark :: string where
  "truncatedMark = '' ['' @ [CHR 0xE2, CHR 0x80, CHR 0xA6] @ ''truncated]''"

definition cap_String :: "cappedBuffer \<Rightarrow> string" where
  "cap_String c = (let s = trimSpace (capBuf c) in if overflow c then s @ truncatedMark else s)"

datatype http_outcome = NoRequest | NoResponse | Response int

text \<open>A command: what it writes, piece by piece, and how its run ends.\<close>

datatype exit_status = ExitZero | ExitCode int | RunFailed

datatype probe_outcome = HttpOutcome http_outcome | ExecOutcome "string list" exit_status

definition capAll :: "string list \<Rightarrow> cappedBuffer" where
  "capAll ws = foldl (\<lambda>c p. snd (capWrite p c)) \<lparr>capBuf = '''', overflow = False\<rparr> ws"

definition probeExec :: "Spec \<Rightarrow> string list \<Rightarrow> exit_status \<Rightarrow> probeResult" where
  "probeExec spec ws st =
     (let out = cap_String (capAll ws); prog = spExec spec ! 0 in
      case st of
        ExitZero \<Rightarrow> \<lparr>Healthy = True, StatusCode = 0, probeErr = False, Rendered = prog @ '' exit 0'', Output = out\<rparr>
      | ExitCode n \<Rightarrow>
          \<lparr>Healthy = False, StatusCode = 0, probeErr = True, Rendered = prog @ '' exit '' @ itoa n, Output = out\<rparr>
      | RunFailed \<Rightarrow> \<lparr>Healthy = False, StatusCode = 0, probeErr = True, Rendered = prog @ '' failed'', Output = out\<rparr>)"

definition httpResult :: "string \<Rightarrow> http_outcome \<Rightarrow> probeResult" where
  "httpResult path r =
     (case r of
        Response c \<Rightarrow>
          \<lparr>Healthy = (c \<ge> 200 \<and> c < 300), StatusCode = c, probeErr = False, Rendered = path @ '' '' @ itoa c, Output = ''''\<rparr>
      | _ \<Rightarrow> zeroResult\<lparr>probeErr := True, Rendered := path\<rparr>)"

text \<open>
  \<open>Probe\<close>.  The environment answers the form that was asked: the outcome of the other form is read as no
  response, which no run produces.
\<close>

definition Probe :: "Spec \<Rightarrow> probe_outcome \<Rightarrow> probeResult" where
  "Probe spec out =
     (if spec_IsExec spec
      then (case out of ExecOutcome ws st \<Rightarrow> probeExec spec ws st | HttpOutcome _ \<Rightarrow> probeExec spec [] RunFailed)
      else (case out of HttpOutcome r \<Rightarrow> httpResult (spPath spec) r | ExecOutcome _ _ \<Rightarrow> httpResult (spPath spec) NoResponse))"

section \<open>The warm-up\<close>

record WarmSpec =
  wsHost :: string
  wsPort :: int
  wsMethod :: string
  wsPath :: string
  wsBody :: string

definition ResolveWarmSpec :: "Warm \<Rightarrow> string \<Rightarrow> int \<Rightarrow> WarmSpec" where
  "ResolveWarmSpec w serverHost serverPort =
     \<lparr>wsHost = (if wHost w = '''' then serverHost else wHost w),
      wsPort = (if wPort w = 0 then serverPort else wPort w),
      wsMethod = (if wMethod w = '''' then ''POST'' else wMethod w),
      wsPath = wPath w, wsBody = wBody w\<rparr>"

definition ProbeWarm :: "WarmSpec \<Rightarrow> http_outcome \<Rightarrow> probeResult" where
  "ProbeWarm spec r = httpResult (wsPath spec) r"

definition isWarmRequestRejected :: "int \<Rightarrow> bool" where
  "isWarmRequestRejected status \<longleftrightarrow> (if status = 408 \<or> status = 429 then False else status \<ge> 400 \<and> status < 500)"

datatype gate_error =
    WarmRejected string int
  | WarmTimeout string
  | NotHealthy string string
  | NonPositiveTicker

text \<open>\<open>Warm\<close>: the first attempt, and one for each further round before the deadline is taken.\<close>

fun warm_rounds :: "string \<Rightarrow> WarmSpec \<Rightarrow> http_outcome \<Rightarrow> http_outcome list \<Rightarrow> gate_error option" where
  "warm_rounds name spec r rest =
     (let result = ProbeWarm spec r in
      if Healthy result then None
      else if isWarmRequestRejected (StatusCode result) then Some (WarmRejected name (StatusCode result))
      else case rest of [] \<Rightarrow> Some (WarmTimeout name) | r' # rs \<Rightarrow> warm_rounds name spec r' rs)"

definition WarmGate :: "string \<Rightarrow> WarmSpec \<Rightarrow> http_outcome \<times> http_outcome list \<Rightarrow> gate_error option" where
  "WarmGate name spec run = warm_rounds name spec (fst run) (snd run)"

section \<open>The poll\<close>

record PollConfig =
  pcSpec :: Spec
  pcInterval :: duration
  pcServer :: string

text \<open>
  The loop after the first attempt, with the explanation so far.  A round is the outcome of the attempt at a
  tick; the end of the list is the deadline.
\<close>

fun poll_rounds :: "PollConfig \<Rightarrow> string \<Rightarrow> probe_outcome list \<Rightarrow> gate_error option" where
  "poll_rounds cfg expl [] = Some (NotHealthy (pcServer cfg) expl)"
| "poll_rounds cfg expl (o1 # os) =
     (let result = Probe (pcSpec cfg) o1;
          expl' = (if Output result \<noteq> '''' then Output result else expl)
      in if Healthy result then None else poll_rounds cfg expl' os)"

text \<open>\<open>time.NewTicker\<close> panics when the interval is not positive.\<close>

definition PollReady :: "PollConfig \<Rightarrow> probe_outcome \<times> probe_outcome list \<Rightarrow> gate_error option" where
  "PollReady cfg run =
     (let result = Probe (pcSpec cfg) (fst run);
          expl = (if Output result \<noteq> '''' then Output result else '''')
      in if Healthy result then None
         else if pcInterval cfg \<le> 0 then Some NonPositiveTicker
         else poll_rounds cfg expl (snd run))"

section \<open>Facts\<close>

text \<open>A kept output is the beginning of what was written, and the mark is set only when something was dropped.\<close>

lemma capAll_exact:
  "capBuf (capAll ws) = take maxProbeOutput (concat ws) \<and> (overflow (capAll ws) \<longleftrightarrow> maxProbeOutput < length (concat ws))"
proof (induction ws rule: rev_induct)
  case Nil
  then show ?case by (simp add: capAll_def)
next
  case (snoc p ws)
  have step: "capAll (ws @ [p]) = snd (capWrite p (capAll ws))" by (simp add: capAll_def)
  from snoc show ?case
    by (auto simp: step capWrite_def Let_def min_def nat_diff_distrib)
qed

lemma Probe_exec_healthy:
  "spec_IsExec spec \<Longrightarrow> Healthy (Probe spec out) \<longleftrightarrow> (\<exists>ws. out = ExecOutcome ws ExitZero)"
  by (auto simp: Probe_def probeExec_def Let_def split: probe_outcome.splits exit_status.splits)

lemma Probe_http_healthy:
  "\<not> spec_IsExec spec \<Longrightarrow> Healthy (Probe spec out) \<longleftrightarrow> (\<exists>c. out = HttpOutcome (Response c) \<and> 200 \<le> c \<and> c < 300)"
  by (auto simp: Probe_def httpResult_def zeroResult_def split: probe_outcome.splits http_outcome.splits)

text \<open>The last output of a list of probes that is not empty.\<close>

fun last_word :: "string \<Rightarrow> string list \<Rightarrow> string" where
  "last_word d [] = d"
| "last_word d (x # xs) = last_word (if x \<noteq> '''' then x else d) xs"

lemma poll_rounds_spec:
  "poll_rounds cfg expl os =
     (if \<exists>o' \<in> set os. Healthy (Probe (pcSpec cfg) o') then None
      else Some (NotHealthy (pcServer cfg) (last_word expl (map (\<lambda>o'. Output (Probe (pcSpec cfg) o')) os))))"
  by (induction os arbitrary: expl) (auto simp: Let_def)


lemma strip_front_shorter: "length (strip_front ps s) \<le> length s"
  by (induction ps s rule: strip_front.induct) (subst strip_front.simps, auto simp: Let_def)

lemma trimSpace_shorter: "length (trimSpace s) \<le> length s"
  using strip_front_shorter [of space_runes s] strip_front_shorter [of "map rev space_runes" "rev (strip_front space_runes s)"]
  by (simp add: trimSpace_def)

text \<open>C30: a probe command that writes without end costs the supervisor a bounded buffer.  However its output is cut into
  writes, each write is accepted whole, the first 4096 bytes are kept, the output is marked as truncated exactly when bytes
  were dropped, and the text that is reported is at most 4111 bytes long.\<close>

theorem probe_output_bounded:
  "capBuf (capAll ws) = take maxProbeOutput (concat ws)
   \<and> (overflow (capAll ws) \<longleftrightarrow> maxProbeOutput < length (concat ws))
   \<and> fst (capWrite p c) = length p
   \<and> length (Output (probeExec spec ws st)) \<le> maxProbeOutput + 15"
proof -
  have "length (cap_String (capAll ws)) \<le> maxProbeOutput + 15"
    using trimSpace_shorter [of "capBuf (capAll ws)"] capAll_exact [of ws]
    by (auto simp: cap_String_def truncatedMark_def Let_def)
  then show ?thesis using capAll_exact [of ws]
    by (simp add: capWrite_def probeExec_def Let_def split: exit_status.splits)
qed

end
