(* ===== verification/Launch.thy ===== *)
theory Launch
  imports ConfigSpec Observe HealthGate
begin

text \<open>
  The pure part of the launchers (\<open>internal/lifecycle\<close>: \<open>launch.go\<close>, \<open>exec.go\<close>, \<open>mlx.go\<close>, \<open>python.go\<close>,
  \<open>source.go\<close>, \<open>log.go\<close> and the helpers of \<open>teardown.go\<close>): the command lines of the four server types, the
  environment overlay, the rewriting of a build command, log file names, declared ports and grace periods.

  The home directory and which directories exist are parameters.
\<close>

section \<open>Command lines\<close>

definition ExecCommand :: "Server \<Rightarrow> string \<times> string list" where
  "ExecCommand s = (Command s, Args s)"

definition SourceCommand :: "Server \<Rightarrow> string \<times> string list" where
  "SourceCommand s = (sBinary s, Args s)"

definition PythonCommand :: "Server \<Rightarrow> string \<times> string list" where
  "PythonCommand s =
     (let fs = strFields (Entry s);
          token = (if length fs > 0 then fs ! 0 else '''');
          rest = (if length fs > 0 then tl fs else [])
      in (joinPath [Venv s, ''bin'', token], rest @ [''--host'', sHost s, ''--port'', itoa (sPort s)]))"

definition mlxModelsRoot :: "string option \<Rightarrow> string option" where
  "mlxModelsRoot home = map_option (\<lambda>h. joinPath [h, ''.mlx-serve'', ''models'']) home"

definition resolveMLXModelPath :: "(string \<Rightarrow> bool) \<Rightarrow> string \<Rightarrow> string \<Rightarrow> string" where
  "resolveMLXModelPath isDir rt name =
     (if rt = '''' \<or> name = '''' \<or> isAbs name then name
      else let candidate = joinPath [rt, name] in if isDir candidate then candidate else name)"

definition MLXCommand :: "string option \<Rightarrow> (string \<Rightarrow> bool) \<Rightarrow> Server \<Rightarrow> string \<times> string list" where
  "MLXCommand home isDir s =
     (let (model, drafter) =
            (if Drafter s \<noteq> '''' then
               (case mlxModelsRoot home of
                  Some rt \<Rightarrow> (resolveMLXModelPath isDir rt (Model s), resolveMLXModelPath isDir rt (Drafter s))
                | None \<Rightarrow> (Model s, Drafter s))
             else (Model s, Drafter s));
          args = [''serve'', model, ''--host'', sHost s, ''--port'', itoa (sPort s)];
          args1 = (if drafter \<noteq> '''' then args @ [''--drafter'', drafter] else args)
      in (''mlx-serve'', args1 @ Args s))"

definition ResolveCommand :: "string option \<Rightarrow> (string \<Rightarrow> bool) \<Rightarrow> Server \<Rightarrow> (string \<times> string list) option" where
  "ResolveCommand home isDir s =
     (if sType s = TypeMLX then Some (MLXCommand home isDir s)
      else if sType s = TypePython then Some (PythonCommand s)
      else if sType s = TypeExec then Some (ExecCommand s)
      else if sType s = TypeSource then Some (SourceCommand s)
      else None)"

section \<open>Environment\<close>

definition envKey :: "string \<Rightarrow> string" where
  "envKey kv = (case cut ''='' kv of Some (k, _) \<Rightarrow> k | None \<Rightarrow> kv)"

definition mergeEnv :: "string list \<Rightarrow> envmap \<Rightarrow> string list" where
  "mergeEnv base override =
     (if length override = 0 then base
      else filter (\<lambda>kv. map_of override (envKey kv) = None) base @ map (\<lambda>(k, v). k @ ''='' @ v) override)"

section \<open>Build commands\<close>

datatype source_error =
    OutputNoPath string
  | OutputMissing string
  | DirNotGo "string list"
  | NoHome string
  | TempDirFailed string
  | BuildEmpty string
  | CommandFailed "string list"
  | HashFailed string
  | ReplaceFailed string
  | StopFailed string
  | StartFailed string
  | NotSource string ServerType

definition expandTilde :: "string option \<Rightarrow> string \<Rightarrow> source_error + string" where
  "expandTilde home path =
     (if path \<noteq> ''~'' \<and> \<not> has_prefix ''~/'' path then Inr path
      else case home of
        None \<Rightarrow> Inl (NoHome path)
      | Some h \<Rightarrow> if path = ''~'' then Inr h else Inr (joinPath [h, drop 2 path]))"

definition insertGoDirFlag :: "string option \<Rightarrow> string list \<Rightarrow> string \<Rightarrow> source_error + string list" where
  "insertGoDirFlag home fs dir =
     (if length fs = 0 \<or> fs ! 0 \<noteq> ''go'' then Inl (DirNotGo fs)
      else case expandTilde home dir of
        Inl e \<Rightarrow> Inl e
      | Inr d \<Rightarrow> Inr ([fs ! 0, ''-C'', d] @ tl fs))"

text \<open>The first \<open>-o\<close> and the token after it.\<close>

fun rewriteOutput :: "string \<Rightarrow> string \<Rightarrow> string list \<Rightarrow> source_error + string list" where
  "rewriteOutput cmd newPath [] = Inl (OutputMissing cmd)"
| "rewriteOutput cmd newPath (f # fs) =
     (if f \<noteq> ''-o'' then (case rewriteOutput cmd newPath fs of Inl e \<Rightarrow> Inl e | Inr r \<Rightarrow> Inr (f # r))
      else (case fs of [] \<Rightarrow> Inl (OutputNoPath cmd) | _ # rest \<Rightarrow> Inr (f # newPath # rest)))"

definition rewriteBuildOutputFields :: "string \<Rightarrow> string \<Rightarrow> source_error + string list" where
  "rewriteBuildOutputFields buildCmd newPath = rewriteOutput buildCmd newPath (strFields buildCmd)"

definition RewriteBuildOutput :: "string \<Rightarrow> string \<Rightarrow> source_error + string" where
  "RewriteBuildOutput buildCmd newPath =
     (case rewriteBuildOutputFields buildCmd newPath of Inl e \<Rightarrow> Inl e | Inr fs \<Rightarrow> Inr (joinWith '' '' fs))"

fun outputIndex :: "nat \<Rightarrow> string list \<Rightarrow> nat option" where
  "outputIndex i [] = None"
| "outputIndex i (f # fs) = (if f = ''-o'' then Some i else outputIndex (Suc i) fs)"

definition insertBuildVCSFalse :: "string list \<Rightarrow> string list" where
  "insertBuildVCSFalse fs =
     (if list_ex (\<lambda>f. f = ''-buildvcs=false'' \<or> f = ''-buildvcs'') fs then fs
      else let insertAt = (case outputIndex 0 fs of Some i \<Rightarrow> i + 2 | None \<Rightarrow> length fs)
           in take insertAt fs @ [''-buildvcs=false''] @ drop insertAt fs)"

text \<open>The command \<open>buildToTemp\<close> runs, for a temporary directory \<open>dir\<close>.\<close>

definition tempBinary :: "Server \<Rightarrow> string \<Rightarrow> string" where
  "tempBinary s dir =
     (let b = basePath (sBinary s) in joinPath [dir, if b = ''.'' \<or> b = ''/'' then sName s else b])"

definition buildFields :: "string option \<Rightarrow> Server \<Rightarrow> string \<Rightarrow> source_error + string list" where
  "buildFields home s dir =
     (if trimSpace (sBuild s) = '''' then Inl (BuildEmpty (sName s))
      else case rewriteBuildOutputFields (sBuild s) (tempBinary s dir) of
        Inl e \<Rightarrow> Inl e
      | Inr fs \<Rightarrow>
          (case (if sDir s \<noteq> '''' then insertGoDirFlag home fs (sDir s) else Inr fs) of
             Inl e \<Rightarrow> Inl e
           | Inr fs1 \<Rightarrow> Inr (insertBuildVCSFalse fs1)))"

section \<open>Log files\<close>

definition logTimeLayoutLen :: nat where "logTimeLayoutLen = 19"

definition logName :: "string \<Rightarrow> string \<Rightarrow> string" where
  "logName name ts = name @ ''-'' @ ts @ ''.log''"

text \<open>A file that the glob \<open>name-*.log\<close> matched belongs to \<open>name\<close> when the rest has the length of a time stamp.\<close>

definition logMatches :: "string \<Rightarrow> string \<Rightarrow> bool" where
  "logMatches name base \<longleftrightarrow>
     length (trimSuffix ''.log'' (trimPrefix (name @ ''-'') base)) = logTimeLayoutLen"

text \<open>The matches in the order of the glob, each with its modification time, or \<open>None\<close> when it is gone.\<close>

fun newest :: "string \<Rightarrow> (string \<times> int option) list \<Rightarrow> string \<times> int \<Rightarrow> string \<times> int" where
  "newest name [] best = best"
| "newest name ((m, t) # ms) best =
     (if \<not> logMatches name (basePath m) then newest name ms best
      else case t of
        None \<Rightarrow> newest name ms best
      | Some mtime \<Rightarrow> newest name ms (if mtime > snd best then (m, mtime) else best))"

definition NewestLog :: "string \<Rightarrow> (string \<times> int option) list \<Rightarrow> string option" where
  "NewestLog name globbed =
     (let best = newest name globbed ('''', 0) in if fst best = '''' then None else Some (fst best))"

section \<open>Ports and grace\<close>

definition ResolveGracePeriod :: "Server \<Rightarrow> Supervisor \<Rightarrow> duration" where
  "ResolveGracePeriod s sv = (if sGracePeriod s \<noteq> 0 then sGracePeriod s else supGracePeriod sv)"

definition DeclaredPorts :: "Server \<Rightarrow> int list" where
  "DeclaredPorts s =
     (if sPort s \<noteq> 0 then sPort s # dedup_from [sPort s] (Listens s) else dedup_from [] (Listens s))"

section \<open>Facts\<close>

lemma set_DeclaredPorts: "set (DeclaredPorts s) = set (serverPortSet s)"
  by (auto simp: DeclaredPorts_def serverPortSet_def set_dedup_from)

lemma DeclaredPorts_dedup: "DeclaredPorts s = dedup_from [] (serverPortSet s)"
  by (simp add: DeclaredPorts_def serverPortSet_def)

lemma distinct_DeclaredPorts: "distinct (DeclaredPorts s)"
  by (simp add: DeclaredPorts_dedup distinct_dedup_from)

text \<open>A build command with its output rewritten.\<close>

lemma rewriteOutput_InrD:
  "rewriteOutput cmd p fs = Inr r \<Longrightarrow>
     \<exists>pre old post. fs = pre @ ''-o'' # old # post \<and> ''-o'' \<notin> set pre \<and> r = pre @ ''-o'' # p # post"
proof (induction fs arbitrary: r)
  case (Cons f fs)
  show ?case
  proof (cases "f = ''-o''")
    case True
    with Cons.prems obtain old post where "fs = old # post" "r = [] @ ''-o'' # p # post" by (auto split: list.splits)
    with True show ?thesis by fastforce
  next
    case False
    with Cons.prems obtain r' where "rewriteOutput cmd p fs = Inr r'" and r: "r = f # r'"
      by (auto split: sum.splits)
    with Cons.IH obtain pre old post
      where "fs = pre @ ''-o'' # old # post" "''-o'' \<notin> set pre" "r' = pre @ ''-o'' # p # post" by blast
    with False r show ?thesis by (intro exI [of _ "f # pre"]) auto
  qed
qed simp

lemma outputIndex_split:
  "''-o'' \<notin> set pre \<Longrightarrow> outputIndex i (pre @ ''-o'' # rest) = Some (i + length pre)"
  by (induction pre arbitrary: i) auto

lemma insertBuildVCSFalse_split:
  assumes "''-o'' \<notin> set pre" and "\<not> list_ex (\<lambda>f. f = ''-buildvcs=false'' \<or> f = ''-buildvcs'') (pre @ ''-o'' # p # post)"
  shows "insertBuildVCSFalse (pre @ ''-o'' # p # post) = pre @ ''-o'' # p # ''-buildvcs=false'' # post"
  using assms by (simp add: insertBuildVCSFalse_def Let_def outputIndex_split)

text \<open>A log name determines its server: the time stamps have one length.\<close>

lemma logName_length:
  "length ts = logTimeLayoutLen \<Longrightarrow> length (logName name ts) = length name + 24"
  by (simp add: logName_def logTimeLayoutLen_def)

lemma logMatches_own:
  "length ts = logTimeLayoutLen \<Longrightarrow> logMatches name (logName name ts)"
  by (simp add: logMatches_def logName_def trimPrefix_def trimSuffix_def has_suffix_def has_prefix_iff)

lemma trimSuffix_append: "trimSuffix p (x @ p) = x"
  by (simp add: trimSuffix_def has_suffix_def has_prefix_iff)

lemma trimSuffix_shorter: "length (trimSuffix p x) \<le> length x"
  by (simp add: trimSuffix_def)

lemma logMatches_only_own:
  assumes "length ts = logTimeLayoutLen" and "has_prefix (name @ ''-'') (logName other ts)"
    and "logMatches name (logName other ts)"
  shows "name = other"
proof -
  let ?X = "other @ ''-'' @ ts" and ?k = "length name + 1"
  from assms(2) obtain u where u: "?X @ ''.log'' = (name @ ''-'') @ u"
    by (auto simp: logName_def has_prefix_iff)
  then have rest: "trimPrefix (name @ ''-'') (logName other ts) = drop ?k (?X @ ''.log'')"
    by (simp add: trimPrefix_def logName_def has_prefix_iff)
  have "length (drop ?k ?X) = 19 \<and> ?k \<le> length ?X"
  proof (cases "?k \<le> length ?X")
    case True
    then have "drop ?k (?X @ ''.log'') = drop ?k ?X @ ''.log''" by (simp only: drop_append) simp
    then have "trimSuffix ''.log'' (drop ?k (?X @ ''.log'')) = drop ?k ?X" by (simp only: trimSuffix_append)
    with assms(3) True show ?thesis by (simp add: logMatches_def rest logTimeLayoutLen_def)
  next
    case False
    then have "length (drop ?k (?X @ ''.log'')) < 4" by simp
    then have "length (trimSuffix ''.log'' (drop ?k (?X @ ''.log''))) < 4"
      using trimSuffix_shorter le_less_trans by blast
    with assms(3) show ?thesis by (simp only: logMatches_def rest logTimeLayoutLen_def)
  qed
  then have "length name = length other" using assms(1) by (auto simp: logTimeLayoutLen_def)
  with u show ?thesis by (simp add: append_eq_append_conv)
qed

section \<open>What the build command becomes\<close>

lemma insertBuildVCSFalse_cases:
  assumes "''-o'' \<notin> set pre"
  shows "\<exists>vcs \<in> {[], [''-buildvcs=false'']}. insertBuildVCSFalse (pre @ ''-o'' # p # post) = pre @ ''-o'' # p # vcs @ post"
proof (cases "list_ex (\<lambda>f. f = ''-buildvcs=false'' \<or> f = ''-buildvcs'') (pre @ ''-o'' # p # post)")
  case True
  then show ?thesis by (simp add: insertBuildVCSFalse_def)
next
  case False
  from insertBuildVCSFalse_split [OF assms False] show ?thesis by simp
qed

text \<open>The staleness probe never builds over the deployed binary.  The command it runs is the configured one with the
  path after its first \<open>-o\<close> replaced by the temporary path, at most \<open>-buildvcs=false\<close> added right after it, before
  the package pattern, and \<open>-C dir\<close> right after \<open>go\<close> when a directory is configured; all else is kept in order.\<close>

theorem build_output_redirected:
  assumes "buildFields home s dir = Inr fs" and "expandTilde home (sDir s) \<noteq> Inr ''-o''"
  shows "\<exists>pre pre' old post vcs.
      strFields (sBuild s) = pre @ ''-o'' # old # post \<and> ''-o'' \<notin> set pre'
    \<and> fs = pre' @ ''-o'' # tempBinary s dir # vcs @ post \<and> vcs \<in> {[], [''-buildvcs=false'']}
    \<and> (if sDir s = '''' then pre' = pre
       else \<exists>rest d. pre = ''go'' # rest \<and> expandTilde home (sDir s) = Inr d \<and> pre' = ''go'' # ''-C'' # d # rest)"
proof -
  from assms(1) obtain fs0 fs1 where fs0: "rewriteOutput (sBuild s) (tempBinary s dir) (strFields (sBuild s)) = Inr fs0"
    and fs1: "(if sDir s \<noteq> '''' then insertGoDirFlag home fs0 (sDir s) else Inr fs0) = Inr fs1"
    and fs: "fs = insertBuildVCSFalse fs1"
    by (auto simp: buildFields_def rewriteBuildOutputFields_def split: sum.splits if_splits)
  from rewriteOutput_InrD [OF fs0] obtain pre old post where shape: "strFields (sBuild s) = pre @ ''-o'' # old # post"
    "''-o'' \<notin> set pre" "fs0 = pre @ ''-o'' # tempBinary s dir # post" by blast
  show ?thesis
  proof (cases "sDir s = ''''")
    case True
    with fs1 shape insertBuildVCSFalse_cases [of pre "tempBinary s dir" post] fs show ?thesis by fastforce
  next
    case False
    with fs1 obtain d where d: "expandTilde home (sDir s) = Inr d" and go: "fs0 \<noteq> []" "fs0 ! 0 = ''go''"
      and fs1': "fs1 = [''go'', ''-C'', d] @ tl fs0"
      by (auto simp: insertGoDirFlag_def split: if_splits sum.splits)
    with shape obtain rest where rest: "pre = ''go'' # rest" by (cases pre) auto
    with fs1' shape have fs1'': "fs1 = (''go'' # ''-C'' # d # rest) @ ''-o'' # tempBinary s dir # post" by simp
    have no: "''-o'' \<notin> set (''go'' # ''-C'' # d # rest)" using rest shape d assms(2) by auto
    from insertBuildVCSFalse_cases [OF this, of "tempBinary s dir" post] obtain vcs
      where "vcs \<in> {[], [''-buildvcs=false'']}" "fs = (''go'' # ''-C'' # d # rest) @ ''-o'' # tempBinary s dir # vcs @ post"
      unfolding fs fs1'' by blast
    with False d rest shape no show ?thesis
      by (intro exI [of _ pre] exI [of _ "''go'' # ''-C'' # d # rest"] exI [of _ old] exI [of _ post] exI [of _ vcs]) simp
  qed
qed

definition demoSource :: Server where
  "demoSource = zeroServer\<lparr>sName := ''a'', sType := TypeSource, sBuild := ''go build -o x .'', sBinary := ''x'', sDir := ''d'',
     Listens := [7]\<rparr>"

lemma demo_build: "buildFields None demoSource ''t'' = Inr [''go'', ''-C'', ''d'', ''build'', ''-o'', ''t/x'', ''-buildvcs=false'', ''.'']"
  by code_simp

theorem build_output_redirected_witness:
  "buildFields None demoSource ''t'' = Inr [''go'', ''-C'', ''d'', ''build'', ''-o'', ''t/x'', ''-buildvcs=false'', ''.'']
   \<and> (\<exists>pre pre' old post vcs. strFields (sBuild demoSource) = pre @ ''-o'' # old # post \<and> ''-o'' \<notin> set pre'
      \<and> [''go'', ''-C'', ''d'', ''build'', ''-o'', ''t/x'', ''-buildvcs=false'', ''.'']
          = pre' @ ''-o'' # tempBinary demoSource ''t'' # vcs @ post)"
proof -
  have d: "expandTilde None (sDir demoSource) \<noteq> Inr ''-o''" by code_simp
  show ?thesis using demo_build build_output_redirected [OF demo_build d] by blast
qed

section \<open>Logs and environment\<close>

lemma newest_spec:
  "newest name ms best = (p, t) \<Longrightarrow>
     ((p, t) = best \<or> ((p, Some t) \<in> set ms \<and> logMatches name (basePath p)))
   \<and> snd best \<le> t \<and> (\<forall>m u. (m, Some u) \<in> set ms \<longrightarrow> logMatches name (basePath m) \<longrightarrow> u \<le> t)"
proof (induction ms arbitrary: best)
  case (Cons x ms)
  obtain m u where x: "x = (m, u)" by (cases x)
  show ?case
  proof (cases "\<exists>v. u = Some v \<and> logMatches name (basePath m)")
    case False
    then have "newest name (x # ms) best = newest name ms best" by (auto simp: x split: option.splits)
    with Cons.IH [of best] Cons.prems False show ?thesis by (auto simp: x)
  next
    case True
    then obtain v where v: "u = Some v" "logMatches name (basePath m)" by blast
    let ?b = "if v > snd best then (m, v) else best"
    from v have "newest name (x # ms) best = newest name ms ?b" by (simp add: x)
    with Cons.prems have "newest name ms ?b = (p, t)" by simp
    from Cons.IH [OF this] v show ?thesis by (cases "v > snd best") (auto simp: x)
  qed
qed auto

text \<open>The newest log of a server is one of its own logs and none of its logs is newer.\<close>

lemma NewestLog_spec:
  assumes "NewestLog name ms = Some p" and "\<forall>m u. (m, Some u) \<in> set ms \<longrightarrow> 0 < u"
  shows "\<exists>t. (p, Some t) \<in> set ms \<and> logMatches name (basePath p)
     \<and> (\<forall>m u. (m, Some u) \<in> set ms \<longrightarrow> logMatches name (basePath m) \<longrightarrow> u \<le> t)"
  using assms newest_spec [of name ms "('''', 0)"]
  by (cases "newest name ms ('''', 0)") (auto simp: NewestLog_def Let_def split: if_splits)

lemma mergeEnv_keys:
  assumes "override \<noteq> []"
  shows "set (mergeEnv base override) =
     {kv \<in> set base. envKey kv \<notin> fst ` set override} \<union> {k @ ''='' @ v |k v. (k, v) \<in> set override}"
  using assms by (auto simp: mergeEnv_def map_of_eq_None_iff)

section \<open>Prompt arguments of an mlx server\<close>

text \<open>An mlx server's launch command ends with its configured arguments, so an answer that appends arguments would
  reach it; yet the validator rejects every prompt with arguments on an mlx server.\<close>

theorem mlx_prompt_args_reach:
  "snd (MLXCommand home isDir (s\<lparr>Args := Args s @ extra\<rparr>)) = snd (MLXCommand home isDir s) @ extra
   \<and> validatePrompt (s\<lparr>sType := TypeMLX,
        Prompt := Some \<lparr>Question = ''q'', YesArgs = [a], NoArgs = [], YesEnv = [], NoEnv = []\<rparr>\<rparr>)
     = Some (PromptUnsupported (sName s) TypeMLX)"
  by (cases "Drafter s = []"; cases "mlxModelsRoot home")
     (simp_all add: MLXCommand_def validatePrompt_def promptDeclaresArgs_def promptCapableTypes_def server_type_defs Let_def)


end
