(* ===== verification/Teardown.thy ===== *)
theory Teardown
  imports Launch
begin

text \<open>
  Stopping and starting servers (\<open>internal/lifecycle/teardown.go\<close>, \<open>launch.go\<close>, \<open>source.go\<close>): the kill
  sequence with its verification, launching, the staleness probe and the replacement of a binary.

  The operating system is the record \<open>os\<close>: each field answers one call and moves a world of arbitrary type.
  The model keeps beside it the list of events, the calls made and the answers that later decisions rest on, so
  that a theorem can say what happened and in which order.  A loop that tests \<open>time.Now().Before(deadline)\<close>
  is given the number of times that test succeeds.
\<close>

section \<open>The operating system\<close>

datatype signal = SIGTERM | SIGKILL

datatype kill_answer = KillOK | ESRCH | KillErrno int

datatype filekind = IsDir | IsFile

datatype hash_answer = Digest nat | NotExist | HashError

record launchReq =
  lrName :: string
  lrCommand :: string
  lrArgs :: "string list"
  lrEnv :: "string list"
  lrDir :: string

record runReq =
  rqArgv :: "string list"
  rqEnv :: "string list"
  rqDir :: string

record 'w os =
  osView :: "'w \<Rightarrow> sysview \<times> 'w"
  osKill :: "pid \<Rightarrow> signal \<Rightarrow> 'w \<Rightarrow> kill_answer \<times> 'w"
  osKill0 :: "pid \<Rightarrow> 'w \<Rightarrow> kill_answer \<times> 'w"
  osRounds :: "duration \<Rightarrow> 'w \<Rightarrow> nat \<times> 'w"
  osProbe :: "Spec \<Rightarrow> 'w \<Rightarrow> probe_outcome \<times> 'w"
  osPoll :: "Spec \<Rightarrow> 'w \<Rightarrow> (probe_outcome \<times> probe_outcome list) \<times> 'w"
  osWarm :: "WarmSpec \<Rightarrow> 'w \<Rightarrow> (http_outcome \<times> http_outcome list) \<times> 'w"
  osStart :: "launchReq \<Rightarrow> 'w \<Rightarrow> (pid \<times> string) option \<times> 'w"
  osExited :: "pid \<Rightarrow> 'w \<Rightarrow> bool \<times> 'w"
  osRun :: "runReq \<Rightarrow> 'w \<Rightarrow> bool \<times> 'w"
  osTempDir :: "'w \<Rightarrow> string option \<times> 'w"
  osHash :: "string \<Rightarrow> 'w \<Rightarrow> hash_answer \<times> 'w"
  osReplace :: "string \<Rightarrow> string \<Rightarrow> 'w \<Rightarrow> bool \<times> 'w"
  osHome :: "string option"
  osCwd :: string
  osEnviron :: "string list"
  osStat :: "string \<Rightarrow> filekind option"

datatype event =
    EvAlive pid bool
  | EvSignal pid signal
  | EvScan "(int \<times> pid) list option"
  | EvTree pid "proc_error + TreeObservation"
  | EvProbe Spec bool
  | EvStart string pid
  | EvStartFailed string
  | EvCommand runReq bool
  | EvReplace string bool
  | EvWarm string bool
  | EvReady string bool
  | EvKill int bool

record 'w host =
  events :: "event list"
  world :: 'w

definition ask :: "('w \<Rightarrow> 'a \<times> 'w) \<Rightarrow> ('a \<Rightarrow> event list) \<Rightarrow> 'w host \<Rightarrow> 'a \<times> 'w host" where
  "ask f ev h = (let (a, w) = f (world h) in (a, \<lparr>events = events h @ ev a, world = w\<rparr>))"

lemma ask_events: "ask f ev h = (a, h') \<Longrightarrow> events h' = events h @ ev a"
  by (auto simp: ask_def split: prod.splits)

text \<open>A command run to completion, and one that inherits the environment and the working directory.\<close>

definition runCommand :: "'w os \<Rightarrow> runReq \<Rightarrow> 'w host \<Rightarrow> bool \<times> 'w host" where
  "runCommand os rq h = ask (osRun os rq) (\<lambda>b. [EvCommand rq b]) h"

definition plainRun :: "'w os \<Rightarrow> string list \<Rightarrow> runReq" where
  "plainRun os argv = \<lparr>rqArgv = argv, rqEnv = osEnviron os, rqDir = []\<rparr>"

section \<open>Signals and scans\<close>

definition groupSignal :: "'w os \<Rightarrow> pid \<Rightarrow> signal \<Rightarrow> 'w host \<Rightarrow> bool \<times> 'w host" where
  "groupSignal os p sig h =
     (let (r, h1) = ask (osKill os p sig) (\<lambda>_. [EvSignal p sig]) h in (r = KillOK \<or> r = ESRCH, h1))"

definition groupAlive :: "'w os \<Rightarrow> pid \<Rightarrow> 'w host \<Rightarrow> bool \<times> 'w host" where
  "groupAlive os p h =
     (let (r, h1) = ask (osKill0 os p) (\<lambda>r. [EvAlive p (r = KillOK)]) h in (r = KillOK, h1))"

definition scan :: "'w os \<Rightarrow> 'w host \<Rightarrow> (int \<times> pid) list option \<times> 'w host" where
  "scan os h =
     ask (\<lambda>w. let (V, w') = osView os w in (SystemListenSet V, w')) (\<lambda>r. [EvScan r]) h"

definition stillIn :: "int list \<Rightarrow> (int \<times> pid) list option \<Rightarrow> int list" where
  "stillIn ports r =
     (case r of None \<Rightarrow> ports | Some holders \<Rightarrow> filter (\<lambda>p. map_of holders p \<noteq> None) ports)"

definition listeningPortSet :: "'w os \<Rightarrow> int list \<Rightarrow> 'w host \<Rightarrow> int list \<times> 'w host" where
  "listeningPortSet os ports h = (let (r, h1) = scan os h in (stillIn ports r, h1))"

definition portsFree :: "'w os \<Rightarrow> int list \<Rightarrow> 'w host \<Rightarrow> bool \<times> 'w host" where
  "portsFree os ports h = (let (l, h1) = listeningPortSet os ports h in (length l = 0, h1))"

definition portListening :: "'w os \<Rightarrow> int \<Rightarrow> 'w host \<Rightarrow> bool \<times> 'w host" where
  "portListening os port h = (let (l, h1) = listeningPortSet os [port] h in (length l > 0, h1))"

text \<open>The condition \<open>!groupAlive(pid) && portsFree(ports)\<close>, which scans only when the group is gone.\<close>

definition goneAndFree :: "'w os \<Rightarrow> pid \<Rightarrow> int list \<Rightarrow> 'w host \<Rightarrow> bool \<times> 'w host" where
  "goneAndFree os p ports h =
     (let (a, h1) = groupAlive os p h in if a then (False, h1) else portsFree os ports h1)"

fun awaitGone :: "'w os \<Rightarrow> pid \<Rightarrow> int list \<Rightarrow> nat \<Rightarrow> 'w host \<Rightarrow> 'w host" where
  "awaitGone os p ports 0 h = h"
| "awaitGone os p ports (Suc n) h =
     (let (g, h1) = goneAndFree os p ports h in if g then h1 else awaitGone os p ports n h1)"

section \<open>Teardown\<close>

datatype KillSignal = KillSignalNone | KillSignalTerm | KillSignalKill

record Target =
  tgName :: string
  tgPID :: pid
  tgPorts :: "int list"
  tgHealth :: "Spec option"

record killResult =
  krName :: string
  krSignal :: KillSignal
  VerifiedClean :: bool

datatype teardown_error =
    TermFailed string pid
  | KillFailed string pid
  | StillListening string "int list"
  | StillHealthy string Spec
  | DetachedFailed string
  | DetachedListening string "int list"

definition verify :: "'w os \<Rightarrow> Target \<Rightarrow> KillSignal \<Rightarrow> 'w host \<Rightarrow> (teardown_error + killResult) \<times> 'w host" where
  "verify os t sig h =
     (let (still, h1) = listeningPortSet os (tgPorts t) h in
      if length still > 0 then (Inl (StillListening (tgName t) still), h1)
      else case tgHealth t of
        None \<Rightarrow> (Inr \<lparr>krName = tgName t, krSignal = sig, VerifiedClean = True\<rparr>, h1)
      | Some sp \<Rightarrow>
          (let (ok, h2) = ask (\<lambda>w. let (out, w') = osProbe os sp w in (Healthy (Probe sp out), w')) (\<lambda>b. [EvProbe sp b]) h1 in
           if ok then (Inl (StillHealthy (tgName t) sp), h2)
           else (Inr \<lparr>krName = tgName t, krSignal = sig, VerifiedClean = True\<rparr>, h2)))"

definition killWait :: duration where "killWait = 2 * second"

definition escalate :: "'w os \<Rightarrow> Target \<Rightarrow> 'w host \<Rightarrow> (teardown_error + killResult) \<times> 'w host" where
  "escalate os t h =
     (let (ok, h1) = groupSignal os (tgPID t) SIGKILL h in
      if \<not> ok then (Inl (KillFailed (tgName t) (tgPID t)), h1)
      else let (n, h2) = ask (osRounds os killWait) (\<lambda>_. []) h1;
               h3 = awaitGone os (tgPID t) (tgPorts t) n h2
           in verify os t KillSignalKill h3)"

definition awaitTerm :: "'w os \<Rightarrow> Target \<Rightarrow> duration \<Rightarrow> 'w host \<Rightarrow> (teardown_error + killResult) \<times> 'w host" where
  "awaitTerm os t grace h =
     (let (n, h1) = ask (osRounds os grace) (\<lambda>_. []) h;
          h2 = awaitGone os (tgPID t) (tgPorts t) n h1;
          (gone, h3) = goneAndFree os (tgPID t) (tgPorts t) h2
      in if gone then verify os t KillSignalTerm h3 else escalate os t h3)"

definition TeardownGroup :: "'w os \<Rightarrow> Target \<Rightarrow> duration \<Rightarrow> 'w host \<Rightarrow> (teardown_error + killResult) \<times> 'w host" where
  "TeardownGroup os t grace h =
     (let (alive, h1) = groupAlive os (tgPID t) h in
      if \<not> alive then verify os t KillSignalNone h1
      else let (ok, h2) = groupSignal os (tgPID t) SIGTERM h1 in
        if \<not> ok then (Inl (TermFailed (tgName t) (tgPID t)), h2) else awaitTerm os t grace h2)"

definition TeardownForeign ::
    "'w os \<Rightarrow> string \<Rightarrow> pid \<Rightarrow> int list \<Rightarrow> duration \<Rightarrow> 'w host \<Rightarrow> (teardown_error + killResult) \<times> 'w host" where
  "TeardownForeign os name p ports grace h =
     TeardownGroup os \<lparr>tgName = name, tgPID = p, tgPorts = ports, tgHealth = None\<rparr> grace h"

definition targetOf :: "Server \<Rightarrow> pid \<Rightarrow> Target" where
  "targetOf s p = \<lparr>tgName = sName s, tgPID = p, tgPorts = DeclaredPorts s, tgHealth = SpecFor s\<rparr>"

text \<open>The multi-server teardown, in reverse order of the configuration; the errors of the servers that failed.\<close>

fun teardown_list ::
    "'w os \<Rightarrow> Supervisor \<Rightarrow> (string \<times> pid) list \<Rightarrow> Server list \<Rightarrow> 'w host \<Rightarrow> (teardown_error + killResult) list \<times> 'w host" where
  "teardown_list os sv pids [] h = ([], h)"
| "teardown_list os sv pids (s # ss) h =
     (case map_of pids (sName s) of
        None \<Rightarrow> teardown_list os sv pids ss h
      | Some p \<Rightarrow>
          (let (r, h1) = TeardownGroup os (targetOf s p) (ResolveGracePeriod s sv) h;
               (rs, h2) = teardown_list os sv pids ss h1
           in (r # rs, h2)))"

definition lifecycle_TeardownAll ::
    "'w os \<Rightarrow> Server list \<Rightarrow> Supervisor \<Rightarrow> (string \<times> pid) list \<Rightarrow> 'w host \<Rightarrow> (teardown_error + killResult) list \<times> 'w host" where
  "lifecycle_TeardownAll os servers sv pids h = teardown_list os sv pids (rev servers) h"

section \<open>Launching\<close>

record Process =
  prPid :: pid
  LogPath :: string

datatype launch_error =
    LaunchDir source_error
  | StartError string
  | VenvMissing string
  | VenvNotDir string
  | EntryMissing string
  | EntryIsDir string
  | PythonMissing string
  | PythonIsDir string
  | ImportFailed string string
  | LaunchType string ServerType

definition LaunchProc ::
    "'w os \<Rightarrow> Server \<Rightarrow> string \<Rightarrow> string list \<Rightarrow> 'w host \<Rightarrow> (launch_error + Process) \<times> 'w host" where
  "LaunchProc os s command args h =
     (case (if sDir s \<noteq> '''' then expandTilde (osHome os) (sDir s) else Inr '''') of
        Inl e \<Rightarrow> (Inl (LaunchDir e), h)
      | Inr dir \<Rightarrow>
          (let (r, h1) = ask (osStart os \<lparr>lrName = sName s, lrCommand = command, lrArgs = args,
                                lrEnv = mergeEnv (osEnviron os) (Env s), lrDir = dir\<rparr>)
                           (\<lambda>r. case r of Some (p, _) \<Rightarrow> [EvStart (sName s) p] | None \<Rightarrow> [EvStartFailed (sName s)]) h
           in case r of
                None \<Rightarrow> (Inl (StartError (sName s)), h1)
              | Some (p, lg) \<Rightarrow> (Inr \<lparr>prPid = p, LogPath = lg\<rparr>, h1)))"

fun importAll :: "'w os \<Rightarrow> string \<Rightarrow> string \<Rightarrow> string list \<Rightarrow> 'w host \<Rightarrow> launch_error option \<times> 'w host" where
  "importAll os name python [] h = (None, h)"
| "importAll os name python (pkg # pkgs) h =
     (let argv = [python, ''-c'', ''import '' @ pkg];
          (ok, h1) = runCommand os (plainRun os argv) h
      in if \<not> ok then (Some (ImportFailed name pkg), h1) else importAll os name python pkgs h1)"

definition pythonPreflight :: "'w os \<Rightarrow> Server \<Rightarrow> string \<Rightarrow> 'w host \<Rightarrow> launch_error option \<times> 'w host" where
  "pythonPreflight os s command h =
     (case (if sDir s \<noteq> '''' then expandTilde (osHome os) (sDir s) else Inr '''') of
        Inl e \<Rightarrow> (Some (LaunchDir e), h)
      | Inr base \<Rightarrow>
          (let resolve = (\<lambda>p. if base = '''' \<or> isAbs p then p else joinPath [base, p]);
               venv = resolve (Venv s); cmd = resolve command;
               python = joinPath [venv, ''bin'', ''python'']
           in if osStat os venv = None then (Some (VenvMissing (sName s)), h)
              else if osStat os venv \<noteq> Some IsDir then (Some (VenvNotDir (sName s)), h)
              else if osStat os cmd = None then (Some (EntryMissing (sName s)), h)
              else if osStat os cmd = Some IsDir then (Some (EntryIsDir (sName s)), h)
              else if length (Packages s) = 0 then (None, h)
              else if cmd \<noteq> python \<and> osStat os python = None then (Some (PythonMissing (sName s)), h)
              else if cmd \<noteq> python \<and> osStat os python = Some IsDir then (Some (PythonIsDir (sName s)), h)
              else importAll os (sName s) python (Packages s) h))"

definition launch :: "'w os \<Rightarrow> Server \<Rightarrow> 'w host \<Rightarrow> (launch_error + Process) \<times> 'w host" where
  "launch os s h =
     (if sType s = TypeMLX then
        (let (c, a) = MLXCommand (osHome os) (\<lambda>p. osStat os p = Some IsDir) s in LaunchProc os s c a h)
      else if sType s = TypePython then
        (let (c, a) = PythonCommand s; (e, h1) = pythonPreflight os s c h in
         case e of Some err \<Rightarrow> (Inl err, h1) | None \<Rightarrow> LaunchProc os s c a h1)
      else if sType s = TypeExec then
        (let (c, a) = ExecCommand s in LaunchProc os s c a h)
      else if sType s = TypeSource then
        (let (c, a) = SourceCommand s;
             c' = (if c \<noteq> '''' \<and> \<not> isAbs c then joinPath [osCwd os, c] else c)
         in LaunchProc os s c' a h)
      else (Inl (LaunchType (sName s) (sType s)), h))"

section \<open>Staleness and builds\<close>

datatype stale_result = Stale string | Fresh

text \<open>\<open>filesIdentical\<close>: a deployed binary that does not exist is not identical; any other failure is an error.\<close>

definition filesIdentical :: "'w os \<Rightarrow> string \<Rightarrow> string \<Rightarrow> 'w host \<Rightarrow> bool option \<times> 'w host" where
  "filesIdentical os a b h =
     (let (ha, h1) = ask (osHash os a) (\<lambda>_. []) h in
      case ha of
        Digest x \<Rightarrow>
          (let (hb, h2) = ask (osHash os b) (\<lambda>_. []) h1 in
           case hb of Digest y \<Rightarrow> (Some (x = y), h2) | NotExist \<Rightarrow> (Some False, h2) | HashError \<Rightarrow> (None, h2))
      | _ \<Rightarrow> (None, h1))"

definition buildToTemp :: "'w os \<Rightarrow> Server \<Rightarrow> 'w host \<Rightarrow> (source_error + string) \<times> 'w host" where
  "buildToTemp os s h =
     (if trimSpace (sBuild s) = '''' then (Inl (BuildEmpty (sName s)), h)
      else let (d, h1) = ask (osTempDir os) (\<lambda>_. []) h in
        case d of
          None \<Rightarrow> (Inl (TempDirFailed (sName s)), h1)
        | Some dir \<Rightarrow>
            (case buildFields (osHome os) s dir of
               Inl e \<Rightarrow> (Inl e, h1)
             | Inr argv \<Rightarrow>
                 (let (ok, h2) = runCommand os (plainRun os argv) h1 in
                  if ok then (Inr (tempBinary s dir), h2) else (Inl (CommandFailed argv), h2))))"

definition ProbeStaleness :: "'w os \<Rightarrow> Server \<Rightarrow> 'w host \<Rightarrow> (source_error + stale_result) \<times> 'w host" where
  "ProbeStaleness os s h =
     (if sType s \<noteq> TypeSource then (Inl (NotSource (sName s) (sType s)), h)
      else let (r, h1) = buildToTemp os s h in
        case r of
          Inl e \<Rightarrow> (Inl e, h1)
        | Inr tmp \<Rightarrow>
            (let (same, h2) = filesIdentical os tmp (sBinary s) h1 in
             case same of
               None \<Rightarrow> (Inl (HashFailed (sName s)), h2)
             | Some b \<Rightarrow> (Inr (if b then Fresh else Stale tmp), h2)))"

record BuildResult =
  Replaced :: bool
  Restarted :: bool

text \<open>
  \<open>PerformBuild\<close>, with the stop and start callbacks as state transformers that report success; \<open>None\<close> is a
  callback the caller does not supply.
\<close>

definition PerformBuild ::
    "'w os \<Rightarrow> Server \<Rightarrow> ('s \<times> 'w host \<Rightarrow> bool \<times> 's \<times> 'w host) option \<Rightarrow> ('s \<times> 'w host \<Rightarrow> bool \<times> 's \<times> 'w host) option
     \<Rightarrow> 's \<times> 'w host \<Rightarrow> (source_error + BuildResult) \<times> 's \<times> 'w host" where
  "PerformBuild os s stop start st =
     (let (r, h1) = ProbeStaleness os s (snd st) in
      case r of
        Inl e \<Rightarrow> (Inl e, fst st, h1)
      | Inr Fresh \<Rightarrow> (Inr \<lparr>Replaced = False, Restarted = False\<rparr>, fst st, h1)
      | Inr (Stale tmp) \<Rightarrow>
          (let (stopped, st2) = (case stop of None \<Rightarrow> (True, fst st, h1) | Some f \<Rightarrow> f (fst st, h1)) in
           if \<not> stopped then (Inl (StopFailed (sName s)), st2)
           else let (ok, h3) = ask (osReplace os tmp (sBinary s)) (\<lambda>b. [EvReplace (sBinary s) b]) (snd st2) in
             if \<not> ok then (Inl (ReplaceFailed (sName s)), fst st2, h3)
             else case start of
               None \<Rightarrow> (Inr \<lparr>Replaced = True, Restarted = False\<rparr>, fst st2, h3)
             | Some f \<Rightarrow>
                 (let (started, st4) = f (fst st2, h3) in
                  if started then (Inr \<lparr>Replaced = True, Restarted = True\<rparr>, st4)
                  else (Inl (StartFailed (sName s)), st4))))"

definition probeServer :: "Server \<Rightarrow> Server" where
  "probeServer s =
     zeroServer\<lparr>sName := sName s, sType := TypeSource, sBuild := seBuild (hSource (sHealth s)),
       sBinary := seBinary (hSource (sHealth s))\<rparr>"

definition EnsureHealthProbeBuilt :: "'w os \<Rightarrow> Server \<Rightarrow> 'w host \<Rightarrow> source_error option \<times> 'w host" where
  "EnsureHealthProbeBuilt os s h =
     (if \<not> source_Declared (hSource (sHealth s)) then (None, h)
      else let (r, _, h1) = PerformBuild os (probeServer s) None None ((), h) in
        (case r of Inl e \<Rightarrow> Some e | Inr _ \<Rightarrow> None, h1))"

end
