(* ===== verification/TeardownProps.thy ===== *)
theory TeardownProps
  imports Teardown
begin

text \<open>What a teardown promises, read off the events it leaves.\<close>

section \<open>Events\<close>

text \<open>The signals of a trace, and the events that only look.\<close>

fun kills :: "event list \<Rightarrow> (pid \<times> signal) list" where
  "kills [] = []"
| "kills (EvSignal p s # es) = (p, s) # kills es"
| "kills (_ # es) = kills es"

lemma kills_append [simp]: "kills (xs @ ys) = kills xs @ kills ys"
  by (induction xs rule: kills.induct) auto

text \<open>Evidence that a group or one of its ports is still there, and that it is not.\<close>

definition survives :: "pid \<Rightarrow> int list \<Rightarrow> event \<Rightarrow> bool" where
  "survives p ports e \<longleftrightarrow> e = EvAlive p True \<or> (\<exists>r. e = EvScan r \<and> stillIn ports r \<noteq> [])"

definition shown_free :: "int list \<Rightarrow> event \<Rightarrow> bool" where
  "shown_free ports e \<longleftrightarrow> (\<exists>r. e = EvScan r \<and> stillIn ports r = [])"

lemma groupAlive_trace: "groupAlive os p h = (a, h') \<Longrightarrow> events h' = events h @ [EvAlive p a]"
  by (auto simp: groupAlive_def Let_def dest!: ask_events split: prod.splits)

lemma groupSignal_trace: "groupSignal os p s h = (ok, h') \<Longrightarrow> events h' = events h @ [EvSignal p s]"
  by (auto simp: groupSignal_def Let_def dest!: ask_events split: prod.splits)

lemma listeningPortSet_trace:
  "listeningPortSet os ports h = (l, h') \<Longrightarrow> \<exists>r. events h' = events h @ [EvScan r] \<and> l = stillIn ports r"
  by (auto simp: listeningPortSet_def scan_def Let_def dest!: ask_events split: prod.splits)

lemma portsFree_trace:
  "portsFree os ports h = (f, h') \<Longrightarrow> \<exists>r. events h' = events h @ [EvScan r] \<and> (f \<longleftrightarrow> stillIn ports r = [])"
  by (auto simp: portsFree_def Let_def dest!: listeningPortSet_trace split: prod.splits)

lemma goneAndFree_trace:
  assumes "goneAndFree os p ports h = (g, h')"
  shows "\<exists>t e. events h' = events h @ t @ [e] \<and> kills (t @ [e]) = [] \<and> (if g then shown_free ports e else survives p ports e)"
proof (cases "fst (groupAlive os p h)")
  case True
  then have "groupAlive os p h = (True, h')" "\<not> g"
    using assms by (auto simp: goneAndFree_def Let_def split: prod.splits)
  from groupAlive_trace [OF this(1)] this(2) show ?thesis
    by (intro exI [of _ "[]"] exI [of _ "EvAlive p True"]) (simp add: survives_def)
next
  case False
  then obtain h1 where h1: "groupAlive os p h = (False, h1)" "portsFree os ports h1 = (g, h')"
    using assms by (auto simp: goneAndFree_def Let_def split: prod.splits)
  from groupAlive_trace [OF h1(1)] portsFree_trace [OF h1(2)] show ?thesis
    by (auto simp: survives_def shown_free_def intro!: exI [of _ "[EvAlive p False]"])
qed

lemma awaitGone_trace: "\<exists>t. events (awaitGone os p ports n h) = events h @ t \<and> kills t = []"
proof (induction n arbitrary: h)
  case (Suc n)
  obtain g h1 where g: "goneAndFree os p ports h = (g, h1)" by (cases "goneAndFree os p ports h")
  from goneAndFree_trace [OF this] obtain t where t: "events h1 = events h @ t" "kills t = []" by fastforce
  from Suc [of h1] obtain u where "events (awaitGone os p ports n h1) = events h1 @ u" "kills u = []" by blast
  with t g show ?case by (cases g) auto
qed simp

lemma ask_silent: "ask f (\<lambda>_. []) h = (a, h') \<Longrightarrow> events h' = events h"
  by (auto dest: ask_events)

text \<open>The verification: a scan, and then a probe of the health check if there is one.\<close>

definition verified :: "Target \<Rightarrow> event list \<Rightarrow> bool" where
  "verified t v \<longleftrightarrow>
     (\<exists>r. stillIn (tgPorts t) r = [] \<and> v = EvScan r # (case tgHealth t of None \<Rightarrow> [] | Some sp \<Rightarrow> [EvProbe sp False]))"

lemma verify_trace:
  assumes "verify os t sig h = (res, h')"
  shows "\<exists>v. events h' = events h @ v \<and> kills v = [] \<and> (\<forall>r. res = Inr r \<longrightarrow> verified t v \<and> VerifiedClean r \<and> krSignal r = sig)"
proof -
  obtain still h1 where l: "listeningPortSet os (tgPorts t) h = (still, h1)" by (cases "listeningPortSet os (tgPorts t) h")
  from listeningPortSet_trace [OF this] obtain r where r: "events h1 = events h @ [EvScan r]" "still = stillIn (tgPorts t) r" by blast
  show ?thesis
  proof (cases "tgHealth t")
    case None
    with assms l r show ?thesis by (auto simp: verify_def verified_def split: if_splits)
  next
    case (Some sp)
    with assms l r show ?thesis
      by (auto simp: verify_def verified_def Let_def split: if_splits prod.splits dest!: ask_events)
  qed
qed

section \<open>The kill sequence\<close>

text \<open>What follows the terminate signal, and the three shapes of a teardown.\<close>

definition after_term :: "Target \<Rightarrow> KillSignal \<Rightarrow> event list \<Rightarrow> bool" where
  "after_term t sig tr \<longleftrightarrow>
     (case sig of
        KillSignalNone \<Rightarrow> False
      | KillSignalTerm \<Rightarrow> kills tr = []
      | KillSignalKill \<Rightarrow>
          (\<exists>u e v. tr = u @ e # EvSignal (tgPID t) SIGKILL # v
             \<and> kills u = [] \<and> kills [e] = [] \<and> survives (tgPID t) (tgPorts t) e \<and> kills v = []))"

definition kill_shape :: "Target \<Rightarrow> KillSignal \<Rightarrow> event list \<Rightarrow> bool" where
  "kill_shape t sig tr \<longleftrightarrow>
     sig = KillSignalNone \<and> (\<exists>v. tr = EvAlive (tgPID t) False # v \<and> kills v = [])
   \<or> (\<exists>v. tr = EvAlive (tgPID t) True # EvSignal (tgPID t) SIGTERM # v \<and> after_term t sig v)"

lemma escalate_trace:
  assumes "escalate os t h = (res, h')"
  shows "\<exists>v. events h' = events h @ EvSignal (tgPID t) SIGKILL # v \<and> kills v = []
    \<and> (\<forall>r. res = Inr r \<longrightarrow> krSignal r = KillSignalKill \<and> VerifiedClean r \<and> (\<exists>u w. v = u @ w \<and> verified t w))"
proof -
  obtain ok h1 where s: "groupSignal os (tgPID t) SIGKILL h = (ok, h1)" by (cases "groupSignal os (tgPID t) SIGKILL h")
  note s' = groupSignal_trace [OF s]
  show ?thesis
  proof (cases ok)
    case False
    with assms s s' show ?thesis by (auto simp: escalate_def)
  next
    case True
    obtain n h2 where n: "ask (osRounds os killWait) (\<lambda>_. []) h1 = (n, h2)" by (cases "ask (osRounds os killWait) (\<lambda>_. []) h1")
    obtain u where u: "events (awaitGone os (tgPID t) (tgPorts t) n h2) = events h2 @ u" "kills u = []"
      using awaitGone_trace by blast
    have "verify os t KillSignalKill (awaitGone os (tgPID t) (tgPorts t) n h2) = (res, h')"
      using assms s n True by (simp add: escalate_def)
    from verify_trace [OF this] obtain v where "events h' = events h2 @ u @ v" "kills v = []"
      "\<forall>r. res = Inr r \<longrightarrow> verified t v \<and> VerifiedClean r \<and> krSignal r = KillSignalKill" using u by auto
    with s' ask_silent [OF n] u show ?thesis by (intro exI [of _ "u @ v"]) auto
  qed
qed

lemma awaitTerm_trace:
  assumes "awaitTerm os t grace h = (res, h')"
  shows "\<exists>tr sig. events h' = events h @ tr \<and> after_term t sig tr
    \<and> (\<forall>r. res = Inr r \<longrightarrow> krSignal r = sig \<and> VerifiedClean r \<and> (\<exists>x y. tr = x @ y \<and> verified t y))"
proof -
  obtain n h1 where n: "ask (osRounds os grace) (\<lambda>_. []) h = (n, h1)" by (cases "ask (osRounds os grace) (\<lambda>_. []) h")
  obtain u where u: "events (awaitGone os (tgPID t) (tgPorts t) n h1) = events h1 @ u" "kills u = []"
    using awaitGone_trace by blast
  obtain g h3 where g: "goneAndFree os (tgPID t) (tgPorts t) (awaitGone os (tgPID t) (tgPorts t) n h1) = (g, h3)"
    by (cases "goneAndFree os (tgPID t) (tgPorts t) (awaitGone os (tgPID t) (tgPorts t) n h1)")
  from goneAndFree_trace [OF g] obtain w e
    where w: "events h3 = events h @ (u @ w) @ [e]" "kills (u @ w) = []" "kills [e] = []"
      "if g then shown_free (tgPorts t) e else survives (tgPID t) (tgPorts t) e"
    using u ask_silent [OF n] by auto
  show ?thesis
  proof (cases g)
    case True
    with assms n g have "verify os t KillSignalTerm h3 = (res, h')" by (simp add: awaitTerm_def)
    from verify_trace [OF this] obtain v where v: "events h' = events h3 @ v" "kills v = []"
      "\<forall>r. res = Inr r \<longrightarrow> verified t v \<and> VerifiedClean r \<and> krSignal r = KillSignalTerm" by blast
    let ?tr = "((u @ w) @ [e]) @ v"
    have "events h' = events h @ ?tr" "kills ?tr = []"
      unfolding kills_append using v w by simp_all
    moreover from this have "after_term t KillSignalTerm ?tr" by (simp only: after_term_def KillSignal.case)
    moreover have "\<forall>r. res = Inr r \<longrightarrow> krSignal r = KillSignalTerm \<and> VerifiedClean r \<and> (\<exists>x y. ?tr = x @ y \<and> verified t y)"
      using v(3) by (metis append.assoc)
    ultimately show ?thesis by blast
  next
    case False
    with assms n g have "escalate os t h3 = (res, h')" by (simp add: awaitTerm_def)
    from escalate_trace [OF this] obtain v where v: "events h' = events h3 @ EvSignal (tgPID t) SIGKILL # v" "kills v = []"
      "\<forall>r. res = Inr r \<longrightarrow> krSignal r = KillSignalKill \<and> VerifiedClean r \<and> (\<exists>u w. v = u @ w \<and> verified t w)" by blast
    let ?tr = "(u @ w) @ e # EvSignal (tgPID t) SIGKILL # v"
    have "events h' = events h @ ?tr" using v w by simp
    moreover have "after_term t KillSignalKill ?tr" using w(2,3,4) v(2) False
      unfolding after_term_def KillSignal.case
      by (intro exI [of _ "u @ w"] exI [of _ e] exI [of _ v]) simp
    moreover have "\<forall>r. res = Inr r \<longrightarrow> krSignal r = KillSignalKill \<and> VerifiedClean r \<and> (\<exists>x y. ?tr = x @ y \<and> verified t y)"
      using v(3) by (metis append.assoc append_Cons)
    ultimately show ?thesis by blast
  qed
qed

lemma TeardownGroup_trace:
  assumes "TeardownGroup os t grace h = (res, h')"
  shows "\<exists>sig tr. events h' = events h @ tr \<and> kill_shape t sig tr
    \<and> (\<forall>r. res = Inr r \<longrightarrow> krSignal r = sig \<and> VerifiedClean r \<and> (\<exists>u v. tr = u @ v \<and> verified t v))"
proof -
  obtain a h1 where a: "groupAlive os (tgPID t) h = (a, h1)" by (cases "groupAlive os (tgPID t) h")
  note a' = groupAlive_trace [OF a]
  show ?thesis
  proof (cases a)
    case False
    with assms a have "verify os t KillSignalNone h1 = (res, h')" by (simp add: TeardownGroup_def)
    from verify_trace [OF this] obtain v where "events h' = events h1 @ v" "kills v = []"
      "\<forall>r. res = Inr r \<longrightarrow> verified t v \<and> VerifiedClean r \<and> krSignal r = KillSignalNone" by blast
    with a' False show ?thesis
      by (intro exI [of _ KillSignalNone] exI [of _ "EvAlive (tgPID t) False # v"])
         (auto simp: kill_shape_def intro: exI [of _ "[EvAlive (tgPID t) False]"])
  next
    case True
    obtain ok h2 where s: "groupSignal os (tgPID t) SIGTERM h1 = (ok, h2)" by (cases "groupSignal os (tgPID t) SIGTERM h1")
    let ?pre = "[EvAlive (tgPID t) True, EvSignal (tgPID t) SIGTERM]"
    have e2: "events h2 = events h @ ?pre"
      using groupSignal_trace [OF s] a' True by simp
    show ?thesis
    proof (cases ok)
      case False
      with assms a s True have "h' = h2" "\<exists>e. res = Inl e" by (auto simp: TeardownGroup_def)
      with e2 show ?thesis
        by (intro exI [of _ KillSignalTerm] exI [of _ ?pre]) (auto simp: kill_shape_def after_term_def)
    next
      case ok: True
      with assms a s True have "awaitTerm os t grace h2 = (res, h')" by (simp add: TeardownGroup_def)
      from awaitTerm_trace [OF this] obtain tr sig where tr: "events h' = events h @ ?pre @ tr"
        "kill_shape t sig (?pre @ tr)"
        "\<forall>r. res = Inr r \<longrightarrow> krSignal r = sig \<and> VerifiedClean r \<and> (\<exists>x y. tr = x @ y \<and> verified t y)"
        unfolding e2 append.assoc by (auto simp: kill_shape_def)
      have "\<forall>r. res = Inr r \<longrightarrow> krSignal r = sig \<and> VerifiedClean r \<and> (\<exists>x y. ?pre @ tr = x @ y \<and> verified t y)"
        using tr(3) by (metis append.assoc)
      with tr(1,2) show ?thesis by blast
    qed
  qed
qed

text \<open>C22: a teardown reports success only for a kill it has seen: the last thing it did was a scan of the host that shows
  every declared port free, followed, when the server has a health check, by a probe that failed.  The signals it
  sent are none, a terminate, or a terminate and then a kill, all to the target's group, as the result reports,
  and the kill only after evidence that the group or a port had survived the grace period.\<close>

theorem teardown_honest:
  assumes "TeardownGroup os t grace h = (Inr r, h')"
  shows "\<exists>tr u v. events h' = events h @ tr \<and> tr = u @ v \<and> verified t v \<and> VerifiedClean r \<and> kill_shape t (krSignal r) tr"
  using TeardownGroup_trace [OF assms] by auto

text \<open>An operating system whose groups die at the terminate signal, with nothing listening.\<close>

definition quietView :: sysview where
  "quietView = \<lparr>newProcess = (\<lambda>_. None), childrenOf = (\<lambda>_. None), connsOf = (\<lambda>_. Some []),
     hostConns = Some [\<lparr>connStatus = ''ESTABLISHED'', connPort = 5, connPid = 9\<rparr>], cmdlineOf = (\<lambda>_. None)\<rparr>"

definition demoOS :: "bool os" where
  "demoOS =
     \<lparr>osView = (\<lambda>w. (quietView, w)), osKill = (\<lambda>p s w. (KillOK, False)),
      osKill0 = (\<lambda>p w. (if w then KillOK else ESRCH, w)), osRounds = (\<lambda>d w. (3, w)),
      osProbe = (\<lambda>sp w. (HttpOutcome NoResponse, w)), osPoll = (\<lambda>sp w. ((HttpOutcome (Response 200), []), w)),
      osWarm = (\<lambda>sp w. ((Response 200, []), w)), osStart = (\<lambda>r w. (Some (7, ''l''), True)), osExited = (\<lambda>p w. (\<not> w, w)),
      osRun = (\<lambda>a w. (True, w)), osTempDir = (\<lambda>w. (Some ''t'', w)), osHash = (\<lambda>p w. (Digest 1, w)),
      osReplace = (\<lambda>a b w. (True, w)), osHome = None, osCwd = ''/'', osEnviron = [], osStat = (\<lambda>p. None)\<rparr>"

definition demoTarget :: Target where
  "demoTarget = \<lparr>tgName = ''a'', tgPID = 7, tgPorts = [80], tgHealth = None\<rparr>"

lemma demo_teardown:
  "TeardownGroup demoOS demoTarget 5 \<lparr>events = [], world = True\<rparr> =
     (Inr \<lparr>krName = ''a'', krSignal = KillSignalTerm, VerifiedClean = True\<rparr>,
      \<lparr>events = [EvAlive 7 True, EvSignal 7 SIGTERM, EvAlive 7 False, EvScan (Some []), EvAlive 7 False, EvScan (Some []),
         EvScan (Some [])], world = False\<rparr>)"
  by code_simp

theorem teardown_honest_witness:
  "\<exists>h' r. TeardownGroup demoOS demoTarget 5 \<lparr>events = [], world = True\<rparr> = (Inr r, h')
    \<and> (\<exists>tr u v. events h' = tr \<and> tr = u @ v \<and> verified demoTarget v \<and> kill_shape demoTarget (krSignal r) tr)"
  using teardown_honest [OF demo_teardown] demo_teardown by fastforce

text \<open>A port held by a process that leads no process group is never freed: its teardown addresses the group of that number,
  finds it missing, and sends no signal at all; what it reports is a verification without a kill.\<close>

theorem nonleader_never_signalled:
  assumes "\<And>w. fst (osKill0 os p w) = ESRCH" and "TeardownForeign os name p ports grace h = (res, h')"
  shows "kills (drop (length (events h)) (events h')) = []
    \<and> (\<forall>r. res = Inr r \<longrightarrow> krSignal r = KillSignalNone)"
proof -
  let ?t = "\<lparr>tgName = name, tgPID = p, tgPorts = ports, tgHealth = None\<rparr>"
  obtain h1 where a: "groupAlive os p h = (False, h1)"
    using assms(1) [of "world h"] by (cases "osKill0 os p (world h)") (auto simp: groupAlive_def ask_def)
  with assms(2) have v: "verify os ?t KillSignalNone h1 = (res, h')" by (simp add: TeardownForeign_def TeardownGroup_def)
  from verify_trace [OF this] groupAlive_trace [OF a] show ?thesis by auto
qed

text \<open>Process 7 holds port 80 and belongs to the group of process 5.\<close>

definition strayView :: sysview where
  "strayView = quietView\<lparr>hostConns := Some [\<lparr>connStatus = ''LISTEN'', connPort = 80, connPid = 7\<rparr>]\<rparr>"

definition strayOS :: "bool os" where
  "strayOS = demoOS\<lparr>osView := (\<lambda>w. (strayView, w)), osKill0 := (\<lambda>p w. (if p = 5 then KillOK else ESRCH, w))\<rparr>"

lemma stray_teardown:
  "TeardownForeign strayOS ''a'' 7 [80] 5 \<lparr>events = [], world = True\<rparr> =
     (Inl (StillListening ''a'' [80]), \<lparr>events = [EvAlive 7 False, EvScan (Some [(80, 7)])], world = True\<rparr>)"
  by code_simp

theorem nonleader_never_signalled_witness:
  "fst (TeardownForeign strayOS ''a'' 7 [80] 5 \<lparr>events = [], world = True\<rparr>) = Inl (StillListening ''a'' [80])
   \<and> kills (events (snd (TeardownForeign strayOS ''a'' 7 [80] 5 \<lparr>events = [], world = True\<rparr>))) = []"
proof -
  have "fst (osKill0 strayOS 7 w) = ESRCH" for w by (simp add: strayOS_def)
  from nonleader_never_signalled [OF this stray_teardown] show ?thesis by (simp add: stray_teardown)
qed

end
