(* ===== verification/Engine.thy ===== *)
theory Engine
  imports Teardown "HOL-Library.List_Lexorder" "HOL-Library.Char_ord"
begin

text \<open>
  The supervisor's engine (\<open>cmd/aa-server-status/engine.go\<close>, \<open>prompt.go\<close> and the records of
  \<open>cmd/aa-server-status/lifecycle.go\<close>): ownership, status, and the verbs up, down, dead, bounce and build.

  The engine's state is its configuration, the registry of the processes it launched and the lines its prompt
  can still read; a verb moves that state and the host.  The verbs run their critical sections under one mutex.
  \<open>Up\<close> reconciles its targets on concurrent goroutines, which touch different registry entries; the model runs
  them in the order of a list.  Texts of messages are the constructors of the error types.
\<close>

section \<open>State\<close>

record engine =
  eConfig :: Config
  procs :: "(string \<times> Process) list"
  promptIn :: "string list option"

type_synonym 'w est = "engine \<times> 'w host"

definition NewEngine :: "Config \<Rightarrow> string list option \<Rightarrow> engine" where
  "NewEngine cfg lines = \<lparr>eConfig = cfg, procs = [], promptIn = lines\<rparr>"

definition serverByName :: "engine \<Rightarrow> string \<Rightarrow> Server option" where
  "serverByName e name = findServer (Servers (eConfig e)) name"

definition register :: "string \<Rightarrow> Process \<Rightarrow> engine \<Rightarrow> engine" where
  "register name p e = e\<lparr>procs := AList.update name p (procs e)\<rparr>"

definition forget :: "string \<Rightarrow> engine \<Rightarrow> engine" where
  "forget name e = e\<lparr>procs := AList.delete name (procs e)\<rparr>"

definition ownedPIDLocked :: "'w os \<Rightarrow> Server \<Rightarrow> 'w est \<Rightarrow> pid option \<times> 'w est" where
  "ownedPIDLocked os s st =
     (case map_of (procs (fst st)) (sName s) of
        None \<Rightarrow> (None, st)
      | Some p \<Rightarrow>
          if Detached s then (Some (prPid p), st)
          else let (ex, h1) = ask (osExited os (prPid p)) (\<lambda>_. []) (snd st) in
            (if ex then None else Some (prPid p), fst st, h1))"

section \<open>Observation\<close>

definition viewTree :: "'w os \<Rightarrow> pid \<Rightarrow> 'w host \<Rightarrow> (proc_error + TreeObservation) \<times> 'w host" where
  "viewTree os p h = ask (\<lambda>w. let (V, w') = osView os w in (TreeListenSet V p, w')) (\<lambda>r. [EvTree p r]) h"

definition foreignHolder :: "sysview \<Rightarrow> int \<Rightarrow> pid \<Rightarrow> Holder" where
  "foreignHolder V port p =
     \<lparr>holderPort = port,
      holderIdentity = (case NewForeignIdentity V p of Some i \<Rightarrow> i | None \<Rightarrow> \<lparr>idPID = p, Cmdline = [], Ours = False\<rparr>)\<rparr>"

definition hostObservation :: "sysview \<Rightarrow> int list \<Rightarrow> TreeObservation" where
  "hostObservation V declared =
     (case SystemListenSet V of
        None \<Rightarrow> emptyObservation
      | Some holders \<Rightarrow>
          emptyObservation\<lparr>Holders :=
            foldl (\<lambda>m port. case map_of holders port of
                              None \<Rightarrow> m
                            | Some p \<Rightarrow> AList.update port (foreignHolder V port p) m) [] declared\<rparr>)"

definition hostObservationFor :: "'w os \<Rightarrow> int list \<Rightarrow> 'w host \<Rightarrow> TreeObservation \<times> 'w host" where
  "hostObservationFor os declared h =
     (let ((obs, r), h1) = ask (\<lambda>w. let (V, w') = osView os w in ((hostObservation V declared, SystemListenSet V), w'))
                             (\<lambda>(_, r). [EvScan r]) h
      in (obs, h1))"

definition observeOwnedTree :: "'w os \<Rightarrow> pid \<Rightarrow> 'w host \<Rightarrow> (TreeObservation \<times> bool) \<times> 'w host" where
  "observeOwnedTree os p h =
     (let (r, h1) = viewTree os p h in
      (case r of
         Inr obs \<Rightarrow> (obs, False)
       | Inl err \<Rightarrow> if IsRootProcessGone err then (emptyObservation, False) else (emptyObservation, True), h1))"

section \<open>Status\<close>

datatype ServerState =
    StateUp | StateDown | StateDisabled | StateStray | StatePartial | StateExtraListener | StateForeignConflict | StateBlocked

record PortStatus =
  psPort :: int
  psUp :: bool
  Unexpected :: bool

datatype anomaly = NoAnomaly | ForeignPid pid | ObservationUnconfirmed | TreeMemberUnread

record ServerStatus =
  stName :: string
  stType :: ServerType
  stEnabled :: bool
  stState :: ServerState
  stPorts :: "PortStatus list"
  stPID :: pid
  stHealth :: string
  OwnedDisabled :: bool
  stStale :: bool
  AnomalyDetail :: anomaly

definition renderPorts :: "int list \<Rightarrow> Result \<Rightarrow> PortStatus list" where
  "renderPorts declared c =
     map (\<lambda>p. \<lparr>psPort = p, psUp = (p \<in> set (Actual c)), Unexpected = False\<rparr>) declared
     @ map (\<lambda>p. \<lparr>psPort = p, psUp = False, Unexpected = True\<rparr>) (Stray c)"

definition isUnconfirmedObservation :: "bool \<Rightarrow> Result \<Rightarrow> bool \<Rightarrow> bool" where
  "isUnconfirmedObservation isOurs c unconfirmedRoot \<longleftrightarrow>
     isOurs \<and> length (Actual c) = 0 \<and> (unconfirmedRoot \<or> length (resDegraded c) > 0)"

definition classifyOwned :: "Result \<Rightarrow> ServerState" where
  "classifyOwned c =
     (case resClassification c of StrayPort \<Rightarrow> StateExtraListener | Partial \<Rightarrow> StatePartial | CandidateUp \<Rightarrow> StateUp)"

definition sortedKeys :: "(int \<times> Identity) list \<Rightarrow> int list" where
  "sortedKeys m = sort (map fst m)"

definition firstForeignHolder :: "(int \<times> Identity) list \<Rightarrow> Identity" where
  "firstForeignHolder m = the (map_of m (sortedKeys m ! 0))"

text \<open>The decision of \<open>statusForLocked\<close>: state, PID, owned-disabled flag and anomaly.\<close>

definition decideState ::
    "Server \<Rightarrow> pid option \<Rightarrow> Result \<Rightarrow> bool \<Rightarrow> ServerState \<times> pid \<times> bool \<times> anomaly" where
  "decideState s own c unconfirmed =
     (if length (Actual c) = 0 \<and> \<not> unconfirmed then (StateDown, 0, False, NoAnomaly)
      else if own \<noteq> None \<and> \<not> Detached s then
        (let st = classifyOwned c in
         (st, the own, st = StateUp \<and> \<not> Enabled s,
          if unconfirmed then ObservationUnconfirmed
          else if length (resDegraded c) > 0 then TreeMemberUnread else NoAnomaly))
      else if Detached s \<and> resClassification c = CandidateUp then (StateUp, 0, False, NoAnomaly)
      else if length (ForeignHolders c) > 0 then
        (StateStray, 0, False, ForeignPid (idPID (firstForeignHolder (ForeignHolders c))))
      else if resClassification c = StrayPort then (StateExtraListener, 0, False, NoAnomaly)
      else (StatePartial, 0, False, NoAnomaly))"

definition statusForLocked :: "'w os \<Rightarrow> Server \<Rightarrow> 'w est \<Rightarrow> ServerStatus \<times> 'w est" where
  "statusForLocked os s st0 =
     (let declared = DeclaredPorts s;
          (own, e, h0) = ownedPIDLocked os s st0;
          ((obs, unconfirmedRoot), h1) =
            (if Detached s \<or> own = None then (let (obs, h1) = hostObservationFor os declared h0 in ((obs, False), h1))
             else observeOwnedTree os (the own) h0);
          c = Classify declared obs;
          unconfirmed = isUnconfirmedObservation (own \<noteq> None) c unconfirmedRoot;
          (state, p, od, an) = decideState s own c unconfirmed;
          (health, h2) =
            (if (state = StateUp \<or> state = StateStray) \<and> health_Declared (sHealth s) then
               (let spec = ResolveSpec (sHealth s) (sHost s) (sPort s);
                    (out, h2) = ask (osProbe os spec) (\<lambda>out. [EvProbe spec (Healthy (Probe spec out))]) h1
                in (Rendered (Probe spec out), h2))
             else ('''', h1));
          (stale, h3) =
            (if sType s = TypeSource then
               (let (r, h3) = ProbeStaleness os s h2 in (case r of Inr (Stale _) \<Rightarrow> True | _ \<Rightarrow> False, h3))
             else (False, h2))
      in (\<lparr>stName = sName s, stType = sType s, stEnabled = Enabled s, stState = state, stPorts = renderPorts declared c,
           stPID = p, stHealth = health, OwnedDisabled = od, stStale = stale, AnomalyDetail = an\<rparr>, e, h3))"

fun statusAll :: "'w os \<Rightarrow> Server list \<Rightarrow> 'w est \<Rightarrow> ServerStatus list \<times> 'w est" where
  "statusAll os [] st = ([], st)"
| "statusAll os (s # ss) st =
     (let (r, st1) = statusForLocked os s st; (rs, st2) = statusAll os ss st1 in (r # rs, st2))"

definition Status :: "'w os \<Rightarrow> 'w est \<Rightarrow> ServerStatus list \<times> 'w est" where
  "Status os st = statusAll os (Servers (eConfig (fst st))) st"

section \<open>Resolved durations\<close>

definition resolveHealthTimeout :: "Supervisor \<Rightarrow> duration" where
  "resolveHealthTimeout sv = (if HealthTimeout sv \<noteq> 0 then HealthTimeout sv else DefaultHealthTimeout)"

definition resolveReadyTimeout :: "Server \<Rightarrow> Supervisor \<Rightarrow> duration" where
  "resolveReadyTimeout s sv =
     (if sReadyTimeout s \<noteq> 0 then sReadyTimeout s
      else if supReadyTimeout sv \<noteq> 0 then supReadyTimeout sv else DefaultReadyTimeout)"

definition resolvePollInterval :: "Supervisor \<Rightarrow> duration" where
  "resolvePollInterval sv = (if PollInterval sv \<noteq> 0 then PollInterval sv else DefaultPollInterval)"

section \<open>Outcomes\<close>

datatype verb_error =
    NoSuchServer string
  | BounceNeedsName
  | PortCheckFailed string
  | PortHeld string int pid
  | LaunchFailed launch_error
  | ProbeBuildFailed source_error
  | GateFailed gate_error
  | PortsUnobserved string proc_error
  | ListenSetWrong string "int list" "int list" "int list" nat
  | StalenessFailed source_error
  | RebuildFailed source_error
  | TeardownFailed teardown_error
  | UpButNotEnabled string
  | BuildNotSource string ServerType
  | BuildFailed source_error
  | PromptNoStreams string
  | PromptUnanswered string
  | Aggregate string nat nat

record verbOutcome =
  voName :: string
  voErr :: "verb_error option"
  voLog :: string
  Warn :: bool

definition outcome :: "string \<Rightarrow> verb_error option \<Rightarrow> string \<Rightarrow> verbOutcome" where
  "outcome n err lg = \<lparr>voName = n, voErr = err, voLog = lg, Warn = False\<rparr>"

definition formatAggregate :: "string \<Rightarrow> verbOutcome list \<Rightarrow> verb_error option" where
  "formatAggregate verb os =
     (let failed = length (filter (\<lambda>o1. voErr o1 \<noteq> None \<and> \<not> Warn o1) os)
      in if failed = 0 then None else Some (Aggregate verb failed (length os)))"

section \<open>Prompts\<close>

text \<open>
  \<open>askYesNo\<close> on the lines still to be read, the last of which may lack its newline.  The answer, or nothing
  when the input ends before a valid one, and the lines left.
\<close>

fun askYesNo :: "string list \<Rightarrow> bool option \<times> string list" where
  "askYesNo [] = (None, [])"
| "askYesNo (line # rest) =
     (let a = toLower (trimSpace line) in
      if a = ''y'' \<or> a = ''yes'' then (Some True, rest)
      else if a = ''n'' \<or> a = ''no'' then (Some False, rest)
      else askYesNo rest)"

definition mergedEnv :: "envmap \<Rightarrow> envmap \<Rightarrow> envmap" where
  "mergedEnv base extra = foldl (\<lambda>m (k, v). AList.update k v m) base extra"

definition applyAnswer :: "PromptSpec \<Rightarrow> bool \<Rightarrow> Server \<Rightarrow> Server" where
  "applyAnswer p yes s =
     s\<lparr>Args := Args s @ (if yes then YesArgs p else NoArgs p),
       Env := mergedEnv (Env s) (if yes then YesEnv p else NoEnv p)\<rparr>"

fun askEach :: "Server list \<Rightarrow> string list \<Rightarrow> (verb_error + Server list) \<times> string list" where
  "askEach [] lines = (Inr [], lines)"
| "askEach (s # ss) lines =
     (case Prompt s of
        None \<Rightarrow> (let (r, l1) = askEach ss lines in (case r of Inl e \<Rightarrow> Inl e | Inr rs \<Rightarrow> Inr (s # rs), l1))
      | Some p \<Rightarrow>
          (let (a, l1) = askYesNo lines in
           case a of
             None \<Rightarrow> (Inl (PromptUnanswered (sName s)), l1)
           | Some yes \<Rightarrow>
               (let (r, l2) = askEach ss l1
                in (case r of Inl e \<Rightarrow> Inl e | Inr rs \<Rightarrow> Inr (applyAnswer p yes s # rs), l2))))"

fun firstPromptedName :: "Server list \<Rightarrow> string" where
  "firstPromptedName [] = ''''"
| "firstPromptedName (s # ss) = (if Prompt s \<noteq> None then sName s else firstPromptedName ss)"

definition askPrompts :: "Server list \<Rightarrow> engine \<Rightarrow> (verb_error + Server list) \<times> engine" where
  "askPrompts targets e =
     (if \<not> list_ex (\<lambda>s. Prompt s \<noteq> None) targets then (Inr targets, e)
      else case promptIn e of
        None \<Rightarrow> (Inl (PromptNoStreams (firstPromptedName targets)), e)
      | Some lines \<Rightarrow> (let (r, l1) = askEach targets lines in (r, e\<lparr>promptIn := Some l1\<rparr>)))"

section \<open>Up\<close>

definition resolveUpTargets :: "engine \<Rightarrow> string \<Rightarrow> verb_error + Server list" where
  "resolveUpTargets e name =
     (if name \<noteq> '''' then
        (case serverByName e name of None \<Rightarrow> Inl (NoSuchServer name) | Some s \<Rightarrow> Inr [s])
      else Inr (filter Enabled (Servers (eConfig e))))"

text \<open>
  \<open>checkPortConflict\<close>.  Its only caller has no live child of the server, so the set of the server's own ports
  is empty there; the argument is kept as in the source.
\<close>

definition checkPortConflict ::
    "'w os \<Rightarrow> Server \<Rightarrow> int list \<Rightarrow> pid option \<Rightarrow> 'w host \<Rightarrow> verb_error option \<times> 'w host" where
  "checkPortConflict os s declared own h =
     (let (r, h1) = scan os h in
      case r of
        None \<Rightarrow> (Some (PortCheckFailed (sName s)), h1)
      | Some holders \<Rightarrow>
          (let (ourPorts, h2) =
                 (case own of
                    None \<Rightarrow> ([], h1)
                  | Some p \<Rightarrow>
                      (let (t, h2) = viewTree os p h1 in
                       (case t of Inr obs \<Rightarrow> map fst (Holders obs) | Inl _ \<Rightarrow> [], h2)))
           in (case filter (\<lambda>port. map_of holders port \<noteq> None \<and> port \<notin> set ourPorts) declared of
                 [] \<Rightarrow> None
               | port # _ \<Rightarrow> Some (PortHeld (sName s) port (the (map_of holders port))), h2)))"

definition portsReady :: "Server \<Rightarrow> Result \<Rightarrow> bool" where
  "portsReady s c \<longleftrightarrow>
     resClassification c = CandidateUp \<and> (Detached s \<or> length (ForeignHolders c) = 0)"

definition observePorts :: "'w os \<Rightarrow> Server \<Rightarrow> pid \<Rightarrow> 'w host \<Rightarrow> (proc_error + TreeObservation) \<times> 'w host" where
  "observePorts os s p h =
     (if Detached s then (let (obs, h1) = hostObservationFor os (DeclaredPorts s) h in (Inr obs, h1))
      else viewTree os p h)"

definition listenSetError :: "Server \<Rightarrow> Result \<Rightarrow> verb_error" where
  "listenSetError s c =
     ListenSetWrong (sName s) (sort (Missing c)) (sort (Stray c)) (sortedKeys (ForeignHolders c)) (length (resDegraded c))"

text \<open>The loop of \<open>pollPortsReady\<close>: one probe always runs, and one more for each round of the budget.\<close>

fun portRounds :: "'w os \<Rightarrow> Server \<Rightarrow> pid \<Rightarrow> nat \<Rightarrow> 'w host \<Rightarrow> verb_error option \<times> 'w host" where
  "portRounds os s p n h =
     (let (r, h1) = observePorts os s p h in
      case r of
        Inr obs \<Rightarrow>
          (let c = Classify (DeclaredPorts s) obs in
           if portsReady s c then (None, h1)
           else case n of 0 \<Rightarrow> (Some (listenSetError s c), h1) | Suc m \<Rightarrow> portRounds os s p m h1)
      | Inl err \<Rightarrow> (case n of 0 \<Rightarrow> (Some (PortsUnobserved (sName s) err), h1) | Suc m \<Rightarrow> portRounds os s p m h1))"

declare portRounds.simps [simp del]

definition pollPortsReady :: "'w os \<Rightarrow> Server \<Rightarrow> pid \<Rightarrow> duration \<Rightarrow> 'w host \<Rightarrow> verb_error option \<times> 'w host" where
  "pollPortsReady os s p budget h =
     (if length (DeclaredPorts s) = 0 then (None, h)
      else let (n, h1) = ask (osRounds os budget) (\<lambda>_. []) h in portRounds os s p n h1)"

definition pollPortsVerdict ::
    "'w os \<Rightarrow> Server \<Rightarrow> Process \<Rightarrow> duration \<Rightarrow> verb_error option \<Rightarrow> 'w host \<Rightarrow> verb_error option \<times> 'w host" where
  "pollPortsVerdict os s proc budget stageErr h =
     (let (err, h1) = pollPortsReady os s (prPid proc) budget h in
      (case err of Some e \<Rightarrow> Some e | None \<Rightarrow> stageErr, h1))"

definition warmUp :: "'w os \<Rightarrow> Server \<Rightarrow> 'w host \<Rightarrow> gate_error option \<times> 'w host" where
  "warmUp os s h =
     (if wPath (sWarm s) = '''' then (None, h)
      else let spec = ResolveWarmSpec (sWarm s) (sHost s) (sPort s) in
        ask (\<lambda>w. let (run, w') = osWarm os spec w in (WarmGate (sName s) spec run, w')) (\<lambda>r. [EvWarm (sName s) (r = None)]) h)"

definition pollHealth :: "'w os \<Rightarrow> Supervisor \<Rightarrow> Server \<Rightarrow> 'w host \<Rightarrow> gate_error option \<times> 'w host" where
  "pollHealth os sv s h =
     (if \<not> health_Declared (sHealth s) then (None, h)
      else let spec = ResolveSpec (sHealth s) (sHost s) (sPort s);
               cfg = \<lparr>pcSpec = spec, pcInterval = resolvePollInterval sv, pcServer = sName s\<rparr> in
        ask (\<lambda>w. let (run, w') = osPoll os spec w in (PollReady cfg run, w')) (\<lambda>r. [EvReady (sName s) (r = None)]) h)"

definition pollReady :: "'w os \<Rightarrow> Supervisor \<Rightarrow> Server \<Rightarrow> Process \<Rightarrow> 'w host \<Rightarrow> verb_error option \<times> 'w host" where
  "pollReady os sv s proc h =
     (let budget = resolveReadyTimeout s sv; (we, h1) = warmUp os s h in
      case we of
        Some e \<Rightarrow> pollPortsVerdict os s proc budget (Some (GateFailed e)) h1
      | None \<Rightarrow>
          (let (he, h2) = pollHealth os sv s h1 in
           case he of
             Some e \<Rightarrow> pollPortsVerdict os s proc budget (Some (GateFailed e)) h2
           | None \<Rightarrow> pollPortsVerdict os s proc budget None h2))"

definition buildProbeAndPollReady :: "'w os \<Rightarrow> Supervisor \<Rightarrow> Server \<Rightarrow> Process \<Rightarrow> 'w host \<Rightarrow> verb_error option \<times> 'w host" where
  "buildProbeAndPollReady os sv s proc h =
     (let (be, h1) = EnsureHealthProbeBuilt os s h in
      case be of Some e \<Rightarrow> (Some (ProbeBuildFailed e), h1) | None \<Rightarrow> pollReady os sv s proc h1)"

text \<open>Launch, register, and wait until ready: the tail of a cold start and the start callback of a rebuild.\<close>

definition startServer :: "'w os \<Rightarrow> Server \<Rightarrow> 'w est \<Rightarrow> (verb_error option \<times> string) \<times> 'w est" where
  "startServer os s st =
     (let (r, h1) = launch os s (snd st) in
      case r of
        Inl e \<Rightarrow> ((Some (LaunchFailed e), ''''), fst st, h1)
      | Inr proc \<Rightarrow>
          (let (err, h2) = buildProbeAndPollReady os (cfgSupervisor (eConfig (fst st))) s proc h1
           in ((err, LogPath proc), register (sName s) proc (fst st), h2)))"

text \<open>The callbacks of a rebuild also keep the path of the log that the start opened.\<close>

definition startCallback :: "'w os \<Rightarrow> Server \<Rightarrow> (engine \<times> string) \<times> 'w host \<Rightarrow> bool \<times> (engine \<times> string) \<times> 'w host" where
  "startCallback os s st =
     (let ((err, lg), e1, h1) = startServer os s (fst (fst st), snd st) in (err = None, (e1, lg), h1))"

section \<open>Down\<close>

definition teardownPID :: "'w os \<Rightarrow> Server \<Rightarrow> pid \<Rightarrow> 'w est \<Rightarrow> teardown_error option \<times> 'w est" where
  "teardownPID os s p st =
     (let (r, h1) = TeardownGroup os (targetOf s p) (ResolveGracePeriod s (cfgSupervisor (eConfig (fst st)))) (snd st)
      in (case r of Inl e \<Rightarrow> Some e | Inr _ \<Rightarrow> None, fst st, h1))"

fun awaitFree :: "'w os \<Rightarrow> int list \<Rightarrow> nat \<Rightarrow> 'w host \<Rightarrow> bool \<times> 'w host" where
  "awaitFree os ports 0 h = (False, h)"
| "awaitFree os ports (Suc n) h =
     (let (r, h1) = scan os h in
      case r of
        None \<Rightarrow> awaitFree os ports n h1
      | Some holders \<Rightarrow>
          if list_all (\<lambda>p. map_of holders p = None) ports then (True, h1) else awaitFree os ports n h1)"

definition teardownRun :: "'w os \<Rightarrow> Server \<Rightarrow> runReq" where
  "teardownRun os s =
     \<lparr>rqArgv = Command s # TeardownArgs s, rqEnv = osEnviron os @ map (\<lambda>(k, v). k @ ''='' @ v) (Env s), rqDir = sDir s\<rparr>"

definition teardownDetached :: "'w os \<Rightarrow> Server \<Rightarrow> 'w est \<Rightarrow> teardown_error option \<times> 'w est" where
  "teardownDetached os s st =
     (let (ok, h1) = runCommand os (teardownRun os s) (snd st)
      in if \<not> ok then (Some (DetachedFailed (sName s)), fst st, h1)
         else let grace = ResolveGracePeriod s (cfgSupervisor (eConfig (fst st)));
                  (n, h2) = ask (osRounds os grace) (\<lambda>_. []) h1;
                  (free, h3) = awaitFree os (DeclaredPorts s) n h2
              in (if free then None else Some (DetachedListening (sName s) (DeclaredPorts s)), fst st, h3))"

definition teardownOne :: "'w os \<Rightarrow> Server \<Rightarrow> 'w est \<Rightarrow> teardown_error option \<times> 'w est" where
  "teardownOne os s st =
     (let (own, st1) = ownedPIDLocked os s st in
      case own of
        None \<Rightarrow> (None, st1)
      | Some p \<Rightarrow> if Detached s then teardownDetached os s st1 else teardownPID os s p st1)"

definition killForeignOrOwned :: "'w os \<Rightarrow> Server \<Rightarrow> pid \<Rightarrow> bool \<Rightarrow> 'w est \<Rightarrow> verbOutcome \<times> 'w est" where
  "killForeignOrOwned os s p isOurs st =
     (if isOurs then
        (let (err, e1, h1) = teardownPID os s p st
         in (outcome (sName s) (map_option TeardownFailed err) '''', forget (sName s) e1, h1))
      else
        (let grace = ResolveGracePeriod s (cfgSupervisor (eConfig (fst st)));
             (r, h1) = TeardownForeign os (sName s) p (DeclaredPorts s) grace (snd st)
         in (outcome (sName s) (case r of Inl e \<Rightarrow> Some (TeardownFailed e) | Inr _ \<Rightarrow> None) '''', fst st, h1)))"

text \<open>\<open>observedRunningPID\<close>: the pid and whether it is ours, or \<open>None\<close> when nothing runs.\<close>

definition observedRunningPID :: "'w os \<Rightarrow> Server \<Rightarrow> 'w est \<Rightarrow> (pid \<times> bool) option \<times> 'w est" where
  "observedRunningPID os s st =
     (let (own, e1, h1) = ownedPIDLocked os s st in
      case own of
        Some p \<Rightarrow> (Some (p, True), e1, h1)
      | None \<Rightarrow>
          (let (r, h2) = scan os h1 in
           (case r of
              None \<Rightarrow> None
            | Some holders \<Rightarrow>
                (case filter (\<lambda>port. map_of holders port \<noteq> None) (DeclaredPorts s) of
                   [] \<Rightarrow> None
                 | port # _ \<Rightarrow> Some (the (map_of holders port), False)), e1, h2)))"

definition downOne :: "'w os \<Rightarrow> string \<Rightarrow> 'w est \<Rightarrow> verbOutcome \<times> 'w est" where
  "downOne os name st =
     (case serverByName (fst st) name of
        None \<Rightarrow> (outcome name (Some (NoSuchServer name)) '''', st)
      | Some s \<Rightarrow>
          (let (own, st1) = ownedPIDLocked os s st in
           if own = None then
             (if Detached s then
                (let (err, st2) = teardownDetached os s st1 in (outcome name (map_option TeardownFailed err) '''', st2))
              else
                (let (r, st2) = observedRunningPID os s (forget name (fst st1), snd st1) in
                 case r of
                   None \<Rightarrow> (outcome name None '''', st2)
                 | Some (p, ours) \<Rightarrow> killForeignOrOwned os s p ours st2))
           else
             (let (err, e2, h2) = teardownOne os s st1 in
              case err of
                Some x \<Rightarrow> (outcome name (Some (TeardownFailed x)) '''', e2, h2)
              | None \<Rightarrow> (outcome name None '''', forget name e2, h2))))"

fun downEach :: "'w os \<Rightarrow> bool \<Rightarrow> Server list \<Rightarrow> 'w est \<Rightarrow> verbOutcome list \<times> 'w est" where
  "downEach os killStrays [] st = ([], st)"
| "downEach os killStrays (s # ss) st =
     (let (own, st1) = ownedPIDLocked os s st in
      if Enabled s \<and> own \<noteq> None then
        (let (o1, st2) = downOne os (sName s) st1; (rest, st3) = downEach os killStrays ss st2 in (o1 # rest, st3))
      else if \<not> Enabled s then
        (let (r, st2) = observedRunningPID os s st1 in
         case r of
           None \<Rightarrow> downEach os killStrays ss st2
         | Some (p, ours) \<Rightarrow>
             (let (o1, st3) = (if killStrays then killForeignOrOwned os s p ours st2
                               else ((outcome (sName s) (Some (UpButNotEnabled (sName s))) '''')\<lparr>Warn := True\<rparr>, st2));
                  (rest, st4) = downEach os killStrays ss st3
              in (o1 # rest, st4)))
      else downEach os killStrays ss st1)"

definition downOrDead :: "'w os \<Rightarrow> string \<Rightarrow> bool \<Rightarrow> 'w est \<Rightarrow> verb_error option \<times> 'w est" where
  "downOrDead os name killStrays st =
     (if name \<noteq> '''' then
        (if serverByName (fst st) name = None then (Some (NoSuchServer name), st)
         else let (o1, st1) = downOne os name st in (voErr o1, st1))
      else let (outs, st1) = downEach os killStrays (Servers (eConfig (fst st))) st in
        (if length outs = 0 then None
         else formatAggregate (if killStrays then ''dead'' else ''down'') outs, st1))"

definition Down :: "'w os \<Rightarrow> string \<Rightarrow> 'w est \<Rightarrow> verb_error option \<times> 'w est" where
  "Down os name st = downOrDead os name False st"

definition Dead :: "'w os \<Rightarrow> string \<Rightarrow> 'w est \<Rightarrow> verb_error option \<times> 'w est" where
  "Dead os name st = downOrDead os name True st"

section \<open>Up, bounce, build, quit\<close>

definition stopCallback :: "'w os \<Rightarrow> Server \<Rightarrow> (engine \<times> string) \<times> 'w host \<Rightarrow> bool \<times> (engine \<times> string) \<times> 'w host" where
  "stopCallback os s st =
     (let (err, e1, h1) = teardownOne os s (fst (fst st), snd st) in (err = None, (e1, snd (fst st)), h1))"

text \<open>
  \<open>rebuildIfStaleOwned\<close> and \<open>rebuildIfStaleCold\<close> differ in the stop callback; \<open>None\<close> is \<open>handled = false\<close>.
\<close>

definition rebuildIfStale ::
    "'w os \<Rightarrow> Server \<Rightarrow> ((engine \<times> string) \<times> 'w host \<Rightarrow> bool \<times> (engine \<times> string) \<times> 'w host) option
     \<Rightarrow> 'w est \<Rightarrow> verbOutcome option \<times> 'w est" where
  "rebuildIfStale os s stop st =
     (let (r, h1) = ProbeStaleness os s (snd st) in
      case r of
        Inl e \<Rightarrow> (Some (outcome (sName s) (Some (StalenessFailed e)) ''''), fst st, h1)
      | Inr Fresh \<Rightarrow> (None, fst st, h1)
      | Inr (Stale _) \<Rightarrow>
          (let (b, (e2, lg), h2) = PerformBuild os s stop (Some (startCallback os s)) ((fst st, ''''), h1)
           in (Some (outcome (sName s) (case b of Inl e \<Rightarrow> Some (RebuildFailed e) | Inr _ \<Rightarrow> None) lg), e2, h2)))"

definition rebuildIfStaleOwned :: "'w os \<Rightarrow> Server \<Rightarrow> 'w est \<Rightarrow> verbOutcome option \<times> 'w est" where
  "rebuildIfStaleOwned os s st = rebuildIfStale os s (Some (stopCallback os s)) st"

definition rebuildIfStaleCold :: "'w os \<Rightarrow> Server \<Rightarrow> 'w est \<Rightarrow> verbOutcome option \<times> 'w est" where
  "rebuildIfStaleCold os s st = rebuildIfStale os s None st"

definition coldStart :: "'w os \<Rightarrow> Server \<Rightarrow> 'w est \<Rightarrow> verbOutcome \<times> 'w est" where
  "coldStart os s st =
     (let ((err, lg), st1) = startServer os s st in (outcome (sName s) err lg, st1))"

definition upOne :: "'w os \<Rightarrow> Server \<Rightarrow> 'w est \<Rightarrow> verbOutcome \<times> 'w est" where
  "upOne os s st =
     (let (own, st1) = ownedPIDLocked os s st in
      if own \<noteq> None then
        (if sType s = TypeSource then
           (let (r, st2) = rebuildIfStaleOwned os s st1 in
            case r of Some o1 \<Rightarrow> (o1, st2) | None \<Rightarrow> (outcome (sName s) None '''', st2))
         else (outcome (sName s) None '''', st1))
      else
        (let (conflict, h2) = checkPortConflict os s (DeclaredPorts s) own (snd st1) in
         case conflict of
           Some err \<Rightarrow> (outcome (sName s) (Some err) '''', fst st1, h2)
         | None \<Rightarrow>
             if sType s = TypeSource then
               (let (r, st3) = rebuildIfStaleCold os s (fst st1, h2) in
                case r of Some o1 \<Rightarrow> (o1, st3) | None \<Rightarrow> coldStart os s st3)
             else coldStart os s (fst st1, h2)))"

fun upEach :: "'w os \<Rightarrow> Server list \<Rightarrow> 'w est \<Rightarrow> verbOutcome list \<times> 'w est" where
  "upEach os [] st = ([], st)"
| "upEach os (s # ss) st =
     (let (o1, st1) = upOne os s st; (rest, st2) = upEach os ss st1 in (o1 # rest, st2))"

definition Up :: "'w os \<Rightarrow> string \<Rightarrow> 'w est \<Rightarrow> verb_error option \<times> 'w est" where
  "Up os name st =
     (case resolveUpTargets (fst st) name of
        Inl e \<Rightarrow> (Some e, st)
      | Inr targets \<Rightarrow>
          if length targets = 0 then (None, st)
          else let (r, e1) = askPrompts targets (fst st) in
            case r of
              Inl e \<Rightarrow> (Some e, e1, snd st)
            | Inr resolved \<Rightarrow>
                (let (outs, st2) = upEach os resolved (e1, snd st) in
                 (if length outs = 1 then voErr (outs ! 0) else formatAggregate ''up'' outs, st2)))"

definition Bounce :: "'w os \<Rightarrow> string \<Rightarrow> 'w est \<Rightarrow> verb_error option \<times> 'w est" where
  "Bounce os name st =
     (if name = '''' then (Some BounceNeedsName, st)
      else let (err, st1) = Down os name st in
        case err of Some e \<Rightarrow> (Some e, st1) | None \<Rightarrow> Up os name st1)"

definition buildStop :: "'w os \<Rightarrow> Server \<Rightarrow> pid \<Rightarrow> 'w est \<Rightarrow> bool \<times> 'w est" where
  "buildStop os s p st =
     (let (err, e1, h1) = teardownPID os s p st in (err = None, forget (sName s) e1, h1))"

definition buildStart :: "'w os \<Rightarrow> Server \<Rightarrow> 'w est \<Rightarrow> bool \<times> 'w est" where
  "buildStart os s st =
     (let (r, e1) = askPrompts [s] (fst st) in
      case r of
        Inl _ \<Rightarrow> (False, e1, snd st)
      | Inr resolved \<Rightarrow>
          (let t = resolved ! 0; (lr, h1) = launch os t (snd st) in
           case lr of
             Inl _ \<Rightarrow> (False, e1, h1)
           | Inr proc \<Rightarrow>
               (let (err, h2) = pollReady os (cfgSupervisor (eConfig e1)) t proc h1
                in (err = None, register (sName t) proc e1, h2))))"

definition Build :: "'w os \<Rightarrow> string \<Rightarrow> 'w est \<Rightarrow> verb_error option \<times> 'w est" where
  "Build os name st =
     (case serverByName (fst st) name of
        None \<Rightarrow> (Some (NoSuchServer name), st)
      | Some s \<Rightarrow>
          if sType s \<noteq> TypeSource then (Some (BuildNotSource name (sType s)), st)
          else let (own, st1) = ownedPIDLocked os s st;
                   (b, st2) = (case own of
                                 None \<Rightarrow> PerformBuild os s None None st1
                               | Some p \<Rightarrow> PerformBuild os s (Some (buildStop os s p)) (Some (buildStart os s)) st1)
               in (case b of Inl e \<Rightarrow> Some (BuildFailed e) | Inr _ \<Rightarrow> None, st2))"

definition TeardownAll :: "'w os \<Rightarrow> 'w est \<Rightarrow> string list \<times> 'w est" where
  "TeardownAll os st =
     (let e = fst st;
          pids = map (\<lambda>(n, p). (n, prPid p)) (procs e);
          (_, h1) = lifecycle_TeardownAll os (Servers (eConfig e)) (cfgSupervisor (eConfig e)) pids (snd st)
      in (sort (map fst pids), foldl (\<lambda>e n. forget n e) e (map fst pids), h1))"

end
