(* ===== verification/EngineProps.thy ===== *)
theory EngineProps
  imports TeardownProps Engine
begin

text \<open>
  What the supervisor's verbs promise.  The first section tracks which kinds of event an operation can add; the
  properties of the verbs follow.
\<close>

section \<open>Traces of the operations\<close>

definition grows :: "(event \<Rightarrow> bool) \<Rightarrow> 'w host \<Rightarrow> 'w host \<Rightarrow> bool" where
  "grows P h h' \<longleftrightarrow> (\<exists>t. events h' = events h @ t \<and> list_all P t)"

lemma grows_refl [intro!, simp]: "grows P h h"
  by (simp add: grows_def)

lemma grows_trans [trans]: "grows P h h1 \<Longrightarrow> grows P h1 h2 \<Longrightarrow> grows P h h2"
  by (auto simp: grows_def)

lemma grows_ask: "ask f ev h = (a, h') \<Longrightarrow> list_all P (ev a) \<Longrightarrow> grows P h h'"
  by (auto simp: grows_def dest: ask_events)

lemma grows_mono: "grows P h h' \<Longrightarrow> (\<And>e. P e \<Longrightarrow> Q e) \<Longrightarrow> grows Q h h'"
  by (auto simp: grows_def list_all_iff)

text \<open>The events of stopping and looking: no process is started, no binary replaced, no command run.\<close>

fun stopping :: "event \<Rightarrow> bool" where
  "stopping (EvAlive _ _) = True"
| "stopping (EvSignal _ _) = True"
| "stopping (EvScan _) = True"
| "stopping (EvProbe _ _) = True"
| "stopping _ = False"

fun isStart :: "event \<Rightarrow> bool" where
  "isStart (EvStart _ _) = True"
| "isStart _ = False"

fun isCommand :: "event \<Rightarrow> bool" where
  "isCommand (EvCommand _ _) = True"
| "isCommand _ = False"

fun isReplace :: "event \<Rightarrow> bool" where
  "isReplace (EvReplace _ _) = True"
| "isReplace _ = False"

lemma grows_goneAndFree: "goneAndFree os p ports h = (g, h') \<Longrightarrow> grows stopping h h'"
  by (auto simp: goneAndFree_def Let_def grows_def split: prod.splits if_splits
        dest!: groupAlive_trace portsFree_trace)

lemma grows_awaitGone: "grows stopping h (awaitGone os p ports n h)"
proof (induction n arbitrary: h)
  case (Suc n)
  obtain g h1 where g: "goneAndFree os p ports h = (g, h1)" by (cases "goneAndFree os p ports h")
  from grows_goneAndFree [OF this] Suc [of h1] g show ?case by (auto intro: grows_trans)
qed simp

lemma grows_verify: "verify os t sig h = (res, h') \<Longrightarrow> grows stopping h h'"
  by (auto simp: verify_def Let_def grows_def split: prod.splits if_splits option.splits
        dest!: listeningPortSet_trace ask_events)

lemma grows_groupSignal: "groupSignal os p s h = (ok, h') \<Longrightarrow> grows stopping h h'"
  by (auto simp: grows_def dest: groupSignal_trace)

lemma grows_groupAlive: "groupAlive os p h = (ok, h') \<Longrightarrow> grows stopping h h'"
  by (auto simp: grows_def dest: groupAlive_trace)

lemma grows_silent: "ask f (\<lambda>_. []) h = (a, h') \<Longrightarrow> grows P h h'"
  by (auto intro: grows_ask)

lemma grows_escalate: "escalate os t h = (res, h') \<Longrightarrow> grows stopping h h'"
proof -
  assume a: "escalate os t h = (res, h')"
  obtain ok h1 where s: "groupSignal os (tgPID t) SIGKILL h = (ok, h1)" by (cases "groupSignal os (tgPID t) SIGKILL h")
  obtain n h2 where n: "ask (osRounds os killWait) (\<lambda>_. []) h1 = (n, h2)" by (cases "ask (osRounds os killWait) (\<lambda>_. []) h1")
  note gs = grows_groupSignal [OF s]
  show ?thesis
  proof (cases ok)
    case True
    with a s n have v: "verify os t KillSignalKill (awaitGone os (tgPID t) (tgPorts t) n h2) = (res, h')"
      by (simp add: escalate_def)
    note gs
    also note grows_silent [OF n]
    also note grows_awaitGone
    also note grows_verify [OF v]
    finally show ?thesis .
  qed (use a s gs in \<open>simp add: escalate_def\<close>)
qed

lemma grows_awaitTerm: "awaitTerm os t grace h = (res, h') \<Longrightarrow> grows stopping h h'"
proof -
  assume a: "awaitTerm os t grace h = (res, h')"
  obtain n h1 where n: "ask (osRounds os grace) (\<lambda>_. []) h = (n, h1)" by (cases "ask (osRounds os grace) (\<lambda>_. []) h")
  obtain g h3 where g: "goneAndFree os (tgPID t) (tgPorts t) (awaitGone os (tgPID t) (tgPorts t) n h1) = (g, h3)"
    by (cases "goneAndFree os (tgPID t) (tgPorts t) (awaitGone os (tgPID t) (tgPorts t) n h1)")
  note grows_silent [OF n]
  also note grows_awaitGone
  also note grows_goneAndFree [OF g]
  also have "grows stopping h3 h'"
    using a n g by (auto simp: awaitTerm_def split: if_splits intro: grows_verify grows_escalate)
  finally show ?thesis .
qed

lemma grows_TeardownGroup: "TeardownGroup os t grace h = (res, h') \<Longrightarrow> grows stopping h h'"
proof -
  assume a: "TeardownGroup os t grace h = (res, h')"
  obtain b h1 where b: "groupAlive os (tgPID t) h = (b, h1)" by (cases "groupAlive os (tgPID t) h")
  obtain ok h2 where s: "groupSignal os (tgPID t) SIGTERM h1 = (ok, h2)" by (cases "groupSignal os (tgPID t) SIGTERM h1")
  have tail: "grows stopping h1 h'"
  proof (cases b)
    case False
    with a b show ?thesis by (auto simp: TeardownGroup_def intro: grows_verify)
  next
    case True
    with a b s have "h' = h2 \<or> awaitTerm os t grace h2 = (res, h')" by (auto simp: TeardownGroup_def split: if_splits)
    with grows_groupSignal [OF s] show ?thesis by (auto intro: grows_trans dest: grows_awaitTerm)
  qed
  from grows_groupAlive [OF b] tail show ?thesis by (rule grows_trans)
qed

lemma grows_teardown_list: "teardown_list os sv pids ss h = (rs, h') \<Longrightarrow> grows stopping h h'"
proof (induction ss arbitrary: h rs)
  case (Cons s ss)
  then show ?case
    by (auto simp: Let_def split: option.splits prod.splits dest!: grows_TeardownGroup intro: grows_trans)
qed simp

lemma grows_owned: "ownedPIDLocked os s st = (own, st') \<Longrightarrow> grows P (snd st) (snd st') \<and> fst st' = fst st"
  by (auto simp: ownedPIDLocked_def Let_def split: option.splits if_splits prod.splits dest: grows_silent)

lemma grows_teardownPID:
  "teardownPID os s p st = (err, st') \<Longrightarrow> grows stopping (snd st) (snd st') \<and> fst st' = fst st"
  by (auto simp: teardownPID_def split: prod.splits dest: grows_TeardownGroup)

lemma grows_TeardownForeign: "TeardownForeign os n p ports g h = (res, h') \<Longrightarrow> grows stopping h h'"
  by (auto simp: TeardownForeign_def dest: grows_TeardownGroup)

lemma scan_trace: "scan os h = (r, h') \<Longrightarrow> events h' = events h @ [EvScan r]"
  by (auto simp: scan_def dest: ask_events)

lemma grows_scan: "scan os h = (r, h') \<Longrightarrow> grows stopping h h'"
  by (auto simp: grows_def dest: scan_trace)

lemma grows_awaitFree: "awaitFree os ports n h = (b, h') \<Longrightarrow> grows stopping h h'"
proof (induction n arbitrary: h)
  case (Suc n)
  obtain r h1 where r: "scan os h = (r, h1)" by (cases "scan os h")
  with Suc.prems Suc.IH [of h1] grows_scan [OF r] show ?case
    by (auto split: option.splits if_splits intro: grows_trans)
qed simp

text \<open>
  Anything true of the events of stopping, and of a command, is true of what the down verbs add.
\<close>

locale stop_events =
  fixes P :: "event \<Rightarrow> bool"
  assumes stopping_P: "stopping e \<Longrightarrow> P e"
    and command_P: "isCommand e \<Longrightarrow> P e"
begin

lemmas lift = grows_mono [OF _ stopping_P]

lemma detached:
  assumes a: "teardownDetached os s st = (err, st')"
  shows "grows P (snd st) (snd st') \<and> fst st' = fst st"
proof -
  let ?ask = "runCommand os (teardownRun os s) (snd st)"
  obtain ok h1 where ok: "?ask = (ok, h1)" by (cases ?ask)
  have 1: "grows P (snd st) h1" using grows_ask [OF ok [unfolded runCommand_def]] command_P by simp
  show ?thesis
  proof (cases ok)
    case False
    with a ok 1 show ?thesis by (auto simp: teardownDetached_def)
  next
    case True
    let ?g = "ResolveGracePeriod s (cfgSupervisor (eConfig (fst st)))"
    obtain n h2 where n: "ask (osRounds os ?g) (\<lambda>_. []) h1 = (n, h2)" by (cases "ask (osRounds os ?g) (\<lambda>_. []) h1")
    obtain b h3 where b: "awaitFree os (DeclaredPorts s) n h2 = (b, h3)" by (cases "awaitFree os (DeclaredPorts s) n h2")
    have "grows P (snd st) h3"
      by (rule grows_trans [OF grows_trans [OF 1 grows_silent [OF n]] lift [OF grows_awaitFree [OF b]]])
    with a ok n b True show ?thesis by (auto simp: teardownDetached_def)
  qed
qed

lemma one:
  assumes "teardownOne os s st = (err, st')"
  shows "grows P (snd st) (snd st') \<and> fst st' = fst st"
proof -
  obtain own st1 where o1: "ownedPIDLocked os s st = (own, st1)" by (cases "ownedPIDLocked os s st")
  have 1: "grows P (snd st) (snd st1)" "fst st1 = fst st" using grows_owned [OF o1, of P] by auto
  have "grows P (snd st1) (snd st') \<and> fst st' = fst st1"
  proof (cases own)
    case None
    with assms o1 show ?thesis by (simp add: teardownOne_def)
  next
    case (Some p)
    show ?thesis
    proof (cases "Detached s")
      case True
      with assms o1 Some have "teardownDetached os s st1 = (err, st')" by (simp add: teardownOne_def)
      then show ?thesis by (rule detached)
    next
      case False
      with assms o1 Some have "teardownPID os s p st1 = (err, st')" by (simp add: teardownOne_def)
      from grows_teardownPID [OF this] show ?thesis by (auto intro: lift)
    qed
  qed
  with 1 show ?thesis by (auto intro: grows_trans)
qed

lemma killOne:
  assumes "killForeignOrOwned os s p ours st = (o1, st')"
  shows "grows P (snd st) (snd st')"
  using assms
  by (auto simp: killForeignOrOwned_def Let_def split: prod.splits if_splits dest!: grows_teardownPID grows_TeardownForeign
        intro: lift)

lemma observed:
  assumes "observedRunningPID os s st = (r, st')"
  shows "grows P (snd st) (snd st') \<and> fst st' = fst st"
proof -
  obtain own st1 where o1: "ownedPIDLocked os s st = (own, st1)" by (cases "ownedPIDLocked os s st")
  obtain x h2 where x: "scan os (snd st1) = (x, h2)" by (cases "scan os (snd st1)")
  from assms o1 x grows_owned [OF o1, of P] lift [OF grows_scan [OF x]] show ?thesis
    by (cases st1) (auto simp: observedRunningPID_def split: option.splits intro: grows_trans)
qed

lemma down:
  assumes "downOne os name st = (o1, st')"
  shows "grows P (snd st) (snd st')"
proof (cases "serverByName (fst st) name")
  case None
  with assms show ?thesis by (auto simp: downOne_def)
next
  case (Some s)
  obtain own st1 where own: "ownedPIDLocked os s st = (own, st1)" by (cases "ownedPIDLocked os s st")
  have 1: "grows P (snd st) (snd st1)" using grows_owned [OF own] by blast
  have "grows P (snd st1) (snd st')"
  proof (cases own)
    case Owned: (Some p)
    with assms Some own show ?thesis
      by (auto simp: downOne_def Let_def split: prod.splits option.splits dest!: one)
  next
    case None
    show ?thesis
    proof (cases "Detached s")
      case True
      with assms Some own None show ?thesis by (auto simp: downOne_def split: prod.splits dest!: detached)
    next
      case False
      obtain r st2 where r: "observedRunningPID os s (forget name (fst st1), snd st1) = (r, st2)"
        by (cases "observedRunningPID os s (forget name (fst st1), snd st1)")
      have 2: "grows P (snd st1) (snd st2)" using observed [OF r] by simp
      with assms Some own None False r show ?thesis
        by (auto simp: downOne_def split: option.splits prod.splits dest!: killOne intro: grows_trans)
    qed
  qed
  with 1 show ?thesis by (rule grows_trans)
qed

lemma each:
  "downEach os ks ss st = (outs, st') \<Longrightarrow> grows P (snd st) (snd st')"
proof (induction ss arbitrary: st outs)
  case (Cons s ss)
  obtain own st1 where own: "ownedPIDLocked os s st = (own, st1)" by (cases "ownedPIDLocked os s st")
  have 1: "grows P (snd st) (snd st1)" using grows_owned [OF own] by blast
  obtain r st2 where r: "observedRunningPID os s st1 = (r, st2)" by (cases "observedRunningPID os s st1")
  have 2: "grows P (snd st1) (snd st2)" using observed [OF r] by simp
  consider "Enabled s" "own \<noteq> None" | "\<not> Enabled s" | "Enabled s" "own = None" by blast
  then have "grows P (snd st1) (snd st')"
  proof cases
    case 1
    with Cons own show ?thesis by (auto split: prod.splits dest!: down intro: grows_trans)
  next
    case 2
    obtain st3 outs' where "downEach os ks ss st3 = (outs', st')" and "grows P (snd st2) (snd st3)"
    proof (cases r)
      case None
      with 2 Cons.prems own r that [of st2] show ?thesis by simp
    next
      case (Some x)
      show ?thesis
      proof (cases ks)
        case True
        obtain o1 st3 where k: "killForeignOrOwned os s (fst x) (snd x) st2 = (o1, st3)"
          by (cases "killForeignOrOwned os s (fst x) (snd x) st2")
        with 2 Cons.prems own r Some True killOne [OF k] show ?thesis
          by (cases x) (auto split: prod.splits intro: that)
      next
        case False
        with 2 Cons.prems own r Some show ?thesis
          by (cases x) (auto split: prod.splits intro: that)
      qed
    qed
    with Cons.IH \<open>grows P (snd st1) (snd st2)\<close> show ?thesis by (blast intro: grows_trans)
  next
    case 3
    with Cons own show ?thesis by auto
  qed
  with 1 show ?case by (rule grows_trans)
qed simp

lemma down_verb:
  assumes "downOrDead os name ks st = (err, st')"
  shows "grows P (snd st) (snd st')"
  using assms by (auto simp: downOrDead_def split: if_splits prod.splits dest!: down each)

end

interpretation nostart: stop_events "\<lambda>e. \<not> isStart e"
proof unfold_locales
  show "\<not> isStart e" if "stopping e" for e using that by (cases e) auto
  show "\<not> isStart e" if "isCommand e" for e using that by (cases e) auto
qed

interpretation noreplace: stop_events "\<lambda>e. \<not> isReplace e"
proof unfold_locales
  show "\<not> isReplace e" if "stopping e" for e using that by (cases e) auto
  show "\<not> isReplace e" if "isCommand e" for e using that by (cases e) auto
qed

end
