(* ===== verification/EngineUp.thy ===== *)
theory EngineUp
  imports EngineProps
begin

text \<open>
  Bringing a server up: what is looked at before a process is started, and what has been seen when \<open>up\<close>
  reports success.
\<close>

section \<open>Every operation only adds events\<close>

abbreviation extends :: "'w host \<Rightarrow> 'w host \<Rightarrow> bool" where
  "extends \<equiv> grows (\<lambda>_. True)"

lemma extends_iff: "extends h h' \<longleftrightarrow> (\<exists>t. events h' = events h @ t)"
  by (simp add: grows_def list_all_iff)

lemma extends_ask: "ask f ev h = (a, h') \<Longrightarrow> extends h h'"
  by (rule grows_ask) (simp_all add: list_all_iff)

lemma LaunchProc_trace:
  assumes "LaunchProc os s c a h = (r, h')"
  shows "extends h h' \<and> (\<forall>p. r = Inr p \<longrightarrow> events h' = events h @ [EvStart (sName s) (prPid p)])"
  using assms
  by (auto simp: LaunchProc_def Let_def extends_iff split: sum.splits prod.splits option.splits if_splits dest!: ask_events)

lemma extends_importAll: "importAll os name py pkgs h = (r, h') \<Longrightarrow> extends h h'"
proof (induction pkgs arbitrary: h)
  case (Cons pkg pkgs)
  then show ?case by (auto simp: Let_def runCommand_def split: prod.splits if_splits dest!: extends_ask intro: grows_trans)
qed simp

lemma extends_preflight: "pythonPreflight os s c h = (r, h') \<Longrightarrow> extends h h'"
  by (auto simp: pythonPreflight_def Let_def split: sum.splits if_splits dest!: extends_importAll)

lemma launch_trace:
  assumes "launch os s h = (r, h')"
  shows "extends h h' \<and> (\<forall>p. r = Inr p \<longrightarrow> (\<exists>t. events h' = events h @ t \<and> EvStart (sName s) (prPid p) \<in> set t))"
proof -
  have "(\<exists>c a h1. extends h h1 \<and> LaunchProc os s c a h1 = (r, h')) \<or> (\<exists>e. r = Inl e \<and> extends h h')"
    using assms unfolding launch_def
    by (fastforce split: if_splits prod.splits option.splits dest: extends_preflight)
  then show ?thesis using LaunchProc_trace by (fastforce simp: extends_iff)
qed

lemma extends_filesIdentical: "filesIdentical os a b h = (r, h') \<Longrightarrow> extends h h'"
  by (auto simp: filesIdentical_def Let_def split: prod.splits hash_answer.splits dest!: extends_ask intro: grows_trans)

lemma extends_buildToTemp: "buildToTemp os s h = (r, h') \<Longrightarrow> extends h h'"
  by (auto simp: buildToTemp_def runCommand_def Let_def split: prod.splits option.splits sum.splits if_splits
        dest!: extends_ask intro: grows_trans)

lemma extends_staleness: "ProbeStaleness os s h = (r, h') \<Longrightarrow> extends h h'"
  by (auto simp: ProbeStaleness_def Let_def split: prod.splits option.splits sum.splits if_splits
        dest!: extends_buildToTemp extends_filesIdentical intro: grows_trans)

lemma extends_PerformBuild_none:
  assumes "PerformBuild os s None None st = (r, st')"
  shows "extends (snd st) (snd st')"
  using assms
  by (auto simp: PerformBuild_def Let_def split: prod.splits sum.splits stale_result.splits if_splits
        dest!: extends_staleness extends_ask intro: grows_trans)

lemma extends_ensureProbe: "EnsureHealthProbeBuilt os s h = (r, h') \<Longrightarrow> extends h h'"
  by (auto simp: EnsureHealthProbeBuilt_def split: if_splits prod.splits dest!: extends_PerformBuild_none)

lemma viewTree_trace: "viewTree os p h = (r, h') \<Longrightarrow> events h' = events h @ [EvTree p r]"
  by (auto simp: viewTree_def dest: ask_events)

lemma hostObservationFor_trace:
  "hostObservationFor os declared h = (obs, h') \<Longrightarrow>
     \<exists>V. events h' = events h @ [EvScan (SystemListenSet V)] \<and> obs = hostObservation V declared"
  by (auto simp: hostObservationFor_def ask_def Let_def split: prod.splits)

section \<open>The port gate\<close>

text \<open>What a look at the host shows of a server that is up: its own tree listens on the declared ports exactly, or,
  when the server is detached, each declared port has a holder.\<close>

definition ports_shown :: "Server \<Rightarrow> pid \<Rightarrow> event \<Rightarrow> bool" where
  "ports_shown s p e \<longleftrightarrow>
     (if Detached s then \<exists>L. e = EvScan (Some L) \<and> (\<forall>q \<in> set (DeclaredPorts s). map_of L q \<noteq> None)
      else \<exists>obs. e = EvTree p (Inr obs) \<and> fst ` set (Holders obs) = set (DeclaredPorts s))"

lemma hostObservation_keys:
  "SystemListenSet V = Some L \<Longrightarrow>
     fst ` set (Holders (hostObservation V decl)) = {q \<in> set decl. map_of L q \<noteq> None}"
proof -
  assume L: "SystemListenSet V = Some L"
  have "fst ` set (foldl (\<lambda>m q. case map_of L q of None \<Rightarrow> m | Some p \<Rightarrow> AList.update q (foreignHolder V q p) m) m0 ps)
      = fst ` set m0 \<union> {q \<in> set ps. map_of L q \<noteq> None}" for m0 ps
    by (induction ps arbitrary: m0) (auto simp: dom_update split: option.splits)
  with L show ?thesis by (simp add: hostObservation_def emptyObservation_def)
qed

lemma CandidateUp_keys:
  "resClassification (Classify decl obs) = CandidateUp \<longleftrightarrow> fst ` set (Holders obs) = set decl"
proof -
  have "Stray (Classify decl obs) = [] \<longleftrightarrow> fst ` set (Holders obs) \<subseteq> set decl"
    and "Missing (Classify decl obs) = [] \<longleftrightarrow> set decl \<subseteq> fst ` set (Holders obs)"
    by (auto simp: set_empty [symmetric] Classify_sets simp del: set_empty)
  then show ?thesis by (auto simp: Classify_class)
qed

lemma observePorts_trace:
  assumes "observePorts os s p h = (r, h')"
  shows "\<exists>e. events h' = events h @ [e]
    \<and> (\<forall>obs. r = Inr obs \<longrightarrow> DeclaredPorts s \<noteq> [] \<longrightarrow> portsReady s (Classify (DeclaredPorts s) obs) \<longrightarrow> ports_shown s p e)"
proof (cases "Detached s")
  case True
  with assms obtain obs where obs: "hostObservationFor os (DeclaredPorts s) h = (obs, h')" "r = Inr obs"
    by (auto simp: observePorts_def split: prod.splits)
  from hostObservationFor_trace [OF obs(1)] obtain V
    where V: "events h' = events h @ [EvScan (SystemListenSet V)]" "obs = hostObservation V (DeclaredPorts s)" by blast
  have "ports_shown s p (EvScan (SystemListenSet V))"
    if "DeclaredPorts s \<noteq> []" and "portsReady s (Classify (DeclaredPorts s) obs)"
  proof -
    from that(2) have eq: "fst ` set (Holders obs) = set (DeclaredPorts s)" by (simp add: portsReady_def CandidateUp_keys)
    with that(1) V(2) obtain L where L: "SystemListenSet V = Some L"
      by (cases "SystemListenSet V") (auto simp: hostObservation_def emptyObservation_def)
    with eq V(2) hostObservation_keys [OF L, of "DeclaredPorts s"] show ?thesis by (auto simp: ports_shown_def True)
  qed
  with V(1) obs(2) show ?thesis by blast
next
  case False
  with assms have v: "viewTree os p h = (r, h')" by (simp add: observePorts_def)
  with False viewTree_trace [OF v] show ?thesis
    by (auto simp: ports_shown_def portsReady_def CandidateUp_keys)
qed

lemma portRounds_cases:
  assumes "portRounds os s p n h = (r, h')"
  obtains x h1 where "observePorts os s p h = (x, h1)"
    "h' = h1 \<and> (r = None \<longrightarrow> (\<exists>obs. x = Inr obs \<and> portsReady s (Classify (DeclaredPorts s) obs)))
     \<or> (\<exists>m. n = Suc m \<and> portRounds os s p m h1 = (r, h'))"
proof -
  obtain x h1 where x: "observePorts os s p h = (x, h1)" by (cases "observePorts os s p h")
  have "h' = h1 \<and> (r = None \<longrightarrow> (\<exists>obs. x = Inr obs \<and> portsReady s (Classify (DeclaredPorts s) obs)))
     \<or> (\<exists>m. n = Suc m \<and> portRounds os s p m h1 = (r, h'))"
    using assms x portRounds.simps [of os s p n h]
    by (cases n; cases x) (auto simp: Let_def split: if_splits)
  with x that show ?thesis by blast
qed

lemma portRounds_trace:
  assumes "portRounds os s p n h = (r, h')"
  shows "extends h h' \<and> (r = None \<longrightarrow> DeclaredPorts s \<noteq> [] \<longrightarrow> (\<exists>u e. events h' = events h @ u @ [e] \<and> ports_shown s p e))"
  using assms
proof (induction n arbitrary: h)
  case (0 h)
  from 0 obtain x h1 where "observePorts os s p h = (x, h1)" "h' = h1"
    "r = None \<longrightarrow> (\<exists>obs. x = Inr obs \<and> portsReady s (Classify (DeclaredPorts s) obs))"
    by (cases rule: portRounds_cases) auto
  with observePorts_trace [of os s p h x h1] show ?case by (auto simp: extends_iff)
next
  case (Suc n h)
  from Suc.prems obtain x h1 where o1: "observePorts os s p h = (x, h1)"
    "h' = h1 \<and> (r = None \<longrightarrow> (\<exists>obs. x = Inr obs \<and> portsReady s (Classify (DeclaredPorts s) obs)))
     \<or> portRounds os s p n h1 = (r, h')"
    by (cases rule: portRounds_cases) auto
  from observePorts_trace [OF o1(1)] obtain e where e: "events h1 = events h @ [e]"
    "\<forall>obs. x = Inr obs \<longrightarrow> DeclaredPorts s \<noteq> [] \<longrightarrow> portsReady s (Classify (DeclaredPorts s) obs) \<longrightarrow> ports_shown s p e" by blast
  from o1(2) show ?case
  proof
    assume "portRounds os s p n h1 = (r, h')"
    from Suc.IH [OF this] e(1) show ?thesis by (auto simp: extends_iff)
  next
    assume "h' = h1 \<and> (r = None \<longrightarrow> (\<exists>obs. x = Inr obs \<and> portsReady s (Classify (DeclaredPorts s) obs)))"
    with e show ?thesis by (auto simp: extends_iff)
  qed
qed

lemma pollPortsReady_trace:
  assumes "pollPortsReady os s p budget h = (r, h')"
  shows "extends h h' \<and> (r = None \<longrightarrow> DeclaredPorts s \<noteq> [] \<longrightarrow> (\<exists>u e. events h' = events h @ u @ [e] \<and> ports_shown s p e))"
proof (cases "DeclaredPorts s = []")
  case True
  with assms show ?thesis by (simp add: pollPortsReady_def)
next
  case False
  obtain n h1 where n: "ask (osRounds os budget) (\<lambda>_. []) h = (n, h1)" by (cases "ask (osRounds os budget) (\<lambda>_. []) h")
  with assms False have r: "portRounds os s p n h1 = (r, h')" by (simp add: pollPortsReady_def)
  from portRounds_trace [OF this] ask_silent [OF n] False show ?thesis by (auto simp: extends_iff)
qed

section \<open>The readiness gates\<close>

definition gates_passed :: "Server \<Rightarrow> pid \<Rightarrow> event list \<Rightarrow> bool" where
  "gates_passed s p t \<longleftrightarrow>
     (wPath (sWarm s) \<noteq> '''' \<longrightarrow> EvWarm (sName s) True \<in> set t)
   \<and> (health_Declared (sHealth s) \<longrightarrow> EvReady (sName s) True \<in> set t)
   \<and> (DeclaredPorts s \<noteq> [] \<longrightarrow> (\<exists>u e. t = u @ [e] \<and> ports_shown s p e))"

definition ready_trace :: "Server \<Rightarrow> pid \<Rightarrow> event list \<Rightarrow> bool" where
  "ready_trace s p t \<longleftrightarrow> (\<exists>a b. t = a @ b \<and> EvStart (sName s) p \<in> set a \<and> gates_passed s p b)"

lemma warmUp_trace:
  "warmUp os s h = (r, h') \<Longrightarrow>
     \<exists>t. events h' = events h @ t \<and> (r = None \<longrightarrow> wPath (sWarm s) \<noteq> '''' \<longrightarrow> EvWarm (sName s) True \<in> set t)"
  by (auto simp: warmUp_def Let_def split: if_splits dest!: ask_events)

lemma pollHealth_trace:
  "pollHealth os sv s h = (r, h') \<Longrightarrow>
     \<exists>t. events h' = events h @ t \<and> (r = None \<longrightarrow> health_Declared (sHealth s) \<longrightarrow> EvReady (sName s) True \<in> set t)"
  by (auto simp: pollHealth_def Let_def split: if_splits dest!: ask_events)

lemma pollPortsVerdict_trace:
  assumes "pollPortsVerdict os s proc budget stage h = (r, h')"
  shows "\<exists>t. events h' = events h @ t
    \<and> (r = None \<longrightarrow> stage = None \<and> (DeclaredPorts s \<noteq> [] \<longrightarrow> (\<exists>u e. t = u @ [e] \<and> ports_shown s (prPid proc) e)))"
proof -
  obtain x h1 where x: "pollPortsReady os s (prPid proc) budget h = (x, h1)" by (cases "pollPortsReady os s (prPid proc) budget h")
  with assms have "h' = h1" "r = (case x of Some e \<Rightarrow> Some e | None \<Rightarrow> stage)" by (auto simp: pollPortsVerdict_def)
  with pollPortsReady_trace [OF x] show ?thesis by (auto simp: extends_iff split: option.splits)
qed

lemma pollReady_trace:
  assumes "pollReady os sv s proc h = (r, h')"
  shows "\<exists>t. events h' = events h @ t \<and> (r = None \<longrightarrow> gates_passed s (prPid proc) t)"
proof -
  let ?b = "resolveReadyTimeout s sv"
  obtain we h1 where w: "warmUp os s h = (we, h1)" by (cases "warmUp os s h")
  obtain he h2 where p: "pollHealth os sv s h1 = (he, h2)" by (cases "pollHealth os sv s h1")
  from warmUp_trace [OF w] obtain t1 where t1: "events h1 = events h @ t1"
    "we = None \<longrightarrow> wPath (sWarm s) \<noteq> '''' \<longrightarrow> EvWarm (sName s) True \<in> set t1" by blast
  from pollHealth_trace [OF p] obtain t2 where t2: "events h2 = events h1 @ t2"
    "he = None \<longrightarrow> health_Declared (sHealth s) \<longrightarrow> EvReady (sName s) True \<in> set t2" by blast
  from assms w p consider
      e where "pollPortsVerdict os s proc ?b (Some (GateFailed e)) h1 = (r, h')"
    | e where "pollPortsVerdict os s proc ?b (Some (GateFailed e)) h2 = (r, h')"
    | "we = None" "he = None" "pollPortsVerdict os s proc ?b None h2 = (r, h')"
    by (auto simp: pollReady_def Let_def split: option.splits)
  then show ?thesis
  proof cases
    case 1
    from pollPortsVerdict_trace [OF this] t1 show ?thesis by auto
  next
    case 2
    from pollPortsVerdict_trace [OF this] t1 t2 show ?thesis by auto
  next
    case 3
    from pollPortsVerdict_trace [OF 3(3)] obtain t3 where "events h' = events h2 @ t3"
      "r = None \<longrightarrow> DeclaredPorts s \<noteq> [] \<longrightarrow> (\<exists>u e. t3 = u @ [e] \<and> ports_shown s (prPid proc) e)" by blast
    with t1 t2 3 show ?thesis by (intro exI [of _ "t1 @ t2 @ t3"]) (auto simp: gates_passed_def)
  qed
qed

lemma buildProbe_trace:
  assumes "buildProbeAndPollReady os sv s proc h = (r, h')"
  shows "\<exists>t. events h' = events h @ t \<and> (r = None \<longrightarrow> (\<exists>a b. t = a @ b \<and> gates_passed s (prPid proc) b))"
proof -
  obtain be h1 where b: "EnsureHealthProbeBuilt os s h = (be, h1)" by (cases "EnsureHealthProbeBuilt os s h")
  from extends_ensureProbe [OF b] obtain t1 where t1: "events h1 = events h @ t1" by (auto simp: extends_iff)
  show ?thesis
  proof (cases be)
    case None
    with assms b have "pollReady os sv s proc h1 = (r, h')" by (simp add: buildProbeAndPollReady_def)
    from pollReady_trace [OF this] t1 show ?thesis by auto
  qed (use assms b t1 in \<open>auto simp: buildProbeAndPollReady_def\<close>)
qed

lemma startServer_trace:
  assumes "startServer os s st = ((err, lg), st')"
  shows "\<exists>t. events (snd st') = events (snd st) @ t
    \<and> (err = None \<longrightarrow> (\<exists>proc. map_of (procs (fst st')) (sName s) = Some proc \<and> ready_trace s (prPid proc) t))"
proof -
  obtain r h1 where l: "launch os s (snd st) = (r, h1)" by (cases "launch os s (snd st)")
  show ?thesis
  proof (cases r)
    case (Inl e)
    with assms l launch_trace [OF l] show ?thesis by (auto simp: startServer_def extends_iff)
  next
    case (Inr proc)
    with launch_trace [OF l] obtain a where a: "events h1 = events (snd st) @ a" "EvStart (sName s) (prPid proc) \<in> set a" by auto
    let ?sv = "cfgSupervisor (eConfig (fst st))"
    obtain x h2 where x: "buildProbeAndPollReady os ?sv s proc h1 = (x, h2)" by (cases "buildProbeAndPollReady os ?sv s proc h1")
    from buildProbe_trace [OF x] obtain t where t: "events h2 = events h1 @ t"
      "x = None \<longrightarrow> (\<exists>c b. t = c @ b \<and> gates_passed s (prPid proc) b)" by blast
    have "st' = (register (sName s) proc (fst st), h2)" "err = x"
      using assms l x Inr by (auto simp: startServer_def)
    moreover have "x = None \<longrightarrow> ready_trace s (prPid proc) (a @ t)"
      using t(2) a(2) by (auto simp: ready_trace_def) (metis UnCI append.assoc set_append)
    ultimately show ?thesis using a t by (intro exI [of _ "a @ t"]) (auto simp: register_def update_conv)
  qed
qed

section \<open>Up\<close>

definition free_scan :: "int list \<Rightarrow> (int \<times> pid) list option \<Rightarrow> bool" where
  "free_scan ports r \<longleftrightarrow> (\<exists>L. r = Some L \<and> (\<forall>q \<in> set ports. map_of L q = None))"

lemma conflict_trace:
  assumes "checkPortConflict os s decl None h = (c, h')"
  shows "\<exists>r. events h' = events h @ [EvScan r] \<and> (c = None \<longleftrightarrow> free_scan decl r)"
proof -
  obtain r h1 where r: "scan os h = (r, h1)" by (cases "scan os h")
  with assms have "h' = h1" by (auto simp: checkPortConflict_def split: option.splits)
  moreover have "c = None \<longleftrightarrow> free_scan decl r"
    using assms r unfolding checkPortConflict_def free_scan_def
    by (auto split: option.splits list.splits simp: filter_empty_conv)
  ultimately show ?thesis using scan_trace [OF r] by blast
qed

lemma extends_PerformBuild_start:
  assumes "PerformBuild os s None (Some f) st = (r, st')"
    and "\<And>x b y. f x = (b, y) \<Longrightarrow> extends (snd x) (snd y)"
  shows "extends (snd st) (snd st')
    \<and> (\<forall>b. r = Inr b \<longrightarrow> (\<exists>x. extends (snd st) (snd x) \<and> f x = (True, st')) \<or> fst st' = fst st)"
proof -
  obtain x h1 where p: "ProbeStaleness os s (snd st) = (x, h1)" by (cases "ProbeStaleness os s (snd st)")
  note e1 = extends_staleness [OF p]
  show ?thesis
  proof (cases "\<exists>tmp. x = Inr (Stale tmp)")
    case False
    with assms(1) p e1 show ?thesis
      by (auto simp: PerformBuild_def split: sum.splits stale_result.splits)
  next
    case True
    then obtain tmp where x: "x = Inr (Stale tmp)" by blast
    let ?rep = "ask (osReplace os tmp (sBinary s)) (\<lambda>b. [EvReplace (sBinary s) b]) h1"
    obtain ok h3 where ok: "?rep = (ok, h3)" by (cases ?rep)
    have e3: "extends (snd st) h3" using e1 extends_ask [OF ok] by (rule grows_trans)
    obtain b y where f: "f (fst st, h3) = (b, y)" by (cases "f (fst st, h3)")
    have e4: "extends (snd st) (snd y)" using e3 assms(2) [OF f] by (auto intro: grows_trans)
    have "st' = (fst st, h3) \<and> (\<exists>e. r = Inl e) \<or> st' = y \<and> ((\<exists>e. r = Inl e) \<or> b)"
      using assms(1) p x ok f by (auto simp: PerformBuild_def split: if_splits)
    then show ?thesis using e3 e4 f
      by (auto simp del: split_paired_Ex intro!: exI [of _ "(fst st, h3)"])
  qed
qed

lemma startCallback_trace:
  assumes "startCallback os s x = (b, y)"
  shows "extends (snd x) (snd y)
    \<and> (b \<longrightarrow> (\<exists>t proc. events (snd y) = events (snd x) @ t \<and> map_of (procs (fst (fst y))) (sName s) = Some proc
          \<and> ready_trace s (prPid proc) t))"
proof -
  obtain err lg st1 where s1: "startServer os s (fst (fst x), snd x) = ((err, lg), st1)"
    by (metis prod.exhaust)
  with assms have "b = (err = None)" "y = ((fst st1, lg), snd st1)" by (auto simp: startCallback_def split: prod.splits)
  with startServer_trace [OF s1] show ?thesis by (auto simp: extends_iff)
qed

lemma ready_trace_append: "ready_trace s p t \<Longrightarrow> ready_trace s p (u @ t)"
  by (auto simp: ready_trace_def) (metis UnCI append.assoc set_append)

text \<open>What a reported success means: the server is registered with a process that was started and passed every gate.\<close>

definition brought_up :: "Server \<Rightarrow> 'w est \<Rightarrow> 'w est \<Rightarrow> bool" where
  "brought_up s st st' \<longleftrightarrow>
     (\<exists>t proc. events (snd st') = events (snd st) @ t \<and> map_of (procs (fst st')) (sName s) = Some proc
        \<and> ready_trace s (prPid proc) t)"

lemma brought_up_trans: "extends (snd st) h1 \<Longrightarrow> brought_up s (e, h1) st' \<Longrightarrow> brought_up s st st'"
  by (fastforce simp: brought_up_def extends_iff intro: ready_trace_append)

lemma coldStart_trace:
  assumes "coldStart os s st = (o1, st')"
  shows "extends (snd st) (snd st') \<and> (voErr o1 = None \<longrightarrow> brought_up s st st')"
proof -
  obtain err lg st1 where s1: "startServer os s st = ((err, lg), st1)" by (metis prod.exhaust)
  with assms have "st' = st1" "voErr o1 = err" by (auto simp: coldStart_def outcome_def)
  with startServer_trace [OF s1] show ?thesis by (auto simp: extends_iff brought_up_def)
qed

lemma rebuildCold_trace:
  assumes "rebuildIfStaleCold os s st = (r, st')"
  shows "extends (snd st) (snd st')
    \<and> (\<forall>o1. r = Some o1 \<longrightarrow> voErr o1 = None \<longrightarrow> brought_up s st st' \<or> fst st' = fst st)"
proof -
  obtain x h1 where p: "ProbeStaleness os s (snd st) = (x, h1)" by (cases "ProbeStaleness os s (snd st)")
  note e1 = extends_staleness [OF p]
  show ?thesis
  proof (cases "\<exists>tmp. x = Inr (Stale tmp)")
    case False
    with assms p e1 show ?thesis
      by (auto simp: rebuildIfStaleCold_def rebuildIfStale_def outcome_def split: sum.splits stale_result.splits)
  next
    case True
    obtain b y where b: "PerformBuild os s None (Some (startCallback os s)) ((fst st, ''''), h1) = (b, y)"
      by (metis prod.exhaust)
    have st': "st' = (fst (fst y), snd y)" and ok: "r = Some o1 \<Longrightarrow> voErr o1 = None \<Longrightarrow> \<exists>z. b = Inr z" for o1
      using assms p True b
      by (auto simp: rebuildIfStaleCold_def rebuildIfStale_def outcome_def split: prod.splits sum.splits)
    have "extends (snd x) (snd z)" if "startCallback os s x = (c, z)" for x c z
      using startCallback_trace [OF that] by blast
    from extends_PerformBuild_start [OF b this]
    have P: "extends h1 (snd y)"
      "\<And>z. b = Inr z \<Longrightarrow> (\<exists>w. extends h1 (snd w) \<and> startCallback os s w = (True, y)) \<or> fst y = (fst st, '''')"
      by auto
    have "brought_up s st st'" if "extends h1 (snd w)" "startCallback os s w = (True, y)" for w
    proof -
      have "brought_up s (fst st, snd w) st'"
        using startCallback_trace [OF that(2)] by (auto simp: brought_up_def st')
      moreover have "extends (snd st) (snd w)" using e1 that(1) by (rule grows_trans)
      ultimately show ?thesis by (blast intro: brought_up_trans)
    qed
    with P ok e1 st' show ?thesis by (auto intro: grows_trans)
  qed
qed

text \<open>C24: a server that is not ours is started only after a scan of the whole host has shown every one of its declared
  ports free; otherwise \<open>up\<close> stops there with an error, nothing is built, started or registered.\<close>

theorem up_never_over_foreign:
  assumes "ownedPIDLocked os s st = (None, st1)" and "upOne os s st = (o1, st')"
  shows "\<exists>r t. events (snd st') = events (snd st) @ EvScan r # t
    \<and> (free_scan (DeclaredPorts s) r \<or> t = [] \<and> fst st' = fst st \<and> voErr o1 \<noteq> None)"
proof -
  have st1: "fst st1 = fst st" "events (snd st1) = events (snd st)"
    using grows_owned [OF assms(1), of "\<lambda>_. False"] by (auto simp: grows_def list_all_iff)
  obtain c h2 where c: "checkPortConflict os s (DeclaredPorts s) None (snd st1) = (c, h2)"
    by (cases "checkPortConflict os s (DeclaredPorts s) None (snd st1)")
  from conflict_trace [OF c] obtain r where r: "events h2 = events (snd st) @ [EvScan r]"
    "c = None \<longleftrightarrow> free_scan (DeclaredPorts s) r" by (auto simp: st1)
  show ?thesis
  proof (cases c)
    case (Some e)
    with assms c r st1 show ?thesis by (auto simp: upOne_def outcome_def)
  next
    case None
    obtain q st3 where q: "rebuildIfStaleCold os s (fst st1, h2) = (q, st3)" by (metis prod.exhaust)
    have "extends h2 (snd st')"
    proof (cases "sType s = TypeSource \<and> q \<noteq> None")
      case True
      with assms c None q have "st' = st3" by (auto simp: upOne_def)
      with rebuildCold_trace [OF q] show ?thesis by simp
    next
      case False
      then have "\<exists>x. extends h2 (snd x) \<and> coldStart os s x = (o1, st')"
        using assms c None q rebuildCold_trace [OF q]
        by (cases "sType s = TypeSource") (auto simp: upOne_def simp del: split_paired_Ex intro: exI [of _ st3] exI [of _ "(fst st1, h2)"])
      then show ?thesis using coldStart_trace by (blast intro: grows_trans)
    qed
    with r None show ?thesis by (auto simp: extends_iff)
  qed
qed



section \<open>Two runs\<close>

text \<open>A host on which process 7 listens on port 80 once it has been started.\<close>

definition liveView :: sysview where
  "liveView =
     quietView\<lparr>connsOf := (\<lambda>p. if p = 7 then Some [\<lparr>connStatus = ''LISTEN'', connPort = 80, connPid = 7\<rparr>] else Some []),
       hostConns := Some [\<lparr>connStatus = ''LISTEN'', connPort = 80, connPid = 7\<rparr>], cmdlineOf := (\<lambda>_. Some [''c''])\<rparr>"

definition upOS :: "bool os" where
  "upOS = demoOS\<lparr>osView := (\<lambda>w. (if w then liveView else quietView, w))\<rparr>"

definition demoExec :: Server where
  "demoExec = zeroServer\<lparr>sName := ''a'', sType := TypeExec, Enabled := True, Command := ''c'', sPort := 80,
     sHealth := zeroHealth\<lparr>hPath := ''/''\<rparr>\<rparr>"

definition demoSup :: Supervisor where
  "demoSup = \<lparr>LogDir = '''', LockFile = '''', supGracePeriod = 5, supReadyTimeout = 5, PollInterval = 1, HealthTimeout = 1, BaseDir = ''''\<rparr>"

definition demoConfig :: "Server list \<Rightarrow> Config" where
  "demoConfig ss = \<lparr>cfgSupervisor = demoSup, Servers = ss\<rparr>"

definition idle :: "'w \<Rightarrow> Server list \<Rightarrow> 'w est" where
  "idle w ss = (NewEngine (demoConfig ss) None, \<lparr>events = [], world = w\<rparr>)"

lemma demo_up:
  "map_prod (\<lambda>o1. voErr o1) (\<lambda>(e, h). (map fst (procs e), map isStart (events h))) (upOne upOS demoExec (idle False [demoExec]))
   = (None, [''a''], [False, True, False, False])"
  by code_simp

lemma demo_cold: "fst (ownedPIDLocked upOS demoExec (idle False [demoExec])) = None"
  by code_simp

theorem up_never_over_foreign_witness:
  "\<exists>o1 st' r t. upOne upOS demoExec (idle False [demoExec]) = (o1, st')
     \<and> events (snd st') = events (snd (idle False [demoExec])) @ EvScan r # t
     \<and> (free_scan (DeclaredPorts demoExec) r \<or> t = [] \<and> fst st' = fst (idle False [demoExec]) \<and> voErr o1 \<noteq> None)"
proof -
  obtain st1 where own: "ownedPIDLocked upOS demoExec (idle False [demoExec]) = (None, st1)"
    using demo_cold by (metis prod.collapse)
  obtain o1 st' where up: "upOne upOS demoExec (idle False [demoExec]) = (o1, st')" by (metis prod.exhaust)
  from up_never_over_foreign [OF own up] up show ?thesis by blast
qed


text \<open>
  A host on which the deployed binary differs at the first comparison and is the same at the second, as when
  another server that shares the binary has replaced it in between.
\<close>

definition raceOS :: "nat os" where
  "raceOS =
     \<lparr>osView = (\<lambda>w. (quietView, w)), osKill = (\<lambda>p s w. (KillOK, w)), osKill0 = (\<lambda>p w. (ESRCH, w)), osRounds = (\<lambda>d w. (3, w)),
      osProbe = (\<lambda>sp w. (HttpOutcome NoResponse, w)), osPoll = (\<lambda>sp w. ((HttpOutcome (Response 200), []), w)),
      osWarm = (\<lambda>sp w. ((Response 200, []), w)), osStart = (\<lambda>r w. (Some (7, ''l''), w)), osExited = (\<lambda>p w. (False, w)),
      osRun = (\<lambda>a w. (True, w)), osTempDir = (\<lambda>w. (Some ''t'', w)),
      osHash = (\<lambda>p w. (Digest (if w = 1 then 1 else 0), Suc w)),
      osReplace = (\<lambda>a b w. (True, w)), osHome = None, osCwd = ''/'', osEnviron = [], osStat = (\<lambda>p. None)\<rparr>"

text \<open>The cold path of \<open>up\<close> compares the binary twice, and acts on the second comparison alone: when the binary is
  found stale and then fresh, \<open>up\<close> reports success for a server that it has neither started nor registered.\<close>

theorem up_success_without_start:
  "map_prod (\<lambda>o1. (voErr o1, voLog o1)) (\<lambda>(e, h). (procs e, list_ex isStart (events h)))
     (upOne raceOS (demoSource\<lparr>sDir := ''''\<rparr>) (idle 0 [demoSource\<lparr>sDir := ''''\<rparr>]))
   = ((None, ''''), [], False)"
  by code_simp


end
