(* ===== verification/EngineVerbs.thy ===== *)
theory EngineVerbs
  imports EngineUp
begin

text \<open>Taking servers down, bouncing, building, quitting and reporting, and behaviours the comments rule out.\<close>

section \<open>Down\<close>

lemma map_of_forget: "map_of (procs (forget n e)) = (map_of (procs e))(n := None)"
  by (simp add: forget_def delete_conv')

lemma teardownPID_clean:
  assumes "teardownPID os s p st = (None, st')"
  shows "\<exists>t u v. events (snd st') = events (snd st) @ t \<and> t = u @ v \<and> verified (targetOf s p) v"
proof -
  let ?g = "ResolveGracePeriod s (cfgSupervisor (eConfig (fst st)))"
  obtain r h1 where r: "TeardownGroup os (targetOf s p) ?g (snd st) = (r, h1)"
    by (cases "TeardownGroup os (targetOf s p) ?g (snd st)")
  with assms obtain k where "r = Inr k" "snd st' = h1" by (auto simp: teardownPID_def split: sum.splits)
  with TeardownGroup_trace [OF r] show ?thesis by auto
qed

text \<open>Taking down a server we own keeps the registry entry exactly when it fails, so the verb can be repeated; when it
  succeeds the entry is gone, and the process was either found already gone or its teardown was verified.\<close>

theorem down_keeps_handle_on_failure:
  assumes "serverByName (fst st) name = Some s" and "ownedPIDLocked os s st = (Some p, st1)" and "downOne os name st = (o1, st')"
  shows "if voErr o1 = None
    then map_of (procs (fst st')) name = None
       \<and> ((\<exists>st2. ownedPIDLocked os s st1 = (None, st2)) \<or> Detached s
          \<or> (\<exists>q u v. events (snd st') = events (snd st) @ u @ v \<and> verified (targetOf s q) v))
    else fst st' = fst st"
proof -
  obtain err st2 where t: "teardownOne os s st1 = (err, st2)" by (cases "teardownOne os s st1")
  have st1: "fst st1 = fst st" "events (snd st1) = events (snd st)"
    using grows_owned [OF assms(2), of "\<lambda>_. False"] by (auto simp: grows_def list_all_iff)
  have st2: "fst st2 = fst st" using nostart.one [OF t] st1 by simp
  show ?thesis
  proof (cases err)
    case (Some e)
    with assms t st2 show ?thesis by (cases st2) (auto simp: downOne_def outcome_def)
  next
    case None
    with assms t have st': "st' = (forget name (fst st2), snd st2)" "voErr o1 = None"
      by (cases st2; auto simp: downOne_def outcome_def)+
    have "(\<exists>st3. ownedPIDLocked os s st1 = (None, st3)) \<or> Detached s
        \<or> (\<exists>q u v. events (snd st2) = events (snd st1) @ u @ v \<and> verified (targetOf s q) v)"
    proof (cases "\<exists>st3. ownedPIDLocked os s st1 = (None, st3) \<or> Detached s")
      case False
      then obtain q st3 where q: "ownedPIDLocked os s st1 = (Some q, st3)" by (metis option.exhaust prod.exhaust)
      with False t None have tp: "teardownPID os s q st3 = (None, st2)" by (auto simp: teardownOne_def)
      have "events (snd st3) = events (snd st1)"
        using grows_owned [OF q, of "\<lambda>_. False"] by (auto simp: grows_def list_all_iff)
      with teardownPID_clean [OF tp] show ?thesis by (metis append.assoc)
    qed blast
    with st' st1 show ?thesis by (simp add: map_of_forget)
  qed
qed

definition running :: "Server list \<Rightarrow> bool est" where
  "running ss = (register ''a'' \<lparr>prPid = 7, LogPath = ''l''\<rparr> (NewEngine (demoConfig ss) None), \<lparr>events = [], world = True\<rparr>)"

lemma demo_down:
  "map_prod voErr (\<lambda>(e, h). (procs e, world h)) (downOne upOS ''a'' (running [demoExec])) = (None, [], False)"
  by code_simp

lemma demo_owned: "fst (ownedPIDLocked upOS demoExec (running [demoExec])) = Some 7"
  by code_simp

theorem down_keeps_handle_on_failure_witness:
  "\<exists>o1 st'. downOne upOS ''a'' (running [demoExec]) = (o1, st') \<and> voErr o1 = None \<and> map_of (procs (fst st')) ''a'' = None"
proof -
  obtain st1 where own: "ownedPIDLocked upOS demoExec (running [demoExec]) = (Some 7, st1)"
    using demo_owned by (metis prod.collapse)
  obtain o1 st' where d: "downOne upOS ''a'' (running [demoExec]) = (o1, st')" by (metis prod.exhaust)
  have "serverByName (fst (running [demoExec])) ''a'' = Some demoExec"
    by (simp add: running_def serverByName_def register_def NewEngine_def demoConfig_def demoExec_def)
  moreover have "voErr o1 = None" using demo_down d by simp
  ultimately show ?thesis using down_keeps_handle_on_failure [OF _ own d] d by auto
qed

text \<open>A host on which group 7 ignores every signal and holds port 80.\<close>

definition stubbornOS :: "bool os" where
  "stubbornOS = demoOS\<lparr>osView := (\<lambda>w. (liveView, w)), osKill := (\<lambda>p s w. (KillOK, w)), osKill0 := (\<lambda>p w. (KillOK, w)), osExited := (\<lambda>p w. (False, w))\<rparr>"

text \<open>\<open>dead\<close> forgets a disabled server it owns even when the teardown fails: the process is alive and holds its port,
  the verb reports the failure, and the registry no longer knows the process, so that quitting signals nothing.\<close>

theorem dead_forgets_survivor:
  "(let (err, st) = Dead stubbornOS '''' (running [demoExec\<lparr>Enabled := False\<rparr>]); (names, st2) = TeardownAll stubbornOS st
    in (err \<noteq> None, procs (fst st), fst (groupAlive stubbornOS 7 (snd st)), names, length (events (snd st2)) = length (events (snd st))))
   = (True, [], True, [], True)"
  by code_simp

section \<open>Bounce and quit\<close>

text \<open>A bounce never launches over an incomplete teardown: its down phase starts no process, and when it fails the
  bounce ends there with the same error and state.\<close>

theorem bounce_never_overlaps:
  assumes "Down os name st = (err, st1)" and "name \<noteq> ''''"
  shows "grows (\<lambda>e. \<not> isStart e) (snd st) (snd st1)
    \<and> Bounce os name st = (if err = None then Up os name st1 else (err, st1))"
  using assms nostart.down_verb [of os name False st err st1] by (auto simp: Bounce_def Down_def split: option.splits)

theorem bounce_never_overlaps_witness:
  "\<exists>err st1. Down stubbornOS ''a'' (running [demoExec]) = (err, st1) \<and> err \<noteq> None
    \<and> Bounce stubbornOS ''a'' (running [demoExec]) = (err, st1)"
proof -
  obtain err st1 where d: "Down stubbornOS ''a'' (running [demoExec]) = (err, st1)" by (metis prod.exhaust)
  have "fst (Down stubbornOS ''a'' (running [demoExec])) \<noteq> None" by code_simp
  with d have "err \<noteq> None" by simp
  with bounce_never_overlaps [OF d] d show ?thesis by auto
qed

lemma procs_forget_all:
  "fst ` set (procs e) \<subseteq> set ns \<Longrightarrow> procs (foldl (\<lambda>e n. forget n e) e ns) = []"
proof (induction ns arbitrary: e)
  case (Cons n ns)
  have "fst ` set (procs (forget n e)) \<subseteq> set ns"
    using Cons.prems by (auto simp: forget_def AList.delete_eq)
  from Cons.IH [OF this] show ?case by simp
qed simp

text \<open>Quitting empties the registry and only looks, probes and signals groups; it runs no command at all, and so not the
  teardown command of a detached server either, whose launcher has long exited.\<close>

theorem quit_runs_no_command:
  "\<exists>t. events (snd (snd (TeardownAll os st))) = events (snd st) @ t \<and> list_all stopping t
    \<and> procs (fst (snd (TeardownAll os st))) = []"
proof -
  let ?pids = "map (\<lambda>(n, p). (n, prPid p)) (procs (fst st))" and ?cfg = "eConfig (fst st)"
  obtain rs h1 where t: "teardown_list os (cfgSupervisor ?cfg) ?pids (rev (Servers ?cfg)) (snd st) = (rs, h1)"
    by (cases "teardown_list os (cfgSupervisor ?cfg) ?pids (rev (Servers ?cfg)) (snd st)")
  then have eq: "snd (TeardownAll os st) = (foldl (\<lambda>e n. forget n e) (fst st) (map fst ?pids), h1)"
    by (simp add: TeardownAll_def lifecycle_TeardownAll_def Let_def)
  have "fst ` set (procs (fst st)) \<subseteq> set (map fst ?pids)" by force
  from procs_forget_all [OF this] grows_teardown_list [OF t] show ?thesis
    unfolding eq by (auto simp: grows_def)
qed

section \<open>Status\<close>

lemma decideState_down:
  "fst (decideState s own c u) = StateDown \<longleftrightarrow> Actual c = [] \<and> \<not> u"
  by (auto simp: decideState_def classifyOwned_def Let_def split: Classification.splits if_splits)

lemma statusForLocked_owned:
  assumes "ownedPIDLocked os s st = (Some p, st1)" and "\<not> Detached s"
  shows "\<exists>obs root1. fst (observeOwnedTree os p (snd st1)) = (obs, root1)
    \<and> stState (fst (statusForLocked os s st)) =
       fst (decideState s (Some p) (Classify (DeclaredPorts s) obs)
              (isUnconfirmedObservation True (Classify (DeclaredPorts s) obs) root1))"
  using assms by (cases st1) (auto simp: statusForLocked_def Let_def split: prod.splits)

lemma observeOwnedTree_view:
  "fst (observeOwnedTree os p h) =
     (case TreeListenSet (fst (osView os (world h))) p of
        Inr obs \<Rightarrow> (obs, False)
      | Inl e \<Rightarrow> (emptyObservation, e \<noteq> NotRunning))"
  by (auto simp: observeOwnedTree_def viewTree_def ask_def IsRootProcessGone_def split: prod.splits sum.splits)

text \<open>A server whose process we hold is reported down only on evidence: the process is confirmed gone, or the whole of
  its process tree was read and every member is confirmed to listen on nothing.  A read that failed, or an empty
  read that the scan of the host did not confirm, never yields a down.\<close>

theorem status_down_confirmed:
  assumes "ownedPIDLocked os s st = (Some p, st1)" and "\<not> Detached s"
    and "stState (fst (statusForLocked os s st)) = StateDown" and "V = fst (osView os (world (snd st1)))"
  shows "newProcess V p = Some NotRunning
    \<or> newProcess V p = None \<and> (\<forall>q. (p, q) \<in> (child_of V)\<^sup>* \<longrightarrow> \<not> unread V q \<and> (\<forall>port. \<not> listens_on V q port))"
proof -
  obtain obs root1 where o1: "fst (observeOwnedTree os p (snd st1)) = (obs, root1)"
    and d: "Actual (Classify (DeclaredPorts s) obs) = []"
      "\<not> isUnconfirmedObservation True (Classify (DeclaredPorts s) obs) root1"
    using statusForLocked_owned [OF assms(1,2)] assms(3) decideState_down by metis
  from d have none: "Holders obs = []" "\<not> root1" "Degraded obs = []"
    using Classify_sets(3,4) [of "DeclaredPorts s" obs] by (auto simp: isUnconfirmedObservation_def)
  show ?thesis
  proof (cases "newProcess V p")
    case (Some e)
    then have "TreeListenSet V p = Inl e" by (simp add: TreeListenSet_def treeListenSet_def)
    with o1 none Some show ?thesis by (auto simp: observeOwnedTree_view assms(4))
  next
    case None
    let ?ps = "collectTreeProcesses V p"
    have tree: "set ?ps = {q. (p, q) \<in> (child_of V)\<^sup>*}"
      using walk_spec [of V p "[p]" "[p]" "[p]"] by (simp add: collectTreeProcesses_def walk_inv_def)
    have "TreeListenSet V p = Inr (fst (observeAll V True ?ps))"
      using None by (simp add: TreeListenSet_def treeListenSet_def observeAll_def)
    with o1 have "obs = fst (observeAll V True ?ps)" by (simp add: observeOwnedTree_view assms(4))
    with none observeAll_Holders [of V True ?ps] observeAll_Degraded [of V True ?ps] None tree show ?thesis
      by (auto simp: filter_empty_conv)
  qed
qed

lemma demo_status_down:
  "stState (fst (statusForLocked demoOS demoExec (running [demoExec]))) = StateDown"
  by code_simp

theorem status_down_confirmed_witness:
  "\<exists>V. newProcess V 7 = None \<and> (\<forall>q. (7, q) \<in> (child_of V)\<^sup>* \<longrightarrow> \<not> unread V q)"
proof -
  have "fst (ownedPIDLocked demoOS demoExec (running [demoExec])) = Some 7" by code_simp
  then obtain st1 where own: "ownedPIDLocked demoOS demoExec (running [demoExec]) = (Some 7, st1)" by (metis prod.collapse)
  have "\<not> Detached demoExec" by code_simp
  from status_down_confirmed [OF own this demo_status_down refl]
  have "newProcess quietView 7 = Some NotRunning
    \<or> newProcess quietView 7 = None \<and> (\<forall>q. (7, q) \<in> (child_of quietView)\<^sup>* \<longrightarrow> \<not> unread quietView q \<and> (\<forall>port. \<not> listens_on quietView q port))"
    by (simp add: demoOS_def)
  moreover have "newProcess quietView 7 = None" by (simp add: quietView_def)
  ultimately show ?thesis by auto
qed

section \<open>Prompts\<close>

definition answer_of :: "string \<Rightarrow> bool option" where
  "answer_of line =
     (let a = toLower (trimSpace line) in
      if a = ''y'' \<or> a = ''yes'' then Some True else if a = ''n'' \<or> a = ''no'' then Some False else None)"

definition answers :: "string list \<Rightarrow> bool list" where
  "answers lines = map the (filter (\<lambda>a. a \<noteq> None) (map answer_of lines))"

fun assign :: "Server list \<Rightarrow> bool list \<Rightarrow> Server list" where
  "assign [] as = []"
| "assign (s # ss) as =
     (case Prompt s of None \<Rightarrow> s # assign ss as | Some p \<Rightarrow> applyAnswer p (hd as) s # assign ss (tl as))"

lemma askYesNo_answers:
  "answers lines = (case askYesNo lines of (None, _) \<Rightarrow> [] | (Some b, rest) \<Rightarrow> b # answers rest)"
  by (induction lines) (auto simp: answers_def answer_of_def Let_def split: option.splits prod.splits if_splits)

lemma askEach_spec:
  "if length (filter (\<lambda>s. Prompt s \<noteq> None) ts) \<le> length (answers lines)
   then fst (askEach ts lines) = Inr (assign ts (answers lines))
   else \<exists>n. fst (askEach ts lines) = Inl (PromptUnanswered n)"
proof (induction ts arbitrary: lines)
  case (Cons s ss)
  show ?case
  proof (cases "Prompt s")
    case None
    with Cons [of lines] show ?thesis by (auto split: prod.splits sum.splits if_splits)
  next
    case (Some p)
    obtain a rest where a: "askYesNo lines = (a, rest)" by (cases "askYesNo lines")
    show ?thesis
    proof (cases a)
      case None
      with a Some askYesNo_answers [of lines] show ?thesis by simp
    next
      case (Some b)
      with a \<open>Prompt s = Some p\<close> askYesNo_answers [of lines] Cons [of rest] show ?thesis
        by (auto split: prod.splits sum.splits if_splits)
    qed
  qed
qed simp

lemma no_prompts_assign: "\<not> list_ex (\<lambda>s. Prompt s \<noteq> None) ts \<Longrightarrow> assign ts as = ts"
  by (induction ts arbitrary: as) auto

text \<open>All prompts are answered before anything is launched, each by its own line: the server asked k-th gets the k-th
  valid answer of the input, lines that are neither yes nor no are asked again, and with too few answers the
  command fails and launches nothing.\<close>

theorem prompts_answered_in_order:
  assumes "promptIn e = Some lines"
  shows "if length (filter (\<lambda>s. Prompt s \<noteq> None) ts) \<le> length (answers lines)
    then fst (askPrompts ts e) = Inr (assign ts (answers lines))
    else \<exists>n. fst (askPrompts ts e) = Inl (PromptUnanswered n)"
proof (cases "list_ex (\<lambda>s. Prompt s \<noteq> None) ts")
  case True
  with assms askEach_spec [of ts lines] show ?thesis by (auto simp: askPrompts_def split: prod.splits)
next
  case False
  then have "filter (\<lambda>s. Prompt s \<noteq> None) ts = []" by (auto simp: list_ex_iff filter_empty_conv)
  with False show ?thesis by (simp add: askPrompts_def no_prompts_assign)
qed

definition promptServer :: Server where
  "promptServer = demoExec\<lparr>Prompt := Some \<lparr>Question = ''q'', YesArgs = [''-v''], NoArgs = [], YesEnv = [], NoEnv = []\<rparr>\<rparr>"

theorem prompts_answered_in_order_witness:
  "fst (askPrompts [promptServer] (NewEngine (demoConfig []) (Some [''maybe'', ''y'']))) = Inr [promptServer\<lparr>Args := [''-v'']\<rparr>]"
proof -
  have "answers [''maybe'', ''y''] = [True]" by code_simp
  moreover have "assign [promptServer] [True] = [promptServer\<lparr>Args := [''-v'']\<rparr>]" by code_simp
  ultimately show ?thesis
    using prompts_answered_in_order [of "NewEngine (demoConfig []) (Some [''maybe'', ''y''])" "[''maybe'', ''y'']" "[promptServer]"]
    by (simp add: NewEngine_def promptServer_def)
qed

lemma mergedEnv_lookup:
  "distinct (map fst extra) \<Longrightarrow> map_of (mergedEnv base extra) k = (case map_of extra k of Some v \<Rightarrow> Some v | None \<Rightarrow> map_of base k)"
proof (induction extra arbitrary: base)
  case (Cons kv extra)
  obtain a v where kv: "kv = (a, v)" by (cases kv)
  with Cons have "map_of (mergedEnv base (kv # extra)) k = map_of (mergedEnv (AList.update a v base) extra) k"
    by (simp add: mergedEnv_def)
  moreover have "map_of extra a = None" using Cons.prems kv by (simp add: map_of_eq_None_iff)
  ultimately show ?case using Cons kv by (auto simp: update_conv split: option.splits)
qed (simp add: mergedEnv_def)

section \<open>Behaviours the comments rule out\<close>

text \<open>\<open>up\<close> of the fleet asks the question of a server that is already running and drops the answer: an answer is read
  and nothing is started.\<close>

theorem up_asks_running_server:
  "(let (err, st) = Up upOS '''' (map_prod (promptIn_update (\<lambda>_. Some [''y''])) id (running [promptServer]))
    in (err, promptIn (fst st), list_ex isStart (events (snd st))))
   = (None, Some [], False)"
  by code_simp

text \<open>A negative poll interval passes the validation and the defaults, and makes the health poll of a server that is not
  ready at once panic.\<close>

theorem negative_interval_panics:
  "Validate ((demoConfig [demoExec])\<lparr>cfgSupervisor := applyDefaults (demoSup\<lparr>PollInterval := - 1\<rparr>)\<rparr>) = None
   \<and> fst (pollHealth (demoOS\<lparr>osPoll := (\<lambda>sp w. ((HttpOutcome NoResponse, []), w))\<rparr>) (applyDefaults (demoSup\<lparr>PollInterval := - 1\<rparr>))
       demoExec \<lparr>events = [], world = True\<rparr>) = Some NonPositiveTicker"
  by code_simp

text \<open>A host on which a command works when its directory exists, and one directory does.\<close>

definition homeOS :: "bool os" where
  "homeOS =
     \<lparr>osView = (\<lambda>w. (if w then liveView else quietView, w)), osKill = (\<lambda>p s w. (KillOK, w)), osKill0 = (\<lambda>p w. (ESRCH, w)), osRounds = (\<lambda>d w. (1, w)),
      osProbe = (\<lambda>sp w. (HttpOutcome NoResponse, w)), osPoll = (\<lambda>sp w. ((HttpOutcome (Response 200), []), w)),
      osWarm = (\<lambda>sp w. ((Response 200, []), w)),
      osStart = (\<lambda>r w. if lrDir r = ''/home/u/svc'' then (Some (7, ''l''), True) else (None, w)),
      osExited = (\<lambda>p w. (True, w)), osRun = (\<lambda>r w. (rqDir r = ''/home/u/svc'', w)), osTempDir = (\<lambda>w. (Some ''t'', w)),
      osHash = (\<lambda>p w. (Digest 1, w)), osReplace = (\<lambda>a b w. (True, w)), osHome = Some ''/home/u'', osCwd = ''/'',
      osEnviron = [], osStat = (\<lambda>p. None)\<rparr>"

definition demoDetached :: Server where
  "demoDetached =
     zeroServer\<lparr>sName := ''d'', sType := TypeExec, Enabled := True, Command := ''docker'', Args := [''up''], Detached := True,
       TeardownArgs := [''down''], sDir := ''~/svc'', Listens := [80], sHealth := zeroHealth\<lparr>hPath := ''/'', hPort := 80\<rparr>\<rparr>"

text \<open>A detached server whose directory is given relative to the home directory validates and is started there, but
  cannot be stopped: the launch expands the tilde, the teardown command is run in the unexpanded path, which does not
  exist, and \<open>down\<close> reports a failure every time.\<close>

theorem detached_home_dir_cannot_stop:
  "(let (up, st1) = Up homeOS ''d'' (idle False [demoDetached]); (down, st2) = Down homeOS ''d'' st1
    in (Validate (demoConfig [demoDetached]), up, down, map fst (procs (fst st2))))
   = (None, None, Some (TeardownFailed (DetachedFailed ''d'')), [''d''])"
  by code_simp

end
