(* ===== verification/LogTail.thy ===== *)
theory LogTail
  imports GoText
begin

text \<open>
  The tail of a log (\<open>readLastLines\<close>, \<open>tailLines\<close> and \<open>sliceTail\<close> of \<open>cmd/aa-server-status/engine.go\<close>), which
  the \<open>view\<close> verb shows: the file is read backward in chunks until enough line ends have been seen.  The file is
  a reader of byte ranges.  Cutting a line to a number of runes needs Go's decoding of UTF-8, which is given here.
\<close>

section \<open>Runes\<close>

definition NL :: char where "NL = CHR 0x0A"

text \<open>The ranges of the bytes that may follow a first byte in a well-formed sequence.\<close>

definition cont_ranges :: "nat \<Rightarrow> (nat \<times> nat) list option" where
  "cont_ranges b =
     (let c = (0x80, 0xBF) in
      if b < 0x80 then Some []
      else if 0xC2 \<le> b \<and> b \<le> 0xDF then Some [c]
      else if b = 0xE0 then Some [(0xA0, 0xBF), c]
      else if b = 0xED then Some [(0x80, 0x9F), c]
      else if 0xE1 \<le> b \<and> b \<le> 0xEF then Some [c, c]
      else if b = 0xF0 then Some [(0x90, 0xBF), c, c]
      else if 0xF1 \<le> b \<and> b \<le> 0xF3 then Some [c, c, c]
      else if b = 0xF4 then Some [(0x80, 0x8F), c, c]
      else None)"

fun conts :: "(nat \<times> nat) list \<Rightarrow> string \<Rightarrow> bool" where
  "conts [] s \<longleftrightarrow> True"
| "conts (r # rs) [] \<longleftrightarrow> False"
| "conts ((lo, hi) # rs) (b # s) \<longleftrightarrow> lo \<le> of_char b \<and> of_char b \<le> hi \<and> conts rs s"

text \<open>The length of the well-formed sequence at the front, if there is one.\<close>

definition runeSize :: "char \<Rightarrow> string \<Rightarrow> nat option" where
  "runeSize b s =
     (case cont_ranges (of_char b) of
        None \<Rightarrow> None
      | Some rs \<Rightarrow> if conts rs s then Some (Suc (length rs)) else None)"

definition runeError :: string where "runeError = [CHR 0xEF, CHR 0xBF, CHR 0xBD]"

text \<open>\<open>[]rune(s)\<close>, each rune as its encoding: a byte that begins no sequence becomes the replacement rune.\<close>

function runes :: "string \<Rightarrow> string list" where
  "runes [] = []"
| "runes (b # s) =
     (case runeSize b s of
        Some k \<Rightarrow> take k (b # s) # runes (drop (k - 1) s)
      | None \<Rightarrow> runeError # runes s)"
  by pat_completeness auto
termination
  by (relation "measure length") auto

section \<open>The code\<close>

definition viewTailLines :: nat where "viewTailLines = 50"

definition viewWrapWidth :: nat where "viewWrapWidth = 80"

definition tailChunkSize :: nat where "tailChunkSize = 8192"

definition wrapLine :: "string \<Rightarrow> string" where
  "wrapLine l =
     (if length l \<le> viewWrapWidth then l
      else let r = runes l in if length r > viewWrapWidth then concat (take viewWrapWidth r) else l)"

definition sliceTail :: "string \<Rightarrow> nat \<Rightarrow> bool \<Rightarrow> string list" where
  "sliceTail buf n nowrap =
     (let lines = rev (dropWhile (\<lambda>l. l = '''') (rev (split_on NL buf)));
          kept = (if length lines > n then drop (length lines - n) lines else lines)
      in if nowrap then map wrapLine kept else kept)"

text \<open>
  The loop of \<open>tailLines\<close>.  The chunks are kept as they are read, the end of the file first.
\<close>

function tail_loop ::
    "(nat \<Rightarrow> nat \<Rightarrow> 'e + string) \<Rightarrow> nat \<Rightarrow> nat \<Rightarrow> string list \<Rightarrow> int \<Rightarrow> int \<Rightarrow> bool \<Rightarrow> 'e + string list" where
  "tail_loop readAt n frontier cs newlines trailing inTrailing =
     (if frontier = 0 then Inr cs
      else
        let readLen = min frontier tailChunkSize; start = frontier - readLen in
        case readAt start readLen of
          Inl e \<Rightarrow> Inl e
        | Inr chunk \<Rightarrow>
            let newlines' = newlines + int (count_list chunk NL);
                stripped = length chunk - length (trimRight [NL] chunk);
                trailing' = (if inTrailing then trailing + int stripped else trailing);
                inTrailing' = (inTrailing \<and> \<not> stripped < length chunk)
            in if newlines' - trailing' \<ge> int n then Inr (cs @ [chunk])
               else tail_loop readAt n start (cs @ [chunk]) newlines' trailing' inTrailing')"
  by pat_completeness auto
termination
  by (relation "measure (\<lambda>(_, _, frontier, _). frontier)") (auto simp: tailChunkSize_def)

declare tail_loop.simps [simp del]

definition tailLines :: "(nat \<Rightarrow> nat \<Rightarrow> 'e + string) \<Rightarrow> nat \<Rightarrow> nat \<Rightarrow> bool \<Rightarrow> 'e + string list" where
  "tailLines readAt sz n nowrap =
     (if sz = 0 then Inr []
      else case tail_loop readAt n sz [] 0 0 True of
        Inl e \<Rightarrow> Inl e
      | Inr cs \<Rightarrow> Inr (sliceTail (concat (rev cs)) n nowrap))"

section \<open>Lines of a text\<close>

lemma split_on_ne [simp]: "split_on d s \<noteq> []"
  by (induction s) (auto split: list.splits)

lemma length_split_on: "length (split_on d s) = Suc (count_list s d)"
proof (induction s)
  case (Cons c s)
  then show ?case by (cases "split_on d s") auto
qed simp

lemma split_on_append:
  "split_on d (a @ b) = butlast (split_on d a) @ [last (split_on d a) @ hd (split_on d b)] @ tl (split_on d b)"
proof (induction a)
  case Nil
  then show ?case by (cases "split_on d b") auto
next
  case (Cons c a)
  show ?case
  proof (cases "c = d")
    case True
    with Cons show ?thesis by simp
  next
    case False
    obtain w ws where w: "split_on d a = w # ws" by (cases "split_on d a") auto
    with False Cons show ?thesis by (cases ws) auto
  qed
qed

text \<open>Dropping the empty last lines is cutting off the line ends at the end.\<close>

lemma trimRight_unfold: "trimRight cs s = rev (dropWhile (\<lambda>c. c \<in> set cs) (rev s))"
  by (simp add: trimRight_def)

lemma trimRight_last: "trimRight [d] (s @ [c]) = (if c = d then trimRight [d] s else s @ [c])"
  by (simp add: trimRight_unfold)

lemma split_on_snoc:
  "split_on d (s @ [c]) = (if c = d then split_on d s @ [[]] else butlast (split_on d s) @ [last (split_on d s) @ [c]])"
  by (simp add: split_on_append)

lemma trailing_empty:
  "rev (dropWhile (\<lambda>l. l = []) (rev (split_on d s)))
   = (if trimRight [d] s = [] then [] else split_on d (trimRight [d] s))"
proof (induction s rule: rev_induct)
  case Nil
  then show ?case by (simp add: trimRight_unfold)
next
  case (snoc c s)
  then show ?case by (cases "c = d") (simp_all add: split_on_snoc trimRight_last)
qed

lemma trimRight_inner: "trimRight [d] b \<noteq> [] \<Longrightarrow> trimRight [d] (a @ b) = a @ trimRight [d] b"
  by (auto simp: trimRight_unfold dropWhile_append)


section \<open>The tail that was read is enough\<close>

definition trailers :: "string \<Rightarrow> int" where
  "trailers b = int (length b) - int (length (trimRight [NL] b))"

lemma trimRight_split: "\<exists>k. b = trimRight [d] b @ replicate k d"
proof (induction b rule: rev_induct)
  case Nil
  then show ?case by (simp add: trimRight_unfold)
next
  case (snoc c b)
  then obtain k where k: "b = trimRight [d] b @ replicate k d" by blast
  show ?case
  proof (cases "c = d")
    case True
    have "b @ [d] = trimRight [d] b @ replicate (Suc k) d"
      by (subst k) (simp add: replicate_append_same)
    with True show ?thesis by (metis trimRight_last)
  qed (simp add: trimRight_last exI [of _ 0])
qed

lemma count_replicate: "count_list (replicate k d) d = k"
  by (induction k) simp_all

lemma drop_suffix: "n \<le> length ys \<Longrightarrow> drop (length (xs @ ys) - n) (xs @ ys) = drop (length ys - n) ys"
  by simp

lemma count_trailers: "int (count_list b NL) - trailers b = int (count_list (trimRight [NL] b) NL)"
proof -
  obtain k where k: "b = trimRight [NL] b @ replicate k NL" using trimRight_split by blast
  have "count_list b NL = count_list (trimRight [NL] b) NL + k"
    by (subst k) (simp add: count_replicate)
  moreover have "length b = length (trimRight [NL] b) + k" by (subst k) simp
  ultimately show ?thesis by (simp add: trailers_def)
qed

lemma trimRight_empty: "trimRight [d] b = [] \<longleftrightarrow> set b \<subseteq> {d}"
  by (auto simp: trimRight_unfold dropWhile_eq_Nil_conv)

lemma trailers_append:
  "trailers (c @ b) = (if trimRight [NL] b = [] then trailers c + int (length b) else trailers b)"
proof (cases "trimRight [NL] b = []")
  case True
  then have "trimRight [NL] (c @ b) = trimRight [NL] c"
    by (auto simp: trimRight_unfold dropWhile_append dropWhile_eq_Nil_conv)
  with True show ?thesis by (simp add: trailers_def)
qed (simp add: trailers_def trimRight_inner)

lemma trimRight_shorter: "length (trimRight [d] b) \<le> length b"
  using trimRight_split [of b d] by (metis length_append le_add1)

text \<open>The last lines of a text are those of any end of it that holds enough line ends before its own trailing ones.\<close>

lemma sliceTail_suffix:
  assumes "0 < n" and "int n \<le> int (count_list b NL) - trailers b"
  shows "sliceTail (a @ b) n nowrap = sliceTail b n nowrap"
proof -
  let ?t = "trimRight [NL] b"
  have c: "n \<le> count_list ?t NL" using assms(2) count_trailers [of b] by simp
  with assms(1) have ne: "?t \<noteq> []" by auto
  let ?x = "split_on NL (a @ ?t)" and ?y = "split_on NL ?t"
  have len: "length (tl ?y) = count_list ?t NL" by (simp add: length_split_on)
  have x: "?x = (butlast (split_on NL a) @ [last (split_on NL a) @ hd ?y]) @ tl ?y" by (simp add: split_on_append)
  have y: "?y = [hd ?y] @ tl ?y" by simp
  have "drop (length ?x - n) ?x = drop (length (tl ?y) - n) (tl ?y)"
    by (subst (1 2) x, rule drop_suffix) (use c len in simp)
  moreover have "drop (length ?y - n) ?y = drop (length (tl ?y) - n) (tl ?y)"
    by (subst (1 2) y, rule drop_suffix) (use c len in simp)
  moreover have "length ?x > n" "length ?y > n" using c by (simp_all add: length_split_on)
  ultimately have "drop (length ?x - n) ?x = drop (length ?y - n) ?y" "length ?x > n" "length ?y > n" by simp_all
  with ne show ?thesis by (simp add: sliceTail_def trailing_empty trimRight_inner Let_def)
qed

definition reads :: "string \<Rightarrow> (nat \<Rightarrow> nat \<Rightarrow> 'e + string) \<Rightarrow> bool" where
  "reads content readAt \<longleftrightarrow>
     (\<forall>start n. start + n \<le> length content \<longrightarrow> readAt start n = Inr (take n (drop start content)))"

lemma tail_loop_enough:
  assumes "reads content readAt" and "0 < n" and "frontier \<le> length content"
    and "concat (rev cs) = drop frontier content"
    and "newlines = int (count_list (drop frontier content) NL)"
    and "trailing = trailers (drop frontier content)"
    and "inTrailing \<longleftrightarrow> trimRight [NL] (drop frontier content) = []"
  shows "\<exists>cs'. tail_loop readAt n frontier cs newlines trailing inTrailing = Inr cs'
     \<and> sliceTail (concat (rev cs')) n nowrap = sliceTail content n nowrap"
  using assms(3-)
proof (induction frontier arbitrary: cs newlines trailing inTrailing rule: less_induct)
  case (less frontier)
  show ?case
  proof (cases "frontier = 0")
    case True
    with less.prems show ?thesis by (simp add: tail_loop.simps)
  next
    case False
    let ?len = "min frontier tailChunkSize" and ?start = "frontier - min frontier tailChunkSize"
    let ?b = "drop frontier content"
    define buf where "buf = drop ?start content"
    define chunk where "chunk = take ?len buf"
    have smaller: "?start < frontier" using False by (simp add: tailChunkSize_def)
    have r: "readAt ?start ?len = Inr chunk"
      using assms(1) less.prems(1) by (simp add: reads_def buf_def chunk_def)
    have "drop ?len buf = ?b" by (simp add: buf_def drop_drop)
    then have join: "buf = chunk @ ?b" using append_take_drop_id [of ?len buf] by (simp add: chunk_def)
    let ?nl = "newlines + int (count_list chunk NL)"
    let ?str = "length chunk - length (trimRight [NL] chunk)"
    let ?tr = "if inTrailing then trailing + int ?str else trailing"
    let ?it = "inTrailing \<and> \<not> ?str < length chunk"
    have nl: "?nl = int (count_list (buf) NL)"
      by (simp add: join less.prems(3))
    have str: "int ?str = trailers chunk" using trimRight_shorter [of NL chunk] by (simp add: trailers_def)
    have tr: "?tr = trailers (buf)"
    proof (cases inTrailing)
      case True
      then have "trailing = int (length ?b)" using less.prems(4,5) by (simp add: trailers_def)
      with True less.prems(5) str show ?thesis by (simp add: join trailers_append)
    next
      case False
      with less.prems(4,5) show ?thesis by (simp add: join trailers_append)
    qed
    have it: "?it \<longleftrightarrow> trimRight [NL] (buf) = []"
    proof -
      have "\<not> ?str < length chunk \<longleftrightarrow> trimRight [NL] chunk = []"
        using trimRight_shorter [of NL chunk] by (cases "trimRight [NL] chunk") auto
      then show ?thesis using less.prems(5) by (auto simp: join trimRight_empty)
    qed
    have cs: "concat (rev (cs @ [chunk])) = buf"
      using less.prems(2) join by simp
    show ?thesis
    proof (cases "?nl - ?tr \<ge> int n")
      case True
      with False r have "tail_loop readAt n frontier cs newlines trailing inTrailing = Inr (cs @ [chunk])"
        by (simp add: tail_loop.simps [of readAt n frontier] Let_def)
      moreover have "sliceTail content n nowrap = sliceTail buf n nowrap"
      proof -
        have "sliceTail (take ?start content @ buf) n nowrap = sliceTail buf n nowrap"
          using True by (intro sliceTail_suffix assms(2)) (simp only: nl tr)
        then show ?thesis by (simp add: buf_def)
      qed
      ultimately show ?thesis using cs by simp
    next
      case more: False
      then have "tail_loop readAt n frontier cs newlines trailing inTrailing
          = tail_loop readAt n ?start (cs @ [chunk]) ?nl ?tr ?it"
        using False r by (simp add: tail_loop.simps [of readAt n frontier] Let_def)
      moreover have "?start \<le> length content" using less.prems(1) by simp
      ultimately show ?thesis using less.IH [OF smaller _ cs [unfolded buf_def] nl [unfolded buf_def] tr [unfolded buf_def] it [unfolded buf_def]] by simp
    qed
  qed
qed

text \<open>C29: \<open>view\<close> shows the last lines of the whole log although it reads the file backward only until it has
  counted enough line ends: for every content, every number of lines above zero and every chunk boundary, the result is
  that of cutting the whole file into lines.\<close>

theorem tail_view_exact:
  assumes "reads content readAt" and "0 < n"
  shows "tailLines readAt (length content) n nowrap = Inr (sliceTail content n nowrap)"
proof (cases "content = []")
  case True
  then show ?thesis by (simp add: tailLines_def sliceTail_def)
next
  case False
  have "\<exists>cs'. tail_loop readAt n (length content) [] 0 0 True = Inr cs'
     \<and> sliceTail (concat (rev cs')) n nowrap = sliceTail content n nowrap"
    by (rule tail_loop_enough [OF assms]) (simp_all add: trailers_def trimRight_unfold)
  with False show ?thesis by (auto simp: tailLines_def)
qed

theorem tail_view_exact_witness:
  "tailLines (\<lambda>a k. Inr (take k (drop a [CHR ''a'', NL, CHR ''b'', NL])) :: unit + string) 4 1 False = Inr [''b'']"
proof -
  let ?c = "[CHR ''a'', NL, CHR ''b'', NL]"
  have r: "reads ?c (\<lambda>a k. Inr (take k (drop a ?c)) :: unit + string)" by (simp add: reads_def)
  have l: "length ?c = 4" by simp
  from tail_view_exact [OF r, of 1 False] have
    "tailLines (\<lambda>a k. Inr (take k (drop a ?c)) :: unit + string) 4 1 False = Inr (sliceTail ?c 1 False)"
    by (simp only: l)
  moreover have "sliceTail ?c 1 False = [''b'']" by code_simp
  ultimately show ?thesis by simp
qed


end
