(* ===== verification/Console.thy ===== *)
theory Console
  imports EngineVerbs LogTail
begin

text \<open>
  What the operator types and sees (\<open>cmd/aa-server-status/grammar.go\<close>, \<open>signal.go\<close>, \<open>render.go\<close>): the grammar of
  command lines, the count of interrupts, and the cells of the status table.
\<close>

section \<open>The grammar\<close>

datatype Verb =
    VerbStatus | VerbUp | VerbDown | VerbDead | VerbBuild | VerbLogs | VerbHelp | VerbKill | VerbCommand | VerbView
  | VerbBounce | VerbQuit | VerbExit | VerbBye

record ReplCommand =
  cVerb :: Verb
  cTarget :: string
  cModifier :: string

datatype parse_error =
    LogsUsage | KillUsage | BadPID string | CommandUsage | BadVerb string string | BadModifier string | TooManyTokens

definition globalVerbs :: "(string \<times> Verb) list" where
  "globalVerbs =
     [(''status'', VerbStatus), (''up'', VerbUp), (''down'', VerbDown), (''dead'', VerbDead), (''build'', VerbBuild),
      (''help'', VerbHelp), (''quit'', VerbQuit), (''exit'', VerbExit), (''bye'', VerbBye)]"

definition perServerVerbs :: "(string \<times> Verb) list" where
  "perServerVerbs =
     [(''up'', VerbUp), (''down'', VerbDown), (''build'', VerbBuild), (''view'', VerbView), (''bounce'', VerbBounce)]"

definition targeted :: "Verb \<Rightarrow> string \<Rightarrow> ReplCommand" where
  "targeted v t = \<lparr>cVerb = v, cTarget = t, cModifier = ''''\<rparr>"

definition parseKill :: "string list \<Rightarrow> parse_error + ReplCommand" where
  "parseKill rest =
     (case rest of
        [p] \<Rightarrow> (case atoi p of
                  Some i \<Rightarrow> if i \<le> 0 then Inl (BadPID p) else Inr (targeted VerbKill p)
                | None \<Rightarrow> Inl (BadPID p))
      | _ \<Rightarrow> Inl KillUsage)"

definition ParseCommand :: "string \<Rightarrow> parse_error + ReplCommand" where
  "ParseCommand line =
     (case strFields line of
        [] \<Rightarrow> Inr (targeted VerbStatus '''')
      | first # rest \<Rightarrow>
          if first = ''logs'' then (case rest of [n] \<Rightarrow> Inr (targeted VerbLogs n) | _ \<Rightarrow> Inl LogsUsage)
          else if first = ''kill'' then parseKill rest
          else if first = ''command'' then (case rest of [n] \<Rightarrow> Inr (targeted VerbCommand n) | _ \<Rightarrow> Inl CommandUsage)
          else (case rest of
             [] \<Rightarrow> (case map_of globalVerbs first of
                     Some v \<Rightarrow> Inr (targeted v '''')
                   | None \<Rightarrow> Inr (targeted VerbStatus first))
           | [w] \<Rightarrow> (case map_of perServerVerbs w of
                     Some v \<Rightarrow> Inr (targeted v first)
                   | None \<Rightarrow> Inl (BadVerb w first))
           | [w, m] \<Rightarrow> (if map_of perServerVerbs w = Some VerbView
                       then (if m \<noteq> ''nowrap'' then Inl (BadModifier m)
                             else Inr \<lparr>cVerb = VerbView, cTarget = first, cModifier = ''nowrap''\<rparr>)
                       else Inl TooManyTokens)
           | _ \<Rightarrow> Inl TooManyTokens))"

definition isExitVerb :: "Verb \<Rightarrow> bool" where
  "isExitVerb v \<longleftrightarrow> v = VerbQuit \<or> v = VerbExit \<or> v = VerbBye"

section \<open>Interrupts\<close>

definition sigintWindow :: duration where "sigintWindow = 2 * second"

record sigintCounter =
  siCount :: nat
  siFirst :: int

definition sigint_register :: "int \<Rightarrow> sigintCounter \<Rightarrow> bool \<times> sigintCounter" where
  "sigint_register now c =
     (if siCount c = 0 \<or> now - siFirst c > sigintWindow then (False, \<lparr>siCount = 1, siFirst = now\<rparr>)
      else if siCount c + 1 \<ge> 3 then (True, c\<lparr>siCount := 0\<rparr>)
      else (False, c\<lparr>siCount := siCount c + 1\<rparr>))"

datatype sig = SigInt | SigTstp

text \<open>\<open>handleSignal\<close>: whether the delivery shuts the supervisor down.\<close>

definition handleSignal :: "sig \<Rightarrow> int \<Rightarrow> sigintCounter \<Rightarrow> bool \<times> sigintCounter" where
  "handleSignal s now c = (if s = SigTstp then (False, c) else sigint_register now c)"

text \<open>\<open>runSignalLoop\<close> on the deliveries and their times: the deliveries consumed when it exits, or \<open>None\<close>.\<close>

fun signal_loop :: "sigintCounter \<Rightarrow> (sig \<times> int) list \<Rightarrow> nat option" where
  "signal_loop c [] = None"
| "signal_loop c ((s, now) # rest) =
     (let (stop, c1) = handleSignal s now c in
      if stop then Some 1 else map_option Suc (signal_loop c1 rest))"

definition runSignalLoop :: "(sig \<times> int) list \<Rightarrow> nat option" where
  "runSignalLoop ds = signal_loop \<lparr>siCount = 0, siFirst = 0\<rparr> ds"

section \<open>The status table\<close>

definition maxNameLen :: nat where "maxNameLen = 16"

definition statusColumns :: "string list" where
  "statusColumns = [''SERVER'', ''TYPE'', ''DESIRED'', ''STATE'', ''PORTS'', ''PID'', ''HEALTH'']"

definition ESC :: char where "ESC = CHR 0x1B"

fun visible_from :: "bool \<Rightarrow> string list \<Rightarrow> nat" where
  "visible_from inEsc [] = 0"
| "visible_from inEsc (r # rs) =
     (if r = [ESC] then visible_from True rs
      else if inEsc then visible_from (r \<noteq> ''m'') rs
      else Suc (visible_from False rs))"

definition visibleLen :: "string \<Rightarrow> nat" where
  "visibleLen s = visible_from False (runes s)"

definition padRight :: "string \<Rightarrow> nat \<Rightarrow> string" where
  "padRight s width = s @ replicate (width - visibleLen s) (CHR '' '')"

definition quietDisabled :: "ServerStatus \<Rightarrow> bool" where
  "quietDisabled s \<longleftrightarrow>
     \<not> (stEnabled s \<or> stStale s \<or> stPID s \<noteq> 0)
   \<and> (stState s = StateDown \<or> stState s = StateDisabled)
   \<and> list_all (\<lambda>p. \<not> (psUp p \<or> Unexpected p)) (stPorts s)"

definition ansiReset :: string where "ansiReset = ESC # ''[0m''"
definition ansiGreen :: string where "ansiGreen = ESC # ''[32m''"
definition ansiDim :: string where "ansiDim = ESC # ''[2m''"
definition ansiYellow :: string where "ansiYellow = ESC # ''[33m''"
definition ansiRed :: string where "ansiRed = ESC # ''[31m''"

definition colorize :: "string \<Rightarrow> string \<Rightarrow> string" where
  "colorize code t = code @ t @ ansiReset"

definition redStates :: "ServerState list" where
  "redStates = [StateStray, StatePartial, StateExtraListener, StateForeignConflict, StateBlocked]"

definition anomalyDetailStates :: "ServerState list" where
  "anomalyDetailStates = [StateStray, StateBlocked, StatePartial, StateUp, StateExtraListener]"

fun stateText :: "ServerState \<Rightarrow> string" where
  "stateText StateUp = ''up''"
| "stateText StateDown = ''down''"
| "stateText StateDisabled = ''disabled''"
| "stateText StateStray = ''STRAY''"
| "stateText StatePartial = ''partial''"
| "stateText StateExtraListener = ''extra-listener''"
| "stateText StateForeignConflict = ''foreign-conflict''"
| "stateText StateBlocked = ''BLOCKED''"

definition emDash :: string where "emDash = [CHR 0xE2, CHR 0x80, CHR 0x94]"
definition tick :: string where "tick = [CHR 0xE2, CHR 0x9C, CHR 0x93]"
definition cross :: string where "cross = [CHR 0xE2, CHR 0x9C, CHR 0x97]"

fun anomalyText :: "anomaly \<Rightarrow> string" where
  "anomalyText NoAnomaly = ''''"
| "anomalyText (ForeignPid p) = ''pid '' @ itoa (sint p) @ '', foreign''"
| "anomalyText ObservationUnconfirmed =
     ''observation unconfirmed this cycle '' @ emDash @ '' reported ports may not reflect reality''"
| "anomalyText TreeMemberUnread =
     ''a tree member could not be fully observed '' @ emDash @ '' treat this reading as incomplete''"

definition withAnomalyDetail :: "ServerStatus \<Rightarrow> string \<Rightarrow> string" where
  "withAnomalyDetail s t =
     (let d = anomalyText (AnomalyDetail s) in
      if d \<noteq> '''' \<and> stState s \<in> set anomalyDetailStates then t @ '' ('' @ d @ '')'' else t)"

definition colorForState :: "ServerState \<Rightarrow> string" where
  "colorForState st =
     (if st = StateUp then ansiGreen
      else if st = StateDown \<or> st = StateDisabled then ansiDim
      else if st \<in> set redStates then ansiRed else '''')"

definition formatStateCell :: "ServerStatus \<Rightarrow> string" where
  "formatStateCell s =
     (if stStale s then colorize ansiYellow ''stale''
      else if stState s = StateUp \<and> \<not> stEnabled s \<and> OwnedDisabled s then
        colorize ansiYellow (withAnomalyDetail s ''up (disabled)'')
      else let t = withAnomalyDetail s (stateText (stState s)); color = colorForState (stState s)
           in if color \<noteq> '''' then colorize color t else t)"

definition formatPort :: "PortStatus \<Rightarrow> string" where
  "formatPort p =
     (if Unexpected p then ''+'' @ itoa (psPort p) @ '' '' @ cross @ ''unexpected''
      else itoa (psPort p) @ '' '' @ (if psUp p then tick else cross))"

definition formatPorts :: "PortStatus list \<Rightarrow> string" where
  "formatPorts ps = (if length ps = 0 then ''-'' else joinWith '' '' (map formatPort ps))"

definition formatDesired :: "bool \<Rightarrow> string" where
  "formatDesired enabled = (if enabled then ''up'' else ''down'')"

definition formatPID :: "int \<Rightarrow> string" where
  "formatPID p = (if p = 0 then ''-'' else itoa p)"

definition formatHealth :: "string \<Rightarrow> string" where
  "formatHealth h = (if h = '''' then ''-'' else h)"

definition formatRow :: "ServerStatus \<Rightarrow> string list" where
  "formatRow s =
     [if length (stName s) > maxNameLen then take maxNameLen (stName s) else stName s,
      stType s, formatDesired (stEnabled s), formatStateCell s, formatPorts (stPorts s), formatPID (sint (stPID s)),
      formatHealth (stHealth s)]"

text \<open>The lines of \<open>printTable\<close>, after the empty one it begins with.\<close>

definition widths :: "string list list \<Rightarrow> nat list" where
  "widths rows =
     foldl (\<lambda>ws row. map2 (\<lambda>w cell. if visibleLen cell > w then visibleLen cell else w) ws row)
       (map length statusColumns) rows"

fun tableLine :: "nat list \<Rightarrow> string list \<Rightarrow> string" where
  "tableLine ws [] = ''''"
| "tableLine ws [c] = c"
| "tableLine (w # ws) (c # cs) = padRight c w @ ''  '' @ tableLine ws cs"
| "tableLine [] (c # cs) = c @ ''  '' @ tableLine [] cs"

definition printTable :: "string list list \<Rightarrow> string list" where
  "printTable rows = map (tableLine (widths rows)) (statusColumns # rows)"

definition printStatus :: "ServerStatus list \<Rightarrow> string list" where
  "printStatus ss = printTable (map formatRow (filter (\<lambda>s. \<not> quietDisabled s) ss))"


section \<open>Which servers the grammar reaches\<close>

text \<open>A printable ASCII character other than the space.\<close>

definition graphic :: "char \<Rightarrow> bool" where
  "graphic c \<longleftrightarrow> 33 \<le> (of_char c :: nat) \<and> (of_char c :: nat) \<le> 126"

lemma lead_len_none: "c \<notin> set (map hd rs) \<Longrightarrow> [] \<notin> set rs \<Longrightarrow> lead_len rs (c # s) = 0"
proof (induction rs)
  case (Cons r rs)
  then show ?case by (cases r) auto
qed simp

lemma graphic_no_space: "graphic c \<Longrightarrow> lead_len space_runes (c # s) = 0"
  by (rule lead_len_none) (auto simp: graphic_def space_runes_def)

lemma fields_word: "list_all graphic w \<Longrightarrow> fields_from acc (w @ s) = fields_from (rev w @ acc) s"
proof (induction w arbitrary: acc)
  case (Cons c w)
  have "fields_from acc ((c # w) @ s) = fields_from (c # acc) (w @ s)"
    using Cons.prems by (subst fields_from.simps) (simp add: graphic_no_space Let_def)
  with Cons show ?case by simp
qed simp

lemma fields_end: "fields_from acc [] = (if acc = [] then [] else [rev acc])"
  by (simp add: fields_from.simps)

lemma fields_space: "fields_from acc (CHR '' '' # s) = (if acc = [] then [] else [rev acc]) @ fields_from [] s"
  by (subst fields_from.simps) (simp add: space_runes_def Let_def)

lemma strFields_word: "list_all graphic w \<Longrightarrow> w \<noteq> [] \<Longrightarrow> strFields w = [w]"
  using fields_word [of w "[]" "[]"] by (simp add: strFields_def fields_end)

lemma strFields_two:
  "list_all graphic w \<Longrightarrow> w \<noteq> [] \<Longrightarrow> list_all graphic v \<Longrightarrow> v \<noteq> [] \<Longrightarrow> strFields (w @ '' '' @ v) = [w, v]"
  using fields_word [of w "[]" "'' '' @ v"] fields_word [of v "[]" "[]"]
  by (simp add: strFields_def fields_end fields_space)

lemma reserved_global: "n \<notin> set reservedNames \<Longrightarrow> map_of globalVerbs n = None \<and> n \<noteq> ''logs''"
  by (auto simp: globalVerbs_def reservedNames_def)

lemma perServer_graphic: "(w, v) \<in> set perServerVerbs \<Longrightarrow> list_all graphic w \<and> w \<noteq> [] \<and> map_of perServerVerbs w = Some v"
  by (auto simp: perServerVerbs_def graphic_def)

text \<open>A server whose name passes validation, is printable and is neither \<open>kill\<close> nor \<open>command\<close> is reached by every
  form of the grammar: its bare name asks for its status, and its name with one of the verbs of a server is that verb on
  that server; no reserved word captures it.\<close>

theorem grammar_reaches_server:
  assumes "validateName s seen = Inr seen'" and "list_all graphic (sName s)"
    and "sName s \<noteq> ''kill''" and "sName s \<noteq> ''command''"
  shows "ParseCommand (sName s) = Inr (targeted VerbStatus (sName s))
     \<and> (\<forall>(w, v) \<in> set perServerVerbs. ParseCommand (sName s @ '' '' @ w) = Inr (targeted v (sName s)))"
proof -
  let ?n = "sName s"
  from assms(1) have ne: "?n \<noteq> []" and res: "?n \<notin> set reservedNames"
    by (auto simp: validateName_def split: if_splits)
  note reserved_global [OF res]
  with assms ne have "ParseCommand ?n = Inr (targeted VerbStatus ?n)"
    by (simp add: ParseCommand_def strFields_word)
  moreover have "ParseCommand (?n @ '' '' @ w) = Inr (targeted v ?n)" if "(w, v) \<in> set perServerVerbs" for w v
    using perServer_graphic [OF that] assms(2-4) ne reserved_global [OF res]
      strFields_two [of ?n w] by (simp add: ParseCommand_def)
  ultimately show ?thesis by blast
qed

theorem grammar_reaches_server_witness:
  "ParseCommand ''web'' = Inr (targeted VerbStatus ''web'')
   \<and> (\<forall>(w, v) \<in> set perServerVerbs. ParseCommand (''web'' @ '' '' @ w) = Inr (targeted v ''web''))"
  using grammar_reaches_server [of "zeroServer\<lparr>sName := ''web''\<rparr>" "[]" "[''web'']"]
  by (simp add: validateName_def reservedNames_def graphic_def)

lemma atoi_kill: "atoi ''kill'' = None" "atoi ''command'' = None"
  by code_simp+

text \<open>Servers named \<open>kill\<close> and \<open>command\<close> pass validation, and no line at all addresses them with \<open>up\<close>, \<open>down\<close>,
  \<open>build\<close>, \<open>view\<close>, \<open>bounce\<close> or their status: the parser takes the name for the verb.\<close>

theorem names_without_verbs:
  "\<forall>n \<in> {''kill'', ''command''}.
     validateName (zeroServer\<lparr>sName := n\<rparr>) [] = Inr [n]
   \<and> (\<forall>line c. ParseCommand line = Inr c \<longrightarrow> cTarget c = n \<longrightarrow> cVerb c = VerbLogs \<or> cVerb c = VerbCommand)"
proof (intro ballI conjI allI impI)
  fix n assume n: "n \<in> {''kill'', ''command''}"
  then show "validateName (zeroServer\<lparr>sName := n\<rparr>) [] = Inr [n]"
    by (auto simp: validateName_def reservedNames_def)
  fix line c assume c: "ParseCommand line = Inr c" "cTarget c = n"
  show "cVerb c = VerbLogs \<or> cVerb c = VerbCommand"
  proof (cases "strFields line")
    case Nil
    with c n show ?thesis by (auto simp: ParseCommand_def targeted_def)
  next
    case (Cons first rest)
    with c n show ?thesis
      by (auto simp: ParseCommand_def parseKill_def targeted_def atoi_kill split: list.splits if_splits option.splits)
  qed
qed

theorem names_without_verbs_witness:
  "\<not> (\<exists>line. ParseCommand line = Inr (targeted VerbUp ''kill''))"
  using names_without_verbs by (fastforce simp: targeted_def)

section \<open>Which interrupts end the session\<close>

lemma signal_loop_sound:
  assumes "signal_loop c ds = Some k" and "siCount c \<le> 2"
  shows "0 < k \<and> k \<le> length ds \<and> fst (ds ! (k - 1)) = SigInt
    \<and> (\<exists>t0. snd (ds ! (k - 1)) - t0 \<le> sigintWindow
        \<and> (siCount c = 2 \<and> t0 = siFirst c
           \<or> siCount c = 1 \<and> t0 = siFirst c \<and> (\<exists>j < k - 1. fst (ds ! j) = SigInt)
           \<or> (\<exists>i j. i < j \<and> j < k - 1 \<and> fst (ds ! i) = SigInt \<and> fst (ds ! j) = SigInt \<and> t0 = snd (ds ! i))))"
  using assms
proof (induction ds arbitrary: c k)
  case (Cons d ds)
  obtain s now where d: "d = (s, now)" by (cases d)
  obtain stop c1 where h: "handleSignal s now c = (stop, c1)" by (cases "handleSignal s now c")
  show ?case
  proof (cases stop)
    case True
    with Cons.prems d h have "k = 1" "s = SigInt" "siCount c = 2" "now - siFirst c \<le> sigintWindow"
      by (cases s; auto simp: handleSignal_def sigint_register_def split: if_splits)+
    with d show ?thesis by auto
  next
    case False
    with Cons.prems d h obtain k1 where k1: "signal_loop c1 ds = Some k1" "k = Suc k1" by auto
    have c1: "siCount c1 \<le> 2" using h Cons.prems(2) by (auto simp: handleSignal_def sigint_register_def split: if_splits)
    note ih = Cons.IH [OF k1(1) c1]
    then have pos: "0 < k1" and at: "(d # ds) ! (k - 1) = ds ! (k1 - 1)" by (simp_all add: k1(2) nth_Cons')
    from ih obtain t0 where t0: "snd (ds ! (k1 - 1)) - t0 \<le> sigintWindow" and
      which: "siCount c1 = 2 \<and> t0 = siFirst c1
           \<or> siCount c1 = 1 \<and> t0 = siFirst c1 \<and> (\<exists>j < k1 - 1. fst (ds ! j) = SigInt)
           \<or> (\<exists>i j. i < j \<and> j < k1 - 1 \<and> fst (ds ! i) = SigInt \<and> fst (ds ! j) = SigInt \<and> t0 = snd (ds ! i))" by blast
    have "siCount c = 2 \<and> t0 = siFirst c
        \<or> siCount c = 1 \<and> t0 = siFirst c \<and> (\<exists>j < k - 1. fst ((d # ds) ! j) = SigInt)
        \<or> (\<exists>i j. i < j \<and> j < k - 1 \<and> fst ((d # ds) ! i) = SigInt \<and> fst ((d # ds) ! j) = SigInt \<and> t0 = snd ((d # ds) ! i))"
      using which
    proof (elim disjE conjE exE)
      assume a: "siCount c1 = 2" "t0 = siFirst c1"
      with h False d pos show ?thesis
        by (cases s) (auto simp: handleSignal_def sigint_register_def k1(2) split: if_splits)
    next
      fix j assume a: "siCount c1 = 1" "t0 = siFirst c1" "j < k1 - 1" "fst (ds ! j) = SigInt"
      show ?thesis
      proof (cases "s = SigInt")
        case True
        with h False a have "c1 = \<lparr>siCount = 1, siFirst = now\<rparr>"
          by (auto simp: handleSignal_def sigint_register_def split: if_splits)
        with a d True show ?thesis
          by (intro disjI2 exI [of _ 0] exI [of _ "Suc j"]) (simp add: k1(2))
      next
        case False
        with h have "c1 = c" by (cases s) (auto simp: handleSignal_def)
        with a show ?thesis by (intro disjI2 disjI1 conjI exI [of _ "Suc j"]) (simp_all add: k1(2))
      qed
    next
      fix i j assume "i < j" "j < k1 - 1" "fst (ds ! i) = SigInt" "fst (ds ! j) = SigInt" "t0 = snd (ds ! i)"
      then show ?thesis by (intro disjI2 exI [of _ "Suc i"] exI [of _ "Suc j"]) (simp add: k1(2))
    qed
    with t0 at ih show ?thesis by (auto simp: k1(2))
  qed
qed simp

text \<open>The interrupt that shuts the supervisor down is the third of three interrupts of which the first came at most two
  seconds before it; no stop signal ever does, and nothing is needed of the deliveries before them.\<close>

theorem interrupt_exit_sound:
  assumes "runSignalLoop ds = Some k"
  shows "\<exists>i j. i < j \<and> j < k - 1 \<and> k \<le> length ds \<and> fst (ds ! i) = SigInt \<and> fst (ds ! j) = SigInt
    \<and> fst (ds ! (k - 1)) = SigInt \<and> snd (ds ! (k - 1)) - snd (ds ! i) \<le> sigintWindow"
  using signal_loop_sound [OF assms [unfolded runSignalLoop_def]] by auto

theorem interrupt_exit_sound_witness:
  "\<exists>i j. i < j \<and> j < 3 - 1 \<and> 3 \<le> length [(SigInt, 0), (SigInt, 1), (SigInt, 2 :: int)]
    \<and> fst ([(SigInt, 0), (SigInt, 1), (SigInt, 2 :: int)] ! i) = SigInt"
proof -
  have "runSignalLoop [(SigInt, 0), (SigInt, 1), (SigInt, 2 :: int)] = Some 3" by code_simp
  from interrupt_exit_sound [OF this] show ?thesis by blast
qed

text \<open>Three interrupts within 300 milliseconds can be ignored: the window is anchored at the first interrupt of a
  burst, so an earlier stray one that leaves the window in their midst splits them, although the hint that is printed
  promises that three within two seconds shut down.\<close>

theorem interrupt_burst_missed:
  "runSignalLoop [(SigInt, 0), (SigInt, 1900 * millisecond), (SigInt, 2100 * millisecond), (SigInt, 2200 * millisecond)] = None"
  by code_simp


end
