(* ===== verification/EngineInput.thy ===== *)
theory EngineInput
  imports Console
begin

text \<open>
  The one reader of the terminal that the prompt loop and the prompts of the servers share: no verb gives lines back,
  and only a verb that asks consumes any.  The configuration is not a verb's to change.
\<close>

section \<open>What a verb keeps of the engine\<close>

text \<open>The engine but for its registry, and the lines left to read.\<close>

definition keeps :: "engine \<Rightarrow> engine \<Rightarrow> bool" where
  "keeps e e' \<longleftrightarrow> promptIn e' = promptIn e \<and> eConfig e' = eConfig e"

definition inputLeft :: "engine \<Rightarrow> nat" where
  "inputLeft e = (case promptIn e of None \<Rightarrow> 0 | Some ls \<Rightarrow> length ls)"

definition uses :: "engine \<Rightarrow> engine \<Rightarrow> bool" where
  "uses e e' \<longleftrightarrow> inputLeft e' \<le> inputLeft e \<and> eConfig e' = eConfig e"

lemma keeps_refl [simp]: "keeps e e"
  by (simp add: keeps_def)

lemma keeps_trans [trans]: "keeps e e1 \<Longrightarrow> keeps e1 e2 \<Longrightarrow> keeps e e2"
  by (simp add: keeps_def)

lemma keeps_uses: "keeps e e' \<Longrightarrow> uses e e'"
  by (simp add: keeps_def uses_def inputLeft_def)

lemma uses_refl [simp]: "uses e e"
  by (simp add: uses_def)

lemma uses_trans [trans]: "uses e e1 \<Longrightarrow> uses e1 e2 \<Longrightarrow> uses e e2"
  by (simp add: uses_def)

lemma keeps_register [simp]: "keeps e (register n p e') \<longleftrightarrow> keeps e e'"
  by (simp add: keeps_def register_def)

lemma keeps_forget [simp]: "keeps e (forget n e') \<longleftrightarrow> keeps e e'"
  by (simp add: keeps_def forget_def)

lemma owned_same: "ownedPIDLocked os s st = (own, st') \<Longrightarrow> fst st' = fst st"
  using grows_owned by blast

lemma startServer_keeps: "startServer os s st = (r, st') \<Longrightarrow> keeps (fst st) (fst st')"
  by (auto simp: startServer_def Let_def split: prod.splits sum.splits)

lemma teardownPID_same: "teardownPID os s p st = (r, st') \<Longrightarrow> fst st' = fst st"
  by (auto simp: teardownPID_def Let_def split: prod.splits)

lemma teardownDetached_same: "teardownDetached os s st = (r, st') \<Longrightarrow> fst st' = fst st"
  by (auto simp: teardownDetached_def Let_def split: prod.splits if_splits)

lemma teardownOne_same: "teardownOne os s st = (r, st') \<Longrightarrow> fst st' = fst st"
  by (auto simp: teardownOne_def Let_def split: prod.splits option.splits if_splits
        dest!: owned_same teardownPID_same teardownDetached_same)

lemma killForeignOrOwned_keeps: "killForeignOrOwned os s p b st = (r, st') \<Longrightarrow> keeps (fst st) (fst st')"
  by (auto simp: killForeignOrOwned_def Let_def split: prod.splits if_splits dest!: teardownPID_same)

lemma observedRunning_same: "observedRunningPID os s st = (r, st') \<Longrightarrow> fst st' = fst st"
  by (auto simp: observedRunningPID_def Let_def split: prod.splits option.splits dest!: owned_same)

lemma downOne_keeps:
  assumes "downOne os n st = (r, st')"
  shows "keeps (fst st) (fst st')"
proof (cases "serverByName (fst st) n")
  case None
  with assms show ?thesis by (simp add: downOne_def)
next
  case (Some s)
  obtain own st1 where o1: "ownedPIDLocked os s st = (own, st1)" by (cases "ownedPIDLocked os s st")
  note e1 = owned_same [OF o1]
  show ?thesis
  proof (cases "own = None")
    case True
    show ?thesis
    proof (cases "Detached s")
      case True
      with assms Some o1 \<open>own = None\<close> e1 show ?thesis
        by (auto simp: downOne_def split: prod.splits dest!: teardownDetached_same)
    next
      case False
      obtain q st2 where q: "observedRunningPID os s (forget n (fst st1), snd st1) = (q, st2)"
        by (cases "observedRunningPID os s (forget n (fst st1), snd st1)")
      note e2 = observedRunning_same [OF q]
      from assms Some o1 \<open>own = None\<close> False q have "keeps (fst st2) (fst st')"
        by (auto simp: downOne_def split: option.splits prod.splits dest!: killForeignOrOwned_keeps)
      with e1 e2 show ?thesis by (simp add: keeps_def forget_def)
    qed
  next
    case False
    with assms Some o1 e1 show ?thesis
      by (auto simp: downOne_def split: prod.splits option.splits dest!: teardownOne_same)
  qed
qed

lemma downEach_keeps: "downEach os k ss st = (r, st') \<Longrightarrow> keeps (fst st) (fst st')"
proof (induction ss arbitrary: st r st')
  case (Cons s ss)
  obtain own st1 where o1: "ownedPIDLocked os s st = (own, st1)" by (cases "ownedPIDLocked os s st")
  note e1 = owned_same [OF o1]
  from Cons.prems o1 consider (down) o2 st2 rest where "downOne os (sName s) st1 = (o2, st2)" "downEach os k ss st2 = (rest, st')"
    | (kill) p b o2 st2 st3 rest where "observedRunningPID os s st1 = (Some (p, b), st2)"
        "killForeignOrOwned os s p b st2 = (o2, st3)" "downEach os k ss st3 = (rest, st')"
    | (quiet) q st2 rest where "observedRunningPID os s st1 = (q, st2)" "downEach os k ss st2 = (rest, st')"
    | (skip) rest where "downEach os k ss st1 = (rest, st')"
    by (auto split: prod.splits option.splits if_splits)
  then show ?case
  proof cases
    case down
    from keeps_trans [OF downOne_keeps [OF down(1)] Cons.IH [OF down(2)]] e1 show ?thesis by simp
  next
    case kill
    from keeps_trans [OF killForeignOrOwned_keeps [OF kill(2)] Cons.IH [OF kill(3)]] observedRunning_same [OF kill(1)] e1
    show ?thesis by simp
  next
    case quiet
    from Cons.IH [OF quiet(2)] observedRunning_same [OF quiet(1)] e1 show ?thesis by simp
  next
    case skip
    from Cons.IH [OF skip] e1 show ?thesis by simp
  qed
qed simp

lemma downOrDead_keeps: "downOrDead os n k st = (r, st') \<Longrightarrow> keeps (fst st) (fst st')"
  by (auto simp: downOrDead_def Let_def split: prod.splits if_splits dest!: downOne_keeps downEach_keeps)

text \<open>A rebuild keeps what its callbacks keep.\<close>

lemma PerformBuild_keeps:
  assumes "PerformBuild os s stop start st = (r, st')"
    and refl: "\<And>x. R x x" and trans: "\<And>x y z. R x y \<Longrightarrow> R y z \<Longrightarrow> R x z"
    and stop: "\<And>f x b y. stop = Some f \<Longrightarrow> f x = (b, y) \<Longrightarrow> R (fst x) (fst y)"
    and start: "\<And>f x b y. start = Some f \<Longrightarrow> f x = (b, y) \<Longrightarrow> R (fst x) (fst y)"
  shows "R (fst st) (fst st')"
proof -
  obtain q h1 where q: "ProbeStaleness os s (snd st) = (q, h1)" by (cases "ProbeStaleness os s (snd st)")
  show ?thesis
  proof (cases "\<exists>tmp. q = Inr (Stale tmp)")
    case False
    with assms(1) q refl show ?thesis by (auto simp: PerformBuild_def split: sum.splits stale_result.splits)
  next
    case True
    then obtain tmp where tmp: "q = Inr (Stale tmp)" by blast
    obtain b st2 where b: "(case stop of None \<Rightarrow> (True, fst st, h1) | Some f \<Rightarrow> f (fst st, h1)) = (b, st2)"
      by (metis prod.exhaust)
    have 1: "R (fst st) (fst st2)"
      using b stop [of _ "(fst st, h1)" b st2] refl by (cases stop) auto
    from assms(1) q tmp b have "fst st' = fst st2 \<or> (\<exists>f h3 c. start = Some f \<and> f (fst st2, h3) = (c, st'))"
      by (auto simp: PerformBuild_def Let_def split: prod.splits if_splits option.splits)
    with 1 start trans show ?thesis by fastforce
  qed
qed

lemma rebuildIfStale_keeps:
  assumes "rebuildIfStale os s stop st = (r, st')"
    and "\<And>f x b y. stop = Some f \<Longrightarrow> f x = (b, y) \<Longrightarrow> keeps (fst (fst x)) (fst (fst y))"
  shows "keeps (fst st) (fst st')"
proof -
  obtain q h1 where q: "ProbeStaleness os s (snd st) = (q, h1)" by (cases "ProbeStaleness os s (snd st)")
  show ?thesis
  proof (cases "\<exists>tmp. q = Inr (Stale tmp)")
    case False
    with assms(1) q show ?thesis by (auto simp: rebuildIfStale_def split: sum.splits stale_result.splits)
  next
    case True
    let ?b = "PerformBuild os s stop (Some (startCallback os s)) ((fst st, ''''), h1)"
    obtain b e2 lg h2 where b: "?b = (b, (e2, lg), h2)" by (metis prod.exhaust)
    have "keeps (fst (fst ((fst st, [] :: string), h1))) (fst (fst ((e2, lg), h2)))"
    proof (rule PerformBuild_keeps [where R = "\<lambda>x y. keeps (fst x) (fst y)", OF b])
      fix f x b y assume "Some (startCallback os s) = Some f" "f x = (b, y)"
      then show "keeps (fst (fst x)) (fst (fst y))"
        by (auto simp: startCallback_def split: prod.splits dest!: startServer_keeps)
    qed (auto intro: keeps_trans assms(2))
    with True assms(1) q b show ?thesis by (auto simp: rebuildIfStale_def)
  qed
qed

lemma rebuild_keeps:
  "rebuildIfStaleOwned os s st = (r, st') \<Longrightarrow> keeps (fst st) (fst st')"
  "rebuildIfStaleCold os s st = (r, st') \<Longrightarrow> keeps (fst st) (fst st')"
  by (auto simp: rebuildIfStaleOwned_def rebuildIfStaleCold_def stopCallback_def split: prod.splits
        dest!: teardownOne_same elim!: rebuildIfStale_keeps)

lemma upOne_keeps:
  assumes "upOne os s st = (r, st')"
  shows "keeps (fst st) (fst st')"
proof -
  obtain own st1 where o1: "ownedPIDLocked os s st = (own, st1)" by (cases "ownedPIDLocked os s st")
  have cold: "keeps (fst x) (fst y)" if "coldStart os s x = (q, y)" for x q y
    using that by (auto simp: coldStart_def split: prod.splits dest!: startServer_keeps)
  show ?thesis
  proof (cases "own = None")
    case False
    with assms o1 owned_same [OF o1] show ?thesis
      by (auto simp: upOne_def split: prod.splits option.splits if_splits dest!: rebuild_keeps(1))
  next
    case True
    obtain c h2 where c: "checkPortConflict os s (DeclaredPorts s) own (snd st1) = (c, h2)"
      by (cases "checkPortConflict os s (DeclaredPorts s) own (snd st1)")
    obtain q st3 where q: "rebuildIfStaleCold os s (fst st1, h2) = (q, st3)" by (cases "rebuildIfStaleCold os s (fst st1, h2)")
    from rebuild_keeps(2) [OF q] owned_same [OF o1] have k3: "keeps (fst st) (fst st3)" by simp
    from assms o1 True c q consider "st' = (fst st1, h2)" | "st' = st3" | x where "coldStart os s st3 = (x, st')"
      | x where "coldStart os s (fst st1, h2) = (x, st')"
      by (auto simp: upOne_def split: option.splits if_splits)
    then show ?thesis
      using k3 owned_same [OF o1] by cases (auto dest!: cold intro: keeps_trans)
  qed
qed

lemma upEach_keeps: "upEach os ss st = (r, st') \<Longrightarrow> keeps (fst st) (fst st')"
proof (induction ss arbitrary: st r)
  case (Cons s ss)
  then show ?case by (fastforce split: prod.splits dest!: upOne_keeps intro: keeps_trans)
qed simp

section \<open>Prompts only consume\<close>

lemma askYesNo_left: "length (snd (askYesNo ls)) \<le> length ls"
  by (induction ls rule: askYesNo.induct) (auto simp: Let_def)

lemma askEach_left: "askEach ss ls = (r, l') \<Longrightarrow> length l' \<le> length ls"
proof (induction ss arbitrary: ls r l')
  case (Cons s ss)
  show ?case
  proof (cases "Prompt s")
    case None
    with Cons show ?thesis by (auto split: prod.splits)
  next
    case (Some p)
    obtain a l1 where a: "askYesNo ls = (a, l1)" by (cases "askYesNo ls")
    then have "length l1 \<le> length ls" using askYesNo_left [of ls] by simp
    with Cons Some a show ?thesis by (fastforce split: prod.splits option.splits)
  qed
qed simp

lemma askPrompts_uses: "askPrompts ts e = (r, e') \<Longrightarrow> uses e e'"
  by (auto simp: askPrompts_def uses_def inputLeft_def split: if_splits option.splits prod.splits dest!: askEach_left)

lemma Up_uses:
  assumes "Up os n st = (r, st')"
  shows "uses (fst st) (fst st')"
proof -
  from assms consider "fst st' = fst st"
    | ts q e1 where "askPrompts ts (fst st) = (q, e1)" "fst st' = e1"
    | ts rs outs e1 where "askPrompts ts (fst st) = (Inr rs, e1)" "upEach os rs (e1, snd st) = (outs, st')"
    by (auto simp: Up_def Let_def split: sum.splits if_splits prod.splits)
  then show ?thesis
  proof cases
    case 3
    from uses_trans [OF askPrompts_uses [OF 3(1)]] keeps_uses [OF upEach_keeps [OF 3(2)]] show ?thesis by simp
  qed (auto dest: askPrompts_uses)
qed

lemma Down_uses: "Down os n st = (r, st') \<Longrightarrow> uses (fst st) (fst st')"
  by (simp add: Down_def keeps_uses downOrDead_keeps)

lemma Dead_uses: "Dead os n st = (r, st') \<Longrightarrow> uses (fst st) (fst st')"
  by (simp add: Dead_def keeps_uses downOrDead_keeps)

lemma Bounce_uses: "Bounce os n st = (r, st') \<Longrightarrow> uses (fst st) (fst st')"
  by (auto simp: Bounce_def split: if_splits prod.splits option.splits dest!: Down_uses Up_uses intro: uses_trans)

lemma buildStop_uses: "buildStop os s p st = (b, st') \<Longrightarrow> uses (fst st) (fst st')"
  by (auto simp: buildStop_def split: prod.splits dest!: teardownPID_same intro: keeps_uses)

lemma buildStart_uses:
  assumes "buildStart os s st = (b, st')"
  shows "uses (fst st) (fst st')"
proof -
  obtain q e1 where q: "askPrompts [s] (fst st) = (q, e1)" by (cases "askPrompts [s] (fst st)")
  from assms q have "keeps e1 (fst st')"
    by (auto simp: buildStart_def Let_def split: sum.splits prod.splits)
  from uses_trans [OF askPrompts_uses [OF q] keeps_uses [OF this]] show ?thesis .
qed

lemma Build_uses:
  assumes "Build os n st = (r, st')"
  shows "uses (fst st) (fst st')"
proof -
  have pb: "uses (fst x) (fst y)" if "PerformBuild os s stop start x = (q, y)"
    and "stop \<in> {None} \<union> range (\<lambda>p. Some (buildStop os s p))" and "start \<in> {None, Some (buildStart os s)}" for s stop start x q y
    using that(1)
    by (rule PerformBuild_keeps [where R = uses])
       (use that(2,3) in \<open>auto dest: buildStop_uses buildStart_uses intro: uses_trans\<close>)
  from assms consider "fst st' = fst st"
    | s own st1 q where "ownedPIDLocked os s st = (own, st1)"
        "(case own of None \<Rightarrow> PerformBuild os s None None st1
          | Some p \<Rightarrow> PerformBuild os s (Some (buildStop os s p)) (Some (buildStart os s)) st1) = (q, st')"
    by (auto simp: Build_def split: option.splits if_splits prod.splits)
  then show ?thesis
  proof cases
    case 2
    then show ?thesis using owned_same [OF 2(1)] by (cases own) (auto dest!: pb)
  qed simp
qed

lemma Status_same: "Status os st = (r, st') \<Longrightarrow> fst st' = fst st"
proof -
  have one: "fst st' = fst st" if "statusForLocked os s st = (r, st')" for s st r st'
    using that by (auto simp: statusForLocked_def Let_def split: prod.splits dest!: owned_same)
  have "statusAll os ss st = (r, st') \<Longrightarrow> fst st' = fst st" for ss st r st'
    by (induction ss arbitrary: st r) (auto split: prod.splits dest!: one)
  then show "Status os st = (r, st') \<Longrightarrow> fst st' = fst st" by (simp add: Status_def)
qed

lemma TeardownAll_keeps: "keeps (fst st) (fst (snd (TeardownAll os st)))"
proof -
  have "keeps e (foldl (\<lambda>e n. forget n e) e' ns) \<longleftrightarrow> keeps e e'" for e e' ns
    by (induction ns arbitrary: e') simp_all
  then show ?thesis by (simp add: TeardownAll_def Let_def split: prod.splits)
qed

lemmas verb_uses = Up_uses Down_uses Dead_uses Bounce_uses Build_uses

end
