(* ===== verification/Repl.thy ===== *)
theory Repl
  imports EngineInput
begin

text \<open>
  The session of the supervisor (\<open>cmd/aa-server-status/repl.go\<close>, \<open>reload.go\<close>, \<open>auto.go\<close>, \<open>lock.go\<close> and the verbs
  \<open>kill\<close>, \<open>command\<close>, \<open>logs\<close> and \<open>view\<close> of \<open>engine.go\<close>): the reload of an edited configuration, the dispatch of a
  command, the read loop with its teardown, and the two automatic modes.

  The terminal is the engine's own reader, as \<open>main\<close> sets it up: a line is a string with its newline, which the last may
  lack.  What is printed is a list of replies.  Files are parameters, given by their answers.
\<close>

section \<open>State\<close>

record ('e, 'w) files =
  fsStamp :: "string \<Rightarrow> 'w \<Rightarrow> int option \<times> 'w"
  fsRead :: "string \<Rightarrow> 'w \<Rightarrow> ('e + bytes) \<times> 'w"
  fsDecode :: "'e decoder"
  fsGlob :: "string \<Rightarrow> string \<Rightarrow> 'w \<Rightarrow> (string \<times> int option) list option \<times> 'w"
  fsLog :: "string \<Rightarrow> 'w \<Rightarrow> ('e + (nat \<times> (nat \<Rightarrow> nat \<Rightarrow> 'e + string))) \<times> 'w"
  fsKill :: "int \<Rightarrow> 'w \<Rightarrow> bool \<times> 'w"

text \<open>A stamp is the modification time of a file that exists.\<close>

record configReloader =
  crPath :: string
  crStamp :: "int option"
  reloads :: nat

datatype 'e view_error = ViewUnknown string | ViewGlob string | ViewNoLog string | ViewRead 'e

datatype 'e reply =
    Rows "string list"
  | NoSuchRow string
  | Refused parse_error
  | Announce Verb string
  | Done Verb string
  | Failed Verb string verb_error
  | Printed "string list"
  | CommandLine string "string list"
  | CommandFailed string
  | LogsNotImplemented string
  | BadKill string
  | Killed string
  | KillRefused string
  | ViewFailed "'e view_error"
  | Help
  | Unhandled ReplCommand
  | ReloadFailed "'e load_error"
  | DownFailed string verb_error
  | TornDown "string list"

record ('e, 'w) repl =
  rOut :: "'e reply list"
  rReloader :: "configReloader option"
  rEngine :: engine
  rHost :: "'w host"

definition say :: "'e reply \<Rightarrow> ('e, 'w) repl \<Rightarrow> ('e, 'w) repl" where
  "say x r = r\<lparr>rOut := rOut r @ [x]\<rparr>"

definition onEngine :: "('w est \<Rightarrow> 'a \<times> 'w est) \<Rightarrow> ('e, 'w) repl \<Rightarrow> 'a \<times> ('e, 'w) repl" where
  "onEngine f r = (let (a, e, h) = f (rEngine r, rHost r) in (a, r\<lparr>rEngine := e, rHost := h\<rparr>))"

definition onFiles :: "('w \<Rightarrow> 'a \<times> 'w) \<Rightarrow> ('e, 'w) repl \<Rightarrow> 'a \<times> ('e, 'w) repl" where
  "onFiles f r = (let (a, h) = ask f (\<lambda>_. []) (rHost r) in (a, r\<lparr>rHost := h\<rparr>))"

section \<open>Reload\<close>

definition stampOf :: "('e, 'w) files \<Rightarrow> string \<Rightarrow> ('e, 'w) repl \<Rightarrow> int option \<times> ('e, 'w) repl" where
  "stampOf fs path r = onFiles (fsStamp fs path) r"

definition changed :: "('e, 'w) files \<Rightarrow> configReloader \<Rightarrow> ('e, 'w) repl \<Rightarrow> (bool \<times> configReloader) \<times> ('e, 'w) repl" where
  "changed fs c r =
     (let (stamp, r1) = stampOf fs (crPath c) r in
      if stamp = crStamp c then ((False, c), r1) else ((True, c\<lparr>crStamp := stamp\<rparr>), r1))"

definition loadFile :: "('e, 'w) files \<Rightarrow> string \<Rightarrow> ('e, 'w) repl \<Rightarrow> ('e load_error + Config) \<times> ('e, 'w) repl" where
  "loadFile fs path r =
     (let (data, r1) = onFiles (fsRead fs path) r in (Load (\<lambda>_. data) (fsDecode fs) path, r1))"

definition ReplaceConfig :: "Config \<Rightarrow> engine \<Rightarrow> engine" where
  "ReplaceConfig cfg e = e\<lparr>eConfig := cfg\<rparr>"

definition maybeReload :: "('e, 'w) files \<Rightarrow> configReloader \<Rightarrow> ('e, 'w) repl \<Rightarrow> ('e, 'w) repl" where
  "maybeReload fs c r =
     (let ((ch, c1), r1) = changed fs c r in
      if \<not> ch then r1
      else let r2 = r1\<lparr>rReloader := Some (c1\<lparr>reloads := reloads c1 + 1\<rparr>)\<rparr>; (l, r3) = loadFile fs (crPath c1) r2 in
        case l of
          Inl e \<Rightarrow> say (ReloadFailed e) r3
        | Inr cfg \<Rightarrow> r3\<lparr>rEngine := ReplaceConfig cfg (rEngine r3)\<rparr>)"

definition WatchConfig :: "('e, 'w) files \<Rightarrow> string \<Rightarrow> ('e, 'w) repl \<Rightarrow> ('e, 'w) repl" where
  "WatchConfig fs path r =
     (let (stamp, r1) = stampOf fs path r in r1\<lparr>rReloader := Some \<lparr>crPath = path, crStamp = stamp, reloads = 0\<rparr>\<rparr>)"

definition ReloadConfigIfChanged :: "('e, 'w) files \<Rightarrow> ('e, 'w) repl \<Rightarrow> ('e, 'w) repl" where
  "ReloadConfigIfChanged fs r = (case rReloader r of None \<Rightarrow> r | Some c \<Rightarrow> maybeReload fs c r)"

section \<open>Verbs\<close>

definition teardown :: "'w os \<Rightarrow> ('e, 'w) repl \<Rightarrow> ('e, 'w) repl" where
  "teardown os r = (let (names, r1) = onEngine (TeardownAll os) r in say (TornDown names) r1)"

definition actionHandler ::
    "Verb \<Rightarrow> (string \<Rightarrow> 'w est \<Rightarrow> verb_error option \<times> 'w est) \<Rightarrow> ReplCommand \<Rightarrow> ('e, 'w) repl \<Rightarrow> ('e, 'w) repl" where
  "actionHandler v call cmd r =
     (let (err, r1) = onEngine (call (cTarget cmd)) (say (Announce v (cTarget cmd)) r) in
      case err of Some e \<Rightarrow> say (Failed v (cTarget cmd) e) r1 | None \<Rightarrow> say (Done v (cTarget cmd)) r1)"

definition printSingleStatus :: "ServerStatus list \<Rightarrow> string \<Rightarrow> 'e reply" where
  "printSingleStatus ss name =
     (case find (\<lambda>s. stName s = name) ss of
        Some s \<Rightarrow> Rows (printTable [formatRow s])
      | None \<Rightarrow> NoSuchRow name)"

definition handleStatus :: "'w os \<Rightarrow> ReplCommand \<Rightarrow> ('e, 'w) repl \<Rightarrow> ('e, 'w) repl" where
  "handleStatus os cmd r =
     (let (ss, r1) = onEngine (Status os) r in
      say (if cTarget cmd = '''' then Rows (printStatus ss) else printSingleStatus ss (cTarget cmd)) r1)"

definition handleLogs :: "ReplCommand \<Rightarrow> ('e, 'w) repl \<Rightarrow> ('e, 'w) repl" where
  "handleLogs cmd r = say (LogsNotImplemented (cTarget cmd)) r"

definition engine_Kill :: "('e, 'w) files \<Rightarrow> int \<Rightarrow> ('e, 'w) repl \<Rightarrow> bool \<times> ('e, 'w) repl" where
  "engine_Kill fs p r =
     (let (ok, h) = ask (fsKill fs p) (\<lambda>b. [EvKill p b]) (rHost r) in (ok, r\<lparr>rHost := h\<rparr>))"

definition handleKill :: "('e, 'w) files \<Rightarrow> ReplCommand \<Rightarrow> ('e, 'w) repl \<Rightarrow> ('e, 'w) repl" where
  "handleKill fs cmd r =
     (case atoi (cTarget cmd) of
        None \<Rightarrow> say (BadKill (cTarget cmd)) r
      | Some p \<Rightarrow>
          if p \<le> 0 then say (BadKill (cTarget cmd)) r
          else let (ok, r1) = engine_Kill fs p r in
            if ok then say (Killed (cTarget cmd)) r1 else say (KillRefused (cTarget cmd)) r1)"

definition engine_Command :: "'w os \<Rightarrow> string \<Rightarrow> engine \<Rightarrow> (string \<times> string list) option" where
  "engine_Command os name e =
     (case serverByName e name of
        None \<Rightarrow> None
      | Some s \<Rightarrow> ResolveCommand (osHome os) (\<lambda>p. osStat os p = Some IsDir) s)"

definition handleCommand :: "'w os \<Rightarrow> ReplCommand \<Rightarrow> ('e, 'w) repl \<Rightarrow> ('e, 'w) repl" where
  "handleCommand os cmd r =
     (case engine_Command os (cTarget cmd) (rEngine r) of
        None \<Rightarrow> say (CommandFailed (cTarget cmd)) r
      | Some (c, args) \<Rightarrow> say (CommandLine c args) r)"

definition readLastLines ::
    "('e, 'w) files \<Rightarrow> string \<Rightarrow> nat \<Rightarrow> bool \<Rightarrow> ('e, 'w) repl \<Rightarrow> ('e + string list) \<times> ('e, 'w) repl" where
  "readLastLines fs path n nowrap r =
     (let (f, r1) = onFiles (fsLog fs path) r in
      (case f of Inl e \<Rightarrow> Inl e | Inr (sz, readAt) \<Rightarrow> tailLines readAt sz n nowrap, r1))"

definition engine_View ::
    "('e, 'w) files \<Rightarrow> string \<Rightarrow> bool \<Rightarrow> ('e, 'w) repl \<Rightarrow> ('e view_error + string list) \<times> ('e, 'w) repl" where
  "engine_View fs name nowrap r =
     (if serverByName (rEngine r) name = None then (Inl (ViewUnknown name), r)
      else let (g, r1) = onFiles (fsGlob fs (LogDir (cfgSupervisor (eConfig (rEngine r)))) name) r in
        case g of
          None \<Rightarrow> (Inl (ViewGlob name), r1)
        | Some ms \<Rightarrow>
            (case NewestLog name ms of
               None \<Rightarrow> (Inl (ViewNoLog name), r1)
             | Some path \<Rightarrow>
                 (let (l, r2) = readLastLines fs path viewTailLines nowrap r1 in
                  (case l of Inl e \<Rightarrow> Inl (ViewRead e) | Inr ls \<Rightarrow> Inr ls, r2))))"

definition handleView :: "('e, 'w) files \<Rightarrow> ReplCommand \<Rightarrow> ('e, 'w) repl \<Rightarrow> ('e, 'w) repl" where
  "handleView fs cmd r =
     (let (l, r1) = engine_View fs (cTarget cmd) (cModifier cmd = ''nowrap'') r in
      case l of Inl e \<Rightarrow> say (ViewFailed e) r1 | Inr ls \<Rightarrow> say (Printed ls) r1)"

definition dispatchVerb :: "'w os \<Rightarrow> ('e, 'w) files \<Rightarrow> ReplCommand \<Rightarrow> ('e, 'w) repl \<Rightarrow> ('e, 'w) repl" where
  "dispatchVerb os fs cmd r =
     (case cVerb cmd of
        VerbUp \<Rightarrow> actionHandler VerbUp (Up os) cmd r
      | VerbDown \<Rightarrow> actionHandler VerbDown (Down os) cmd r
      | VerbDead \<Rightarrow> actionHandler VerbDead (Dead os) cmd r
      | VerbBuild \<Rightarrow> actionHandler VerbBuild (Build os) cmd r
      | VerbBounce \<Rightarrow> actionHandler VerbBounce (Bounce os) cmd r
      | VerbStatus \<Rightarrow> handleStatus os cmd r
      | VerbLogs \<Rightarrow> handleLogs cmd r
      | VerbKill \<Rightarrow> handleKill fs cmd r
      | VerbCommand \<Rightarrow> handleCommand os cmd r
      | VerbView \<Rightarrow> handleView fs cmd r
      | VerbHelp \<Rightarrow> say Help r
      | _ \<Rightarrow> say (Unhandled cmd) r)"

section \<open>The session only consumes its input\<close>

abbreviation replUses :: "('e, 'w) repl \<Rightarrow> ('e, 'w) repl \<Rightarrow> bool" where
  "replUses r r' \<equiv> uses (rEngine r) (rEngine r')"

lemma say_engine [simp]: "rEngine (say x r) = rEngine r" "rHost (say x r) = rHost r" "rReloader (say x r) = rReloader r"
  "rOut (say x r) = rOut r @ [x]"
  by (simp_all add: say_def)

lemma onFiles_engine: "onFiles f r = (a, r') \<Longrightarrow> rEngine r' = rEngine r \<and> rOut r' = rOut r \<and> rReloader r' = rReloader r"
  by (auto simp: onFiles_def Let_def split: prod.splits)

lemma onEngine_uses:
  assumes "onEngine f r = (a, r')" and "\<And>st a st'. f st = (a, st') \<Longrightarrow> uses (fst st) (fst st')"
  shows "replUses r r' \<and> rOut r' = rOut r \<and> rReloader r' = rReloader r"
  using assms(1) assms(2) [of "(rEngine r, rHost r)"] by (auto simp: onEngine_def Let_def split: prod.splits)

lemma actionHandler_uses:
  assumes "\<And>st a st'. call (cTarget cmd) st = (a, st') \<Longrightarrow> uses (fst st) (fst st')"
  shows "replUses r (actionHandler v call cmd r)"
  using onEngine_uses [OF _ assms]
  by (fastforce simp: actionHandler_def Let_def split: prod.splits option.splits)

lemma handleStatus_uses: "replUses r (handleStatus os cmd r)"
proof -
  obtain ss r1 where o1: "onEngine (Status os) r = (ss, r1)" by (cases "onEngine (Status os) r")
  have "replUses r r1 \<and> rOut r1 = rOut r \<and> rReloader r1 = rReloader r"
    by (rule onEngine_uses [OF o1]) (auto dest: Status_same)
  then show ?thesis by (simp add: handleStatus_def o1)
qed

lemma handleView_same: "rEngine (handleView fs cmd r) = rEngine r"
  by (auto simp: handleView_def engine_View_def readLastLines_def Let_def split: prod.splits option.splits sum.splits
        dest!: onFiles_engine)

lemma dispatch_uses: "replUses r (dispatchVerb os fs cmd r)"
  by (cases "cVerb cmd")
     (auto simp: dispatchVerb_def handleLogs_def handleKill_def engine_Kill_def handleCommand_def handleView_same Let_def
        intro: handleStatus_uses actionHandler_uses verb_uses split: option.splits prod.splits)

lemma reload_left: "inputLeft (rEngine (ReloadConfigIfChanged fs r)) = inputLeft (rEngine r)"
  by (auto simp: ReloadConfigIfChanged_def maybeReload_def changed_def stampOf_def loadFile_def ReplaceConfig_def
        inputLeft_def Let_def split: option.splits prod.splits sum.splits if_splits dest!: onFiles_engine)

section \<open>The read loop\<close>

definition newline :: string where "newline = [CHR 0x0A]"

definition readLine :: "('e, 'w) repl \<Rightarrow> (string \<times> ('e, 'w) repl) option" where
  "readLine r =
     (case promptIn (rEngine r) of
        Some (l # ls) \<Rightarrow> Some (l, r\<lparr>rEngine := (rEngine r)\<lparr>promptIn := Some ls\<rparr>\<rparr>)
      | _ \<Rightarrow> None)"

lemma readLine_left: "readLine r = Some (l, r') \<Longrightarrow> inputLeft (rEngine r') < inputLeft (rEngine r)"
  by (auto simp: readLine_def inputLeft_def split: option.splits list.splits)

definition runCommandLine :: "'w os \<Rightarrow> ('e, 'w) files \<Rightarrow> ReplCommand \<Rightarrow> ('e, 'w) repl \<Rightarrow> ('e, 'w) repl" where
  "runCommandLine os fs cmd r = dispatchVerb os fs cmd (ReloadConfigIfChanged fs r)"

lemma runCommandLine_left: "inputLeft (rEngine (runCommandLine os fs cmd r)) \<le> inputLeft (rEngine r)"
  using dispatch_uses [of "ReloadConfigIfChanged fs r" os fs cmd] reload_left [of fs r]
  by (simp add: runCommandLine_def uses_def)

text \<open>One line: whether it ends the session, and the session after it.\<close>

definition runLine :: "'w os \<Rightarrow> ('e, 'w) files \<Rightarrow> string \<Rightarrow> ('e, 'w) repl \<Rightarrow> bool \<times> ('e, 'w) repl" where
  "runLine os fs line r =
     (case ParseCommand (trimRight [CHR 0x0D, CHR 0x0A] line) of
        Inl e \<Rightarrow> (False, say (Refused e) r)
      | Inr cmd \<Rightarrow> if isExitVerb (cVerb cmd) then (True, r) else (False, runCommandLine os fs cmd r))"

lemma runLine_left: "runLine os fs line r = (q, r') \<Longrightarrow> inputLeft (rEngine r') \<le> inputLeft (rEngine r)"
  by (auto simp: runLine_def runCommandLine_left split: sum.splits if_splits)

text \<open>
  The loop of \<open>Run\<close>.  \<open>ioErr\<close> tells whether the input ends with an error other than the end of file, which the loop then
  returns.
\<close>

function runLoop :: "'w os \<Rightarrow> ('e, 'w) files \<Rightarrow> bool \<Rightarrow> ('e, 'w) repl \<Rightarrow> bool \<times> ('e, 'w) repl" where
  "runLoop os fs ioErr r =
     (case readLine r of
        None \<Rightarrow> (ioErr, teardown os r)
      | Some (line, r1) \<Rightarrow>
          let (quit, r2) = runLine os fs line r1 in
          if quit then (False, teardown os r2)
          else if \<not> has_suffix newline line then (ioErr, teardown os r2)
          else runLoop os fs ioErr r2)"
  by pat_completeness auto
termination
  by (relation "measure (\<lambda>(os, fs, ioErr, r). inputLeft (rEngine r))")
     (auto dest!: readLine_left runLine_left [OF sym])

declare runLoop.simps [simp del]

definition Run :: "'w os \<Rightarrow> ('e, 'w) files \<Rightarrow> bool \<Rightarrow> ('e, 'w) repl \<Rightarrow> bool \<times> ('e, 'w) repl" where
  "Run os fs ioErr r =
     runLoop os fs ioErr (handleStatus os (targeted VerbStatus '''') (ReloadConfigIfChanged fs r))"

section \<open>The automatic modes\<close>

fun downAll :: "'w os \<Rightarrow> ServerStatus list \<Rightarrow> ('e, 'w) repl \<Rightarrow> verb_error option \<times> ('e, 'w) repl" where
  "downAll os [] r = (None, r)"
| "downAll os (s # ss) r =
     (if \<not> stEnabled s then downAll os ss r
      else let (err, r1) = onEngine (Down os (stName s)) r in
        case err of
          None \<Rightarrow> downAll os ss r1
        | Some e \<Rightarrow> (let (_, r2) = downAll os ss (say (DownFailed (stName s) e) r1) in (Some e, r2)))"

definition coldDown :: "'w os \<Rightarrow> ('e, 'w) repl \<Rightarrow> verb_error option \<times> ('e, 'w) repl" where
  "coldDown os r = (let (ss, r1) = onEngine (Status os) r in downAll os ss r1)"

text \<open>\<open>RunAuto\<close> with mode up; the stop signal comes some time after the table.\<close>

definition autoUp :: "'w os \<Rightarrow> ('e, 'w) files \<Rightarrow> ('e, 'w) repl \<Rightarrow> verb_error option \<times> ('e, 'w) repl" where
  "autoUp os fs r =
     (let (err, r1) = onEngine (Up os '''') (ReloadConfigIfChanged fs r) in
      case err of
        Some e \<Rightarrow> (Some e, r1)
      | None \<Rightarrow> (None, teardown os (handleStatus os (targeted VerbStatus '''') r1)))"

end
