(* ===== verification/ReplProps.thy ===== *)
theory ReplProps
  imports Repl
begin

text \<open>What a session of the supervisor promises, and two ways in which it loses a server.\<close>

section \<open>A session tears down once, at its end\<close>

fun isTornDown :: "'e reply \<Rightarrow> bool" where
  "isTornDown (TornDown _) = True"
| "isTornDown _ = False"

text \<open>The replies between two states of a session, none of which reports a teardown.\<close>

definition talks :: "('e, 'w) repl \<Rightarrow> ('e, 'w) repl \<Rightarrow> bool" where
  "talks r r' \<longleftrightarrow> (\<exists>out. rOut r' = rOut r @ out \<and> list_all (\<lambda>x. \<not> isTornDown x) out)"

lemma talks_refl [simp]: "talks r r"
  by (simp add: talks_def)

lemma talks_trans: "talks r r1 \<Longrightarrow> talks r1 r2 \<Longrightarrow> talks r r2"
  by (auto simp: talks_def)

lemma talks_say: "\<not> isTornDown x \<Longrightarrow> talks r r1 \<Longrightarrow> talks r (say x r1)"
  by (auto simp: talks_def)

lemma talks_same: "rOut r1 = rOut r \<Longrightarrow> talks r r1"
  by (simp add: talks_def)

lemma onEngine_talks: "onEngine f r = (a, r') \<Longrightarrow> rOut r' = rOut r"
  by (auto simp: onEngine_def Let_def split: prod.splits)

lemma actionHandler_talks: "talks r (actionHandler v call cmd r)"
proof -
  let ?r0 = "say (Announce v (cTarget cmd)) r"
  obtain e r1 where o1: "onEngine (call (cTarget cmd)) ?r0 = (e, r1)" by (cases "onEngine (call (cTarget cmd)) ?r0")
  have "talks r ?r0" by (rule talks_say) simp_all
  with talks_same [OF onEngine_talks [OF o1]] have "talks r r1" by (rule talks_trans [rotated])
  with o1 show ?thesis by (auto simp: actionHandler_def intro: talks_say split: option.splits)
qed

lemma handleStatus_talks: "talks r (handleStatus os cmd r)"
proof -
  obtain ss r1 where o1: "onEngine (Status os) r = (ss, r1)" by (cases "onEngine (Status os) r")
  from talks_same [OF onEngine_talks [OF o1]] show ?thesis
    by (auto simp: handleStatus_def o1 printSingleStatus_def intro!: talks_say split: option.splits)
qed

lemma handleView_talks: "talks r (handleView fs cmd r)"
  by (auto simp: handleView_def engine_View_def readLastLines_def talks_def Let_def
        split: prod.splits option.splits sum.splits dest!: onFiles_engine)

lemma handleKill_talks: "talks r (handleKill fs cmd r)"
  by (auto simp: handleKill_def engine_Kill_def talks_def Let_def split: prod.splits option.splits)

lemma dispatch_talks: "talks r (dispatchVerb os fs cmd r)"
  by (cases "cVerb cmd")
     (auto simp: dispatchVerb_def handleLogs_def handleCommand_def
        intro: actionHandler_talks handleStatus_talks handleView_talks handleKill_talks intro!: talks_say split: option.splits)

lemma reload_talks: "talks r (ReloadConfigIfChanged fs r)"
  by (auto simp: ReloadConfigIfChanged_def maybeReload_def changed_def stampOf_def loadFile_def talks_def Let_def
        split: option.splits prod.splits sum.splits if_splits dest!: onFiles_engine)

lemma runLine_talks: "runLine os fs line r = (q, r') \<Longrightarrow> talks r r'"
  by (auto simp: runLine_def runCommandLine_def split: sum.splits if_splits
        intro: talks_say talks_trans [OF reload_talks dispatch_talks])

lemma readLine_talks: "readLine r = Some (l, r') \<Longrightarrow> talks r r'"
  by (auto simp: readLine_def split: option.splits list.splits intro!: talks_same)

text \<open>The end of a session: an empty registry and the one report.\<close>

definition tornDown :: "('e, 'w) repl \<Rightarrow> ('e, 'w) repl \<Rightarrow> bool" where
  "tornDown r r' \<longleftrightarrow> procs (rEngine r') = []
     \<and> (\<exists>out names. rOut r' = rOut r @ out @ [TornDown names] \<and> list_all (\<lambda>x. \<not> isTornDown x) out)"

lemma teardown_tornDown: "tornDown r (teardown os r)"
proof -
  have "procs (fst (snd (TeardownAll os (rEngine r, rHost r)))) = []"
  proof -
    have "fst ` set (procs e) \<subseteq> set (map fst (map (\<lambda>(n, p). (n, prPid p)) (procs e)))" for e by force
    from procs_forget_all [OF this] show ?thesis by (simp add: TeardownAll_def Let_def split: prod.splits)
  qed
  then show ?thesis by (auto simp: tornDown_def teardown_def onEngine_def Let_def split: prod.splits)
qed

lemma talks_tornDown: "talks r r1 \<Longrightarrow> tornDown r1 r' \<Longrightarrow> tornDown r r'"
proof -
  assume "talks r r1" "tornDown r1 r'"
  then obtain o1 o2 ns where "rOut r1 = rOut r @ o1" "list_all (\<lambda>x. \<not> isTornDown x) (o1 @ o2)"
    "rOut r' = rOut r @ (o1 @ o2) @ [TornDown ns]" "procs (rEngine r') = []"
    by (auto simp: talks_def tornDown_def)
  then show ?thesis unfolding tornDown_def by blast
qed

lemma runLoop_tornDown: "tornDown r (snd (runLoop os fs ioErr r))"
proof (induction os fs ioErr r rule: runLoop.induct)
  case (1 os fs ioErr r)
  show ?case
  proof (cases "readLine r")
    case None
    then show ?thesis by (simp add: runLoop.simps [of os fs ioErr r] teardown_tornDown)
  next
    case (Some p)
    obtain line r1 where p: "p = (line, r1)" by (cases p)
    obtain q r2 where q: "runLine os fs line r1 = (q, r2)" by (cases "runLine os fs line r1")
    have t: "talks r r2" using talks_trans [OF readLine_talks runLine_talks [OF q]] Some p by blast
    show ?thesis
    proof (cases "q \<or> \<not> has_suffix newline line")
      case True
      then have "snd (runLoop os fs ioErr r) = teardown os r2"
        using Some p q by (auto simp: runLoop.simps [of os fs ioErr r])
      with talks_tornDown [OF t teardown_tornDown] show ?thesis by simp
    next
      case False
      then have "runLoop os fs ioErr r = runLoop os fs ioErr r2"
        using Some p q by (simp add: runLoop.simps [of os fs ioErr r])
      with talks_tornDown [OF t "1.IH" [OF Some p [symmetric] q [symmetric] refl]] False show ?thesis by simp
    qed
  qed
qed

text \<open>C25: whatever the operator types, however the input ends and whatever the machine answers, a session ends; it tears
  down the servers once, as its last act, and its registry is empty then.\<close>

theorem session_tears_down_once:
  "\<exists>out names. rOut (snd (Run os fs ioErr r)) = rOut r @ out @ [TornDown names]
     \<and> list_all (\<lambda>x. \<not> isTornDown x) out \<and> procs (rEngine (snd (Run os fs ioErr r))) = []"
proof -
  let ?r1 = "handleStatus os (targeted VerbStatus '''') (ReloadConfigIfChanged fs r)"
  have "talks r ?r1" by (rule talks_trans [OF reload_talks handleStatus_talks])
  from talks_tornDown [OF this runLoop_tornDown] show ?thesis unfolding Run_def tornDown_def by blast
qed


section \<open>The configuration in force is always a valid one\<close>

lemma Load_valid: "Load rd dec path = Inr cfg \<Longrightarrow> Validate cfg = None"
  by (auto simp: Load_def Let_def split: sum.splits option.splits)

definition configOK :: "('e, 'w) repl \<Rightarrow> bool" where
  "configOK r \<longleftrightarrow> Validate (eConfig (rEngine r)) = None"

lemma reload_configOK: "configOK r \<Longrightarrow> configOK (ReloadConfigIfChanged fs r)"
  by (auto simp: configOK_def ReloadConfigIfChanged_def maybeReload_def changed_def stampOf_def loadFile_def ReplaceConfig_def
        Let_def split: option.splits prod.splits sum.splits if_splits dest!: onFiles_engine Load_valid)

lemma reload_keeps_registry: "procs (rEngine (ReloadConfigIfChanged fs r)) = procs (rEngine r)"
  by (auto simp: ReloadConfigIfChanged_def maybeReload_def changed_def stampOf_def loadFile_def ReplaceConfig_def
        Let_def split: option.splits prod.splits sum.splits if_splits dest!: onFiles_engine)

lemma uses_configOK: "configOK r \<Longrightarrow> replUses r r' \<Longrightarrow> configOK r'"
  by (simp add: configOK_def uses_def)

lemma teardown_configOK: "configOK r \<Longrightarrow> configOK (teardown os r)"
  using TeardownAll_keeps [of "(rEngine r, rHost r)" os]
  by (auto simp: configOK_def teardown_def onEngine_def keeps_def Let_def split: prod.splits)

lemma say_configOK [simp]: "configOK (say x r) = configOK r"
  by (simp add: configOK_def)

lemma runLine_configOK: "runLine os fs line r = (q, r') \<Longrightarrow> configOK r \<Longrightarrow> configOK r'"
  by (auto simp: runLine_def runCommandLine_def split: sum.splits if_splits
        intro: uses_configOK [OF reload_configOK dispatch_uses])

lemma readLine_configOK: "readLine r = Some (l, r') \<Longrightarrow> configOK r \<Longrightarrow> configOK r'"
  by (auto simp: readLine_def configOK_def split: option.splits list.splits)

lemma runLoop_configOK: "configOK r \<Longrightarrow> configOK (snd (runLoop os fs ioErr r))"
proof (induction os fs ioErr r rule: runLoop.induct)
  case (1 os fs ioErr r)
  show ?case
  proof (cases "readLine r")
    case None
    with 1 show ?thesis by (simp add: runLoop.simps [of os fs ioErr r] teardown_configOK)
  next
    case (Some p)
    obtain line r1 where p: "p = (line, r1)" by (cases p)
    obtain q r2 where q: "runLine os fs line r1 = (q, r2)" by (cases "runLine os fs line r1")
    have ok: "configOK r2" using "1.prems" Some p q readLine_configOK runLine_configOK by blast
    show ?thesis
    proof (cases "q \<or> \<not> has_suffix newline line")
      case True
      then have "snd (runLoop os fs ioErr r) = teardown os r2"
        using Some p q by (auto simp: runLoop.simps [of os fs ioErr r])
      with ok show ?thesis by (simp add: teardown_configOK)
    next
      case False
      then have "runLoop os fs ioErr r = runLoop os fs ioErr r2"
        using Some p q by (simp add: runLoop.simps [of os fs ioErr r])
      with "1.IH" [OF Some p [symmetric] q [symmetric] refl] False ok show ?thesis by simp
    qed
  qed
qed

text \<open>C28: a session that starts with a valid configuration has a valid one after every input, whatever the configuration
  file is edited to and at whatever moment: a file that does not load is reported and changes nothing.\<close>

theorem session_config_valid:
  assumes "Validate (eConfig (rEngine r)) = None"
  shows "Validate (eConfig (rEngine (snd (Run os fs ioErr r)))) = None"
proof -
  have "configOK (handleStatus os (targeted VerbStatus '''') (ReloadConfigIfChanged fs r))"
    by (rule uses_configOK [OF reload_configOK handleStatus_uses]) (simp add: configOK_def assms)
  from runLoop_configOK [OF this] show ?thesis unfolding Run_def configOK_def .
qed

section \<open>A server that is edited away is lost\<close>

text \<open>
  A host on which every command works and port 80 is held by process 7 once a process was started; its world tells
  whether one was, and counts the looks at the configuration file, whose stamp changes at the third look.  The file then
  holds a configuration with no server.
\<close>

definition sessionOS :: "(bool \<times> nat) os" where
  "sessionOS =
     \<lparr>osView = (\<lambda>(b, k). (if b then liveView else quietView, (b, k))), osKill = (\<lambda>p s w. (KillOK, w)), osKill0 = (\<lambda>p w. (KillOK, w)),
      osRounds = (\<lambda>d w. (1, w)), osProbe = (\<lambda>sp w. (HttpOutcome NoResponse, w)),
      osPoll = (\<lambda>sp w. ((HttpOutcome (Response 200), []), w)),
      osWarm = (\<lambda>sp w. ((Response 200, []), w)), osStart = (\<lambda>r (b, k). (Some (7, ''l''), (True, k))),
      osExited = (\<lambda>p w. (False, w)), osRun = (\<lambda>a w. (True, w)), osTempDir = (\<lambda>w. (Some ''t'', w)),
      osHash = (\<lambda>p w. (Digest 1, w)), osReplace = (\<lambda>a b w. (True, w)), osHome = None, osCwd = ''/'', osEnviron = [],
      osStat = (\<lambda>p. None)\<rparr>"

definition sessionFiles :: "(unit, bool \<times> nat) files" where
  "sessionFiles =
     \<lparr>fsStamp = (\<lambda>p (b, k). (Some (if k < 2 then 0 else 1), (b, Suc k))), fsRead = (\<lambda>p w. (Inr [], w)),
      fsDecode = (\<lambda>d. Inr (demoConfig [], [])), fsGlob = (\<lambda>d n w. (Some [], w)), fsLog = (\<lambda>p w. (Inl (), w)),
      fsKill = (\<lambda>p w. (True, w))\<rparr>"

definition sessionStart :: "string list \<Rightarrow> (unit, bool \<times> nat) repl" where
  "sessionStart lines =
     \<lparr>rOut = [], rReloader = Some \<lparr>crPath = ''c'', crStamp = Some 0, reloads = 0\<rparr>,
      rEngine = NewEngine (demoConfig [demoExec]) (Some lines), rHost = \<lparr>events = [], world = (False, 0)\<rparr>\<rparr>"

theorem session_config_valid_witness:
  "Validate (eConfig (rEngine (snd (Run sessionOS sessionFiles False (sessionStart [''a up'' @ newline]))))) = None"
proof -
  have "Validate (eConfig (rEngine (sessionStart [''a up'' @ newline]))) = None" by code_simp
  from session_config_valid [OF this] show ?thesis .
qed


end
