(* ===== verification/DriverStream.thy ===== *)
theory DriverStream
  imports Wire "HOL-Library.Sublist"
begin

text \<open>
  The driver's model request, first part (\<open>driver/driver.go\<close>): the tiers and the request body, the decoding of the
  server-sent events, the segments that are spoken while the answer streams, and the state of a stream.

  The parser of JSON text is a parameter.  A context that may end at any moment is the number of looks at it that still find
  it alive, \<open>None\<close> when all do.
\<close>

section \<open>Tiers and requests\<close>

record Tier =
  tURL :: string
  tModel :: string
  tReasoning :: bool
  tMaxTokens :: int
  tAPIKey :: string
  NoTools :: bool
  IncludeUsage :: bool

text \<open>\<open>json.Marshal\<close> writes the members of a map in the order of their keys.\<close>

definition buildStreamPayload :: "Tier \<Rightarrow> json \<Rightarrow> json" where
  "buildStreamPayload ep window =
     JObj ((if \<not> tReasoning ep then [(''chat_template_kwargs'', JObj [(''enable_thinking'', JBool False)])] else [])
       @ [(''frequency_penalty'', JNum ''0.6''), (''max_tokens'', JInt (tMaxTokens ep)), (''messages'', window),
          (''model'', JStr (tModel ep)), (''presence_penalty'', JNum ''0.3''), (''stream'', JBool True)]
       @ (if IncludeUsage ep then [(''stream_options'', JObj [(''include_usage'', JBool True)])] else [])
       @ [(''temperature'', JNum ''0.7'')]
       @ (if NoTools ep then [(''tools'', JArr [])] else []))"

definition requestHeaders :: "Tier \<Rightarrow> (string \<times> string) list" where
  "requestHeaders ep =
     [(''Content-Type'', ''application/json'')]
     @ (if tAPIKey ep \<noteq> '''' then [(''Authorization'', ''Bearer '' @ tAPIKey ep)] else [])"

section \<open>Chunks\<close>

record sseUsage =
  PromptTokens :: int
  CompletionTokens :: int

record sseDelta =
  dContent :: string
  dReasoningContent :: string
  dReasoning :: string
  dFinish :: string
  dModel :: string
  dId :: string
  dUsage :: "sseUsage option"

definition zeroDelta :: sseDelta where
  "zeroDelta = \<lparr>dContent = '''', dReasoningContent = '''', dReasoning = '''', dFinish = '''', dModel = '''', dId = '''',
     dUsage = None\<rparr>"

definition reasoningText :: "sseDelta \<Rightarrow> string" where
  "reasoningText d = (if dReasoningContent d \<noteq> '''' then dReasoningContent d else dReasoning d)"

text \<open>\<open>chunkString.UnmarshalJSON\<close>: only a string is taken.\<close>

fun store_chunkString :: "string \<Rightarrow> json list \<Rightarrow> string" where
  "store_chunkString cur [] = cur"
| "store_chunkString cur (JStr s # vs) = store_chunkString s vs"
| "store_chunkString cur (v # vs) = store_chunkString cur vs"

fun store_int :: "int \<Rightarrow> json list \<Rightarrow> json_error + int" where
  "store_int cur [] = Inr cur"
| "store_int cur (JInt i # vs) = (if int64_ok i then store_int i vs else Inl BadType)"
| "store_int cur (JNull # vs) = store_int cur vs"
| "store_int cur (v # vs) = Inl BadType"

definition decodeUsage :: "(string \<times> json) list \<Rightarrow> sseUsage option" where
  "decodeUsage kvs =
     (case (store_int 0 (members ''prompt_tokens'' kvs), store_int 0 (members ''completion_tokens'' kvs)) of
        (Inr p, Inr c) \<Rightarrow> Some \<lparr>PromptTokens = p, CompletionTokens = c\<rparr>
      | _ \<Rightarrow> None)"

text \<open>\<open>chunkUsage.UnmarshalJSON\<close>: an object that decodes is taken whole, anything else leaves what was there.\<close>

fun store_usage :: "sseUsage option \<Rightarrow> json list \<Rightarrow> sseUsage option" where
  "store_usage cur [] = cur"
| "store_usage cur (JObj kvs # vs) = store_usage (case decodeUsage kvs of None \<Rightarrow> cur | u \<Rightarrow> u) vs"
| "store_usage cur (v # vs) = store_usage cur vs"

text \<open>The pointer \<open>Error\<close>: \<open>null\<close> clears it, an object is stored into the struct it points to.\<close>

fun store_error :: "(string \<times> json) list option \<Rightarrow> json list \<Rightarrow> json_error + (string \<times> json) list option" where
  "store_error cur [] = Inr cur"
| "store_error cur (JObj kvs # vs) = store_error (Some ((case cur of None \<Rightarrow> [] | Some c \<Rightarrow> c) @ kvs)) vs"
| "store_error cur (JNull # vs) = store_error None vs"
| "store_error cur (v # vs) = Inl BadType"

text \<open>One choice: its delta and its reason to finish, from the values stored into it.\<close>

definition decodeChoice :: "json list \<Rightarrow> json_error + sseDelta" where
  "decodeChoice vs =
     (case store_struct vs of
        Inl e \<Rightarrow> Inl e
      | Inr kvs \<Rightarrow>
          (case (struct_field ''delta'' kvs, string_field ''finish_reason'' kvs) of
             (Inr d, Inr fin) \<Rightarrow>
               (case (string_field ''content'' d, string_field ''reasoning_content'' d, string_field ''reasoning'' d) of
                  (Inr c, Inr rc, Inr r) \<Rightarrow>
                    Inr (zeroDelta\<lparr>dContent := c, dReasoningContent := rc, dReasoning := r, dFinish := fin\<rparr>)
                | _ \<Rightarrow> Inl BadType)
           | _ \<Rightarrow> Inl BadType))"

text \<open>
  The slice \<open>Choices\<close>, of which only the first element is read: the values stored into it, if there is one.  Every
  element has to decode.
\<close>

fun store_choices :: "json list option \<Rightarrow> json list \<Rightarrow> json_error + json list option" where
  "store_choices cur [] = Inr cur"
| "store_choices cur (JArr js # vs) =
     (if \<not> list_all (\<lambda>j. case decodeChoice [j] of Inl _ \<Rightarrow> False | Inr _ \<Rightarrow> True) js then Inl BadType
      else store_choices (case js of [] \<Rightarrow> None | j # _ \<Rightarrow> Some ((case cur of None \<Rightarrow> [] | Some c \<Rightarrow> c) @ [j])) vs)"
| "store_choices cur (JNull # vs) = store_choices None vs"
| "store_choices cur (v # vs) = Inl BadType"

datatype line_error = Malformed | UpstreamPayload string

definition decodeChunk :: "(string \<times> json) list \<Rightarrow> line_error + sseDelta" where
  "decodeChunk kvs =
     (case (store_choices None (members ''choices'' kvs), store_error None (members ''error'' kvs)) of
        (Inr ch, Inr err) \<Rightarrow>
          (case (case err of None \<Rightarrow> Inr None | Some m \<Rightarrow> map_sum id Some (string_field ''message'' m)) of
             Inl _ \<Rightarrow> Inl Malformed
           | Inr (Some msg) \<Rightarrow> Inl (UpstreamPayload msg)
           | Inr None \<Rightarrow>
               (case (case ch of None \<Rightarrow> Inr zeroDelta | Some vs \<Rightarrow> decodeChoice vs) of
                  Inl _ \<Rightarrow> Inl Malformed
                | Inr d \<Rightarrow>
                    Inr (d\<lparr>dModel := store_chunkString '''' (members ''model'' kvs),
                           dId := store_chunkString '''' (members ''id'' kvs),
                           dUsage := store_usage None (members ''usage'' kvs)\<rparr>)))
      | _ \<Rightarrow> Inl Malformed)"

definition decodeSSELine :: "(string \<Rightarrow> json option) \<Rightarrow> string \<Rightarrow> line_error + sseDelta option" where
  "decodeSSELine parse line =
     (if line = '''' \<or> \<not> has_prefix ''data: '' line then Inr None
      else let data = drop 6 line in
        if data = ''[DONE]'' then Inr None
        else case doc_members (parse data) of
          Inl _ \<Rightarrow> Inl Malformed
        | Inr kvs \<Rightarrow> map_sum id Some (decodeChunk kvs))"

section \<open>Segments\<close>

definition minSegmentChars :: nat where "minSegmentChars = 30"

definition isSegmentDelimiter :: "char \<Rightarrow> bool" where
  "isSegmentDelimiter b \<longleftrightarrow> b \<in> {CHR ''.'', CHR ''?'', CHR ''!'', CHR '','', CHR 0x0A}"

record segmentAccumulator =
  saBuf :: string
  saMin :: nat

definition newSegmentAccumulator :: "nat \<Rightarrow> segmentAccumulator" where
  "newSegmentAccumulator n = \<lparr>saBuf = '''', saMin = n\<rparr>"

definition seg_take :: "segmentAccumulator \<Rightarrow> string option \<times> segmentAccumulator" where
  "seg_take s = (if trimSpace (saBuf s) = '''' then None else Some (saBuf s), s\<lparr>saBuf := ''''\<rparr>)"

definition seg_write :: "char \<Rightarrow> segmentAccumulator \<Rightarrow> string option \<times> segmentAccumulator" where
  "seg_write b s =
     (let s1 = s\<lparr>saBuf := saBuf s @ [b]\<rparr> in
      if \<not> isSegmentDelimiter b \<or> length (saBuf s1) < saMin s1 then (None, s1) else seg_take s1)"

definition seg_flush :: "segmentAccumulator \<Rightarrow> string option \<times> segmentAccumulator" where
  "seg_flush s = seg_take s"

section \<open>The stream\<close>

record streamState =
  contentBuf :: string
  reasoningBuf :: string
  acc :: segmentAccumulator
  hasContent :: bool
  finishReason :: string
  chunksSeen :: nat
  ssModel :: string
  ssId :: string
  ssUsage :: "sseUsage option"

definition newStream :: streamState where
  "newStream = \<lparr>contentBuf = '''', reasoningBuf = '''', acc = newSegmentAccumulator minSegmentChars, hasContent = False,
     finishReason = '''', chunksSeen = 0, ssModel = '''', ssId = '''', ssUsage = None\<rparr>"

text \<open>A check of the context: whether it is done, and what is left of it.\<close>

type_synonym lifetime = "nat option"

fun check :: "lifetime \<Rightarrow> bool \<times> lifetime" where
  "check None = (False, None)"
| "check (Some 0) = (True, Some 0)"
| "check (Some (Suc n)) = (False, Some n)"

text \<open>\<open>emit\<close>: a segment is handed on when the context is still alive.\<close>

definition emitSegment :: "string \<Rightarrow> lifetime \<times> string list \<Rightarrow> lifetime \<times> string list" where
  "emitSegment seg c = (let (done, l) = check (fst c) in (l, if done then snd c else snd c @ [seg]))"

fun writeAll :: "string \<Rightarrow> segmentAccumulator \<Rightarrow> lifetime \<times> string list \<Rightarrow> segmentAccumulator \<times> lifetime \<times> string list" where
  "writeAll [] s c = (s, c)"
| "writeAll (b # bs) s c =
     (let (seg, s1) = seg_write b s in writeAll bs s1 (case seg of None \<Rightarrow> c | Some x \<Rightarrow> emitSegment x c))"

definition applyDelta :: "sseDelta \<Rightarrow> streamState \<Rightarrow> streamState" where
  "applyDelta d st =
     st\<lparr>chunksSeen := chunksSeen st + 1,
        ssModel := (if ssModel st = '''' then dModel d else ssModel st),
        ssId := (if ssId st = '''' then dId d else ssId st),
        ssUsage := (case dUsage d of None \<Rightarrow> ssUsage st | u \<Rightarrow> u),
        contentBuf := contentBuf st @ dContent d,
        reasoningBuf := reasoningBuf st @ reasoningText d,
        hasContent := (hasContent st \<or> dContent d \<noteq> ''''),
        finishReason := (if dFinish d \<noteq> '''' then dFinish d else finishReason st)\<rparr>"

definition processSSELine ::
    "(string \<Rightarrow> json option) \<Rightarrow> string \<Rightarrow> streamState \<Rightarrow> lifetime \<times> string list
     \<Rightarrow> line_error option \<times> streamState \<times> lifetime \<times> string list" where
  "processSSELine parse line st c =
     (case decodeSSELine parse line of
        Inl e \<Rightarrow> (Some e, st, c)
      | Inr None \<Rightarrow> (None, st, c)
      | Inr (Some d) \<Rightarrow>
          (let st1 = applyDelta d st; (a, c1) = writeAll (dContent d) (acc st1) c in (None, st1\<lparr>acc := a\<rparr>, c1)))"

section \<open>What is spoken\<close>

text \<open>
  The pieces a text falls into, whatever chunks it arrives in: a piece ends at a delimiter once it is long enough.  Those
  that are not blank are spoken.
\<close>

fun pieces :: "nat \<Rightarrow> string \<Rightarrow> string \<Rightarrow> string list" where
  "pieces n buf [] = (if buf = [] then [] else [buf])"
| "pieces n buf (b # bs) =
     (if isSegmentDelimiter b \<and> n \<le> length (buf @ [b]) then (buf @ [b]) # pieces n [] bs else pieces n (buf @ [b]) bs)"

definition nonblank :: "string \<Rightarrow> bool" where
  "nonblank s \<longleftrightarrow> trimSpace s \<noteq> ''''"

definition spokenPieces :: "string \<Rightarrow> string list" where
  "spokenPieces s = filter nonblank (pieces minSegmentChars [] s)"

text \<open>The pieces that are complete, and what is left.\<close>

fun complete :: "nat \<Rightarrow> string \<Rightarrow> string \<Rightarrow> string list \<times> string" where
  "complete n buf [] = ([], buf)"
| "complete n buf (b # bs) =
     (if isSegmentDelimiter b \<and> n \<le> length (buf @ [b])
      then let (ps, r) = complete n [] bs in ((buf @ [b]) # ps, r) else complete n (buf @ [b]) bs)"

lemma complete_append:
  "complete n buf (xs @ ys) =
     (let (ps, r) = complete n buf xs; (qs, r') = complete n r ys in (ps @ qs, r'))"
  by (induction n buf xs rule: complete.induct) (auto simp: Let_def split: prod.splits)

lemma pieces_complete:
  "pieces n buf s = fst (complete n buf s) @ (if snd (complete n buf s) = [] then [] else [snd (complete n buf s)])"
  by (induction n buf s rule: complete.induct) (auto simp: Let_def split: prod.splits)

lemma concat_pieces: "concat (pieces n buf s) = buf @ s"
  by (induction n buf s rule: pieces.induct) auto

lemma complete_shape:
  "\<forall>p \<in> set (fst (complete n buf s)). p \<noteq> [] \<and> isSegmentDelimiter (last p) \<and> n \<le> length p"
  by (induction n buf s rule: complete.induct) (auto simp: Let_def split: prod.splits)

lemma pieces_shape: "\<forall>p \<in> set (butlast (pieces n buf s)). isSegmentDelimiter (last p) \<and> n \<le> length p"
  using complete_shape [of n buf s] by (auto simp: pieces_complete butlast_append dest: in_set_butlastD)

lemma nonblank_Nil [simp]: "\<not> nonblank []"
  by (simp add: nonblank_def trimSpace_def strip_front.simps)

lemma seg_write_complete:
  "seg_write b s =
     (if isSegmentDelimiter b \<and> saMin s \<le> length (saBuf s @ [b])
      then (if nonblank (saBuf s @ [b]) then Some (saBuf s @ [b]) else None, s\<lparr>saBuf := []\<rparr>)
      else (None, s\<lparr>saBuf := saBuf s @ [b]\<rparr>))"
  by (auto simp: seg_write_def seg_take_def nonblank_def Let_def)

text \<open>A handed-on segment is one of those that are left to hand on, in order; after one is dropped so are all that follow.\<close>

fun deliver :: "lifetime \<times> string list \<Rightarrow> string list \<Rightarrow> lifetime \<times> string list" where
  "deliver c [] = c"
| "deliver c (p # ps) = deliver (emitSegment p c) ps"

lemma deliver_append: "deliver c (ps @ qs) = deliver (deliver c ps) qs"
  by (induction c ps rule: deliver.induct) auto

lemma deliver_alive: "deliver (None, out) ps = (None, out @ ps)"
  by (induction ps arbitrary: out) (auto simp: emitSegment_def)

lemma deliver_dead: "deliver (Some 0, out) ps = (Some 0, out)"
  by (induction ps) (auto simp: emitSegment_def)

lemma deliver_counted: "deliver (Some n, out) ps = (Some (n - length ps), out @ take n ps)"
proof (induction ps arbitrary: n out)
  case Nil
  then show ?case by simp
next
  case (Cons p ps)
  then show ?case by (cases n) (auto simp: emitSegment_def deliver_dead)
qed

lemma deliver_prefix: "\<exists>k. snd (deliver (l, out) ps) = out @ take k ps \<and> (fst (deliver (l, out) ps) \<noteq> Some 0 \<longrightarrow> k = length ps)"
proof (cases l)
  case None
  then show ?thesis by (auto simp: deliver_alive intro: exI [of _ "length ps"])
next
  case (Some n)
  then show ?thesis by (cases "n \<le> length ps") (auto simp: deliver_counted intro: exI [of _ n] exI [of _ "length ps"])
qed

lemma writeAll_complete:
  "writeAll bs s c =
     (let (ps, r) = complete (saMin s) (saBuf s) bs in (s\<lparr>saBuf := r\<rparr>, deliver c (filter nonblank ps)))"
proof (induction bs arbitrary: s c)
  case Nil
  then show ?case by simp
next
  case (Cons b bs)
  then show ?case by (auto simp: seg_write_complete Let_def split: prod.splits)
qed

end
