(* ===== verification/DriverTrace.thy ===== *)
theory DriverTrace
  imports DriverStream
begin

text \<open>
  The span of a model request (\<open>driver/trace.go\<close>): what is known when the request goes out, the marks of the first chunk
  and the first content, and what the end of the call records.

  The tracer is a parameter in two ways: whether its span is recording, and what becomes of the attributes it is given, which
  here is the span itself.  The parser of URLs, the parser of JSON text and the environment are parameters too.  Times are in
  nanoseconds.
\<close>

section \<open>Attributes\<close>

datatype attribute_value = AString string | AInt int | ABool bool | ASeconds duration | AStrings "string list"

type_synonym attribute = "string \<times> attribute_value"

definition captureMessageContentEnv :: string where
  "captureMessageContentEnv = ''AATOOLKIT_CAPTURE_MESSAGE_CONTENT''"

definition tierKey :: string where "tierKey = ''aatoolkit.llm.tier''"

definition timeToFirstContentKey :: string where
  "timeToFirstContentKey = ''aatoolkit.llm.time_to_first_content''"

definition errTypeTimeout :: string where "errTypeTimeout = ''timeout''"
definition errTypeCanceled :: string where "errTypeCanceled = ''canceled''"
definition errTypeTransport :: string where "errTypeTransport = ''transport_error''"
definition errTypeStreamRead :: string where "errTypeStreamRead = ''stream_read_error''"
definition errTypeUpstream :: string where "errTypeUpstream = ''upstream_error''"
definition errTypeDecode :: string where "errTypeDecode = ''decode_error''"
definition errTypeEmpty :: string where "errTypeEmpty = ''empty_response''"

text \<open>What \<open>url.Parse\<close> makes of a URL, as far as it is read: scheme, host name and port.\<close>

type_synonym url_parser = "string \<Rightarrow> (string \<times> string \<times> string) option"

definition serverAddrPort :: "url_parser \<Rightarrow> string \<Rightarrow> string \<times> int" where
  "serverAddrPort parseURL rawURL =
     (case parseURL rawURL of
        None \<Rightarrow> ('''', 0)
      | Some (scheme, addr, p) \<Rightarrow>
          if addr = '''' then ('''', 0)
          else if p \<noteq> '''' then
            (case atoi p of None \<Rightarrow> (addr, 0) | Some n \<Rightarrow> if n \<le> 0 then (addr, 0) else (addr, n))
          else if scheme = ''https'' then (addr, 443)
          else if scheme = ''http'' then (addr, 80)
          else (addr, 0))"

section \<open>The span\<close>

record modelCall =
  spanName :: string
  spanAttrs :: "attribute list"
  spanError :: bool
  spanEnded :: bool
  recording :: bool
  issued :: duration
  firstChunk :: duration
  firstContent :: duration
  sawChunk :: bool
  sawContent :: bool

definition startModelSpan :: "url_parser \<Rightarrow> bool \<Rightarrow> string \<Rightarrow> string \<Rightarrow> string \<Rightarrow> modelCall" where
  "startModelSpan parseURL rec tier mdl rawURL =
     (let (addr, port) = serverAddrPort parseURL rawURL in
      \<lparr>spanName = (if mdl = '''' then ''chat'' else ''chat '' @ mdl),
       spanAttrs =
         [(''gen_ai.operation.name'', AString ''chat''), (''gen_ai.provider.name'', AString ''openai''),
          (''gen_ai.request.stream'', ABool True), (tierKey, AString tier)]
         @ (if mdl \<noteq> '''' then [(''gen_ai.request.model'', AString mdl)] else [])
         @ (if addr \<noteq> '''' then [(''server.address'', AString addr)] else [])
         @ (if port \<noteq> 0 then [(''server.port'', AInt port)] else []),
       spanError = False, spanEnded = False, recording = rec, issued = 0, firstChunk = 0, firstContent = 0,
       sawChunk = False, sawContent = False\<rparr>)"

definition requestSent :: "duration \<Rightarrow> modelCall \<Rightarrow> modelCall" where
  "requestSent t c = (if recording c then c\<lparr>issued := t\<rparr> else c)"

text \<open>\<open>now\<close>: the clock, while a mark is pending on a recording span, and no reading otherwise.\<close>

definition call_now :: "duration \<Rightarrow> modelCall \<Rightarrow> duration option" where
  "call_now t c = (if \<not> recording c \<or> sawChunk c \<and> sawContent c then None else Some t)"

text \<open>
  \<open>observe\<close>.  A mark is never taken without a reading: it is taken when the first chunk or the first content comes, and then
  it was pending.  The difference to the zero time of Go is therefore never recorded; it is 0 here.
\<close>

definition call_observe :: "streamState \<Rightarrow> bool \<Rightarrow> bool \<Rightarrow> duration option \<Rightarrow> modelCall \<Rightarrow> modelCall" where
  "call_observe st hadChunk hadContent t c =
     (if \<not> recording c then c
      else
        let d = (case t of Some a \<Rightarrow> a - issued c | None \<Rightarrow> 0);
            c1 = (if \<not> hadChunk \<and> chunksSeen st > 0 then c\<lparr>firstChunk := d, sawChunk := True\<rparr> else c)
        in if \<not> hadContent \<and> hasContent st then c1\<lparr>firstContent := d, sawContent := True\<rparr> else c1)"

section \<open>Message content\<close>

text \<open>\<open>strconv.ParseBool\<close>.\<close>

definition parseBool :: "string \<Rightarrow> bool option" where
  "parseBool s =
     (if s \<in> {''1'', ''t'', ''T'', ''true'', ''TRUE'', ''True''} then Some True
      else if s \<in> {''0'', ''f'', ''F'', ''false'', ''FALSE'', ''False''} then Some False
      else None)"

definition captureMessageContent :: "(string \<Rightarrow> string) \<Rightarrow> bool" where
  "captureMessageContent getenv = (parseBool (getenv captureMessageContentEnv) = Some True)"

record genAIPart =
  gpType :: string
  gpContent :: string

definition json_part :: "genAIPart \<Rightarrow> json" where
  "json_part p = JObj [(''type'', JStr (gpType p)), (''content'', JStr (gpContent p))]"

record genAIMessage =
  gmRole :: string
  gmParts :: "genAIPart list"

definition json_message :: "genAIMessage \<Rightarrow> json" where
  "json_message m = JObj [(''role'', JStr (gmRole m)), (''parts'', JArr (map json_part (gmParts m)))]"

text \<open>One item of an array content: its type and its text.\<close>

definition decodeItem :: "json \<Rightarrow> (string \<times> string) option" where
  "decodeItem j =
     (case store_struct [j] of
        Inl _ \<Rightarrow> None
      | Inr kvs \<Rightarrow>
          (case (string_field ''type'' kvs, string_field ''text'' kvs) of (Inr t, Inr x) \<Rightarrow> Some (t, x) | _ \<Rightarrow> None))"

definition contentParts :: "json option \<Rightarrow> genAIPart list" where
  "contentParts content =
     (case content of
        Some (JStr s) \<Rightarrow> [\<lparr>gpType = ''text'', gpContent = s\<rparr>]
      | Some (JArr js) \<Rightarrow>
          (case those (map decodeItem js) of
             None \<Rightarrow> []
           | Some items \<Rightarrow> map (\<lambda>(t, x). \<lparr>gpType = ''text'', gpContent = x\<rparr>) (filter (\<lambda>(t, x). t = ''text'') items))
      | _ \<Rightarrow> [])"

definition decodeMessage :: "json \<Rightarrow> genAIMessage option" where
  "decodeMessage j =
     (case j of
        JObj kvs \<Rightarrow>
          (case string_field ''role'' kvs of
             Inl _ \<Rightarrow> None
           | Inr r \<Rightarrow> Some \<lparr>gmRole = r, gmParts = contentParts (raw_field ''content'' kvs)\<rparr>)
      | _ \<Rightarrow> None)"

definition genAIInputMessages :: "(string \<Rightarrow> json option) \<Rightarrow> string \<Rightarrow> string option" where
  "genAIInputMessages parse contextWindow =
     (case parse contextWindow of
        Some (JArr js) \<Rightarrow> map_option (\<lambda>ms. json_print (JArr (map json_message ms))) (those (map decodeMessage js))
      | _ \<Rightarrow> None)"

definition genAIOutputMessages :: "string \<Rightarrow> string \<Rightarrow> string \<Rightarrow> string option" where
  "genAIOutputMessages content reasoning fin =
     (if content = '''' \<and> reasoning = '''' then None
      else Some (json_print (JArr [JObj
        [(''role'', JStr ''assistant''),
         (''parts'', JArr (map json_part
            ((if reasoning \<noteq> '''' then [\<lparr>gpType = ''reasoning'', gpContent = reasoning\<rparr>] else [])
             @ (if content \<noteq> '''' then [\<lparr>gpType = ''text'', gpContent = content\<rparr>] else [])))),
         (''finish_reason'', JStr fin)]])))"

definition opt_attr :: "string \<Rightarrow> string option \<Rightarrow> attribute list" where
  "opt_attr key v = (case v of None \<Rightarrow> [] | Some s \<Rightarrow> [(key, AString s)])"

text \<open>\<open>end\<close>: what the stream said about the response; message content only when it is to be captured.\<close>

definition span_end ::
    "(string \<Rightarrow> string) \<Rightarrow> (string \<Rightarrow> json option) \<Rightarrow> streamState \<Rightarrow> int \<Rightarrow> string \<Rightarrow> string \<Rightarrow> modelCall \<Rightarrow> modelCall" where
  "span_end getenv parse st maxTokens contextWindow errType c =
     (if \<not> recording c then c\<lparr>spanEnded := True\<rparr>
      else
        let fin = (if finishReason st = '''' \<and> errType \<noteq> '''' then ''error'' else finishReason st);
            attrs =
              (if maxTokens > 0 then [(''gen_ai.request.max_tokens'', AInt maxTokens)] else [])
              @ (if ssModel st \<noteq> '''' then [(''gen_ai.response.model'', AString (ssModel st))] else [])
              @ (if ssId st \<noteq> '''' then [(''gen_ai.response.id'', AString (ssId st))] else [])
              @ (if fin \<noteq> '''' then [(''gen_ai.response.finish_reasons'', AStrings [fin])] else [])
              @ (if sawChunk c then [(''gen_ai.response.time_to_first_chunk'', ASeconds (firstChunk c))] else [])
              @ (if sawContent c then [(timeToFirstContentKey, ASeconds (firstContent c))] else [])
              @ (case ssUsage st of None \<Rightarrow> []
                 | Some u \<Rightarrow> [(''gen_ai.usage.input_tokens'', AInt (PromptTokens u)),
                             (''gen_ai.usage.output_tokens'', AInt (CompletionTokens u))])
              @ (if errType \<noteq> '''' then [(''error.type'', AString errType)] else [])
              @ (if captureMessageContent getenv
                 then opt_attr ''gen_ai.input.messages'' (genAIInputMessages parse contextWindow)
                   @ opt_attr ''gen_ai.output.messages'' (genAIOutputMessages (contentBuf st) (reasoningBuf st) fin)
                 else [])
        in c\<lparr>spanAttrs := spanAttrs c @ attrs, spanError := (errType \<noteq> ''''), spanEnded := True\<rparr>)"

end
