(* ===== verification/DriverSend.thy ===== *)
theory DriverSend
  imports DriverTrace
begin

text \<open>
  The model request as a whole (\<open>driver/driver.go\<close>): \<open>SendStreamContext\<close> and \<open>streamChat\<close>, with the span they keep.

  The answer of the upstream is what the transport makes of the request: none can be built, none comes, a status with a body,
  or the lines of the stream, each with the reading of the clock at which it was scanned, and whether the scanner ends with an
  error of its own.  A segment callback that panics is not modelled.
\<close>

section \<open>Failures\<close>

datatype ctx_error = Canceled | DeadlineExceeded

datatype failure =
    BadURL
  | CallFailed
  | UpstreamStatus int string
  | DecodeFailed line_error
  | ReadFailed
  | NoContent string

record stream_error =
  seFailure :: failure
  seContext :: "ctx_error option"
  seType :: string

text \<open>\<open>streamErrorType\<close> looks at the context twice, once for each kind of end.\<close>

definition streamErrorType :: "ctx_error \<Rightarrow> lifetime \<Rightarrow> failure \<Rightarrow> string \<Rightarrow> string \<times> lifetime" where
  "streamErrorType kind l err fallback =
     (let (d1, l1) = check l in
      if d1 \<and> kind = DeadlineExceeded then (errTypeTimeout, l1)
      else let (d2, l2) = check l1 in
        if d2 \<and> kind = Canceled then (errTypeCanceled, l2)
        else
          (case err of
             UpstreamStatus code _ \<Rightarrow> itoa code
           | DecodeFailed (UpstreamPayload _) \<Rightarrow> errTypeUpstream
           | _ \<Rightarrow> fallback, l2))"

text \<open>\<open>failed\<close>: the context is looked at once more; when it is done the error carries its error too.\<close>

definition failed :: "ctx_error \<Rightarrow> lifetime \<Rightarrow> failure \<Rightarrow> string \<Rightarrow> stream_error" where
  "failed kind l err fallback =
     (let (ty, l1) = streamErrorType kind l err fallback; (dn, _) = check l1
      in \<lparr>seFailure = err, seContext = (if dn then Some kind else None), seType = ty\<rparr>)"

section \<open>The exchange\<close>

datatype upstream =
    NoRequest
  | NoAnswer
  | Status int string
  | Stream "(duration \<times> string) list" bool

definition foldLine ::
    "(string \<Rightarrow> json option) \<Rightarrow> duration \<Rightarrow> string \<Rightarrow> modelCall \<Rightarrow> streamState \<Rightarrow> lifetime \<times> string list
     \<Rightarrow> line_error option \<times> modelCall \<times> streamState \<times> lifetime \<times> string list" where
  "foldLine parse t line call st c =
     (let at' = call_now t call;
          (err, st1, c1) = processSSELine parse line st c
      in (err, call_observe st1 (chunksSeen st > 0) (hasContent st) at' call, st1, c1))"

text \<open>The scan loop of \<open>streamChat\<close>: the context is checked before each line, and before the last segment.\<close>

fun scanLines ::
    "(string \<Rightarrow> json option) \<Rightarrow> ctx_error \<Rightarrow> bool \<Rightarrow> (duration \<times> string) list \<Rightarrow> modelCall \<Rightarrow> streamState
     \<Rightarrow> lifetime \<times> string list \<Rightarrow> (stream_error + string \<times> string) \<times> modelCall \<times> streamState \<times> string list" where
  "scanLines parse kind scanErr [] call st c =
     (let (dn, l) = check (fst c) in
      if scanErr \<or> dn then (Inl (failed kind l ReadFailed errTypeStreamRead), call, st, snd c)
      else if \<not> hasContent st then (Inl (failed kind l (NoContent (finishReason st)) errTypeEmpty), call, st, snd c)
      else let (seg, a) = seg_flush (acc st)
           in (Inr (contentBuf st, reasoningBuf st), call, st\<lparr>acc := a\<rparr>,
               snd c @ (case seg of None \<Rightarrow> [] | Some s \<Rightarrow> [s])))"
| "scanLines parse kind scanErr (x # rest) call st c =
     (let (dn, l) = check (fst c) in
      if dn then (Inl (failed kind l ReadFailed errTypeStreamRead), call, st, snd c)
      else let (err, call1, st1, c1) = foldLine parse (fst x) (snd x) call st (l, snd c) in
        case err of
          Some e \<Rightarrow> (Inl (failed kind (fst c1) (DecodeFailed e) errTypeDecode), call1, st1, snd c1)
        | None \<Rightarrow> scanLines parse kind scanErr rest call1 st1 c1)"

definition streamChat ::
    "(string \<Rightarrow> json option) \<Rightarrow> ctx_error \<Rightarrow> duration \<Rightarrow> lifetime \<Rightarrow> upstream \<Rightarrow> modelCall \<Rightarrow> streamState
     \<Rightarrow> (stream_error + string \<times> string) \<times> modelCall \<times> streamState \<times> string list" where
  "streamChat parse kind t l up call st =
     (let call1 = requestSent t call in
      case up of
        NoRequest \<Rightarrow> (Inl (failed kind l BadURL errTypeTransport), call1, st, [])
      | NoAnswer \<Rightarrow> (Inl (failed kind l CallFailed errTypeTransport), call1, st, [])
      | Status code body \<Rightarrow> (Inl (failed kind l (UpstreamStatus code (take 301 body)) errTypeTransport), call1, st, [])
      | Stream xs scanErr \<Rightarrow> scanLines parse kind scanErr xs call1 st (l, []))"

section \<open>The call\<close>

datatype send_error = UnknownTier string | Unencodable | Failed stream_error

text \<open>What a caller and a tracer see: the result, the segments, the request's headers and body, and the span.\<close>

record callReport =
  sentResult :: "send_error + string \<times> string"
  sentSegments :: "string list"
  sentRequest :: "(string \<times> (string \<times> string) list \<times> json) option"
  sentSpan :: "modelCall option"

text \<open>
  \<open>json.Marshal\<close> of the window's bytes: \<open>nil\<close> is \<open>null\<close>, and other bytes have to be JSON.
\<close>

definition encodeWindow :: "(string \<Rightarrow> json option) \<Rightarrow> string option \<Rightarrow> json option" where
  "encodeWindow parse w = (case w of None \<Rightarrow> Some JNull | Some b \<Rightarrow> parse b)"

definition SendStreamContext ::
    "url_parser \<Rightarrow> (string \<Rightarrow> string) \<Rightarrow> (string \<Rightarrow> json option) \<Rightarrow> (string \<rightharpoonup> Tier) \<Rightarrow> bool \<Rightarrow> ctx_error \<Rightarrow> duration
     \<Rightarrow> lifetime \<Rightarrow> upstream \<Rightarrow> string option \<Rightarrow> string \<Rightarrow> callReport" where
  "SendStreamContext parseURL getenv parse tiers rec kind t l up window tier =
     (case tiers tier of
        None \<Rightarrow> \<lparr>sentResult = Inl (UnknownTier tier), sentSegments = [], sentRequest = None, sentSpan = None\<rparr>
      | Some ep \<Rightarrow>
          (case encodeWindow parse window of
             None \<Rightarrow> \<lparr>sentResult = Inl Unencodable, sentSegments = [], sentRequest = None, sentSpan = None\<rparr>
           | Some w \<Rightarrow>
               (let call = startModelSpan parseURL rec tier (tModel ep) (tURL ep);
                    (res, call1, st, segs) = streamChat parse kind t l up call newStream;
                    errType = (case res of Inl e \<Rightarrow> seType e | Inr _ \<Rightarrow> '''');
                    win = (case window of None \<Rightarrow> '''' | Some b \<Rightarrow> b)
                in \<lparr>sentResult = map_sum Failed id res, sentSegments = segs,
                    sentRequest = (if up = NoRequest then None
                      else Some (tURL ep, requestHeaders ep, buildStreamPayload ep w)),
                    sentSpan = Some (span_end getenv parse st (tMaxTokens ep) win errType call1)\<rparr>)))"

text \<open>\<open>SendContext\<close> is the same without a use for the segments.\<close>

definition SendContext where
  "SendContext parseURL getenv parse tiers rec kind t l up window tier =
     sentResult (SendStreamContext parseURL getenv parse tiers rec kind t l up window tier)"

end
