(* ===== verification/DriverProps.thy ===== *)
theory DriverProps
  imports DriverSend
begin

text \<open>
  What a streamed answer comes to: the text is that of the chunks, the segments are the pieces of the text, however the
  text was cut into chunks, and a context that ends leaves a prefix of them.  What a span holds: nothing of the messages, of the
  answer or of the key, unless message content is to be captured.
\<close>

section \<open>The segments of an answer\<close>

text \<open>The chunks of the lines up to the first that is refused, and whether one is.\<close>

fun deltas :: "(string \<Rightarrow> json option) \<Rightarrow> string list \<Rightarrow> sseDelta list" where
  "deltas parse [] = []"
| "deltas parse (x # xs) =
     (case decodeSSELine parse x of
        Inl _ \<Rightarrow> [] | Inr None \<Rightarrow> deltas parse xs | Inr (Some d) \<Rightarrow> d # deltas parse xs)"

definition all_decode :: "(string \<Rightarrow> json option) \<Rightarrow> string list \<Rightarrow> bool" where
  "all_decode parse xs \<longleftrightarrow> list_all (\<lambda>x. case decodeSSELine parse x of Inl _ \<Rightarrow> False | Inr _ \<Rightarrow> True) xs"

lemma all_decode_simps [simp]:
  "all_decode parse []"
  "all_decode parse (x # xs) \<longleftrightarrow> (\<exists>y. decodeSSELine parse x = Inr y) \<and> all_decode parse xs"
  by (auto simp: all_decode_def split: sum.splits)

definition text_of :: "sseDelta list \<Rightarrow> string" where
  "text_of ds = concat (map dContent ds)"

text \<open>
  A state in which the text \<open>s\<close> and the reasoning \<open>r\<close> have been received: the unfinished piece is in the accumulator, and
  what was delivered is a prefix of the pieces that are finished, all of them while the context lives.
\<close>

definition finished :: "string \<Rightarrow> string list" where
  "finished s = filter nonblank (fst (complete minSegmentChars [] s))"

definition received :: "string \<Rightarrow> string \<Rightarrow> streamState \<Rightarrow> lifetime \<times> string list \<Rightarrow> bool" where
  "received s r st c \<longleftrightarrow>
     contentBuf st = s \<and> reasoningBuf st = r \<and> hasContent st = (s \<noteq> []) \<and> saMin (acc st) = minSegmentChars
     \<and> saBuf (acc st) = snd (complete minSegmentChars [] s)
     \<and> prefix (snd c) (finished s) \<and> (fst c \<noteq> Some 0 \<longrightarrow> snd c = finished s)"

lemma finished_append: "prefix (finished s) (finished (s @ t))"
  by (auto simp: finished_def complete_append Let_def split: prod.splits)

lemma finished_spoken: "prefix (finished s) (spokenPieces s)"
  by (auto simp: finished_def spokenPieces_def pieces_complete)

lemma spoken_finished:
  "spokenPieces s = finished s @ (let r = snd (complete minSegmentChars [] s) in if nonblank r then [r] else [])"
  by (auto simp: finished_def spokenPieces_def pieces_complete Let_def)

lemma received_new: "received [] [] newStream (l, [])"
  by (simp add: received_def newStream_def newSegmentAccumulator_def finished_def)

lemma received_prefix: "received s r st c \<Longrightarrow> prefix (snd c) (spokenPieces (s @ t))"
  using finished_append [of s t] finished_spoken [of "s @ t"] by (auto simp: received_def dest: prefix_order.trans)

lemma check_alive: "check l = (False, l') \<Longrightarrow> l \<noteq> Some 0"
  by (cases l rule: check.cases) auto

lemma received_alive:
  assumes "received s r st c" "check (fst c) = (False, l)"
  shows "received s r st (l, snd c)" "snd c = finished s"
  using assms check_alive [OF assms(2)] by (auto simp: received_def)

lemma received_delta:
  assumes rec: "received s r st (l, out)" and out: "out = finished s" and dec: "decodeSSELine parse x = Inr (Some d)"
    and step: "processSSELine parse x st (l, out) = (err, st', c')"
  shows "err = None" "received (s @ dContent d) (r @ reasoningText d) st' c'" "l = None \<Longrightarrow> fst c' = None"
proof -
  obtain ps q where cp: "complete minSegmentChars (snd (complete minSegmentChars [] s)) (dContent d) = (ps, q)"
    by fastforce
  have c': "c' = deliver (l, out) (filter nonblank ps)" and err: "err = None"
    and st': "st' = (applyDelta d st)\<lparr>acc := (acc st)\<lparr>saBuf := q\<rparr>\<rparr>"
    using step rec cp by (auto simp: processSSELine_def dec writeAll_complete received_def applyDelta_def Let_def)
  have fin: "finished (s @ dContent d) = finished s @ filter nonblank ps"
    and rest: "snd (complete minSegmentChars [] (s @ dContent d)) = q"
    using cp by (auto simp: finished_def complete_append Let_def split: prod.splits)
  show "err = None" by (fact err)
  show "l = None \<Longrightarrow> fst c' = None" by (simp add: c' deliver_alive)
  obtain k where "snd c' = out @ take k (filter nonblank ps)"
    "fst c' \<noteq> Some 0 \<longrightarrow> k = length (filter nonblank ps)"
    using deliver_prefix [of l out "filter nonblank ps"] by (auto simp: c')
  then show "received (s @ dContent d) (r @ reasoningText d) st' c'"
    using rec out fin rest by (auto simp: received_def st' applyDelta_def take_is_prefix)
qed

lemma decodeSSELine_cases:
  obtains e where "decodeSSELine parse x = Inl e" | "decodeSSELine parse x = Inr None"
    | d where "decodeSSELine parse x = Inr (Some d)"
  by (metis obj_sumE option.exhaust)

lemma foldLine_step:
  assumes "foldLine parse t x call st c = (err, call1, st1, c1)"
  shows "processSSELine parse x st c = (err, st1, c1)"
  using assms by (auto simp: foldLine_def Let_def split: prod.splits)

abbreviation lines_of :: "(duration \<times> string) list \<Rightarrow> string list" where
  "lines_of xs \<equiv> map snd xs"

lemma scan_exact:
  assumes "received s r st c" "scanLines parse kind e xs call st c = (res, call', st', out)"
  shows "prefix out (spokenPieces (s @ text_of (deltas parse (lines_of xs))))
    \<and> (case res of Inl _ \<Rightarrow> True
       | Inr (content, reasoning) \<Rightarrow>
           content = s @ text_of (deltas parse (lines_of xs)) \<and> content \<noteq> [] \<and> out = spokenPieces content
           \<and> \<not> e \<and> all_decode parse (lines_of xs)
           \<and> reasoning = r @ concat (map reasoningText (deltas parse (lines_of xs))))"
  using assms
proof (induction xs arbitrary: s r st c call)
  case Nil
  obtain dn l where ck: "check (fst c) = (dn, l)" by fastforce
  show ?case
  proof (cases "e \<or> dn \<or> \<not> hasContent st")
    case True
    then show ?thesis using Nil ck received_prefix [OF Nil.prems(1), of "[]"]
      by (auto simp: text_of_def Let_def split: if_splits)
  next
    case False
    then have fin: "snd c = finished s" and rec: "received s r st c"
      using received_alive(2) [OF Nil.prems(1)] ck Nil.prems(1) by auto
    have "seg_flush (acc st) = (if nonblank (saBuf (acc st)) then Some (saBuf (acc st)) else None, (acc st)\<lparr>saBuf := []\<rparr>)"
      by (simp add: seg_flush_def seg_take_def nonblank_def)
    then show ?thesis using Nil.prems(2) ck False fin rec
      by (auto simp: text_of_def Let_def spoken_finished received_def)
  qed
next
  case (Cons x xs)
  obtain dn l where ck: "check (fst c) = (dn, l)" by fastforce
  show ?case
  proof (cases "dn")
    case True
    then show ?thesis using Cons.prems ck received_prefix [OF Cons.prems(1)] by (auto simp: Let_def)
  next
    case False
    have rec: "received s r st (l, snd c)" and fin: "snd c = finished s"
      using received_alive [OF Cons.prems(1)] ck False by auto
    obtain err call1 st1 c1 where fold: "foldLine parse (fst x) (snd x) call st (l, snd c) = (err, call1, st1, c1)"
      using prod_cases4 by blast
    note step = foldLine_step [OF fold]
    show ?thesis
    proof (cases rule: decodeSSELine_cases [of parse "snd x"])
      case (1 y)
      then have "err = Some y" "st1 = st" "c1 = (l, snd c)" using step by (auto simp: processSSELine_def)
      then show ?thesis using Cons.prems(2) ck False fold 1 received_prefix [OF rec, of "[]"]
        by (auto simp: text_of_def Let_def)
    next
      case 2
      then have "err = None" "st1 = st" "c1 = (l, snd c)" using step by (auto simp: processSSELine_def)
      then show ?thesis using Cons.IH [OF rec] Cons.prems(2) ck False fold 2
        by (auto simp: Let_def split: sum.splits)
    next
      case (3 d)
      note upd = received_delta [OF rec fin 3 step]
      then have "scanLines parse kind e xs call1 st1 c1 = (res, call', st', out)"
        using Cons.prems(2) ck False fold by (auto simp: Let_def)
      from Cons.IH [OF upd(2) this] show ?thesis
        using 3 by (auto simp: text_of_def split: sum.splits)
    qed
  qed
qed

lemma scan_returns:
  assumes "received s r st (None, out)" "all_decode parse (lines_of xs)" "s @ text_of (deltas parse (lines_of xs)) \<noteq> []"
  shows "\<exists>y. fst (scanLines parse kind False xs call st (None, out)) = Inr y"
  using assms
proof (induction xs arbitrary: s r st out call)
  case Nil
  then show ?case by (auto simp: received_def text_of_def Let_def split: prod.splits)
next
  case (Cons x xs)
  have out: "out = finished s" using Cons.prems(1) by (simp add: received_def)
  obtain err call1 st1 c1 where fold: "foldLine parse (fst x) (snd x) call st (None, out) = (err, call1, st1, c1)"
    using prod_cases4 by blast
  note step = foldLine_step [OF fold]
  show ?case
  proof (cases rule: decodeSSELine_cases [of parse "snd x"])
    case (1 y)
    then show ?thesis using Cons.prems(2) by simp
  next
    case 2
    then have "err = None" "st1 = st" "c1 = (None, out)" using step by (auto simp: processSSELine_def)
    then show ?thesis using Cons fold 2 by (auto simp: Let_def)
  next
    case (3 d)
    note upd = received_delta [OF Cons.prems(1) out 3 step]
    obtain out1 where c1: "c1 = (None, out1)" using upd(3) by (cases c1) auto
    show ?thesis using Cons.IH [of "s @ dContent d" _ st1 out1] upd(1,2) Cons.prems(2,3) 3 fold c1
      by (auto simp: text_of_def Let_def)
  qed
qed

section \<open>What a span holds\<close>

text \<open>What of a line a span may depend on: how it decodes, with the text reduced to whether there is some.\<close>

definition line_shape :: "(string \<Rightarrow> json option) \<Rightarrow> string \<Rightarrow> bool + (bool \<times> sseDelta) option" where
  "line_shape parse x =
     (case decodeSSELine parse x of
        Inl e \<Rightarrow> Inl (e = Malformed)
      | Inr None \<Rightarrow> Inr None
      | Inr (Some d) \<Rightarrow>
          Inr (Some (dContent d = '''', d\<lparr>dContent := '''', dReasoningContent := '''', dReasoning := ''''\<rparr>)))"

fun same_shape :: "(string \<Rightarrow> json option) \<Rightarrow> upstream \<Rightarrow> upstream \<Rightarrow> bool" where
  "same_shape parse NoRequest NoRequest = True"
| "same_shape parse NoAnswer NoAnswer = True"
| "same_shape parse (Status code body) (Status code' body') = (code = code')"
| "same_shape parse (Stream xs e) (Stream ys e') =
     (e = e' \<and> list_all2 (\<lambda>x y. fst x = fst y \<and> line_shape parse (snd x) = line_shape parse (snd y)) xs ys)"
| "same_shape parse _ _ = False"

text \<open>Two streams that differ in their text alone.\<close>

definition erase :: "streamState \<Rightarrow> streamState" where
  "erase st = st\<lparr>contentBuf := '''', reasoningBuf := '''', acc := newSegmentAccumulator 0\<rparr>"

definition outcome_type :: "stream_error + 'a \<Rightarrow> string option" where
  "outcome_type res = (case res of Inl e \<Rightarrow> Some (seType e) | Inr _ \<Rightarrow> None)"

lemma outcome_type_simps [simp]: "outcome_type (Inl e) = Some (seType e)" "outcome_type (Inr y) = None"
  by (simp_all add: outcome_type_def)

lemma failed_type_alive:
  "seType (failed kind None err fb) =
     (case err of UpstreamStatus code _ \<Rightarrow> itoa code | DecodeFailed (UpstreamPayload _) \<Rightarrow> errTypeUpstream | _ \<Rightarrow> fb)"
  by (simp add: failed_def streamErrorType_def Let_def)

lemma erase_iff:
  "erase st = erase st' \<longleftrightarrow>
     hasContent st = hasContent st' \<and> chunksSeen st = chunksSeen st' \<and> finishReason st = finishReason st'
     \<and> ssModel st = ssModel st' \<and> ssId st = ssId st' \<and> ssUsage st = ssUsage st'"
  by (cases st; cases st') (auto simp: erase_def)

lemma process_alive: "processSSELine parse x st (None, out) = (err, st1, c1) \<Longrightarrow> fst c1 = None"
  by (auto simp: processSSELine_def writeAll_complete deliver_alive Let_def split: sum.splits option.splits prod.splits)

lemma shape_delta:
  fixes d d' :: sseDelta
  shows "d\<lparr>dContent := '''', dReasoningContent := '''', dReasoning := ''''\<rparr>
     = d'\<lparr>dContent := '''', dReasoningContent := '''', dReasoning := ''''\<rparr> \<longleftrightarrow>
   dFinish d = dFinish d' \<and> dModel d = dModel d' \<and> dId d = dId d' \<and> dUsage d = dUsage d'"
  by (cases d; cases d') auto

lemma applyDelta_erase:
  assumes "erase st = erase st'" "dContent d = '''' \<longleftrightarrow> dContent d' = ''''"
    "d\<lparr>dContent := '''', dReasoningContent := '''', dReasoning := ''''\<rparr>
     = d'\<lparr>dContent := '''', dReasoningContent := '''', dReasoning := ''''\<rparr>"
  shows "erase ((applyDelta d st)\<lparr>acc := a\<rparr>) = erase ((applyDelta d' st')\<lparr>acc := a'\<rparr>)"
  using assms unfolding shape_delta erase_iff by (simp add: applyDelta_def split: option.split)

lemma process_cases:
  "processSSELine parse x st c =
     (case decodeSSELine parse x of
        Inl e \<Rightarrow> (Some e, st, c)
      | Inr None \<Rightarrow> (None, st, c)
      | Inr (Some d) \<Rightarrow>
          (None, (applyDelta d st)\<lparr>acc := fst (writeAll (dContent d) (acc (applyDelta d st)) c)\<rparr>,
           snd (writeAll (dContent d) (acc (applyDelta d st)) c)))"
  by (simp add: processSSELine_def Let_def split_def split: sum.split option.split)

lemma process_erase:
  assumes "line_shape parse x = line_shape parse y" "erase st = erase st'"
    "processSSELine parse x st (None, out) = (err, st1, c1)" "processSSELine parse y st' (None, out') = (err', st1', c1')"
  shows "erase st1 = erase st1'" "map_option ((=) Malformed) err = map_option ((=) Malformed) err'"
proof -
  have "erase st1 = erase st1' \<and> map_option ((=) Malformed) err = map_option ((=) Malformed) err'"
  proof (cases rule: decodeSSELine_cases [of parse x])
    case (1 e)
    with assms show ?thesis
      by (cases rule: decodeSSELine_cases [of parse y]) (auto simp: line_shape_def process_cases)
  next
    case 2
    with assms show ?thesis
      by (cases rule: decodeSSELine_cases [of parse y]) (auto simp: line_shape_def process_cases)
  next
    case (3 d)
    then obtain d' where "decodeSSELine parse y = Inr (Some d')"
      using assms(1) by (cases rule: decodeSSELine_cases [of parse y]) (auto simp: line_shape_def)
    with 3 assms show ?thesis
      by (auto simp: line_shape_def process_cases intro: applyDelta_erase)
  qed
  then show "erase st1 = erase st1'" "map_option ((=) Malformed) err = map_option ((=) Malformed) err'" by auto
qed

lemma fold_erase:
  assumes "line_shape parse x = line_shape parse y" "erase st = erase st'"
    "foldLine parse t x call st (None, out) = (err, call1, st1, c1)"
    "foldLine parse t y call st' (None, out') = (err', call1', st1', c1')"
  shows "erase st1 = erase st1'" "map_option ((=) Malformed) err = map_option ((=) Malformed) err'" "call1 = call1'"
    "fst c1 = None" "fst c1' = None"
proof -
  note steps = foldLine_step [OF assms(3)] foldLine_step [OF assms(4)]
  show e: "erase st1 = erase st1'" and "map_option ((=) Malformed) err = map_option ((=) Malformed) err'"
    using process_erase [OF assms(1,2) steps] by auto
  show "call1 = call1'"
    using assms(2-4) e steps by (auto simp: foldLine_def erase_iff call_observe_def)
  show "fst c1 = None" "fst c1' = None" using process_alive steps by auto
qed

lemma failed_decode_alive:
  "map_option ((=) Malformed) (Some e) = map_option ((=) Malformed) (Some e') \<Longrightarrow>
   seType (failed kind None (DecodeFailed e) fb) = seType (failed kind None (DecodeFailed e') fb)"
  by (cases e; cases e') (auto simp: failed_type_alive)

lemma scan_erase:
  assumes "list_all2 (\<lambda>x y. fst x = fst y \<and> line_shape parse (snd x) = line_shape parse (snd y)) xs ys"
    "erase st = erase st'"
    "scanLines parse kind e xs call st (None, out) = (res, call1, st1, segs)"
    "scanLines parse kind e ys call st' (None, out') = (res', call1', st1', segs')"
  shows "outcome_type res = outcome_type res' \<and> call1 = call1' \<and> erase st1 = erase st1'"
  using assms
proof (induction xs ys arbitrary: st st' out out' call rule: list_all2_induct)
  case Nil
  then show ?case by (auto simp: erase_iff failed_type_alive Let_def split: if_splits prod.splits)
next
  case (Cons x xs y ys)
  obtain err call2 st2 c2 where fx: "foldLine parse (fst x) (snd x) call st (None, out) = (err, call2, st2, c2)"
    using prod_cases4 by blast
  obtain err' call2' st2' c2' where fy: "foldLine parse (fst x) (snd y) call st' (None, out') = (err', call2', st2', c2')"
    using prod_cases4 by blast
  note eq = fold_erase [OF conjunct2 [OF Cons.hyps(1)] Cons.prems(1) fx fy]
  obtain o2 where c2: "c2 = (None, o2)" using eq(4) by (cases c2) auto
  obtain o2' where c2': "c2' = (None, o2')" using eq(5) by (cases c2') auto
  show ?case
  proof (cases err)
    case None
    then have "err' = None" using eq(2) by simp
    then show ?thesis
      using Cons.IH [of st2 st2' call2 o2 o2'] Cons.prems(2,3) Cons.hyps(1) fx fy eq(1,3) None c2 c2' by simp
  next
    case (Some m)
    then obtain m' where m': "err' = Some m'" using eq(2) by (cases err') auto
    have ty: "seType (failed kind None (DecodeFailed m) errTypeDecode) = seType (failed kind None (DecodeFailed m') errTypeDecode)"
      using failed_decode_alive eq(2) Some m' by blast
    have "res = Inl (failed kind None (DecodeFailed m) errTypeDecode) \<and> call1 = call2 \<and> st1 = st2"
      using Cons.prems(2) fx c2 Some by simp
    moreover have "res' = Inl (failed kind None (DecodeFailed m') errTypeDecode) \<and> call1' = call2' \<and> st1' = st2'"
      using Cons.prems(3) Cons.hyps(1) fy c2' m' by simp
    ultimately show ?thesis using ty eq(1,3) by simp
  qed
qed

lemma chat_erase:
  assumes "same_shape parse up up'"
    "streamChat parse kind t None up call st = (res, call1, st1, segs)"
    "streamChat parse kind t None up' call st = (res', call1', st1', segs')"
  shows "outcome_type res = outcome_type res' \<and> call1 = call1' \<and> erase st1 = erase st1'"
proof (cases "\<exists>xs e. up = Stream xs e")
  case True
  then show ?thesis using assms by (cases up') (auto simp: streamChat_def dest: scan_erase [OF _ refl])
next
  case False
  then show ?thesis
    using assms by (cases up; cases up') (auto simp: streamChat_def failed_type_alive)
qed

lemma end_erase:
  assumes "\<not> captureMessageContent getenv" "erase st = erase st'"
  shows "span_end getenv parse st n w ty call = span_end getenv parse st' n w' ty call"
proof -
  note eqs = assms(2) [unfolded erase_iff]
  have "finishReason st = finishReason st'" "ssModel st = ssModel st'" "ssId st = ssId st'" "ssUsage st = ssUsage st'"
    using eqs by blast+
  then show ?thesis unfolding span_end_def by (simp only: assms(1) if_False)
qed

section \<open>The request as a whole\<close>

text \<open>A tier, an answer in two chunks, and the same answer with other words.\<close>

definition exTier :: Tier where
  "exTier = \<lparr>tURL = ''u'', tModel = ''m'', tReasoning = False, tMaxTokens = 512, tAPIKey = '''', NoTools = True,
     IncludeUsage = False\<rparr>"

definition exChunk :: "string \<Rightarrow> json" where
  "exChunk s = JObj [(''choices'', JArr [JObj [(''delta'', JObj [(''content'', JStr s)])]])]"

definition exParse :: "string \<Rightarrow> json option" where
  "exParse s =
     (if s = ''[]'' then Some (JArr [])
      else if s = ''1'' then Some (exChunk ''Hello there, this'')
      else if s = ''2'' then Some (exChunk '' is the answer. Bye'')
      else if s = ''3'' then Some (exChunk ''Other'')
      else None)"

lemma exDecode:
  "decodeSSELine exParse ''data: 1'' = Inr (Some (zeroDelta\<lparr>dContent := ''Hello there, this''\<rparr>))"
  "decodeSSELine exParse ''data: 2'' = Inr (Some (zeroDelta\<lparr>dContent := '' is the answer. Bye''\<rparr>))"
  "decodeSSELine exParse ''data: 3'' = Inr (Some (zeroDelta\<lparr>dContent := ''Other''\<rparr>))"
  by (simp_all add: decodeSSELine_def exParse_def exChunk_def doc_members_def decodeChunk_def members_def decodeChoice_def
      string_field_def struct_field_def zeroDelta_def toLower_def toLower_char_def Let_def)

text \<open>C32: A streamed request of the driver speaks exactly its answer.  Whatever the chunks the text arrives in, when the call
  succeeds the content is the text of all the chunks, no line was refused, and the segments handed on are the non-blank
  pieces of that text, in order; the pieces make up the text, and each but the last ends at a delimiter and is at least
  thirty bytes long.  When the call fails, at whatever line or segment the context ends, what was handed on is a prefix of
  those pieces.  A call whose context lives, whose stream is read to its end, whose lines decode and carry some text
  succeeds.
\<close>

theorem stream_segments_exact:
  assumes "tiers tier = Some ep" "encodeWindow parse window = Some w"
  shows "let r = SendStreamContext parseURL getenv parse tiers rec kind t l (Stream xs scanErr) window tier;
             ds = deltas parse (lines_of xs)
    in concat (pieces minSegmentChars [] (text_of ds)) = text_of ds
      \<and> (\<forall>p \<in> set (butlast (pieces minSegmentChars [] (text_of ds))). isSegmentDelimiter (last p) \<and> 30 \<le> length p)
      \<and> prefix (sentSegments r) (spokenPieces (text_of ds))
      \<and> (case sentResult r of Inl _ \<Rightarrow> True
         | Inr (content, reasoning) \<Rightarrow>
             content = text_of ds \<and> content \<noteq> [] \<and> sentSegments r = spokenPieces content
             \<and> \<not> scanErr \<and> all_decode parse (lines_of xs) \<and> reasoning = concat (map reasoningText ds))
      \<and> (l = None \<and> \<not> scanErr \<and> all_decode parse (lines_of xs) \<and> text_of ds \<noteq> [] \<longrightarrow> (\<exists>y. sentResult r = Inr y))"
proof -
  let ?call = "requestSent t (startModelSpan parseURL rec tier (tModel ep) (tURL ep))"
  obtain res call1 st segs where run: "scanLines parse kind scanErr xs ?call newStream (l, []) = (res, call1, st, segs)"
    using prod_cases4 by blast
  have ret: "\<exists>y. res = Inr y"
    if "l = None" "\<not> scanErr" "all_decode parse (lines_of xs)" "text_of (deltas parse (lines_of xs)) \<noteq> []"
    using scan_returns [OF received_new [of None] that(3), of kind ?call] that run by simp
  show ?thesis
    using scan_exact [OF received_new run] ret concat_pieces [of minSegmentChars "[]"] pieces_shape [of minSegmentChars "[]"]
    by (auto simp: SendStreamContext_def assms streamChat_def run minSegmentChars_def Let_def map_sum_def split: sum.splits)
qed

theorem stream_segments_exact_witness:
  "sentResult (SendStreamContext (\<lambda>_. None) (\<lambda>_. '''') exParse [''fast'' \<mapsto> exTier] True Canceled 0 None
      (Stream [(1, ''data: 1''), (2, ''''), (3, ''data: 2''), (4, ''data: [DONE]'')] False) (Some ''[]'') ''fast'')
     = Inr (''Hello there, this is the answer. Bye'', '''')
   \<and> sentSegments (SendStreamContext (\<lambda>_. None) (\<lambda>_. '''') exParse [''fast'' \<mapsto> exTier] True Canceled 0 None
      (Stream [(1, ''data: 1''), (2, ''''), (3, ''data: 2''), (4, ''data: [DONE]'')] False) (Some ''[]'') ''fast'')
     = [''Hello there, this is the answer.'', '' Bye'']"
proof -
  let ?xs = "[(1, ''data: 1''), (2, ''''), (3, ''data: 2''), (4, ''data: [DONE]'')] :: (duration \<times> string) list"
  have one: "decodeSSELine exParse ''data: 1'' = Inr (Some (zeroDelta\<lparr>dContent := ''Hello there, this''\<rparr>))"
    and two: "decodeSSELine exParse ''data: 2'' = Inr (Some (zeroDelta\<lparr>dContent := '' is the answer. Bye''\<rparr>))"
    by (rule exDecode)+
  have none: "decodeSSELine exParse '''' = Inr None" "decodeSSELine exParse ''data: [DONE]'' = Inr None"
    by (simp_all add: decodeSSELine_def)
  note decs = one two none
  have dec: "all_decode exParse (lines_of ?xs)" by (simp add: decs)
  have ct: "text_of (deltas exParse (lines_of ?xs)) = ''Hello there, this is the answer. Bye''"
    by (simp add: text_of_def decs)
  have rsn: "concat (map reasoningText (deltas exParse (lines_of ?xs))) = ''''"
    by (simp add: decs reasoningText_def zeroDelta_def)
  have spk: "spokenPieces ''Hello there, this is the answer. Bye'' = [''Hello there, this is the answer.'', '' Bye'']" by code_simp
  have win: "encodeWindow exParse (Some ''[]'') = Some (JArr [])" by code_simp
  have tier: "[''fast'' \<mapsto> exTier] ''fast'' = Some exTier" by simp
  show ?thesis
    using stream_segments_exact [of "[''fast'' \<mapsto> exTier]" "''fast''" exTier exParse "Some ''[]''" "JArr []",
      OF tier win, of "\<lambda>_. None" "\<lambda>_. ''''" True Canceled 0 None ?xs False] dec
    unfolding Let_def ct rsn by (auto simp: spk split: sum.splits prod.splits)
qed



end
