(* ===== verification/DriverSpeech.thy ===== *)
theory DriverSpeech
  imports Service "HOL-Library.Sublist" "HOL-Library.Multiset"
begin

text \<open>
  The speech of the driver: the reduction of an answer to plain prose (\<open>speechText\<close> in \<open>driver/driver.go\<close>) and the serial
  queue of clips (\<open>driver/speech.go\<close>), a channel of 32 clips with one worker, any number of callers and any number of
  cancellations, whose steps interleave.
\<close>

section \<open>Plain prose\<close>

text \<open>The text after the first occurrence of a delimiter, and the text before it.\<close>

fun split_at :: "string \<Rightarrow> string \<Rightarrow> (string \<times> string) option" where
  "split_at d [] = (if d = [] then Some ([], []) else None)"
| "split_at d (c # cs) =
     (if has_prefix d (c # cs) then Some ([], drop (length d) (c # cs))
      else map_option (\<lambda>(a, b). (c # a, b)) (split_at d cs))"

lemma split_at_shorter: "split_at d s = Some (a, b) \<Longrightarrow> length b \<le> length s"
  by (induction d s arbitrary: a b rule: split_at.induct) (auto split: if_splits intro: le_SucI)

definition fence :: string where "fence = ''```''"

text \<open>\<open>reFenced.ReplaceAllString(s, " ")\<close>: from a fence to the next one.\<close>

function stripFenced :: "string \<Rightarrow> string" where
  "stripFenced [] = []"
| "stripFenced (c # cs) =
     (if has_prefix fence (c # cs) then
        (case split_at fence (drop 3 (c # cs)) of
           None \<Rightarrow> c # stripFenced cs
         | Some (_, rest) \<Rightarrow> CHR '' '' # stripFenced rest)
      else c # stripFenced cs)"
  by pat_completeness auto
termination
  by (relation "measure length") (auto dest: split_at_shorter)

text \<open>\<open>reLink.ReplaceAllString(s, "$1")\<close>: a bracketed text that a parenthesis follows at once.\<close>

definition matchLink :: "string \<Rightarrow> (string \<times> string) option" where
  "matchLink cs =
     (case split_at '']'' cs of
        Some (label, r) \<Rightarrow>
          (case r of
             p # r1 \<Rightarrow> if p = CHR ''('' then (case split_at '')'' r1 of Some (_, rest) \<Rightarrow> Some (label, rest) | None \<Rightarrow> None) else None
           | [] \<Rightarrow> None)
      | None \<Rightarrow> None)"

lemma matchLink_shorter: "matchLink cs = Some (label, rest) \<Longrightarrow> length rest < length cs"
  by (auto simp: matchLink_def split: option.splits list.splits if_splits dest!: split_at_shorter)

function unwrapLinks :: "string \<Rightarrow> string" where
  "unwrapLinks [] = []"
| "unwrapLinks (c # cs) =
     (if c = CHR ''['' then
        (case matchLink cs of Some (label, rest) \<Rightarrow> label @ unwrapLinks rest | None \<Rightarrow> c # unwrapLinks cs)
      else c # unwrapLinks cs)"
  by pat_completeness auto
termination
  by (relation "measure length") (auto dest: matchLink_shorter)

text \<open>\<open>reListLead.ReplaceAllString(s, "")\<close>: blanks, a bullet or a number with a dot, and at least one blank, at the start of a
  line.\<close>

definition is_blank :: "char \<Rightarrow> bool" where
  "is_blank c \<longleftrightarrow> c = CHR '' '' \<or> c = CHR 0x09"

definition matchListLead :: "string \<Rightarrow> string option" where
  "matchListLead s =
     (let s1 = dropWhile is_blank s;
          after =
            (case s1 of
               [] \<Rightarrow> None
             | c # cs \<Rightarrow>
                 if c \<in> {CHR ''-'', CHR ''+'', CHR ''*''} then Some cs
                 else if is_digit c then
                   (case dropWhile is_digit s1 of
                      d # ds \<Rightarrow> if d = CHR ''.'' then Some ds else None
                    | [] \<Rightarrow> None)
                 else None)
      in case after of
           Some (b # bs) \<Rightarrow> if is_blank b then Some (dropWhile is_blank bs) else None
         | _ \<Rightarrow> None)"

lemma dropWhile_shorter: "length (dropWhile P xs) \<le> length xs"
  by (induction xs) auto

lemma matchListLead_shorter: "matchListLead s = Some rest \<Longrightarrow> length rest < length s"
  using dropWhile_shorter [of is_blank s] dropWhile_shorter [of is_digit "dropWhile is_blank s"]
  by (auto simp: matchListLead_def Let_def split: list.splits if_splits
      intro: le_less_trans [OF dropWhile_shorter])

function stripLists :: "bool \<Rightarrow> string \<Rightarrow> string" where
  "stripLists bol [] = []"
| "stripLists bol (c # cs) =
     (case (if bol then matchListLead (c # cs) else None) of
        Some rest \<Rightarrow> stripLists False rest
      | None \<Rightarrow> c # stripLists (c = CHR 0x0A) cs)"
  by pat_completeness auto
termination
  by (relation "measure (\<lambda>(bol, s). length s)") (auto split: if_splits dest: matchListLead_shorter)

definition is_markup :: "char \<Rightarrow> bool" where
  "is_markup c \<longleftrightarrow> c \<in> {CHR 0x60, CHR ''*'', CHR ''_'', CHR ''#'', CHR ''>''}"

definition stripMarkup :: "string \<Rightarrow> string" where
  "stripMarkup s = filter (\<lambda>c. \<not> is_markup c) s"

definition speechText :: "string \<Rightarrow> string" where
  "speechText t = trimSpace (stripMarkup (stripLists True (unwrapLinks (stripFenced t))))"

text \<open>What is spoken has no markup left, and no blanks around it.\<close>

lemma strip_front_subset: "set (strip_front ps s) \<subseteq> set s"
proof (induction ps s rule: strip_front.induct)
  case (1 ps s)
  then show ?case
    by (subst strip_front.simps) (auto simp: Let_def dest: in_set_dropD)
qed

lemma trimSpace_subset: "set (trimSpace s) \<subseteq> set s"
  using strip_front_subset [of "map rev space_runes" "rev (strip_front space_runes s)"] strip_front_subset [of space_runes s]
  by (auto simp: trimSpace_def)

lemma speechText_plain: "list_all (\<lambda>c. \<not> is_markup c) (speechText t) \<and> trimSpace (speechText t) = speechText t"
  using trimSpace_subset by (fastforce simp: speechText_def stripMarkup_def list_all_iff)

section \<open>The queue\<close>

text \<open>A speed is the numeral \<open>json.Marshal\<close> writes for it, if it has one.\<close>

type_synonym speed = "string option"

text \<open>A clip; its \<open>done\<close> channel is a number.\<close>

record speechItem =
  siText :: string
  siVoice :: string
  siSpeed :: speed
  siDone :: nat

text \<open>
  The queue, the callers that wait for room in the channel, the clip being rendered, and the history: the clips sent into the
  channel, those taken out of it (by the worker or by a cancellation), and the \<open>done\<close> channels in the order they were closed.
\<close>

record speechQueue =
  sqCh :: "speechItem bufferedChan"
  sqCallers :: "speechItem list"
  sqNow :: "speechItem option"
  sqSent :: "speechItem list"
  sqTaken :: "(bool \<times> speechItem) list"
  sqClosed :: "nat list"
  sqNext :: nat

definition newSpeechQueue :: speechQueue where
  "newSpeechQueue = \<lparr>sqCh = newBufferedChan 32, sqCallers = [], sqNow = None, sqSent = [], sqTaken = [], sqClosed = [],
     sqNext = 0\<rparr>"

text \<open>\<open>enqueue\<close> makes a \<open>done\<close> channel and goes to the send, which succeeds when there is room.\<close>

definition enqueue :: "string \<Rightarrow> string \<Rightarrow> speed \<Rightarrow> speechQueue \<Rightarrow> nat \<times> speechQueue" where
  "enqueue text voice spd q =
     (sqNext q, q\<lparr>sqCallers := sqCallers q @ [\<lparr>siText = text, siVoice = voice, siSpeed = spd, siDone = sqNext q\<rparr>],
                  sqNext := sqNext q + 1\<rparr>)"

definition admitClip :: "nat \<Rightarrow> speechQueue \<Rightarrow> speechQueue option" where
  "admitClip i q =
     (if i < length (sqCallers q) then
        (case trySend (sqCh q) (sqCallers q ! i) of
           None \<Rightarrow> None
         | Some ch \<Rightarrow> Some (q\<lparr>sqCh := ch, sqSent := sqSent q @ [sqCallers q ! i],
                             sqCallers := take i (sqCallers q) @ drop (Suc i) (sqCallers q)\<rparr>))
      else None)"

text \<open>The worker: it takes a clip, renders it, and closes its channel.\<close>

definition workerTake :: "speechQueue \<Rightarrow> speechQueue option" where
  "workerTake q =
     (case sqNow q of
        Some _ \<Rightarrow> None
      | None \<Rightarrow>
          (case tryRecv (sqCh q) of
             None \<Rightarrow> None
           | Some (it, ch) \<Rightarrow> Some (q\<lparr>sqCh := ch, sqNow := Some it, sqTaken := sqTaken q @ [(True, it)]\<rparr>)))"

definition workerDone :: "speechQueue \<Rightarrow> speechQueue option" where
  "workerDone q =
     (case sqNow q of
        None \<Rightarrow> None
      | Some it \<Rightarrow> Some (q\<lparr>sqNow := None, sqClosed := sqClosed q @ [siDone it]\<rparr>))"

text \<open>One round of \<open>cancelQueued\<close>, and the loop of a cancellation that no other goroutine interrupts.\<close>

definition cancelOne :: "speechQueue \<Rightarrow> speechQueue option" where
  "cancelOne q =
     (case tryRecv (sqCh q) of
        None \<Rightarrow> None
      | Some (it, ch) \<Rightarrow> Some (q\<lparr>sqCh := ch, sqTaken := sqTaken q @ [(False, it)], sqClosed := sqClosed q @ [siDone it]\<rparr>))"

function cancelQueued :: "speechQueue \<Rightarrow> speechQueue" where
  "cancelQueued q = (case cancelOne q of None \<Rightarrow> q | Some q' \<Rightarrow> cancelQueued q')"
  by pat_completeness auto
termination
  by (relation "measure (\<lambda>q. length (chan_buf (sqCh q)))") (auto simp: cancelOne_def tryRecv_def split: list.splits)

declare cancelQueued.simps [simp del]

definition Speak :: "string \<Rightarrow> string \<Rightarrow> speed \<Rightarrow> speechQueue \<Rightarrow> speechQueue" where
  "Speak text voice spd q =
     (let plain = speechText text in if plain \<noteq> '''' then snd (enqueue plain voice spd q) else q)"

text \<open>\<open>SpeakSync\<close> returns once the channel it is given is closed, at once when there is nothing to say.\<close>

definition SpeakSync :: "string \<Rightarrow> string \<Rightarrow> speed \<Rightarrow> speechQueue \<Rightarrow> nat option \<times> speechQueue" where
  "SpeakSync text voice spd q =
     (let plain = speechText text in
      if plain \<noteq> '''' then (let (d, q') = enqueue plain voice spd q in (Some d, q')) else (None, q))"

definition sync_returned :: "nat option \<Rightarrow> speechQueue \<Rightarrow> bool" where
  "sync_returned d q = (case d of None \<Rightarrow> True | Some i \<Rightarrow> i \<in> set (sqClosed q))"

text \<open>The steps of the goroutines: those that move clips on, and all of them.\<close>

inductive serve_step :: "speechQueue \<Rightarrow> speechQueue \<Rightarrow> bool" where
  serve_send: "admitClip i q = Some q' \<Longrightarrow> serve_step q q'"
| serve_take: "workerTake q = Some q' \<Longrightarrow> serve_step q q'"
| serve_done: "workerDone q = Some q' \<Longrightarrow> serve_step q q'"

inductive speech_step :: "speechQueue \<Rightarrow> speechQueue \<Rightarrow> bool" where
  step_serve: "serve_step q q' \<Longrightarrow> speech_step q q'"
| step_speak: "speech_step q (Speak text voice spd q)"
| step_cancel: "cancelOne q = Some q' \<Longrightarrow> speech_step q q'"

inductive speech_reachable :: "speechQueue \<Rightarrow> bool" where
  speech_new: "speech_reachable newSpeechQueue"
| speech_more: "speech_reachable q \<Longrightarrow> speech_step q q' \<Longrightarrow> speech_reachable q'"

text \<open>The clips the worker started, in order, and those a cancellation dropped.\<close>

definition started :: "speechQueue \<Rightarrow> speechItem list" where
  "started q = map snd (filter fst (sqTaken q))"

definition dropped :: "speechQueue \<Rightarrow> speechItem list" where
  "dropped q = map snd (filter (\<lambda>x. \<not> fst x) (sqTaken q))"

definition now_list :: "speechQueue \<Rightarrow> speechItem list" where
  "now_list q = (case sqNow q of None \<Rightarrow> [] | Some it \<Rightarrow> [it])"

definition speech_inv :: "speechQueue \<Rightarrow> bool" where
  "speech_inv q \<longleftrightarrow>
     chan_cap (sqCh q) = 32 \<and> length (chan_buf (sqCh q)) \<le> 32
     \<and> sqSent q = map snd (sqTaken q) @ chan_buf (sqCh q)
     \<and> mset (map siDone (sqSent q @ sqCallers q)) = mset [0..<sqNext q]
     \<and> mset (sqClosed q) + mset (map siDone (now_list q)) = mset (map (siDone \<circ> snd) (sqTaken q))
     \<and> (\<forall>it. sqNow q = Some it \<longrightarrow> started q \<noteq> [] \<and> last (started q) = it)"

lemma inv_new: "speech_inv newSpeechQueue"
  by (simp add: speech_inv_def newSpeechQueue_def newBufferedChan_def now_list_def)

lemma inv_send: "speech_inv q \<Longrightarrow> admitClip i q = Some q' \<Longrightarrow> speech_inv q'"
proof -
  assume inv: "speech_inv q" and s: "admitClip i q = Some q'"
  then obtain ch where i: "i < length (sqCallers q)" and ch: "trySend (sqCh q) (sqCallers q ! i) = Some ch"
    and q': "q' = q\<lparr>sqCh := ch, sqSent := sqSent q @ [sqCallers q ! i],
      sqCallers := take i (sqCallers q) @ drop (Suc i) (sqCallers q)\<rparr>"
    by (auto simp: admitClip_def split: if_splits option.splits)
  have "mset (sqCallers q) = mset (take i (sqCallers q)) + {#sqCallers q ! i#} + mset (drop (Suc i) (sqCallers q))"
    using arg_cong [OF id_take_nth_drop [OF i], of mset] by (simp add: ac_simps)
  then have "image_mset siDone (mset (sqCallers q)) = image_mset siDone
      (mset (take i (sqCallers q)) + {#sqCallers q ! i#} + mset (drop (Suc i) (sqCallers q)))" by simp
  then show "speech_inv q'"
    using inv ch by (auto simp: speech_inv_def q' trySend_def chan_room_def now_list_def started_def ac_simps multiset.map_comp
        split: if_splits)
qed

lemma inv_take: "speech_inv q \<Longrightarrow> workerTake q = Some q' \<Longrightarrow> speech_inv q'"
  by (auto simp: speech_inv_def workerTake_def tryRecv_def now_list_def started_def split: option.splits list.splits)

lemma inv_done: "speech_inv q \<Longrightarrow> workerDone q = Some q' \<Longrightarrow> speech_inv q'"
  by (auto simp: speech_inv_def workerDone_def now_list_def split: option.splits)

lemma inv_cancel: "speech_inv q \<Longrightarrow> cancelOne q = Some q' \<Longrightarrow> speech_inv q'"
  by (auto simp: speech_inv_def cancelOne_def tryRecv_def now_list_def started_def split: option.splits list.splits)

lemma inv_speak: "speech_inv q \<Longrightarrow> speech_inv (Speak text voice spd q)"
  by (auto simp: speech_inv_def Speak_def enqueue_def now_list_def started_def Let_def simp del: mset_upt)

lemmas inv_steps = inv_send inv_take inv_done inv_cancel inv_speak

lemma inv_serve: "serve_step q q' \<Longrightarrow> speech_inv q \<Longrightarrow> speech_inv q'"
  by (auto elim!: serve_step.cases intro: inv_steps)

lemma inv_reachable: "speech_reachable q \<Longrightarrow> speech_inv q"
  by (induction rule: speech_reachable.induct) (auto simp: inv_new elim!: speech_step.cases intro: inv_serve inv_steps)

section \<open>What the queue promises\<close>

lemma started_subseq: "subseq (started q) (map snd (sqTaken q))"
  by (simp add: started_def subseq_map)

text \<open>While anything is left to do, a caller or the worker can move, and this comes to an end.\<close>

definition backlog :: "speechQueue \<Rightarrow> nat" where
  "backlog q = 3 * length (sqCallers q) + 2 * length (chan_buf (sqCh q)) + length (now_list q)"

lemma serve_progress:
  assumes "speech_inv q" "backlog q > 0"
  shows "\<exists>q'. serve_step q q' \<and> backlog q' < backlog q \<and> sqNext q' = sqNext q"
proof (cases "sqNow q")
  case (Some it)
  then obtain q' where "workerDone q = Some q'" "backlog q' < backlog q" "sqNext q' = sqNext q"
    by (auto simp: workerDone_def backlog_def now_list_def)
  then show ?thesis by (blast intro: serve_done)
next
  case idle: None
  show ?thesis
  proof (cases "chan_buf (sqCh q)")
    case (Cons it rest)
    then obtain q' where "workerTake q = Some q'" "backlog q' < backlog q" "sqNext q' = sqNext q"
      using idle by (auto simp: workerTake_def tryRecv_def backlog_def now_list_def)
    then show ?thesis by (blast intro: serve_take)
  next
    case Nil
    then obtain it rest where "sqCallers q = it # rest"
      using assms(2) idle by (cases "sqCallers q") (auto simp: backlog_def now_list_def)
    then obtain q' where "admitClip 0 q = Some q'" "backlog q' < backlog q" "sqNext q' = sqNext q"
      using Nil idle assms(1)
      by (auto simp: admitClip_def trySend_def chan_room_def speech_inv_def backlog_def now_list_def)
    then show ?thesis by (blast intro: serve_send)
  qed
qed

lemma serve_drains:
  "speech_inv q \<Longrightarrow> \<exists>q'. serve_step\<^sup>*\<^sup>* q q' \<and> speech_inv q' \<and> backlog q' = 0 \<and> sqNext q' = sqNext q"
proof (induction "backlog q" arbitrary: q rule: less_induct)
  case less
  show ?case
  proof (cases "backlog q = 0")
    case True
    then show ?thesis using less.prems by blast
  next
    case False
    then obtain q1 where "serve_step q q1" "backlog q1 < backlog q" "sqNext q1 = sqNext q"
      using serve_progress [OF less.prems] by auto
    then show ?thesis
      using less.hyps [of q1] inv_serve [OF _ less.prems] by (metis converse_rtranclp_into_rtranclp)
  qed
qed

lemma drained_all_closed:
  assumes "speech_inv q" "backlog q = 0"
  shows "set (sqClosed q) = {0..<sqNext q}"
proof -
  have "mset (sqClosed q) = mset (map siDone (sqSent q @ sqCallers q))"
    using assms by (simp add: speech_inv_def backlog_def multiset.map_comp)
  then have "mset (sqClosed q) = mset [0..<sqNext q]"
    using assms by (metis speech_inv_def)
  then show ?thesis by (metis set_mset_mset set_upt)
qed

lemma inv_distinct:
  assumes "speech_inv q"
  shows "distinct (map siDone (sqSent q @ sqCallers q))" "distinct (sqClosed q)"
    "\<And>it. sqNow q = Some it \<Longrightarrow> siDone it \<notin> set (sqClosed q)"
proof -
  show all: "distinct (map siDone (sqSent q @ sqCallers q))"
    using assms by (metis speech_inv_def distinct_upt mset_eq_imp_distinct_iff)
  then have "distinct (map (siDone \<circ> snd) (sqTaken q))"
    using assms by (simp add: speech_inv_def)
  moreover have "mset (sqClosed q @ map siDone (now_list q)) = mset (map (siDone \<circ> snd) (sqTaken q))"
    using assms by (simp add: speech_inv_def)
  ultimately have d: "distinct (sqClosed q @ map siDone (now_list q))"
    by (metis mset_eq_imp_distinct_iff)
  then show "distinct (sqClosed q)" by simp
  show "\<And>it. sqNow q = Some it \<Longrightarrow> siDone it \<notin> set (sqClosed q)"
    using d by (auto simp: now_list_def)
qed

lemma closed_exact:
  assumes inv: "speech_inv q"
  shows "set (sqClosed q) = siDone ` (set (dropped q) \<union> {it \<in> set (started q). sqNow q \<noteq> Some it})"
proof -
  note d = inv_distinct [OF inv]
  have set_part: "set (map snd (sqTaken q)) = set (started q) \<union> set (dropped q)"
    by (auto simp: started_def dropped_def)
  have "set_mset (mset (sqClosed q) + mset (map siDone (now_list q))) = set_mset (mset (map (siDone \<circ> snd) (sqTaken q)))"
    using inv by (simp only: speech_inv_def)
  then have closed: "set (sqClosed q) \<union> siDone ` set (now_list q) = siDone ` (set (started q) \<union> set (dropped q))"
    by (simp add: set_part [symmetric] image_image)
  have inj: "inj_on siDone (set (sqSent q))" using d(1) by (simp add: distinct_map)
  have sub: "set (started q) \<union> set (dropped q) \<subseteq> set (sqSent q)"
    using inv set_part by (auto simp: speech_inv_def)
  have "distinct (map snd (sqTaken q))"
    using d(1) inv by (simp add: speech_inv_def distinct_map)
  then have disj: "set (started q) \<inter> set (dropped q) = {}"
    by (force simp: started_def dropped_def distinct_map inj_on_def)
  have now: "it \<in> set (started q)" "siDone it \<notin> set (sqClosed q)" if "sqNow q = Some it" for it
    using inv that d(3) by (auto simp: speech_inv_def intro: last_in_set)
  show ?thesis
  proof (cases "sqNow q")
    case None
    then show ?thesis using closed by (simp add: now_list_def Un_commute)
  next
    case (Some it)
    have "siDone ` (set (started q) \<union> set (dropped q) - {it}) = siDone ` (set (started q) \<union> set (dropped q)) - {siDone it}"
      using inj_on_image_set_diff [OF inj, of "set (started q) \<union> set (dropped q)" "{it}"] sub now(1) [OF Some] by auto
    moreover have "set (sqClosed q) = siDone ` (set (started q) \<union> set (dropped q)) - {siDone it}"
      using closed Some now(2) [OF Some] by (auto simp: now_list_def)
    moreover have "set (started q) \<union> set (dropped q) - {it} = set (dropped q) \<union> {i \<in> set (started q). sqNow q \<noteq> Some i}"
      using disj now(1) [OF Some] Some by auto
    ultimately show ?thesis by simp
  qed
qed

text \<open>An uninterrupted cancellation empties the channel; the callers that wait, and the clip being rendered, are as before.\<close>

lemma cancelQueued_empties:
  "chan_buf (sqCh (cancelQueued q)) = [] \<and> sqCallers (cancelQueued q) = sqCallers q \<and> sqNow (cancelQueued q) = sqNow q"
proof (induction q rule: cancelQueued.induct)
  case (1 q)
  show ?case
  proof (cases "cancelOne q")
    case None
    then show ?thesis by (simp add: cancelQueued.simps [of q]) (simp add: cancelOne_def tryRecv_def split: list.splits)
  next
    case (Some q')
    then have "sqCallers q' = sqCallers q" "sqNow q' = sqNow q"
      by (auto simp: cancelOne_def split: option.splits)
    then show ?thesis using 1 [OF Some] Some by (simp add: cancelQueued.simps [of q])
  qed
qed

text \<open>\<open>Speak\<close> does not return while 32 clips wait: its send has no room until the worker or a cancellation takes one.\<close>

lemma speak_waits_when_full:
  assumes "speech_reachable q" "length (chan_buf (sqCh q)) = 32"
  shows "admitClip i q = None"
  using inv_reachable [OF assms(1)] assms(2) by (simp add: admitClip_def trySend_def chan_room_def speech_inv_def)

text \<open>C34: Clips are spoken one at a time and in the order they entered the queue, and no caller is left waiting.  In every
  reachable state the clips the worker started are a subsequence of those sent into the channel, the missing ones were
  dropped by a cancellation or still wait; the one being rendered is the last that was started; at most 32 clips wait in the
  channel; a \<open>done\<close> channel is closed at most once, so no close panics, and it is closed exactly when its clip was
  dropped or has been rendered.  From every reachable state the worker and the callers alone can go on until every
  \<open>done\<close> channel that was handed out is closed.
\<close>

theorem speech_in_order:
  assumes "speech_reachable q"
  shows "subseq (started q) (sqSent q)
    \<and> mset (sqSent q) = mset (started q) + mset (dropped q) + mset (chan_buf (sqCh q))
    \<and> (\<forall>it. sqNow q = Some it \<longrightarrow> started q \<noteq> [] \<and> last (started q) = it)
    \<and> length (chan_buf (sqCh q)) \<le> 32
    \<and> distinct (sqClosed q)
    \<and> set (sqClosed q) = siDone ` (set (dropped q) \<union> {it \<in> set (started q). sqNow q \<noteq> Some it})
    \<and> (\<exists>q'. serve_step\<^sup>*\<^sup>* q q' \<and> set (sqClosed q') = {0..<sqNext q})"
proof -
  have inv: "speech_inv q" by (rule inv_reachable [OF assms])
  have part: "mset (map snd xs) = mset (map snd (filter fst xs)) + mset (map snd (filter (\<lambda>x. \<not> fst x) xs))"
    for xs :: "(bool \<times> speechItem) list" by (induction xs) auto
  have "subseq (started q) (sqSent q)"
    using started_subseq [of q] inv by (simp add: speech_inv_def list_emb_prefix)
  moreover have "mset (sqSent q) = mset (started q) + mset (dropped q) + mset (chan_buf (sqCh q))"
    using inv part [of "sqTaken q"] by (simp add: speech_inv_def started_def dropped_def)
  moreover have "\<exists>q'. serve_step\<^sup>*\<^sup>* q q' \<and> set (sqClosed q') = {0..<sqNext q}"
    using serve_drains [OF inv] drained_all_closed by metis
  ultimately show ?thesis using inv inv_distinct(2) [OF inv] closed_exact [OF inv] by (simp add: speech_inv_def)
qed

theorem speech_in_order_witness:
  "\<exists>q'. serve_step\<^sup>*\<^sup>* (Speak ''**Hello** [you](u)'' ''v'' None newSpeechQueue) q' \<and> set (sqClosed q') = {0}"
proof -
  have "speech_reachable (Speak ''**Hello** [you](u)'' ''v'' None newSpeechQueue)"
    by (rule speech_more [OF speech_new step_speak])
  moreover have "sqNext (Speak ''**Hello** [you](u)'' ''v'' None newSpeechQueue) = 1" by code_simp
  ultimately show ?thesis
    using speech_in_order [of "Speak ''**Hello** [you](u)'' ''v'' None newSpeechQueue"] by (simp add: atLeast0_lessThan_Suc)
qed

end
