(* ===== verification/DriverHost.thy ===== *)
theory DriverHost
  imports Wire Wav DriverSpeech
begin

text \<open>
  The durable state of the driver's host (\<open>driver/driver.go\<close>): the conversation history and the window built from it, the
  system prompt read from a file, the padding of a clip with silence, the request for a clip, and the helpers that read the
  environment and the flags; and its routes (\<open>driver/httpserver.go\<close>) and typed input (\<open>driver/input.go\<close>).

  The file system is what \<open>os.Stat\<close> and \<open>os.ReadFile\<close> answer, the user-context provider and the parser of floating point
  numbers are parameters.
\<close>

section \<open>Conversation memory\<close>

record message =
  mRole :: string
  mContent :: string

definition Remember :: "string \<Rightarrow> string \<Rightarrow> message list \<Rightarrow> message list" where
  "Remember role content h = h @ [\<lparr>mRole = role, mContent = content\<rparr>]"

definition Forget :: "message list \<Rightarrow> message list" where
  "Forget h = (let n = length h in if n > 0 then take (n - 1) h else h)"

definition Clear :: "message list \<Rightarrow> message list" where
  "Clear h = []"

text \<open>The loop of \<open>LastAnswer\<close> from the end; \<open>None\<close> is \<open>nil\<close>.\<close>

fun lastAnswerFrom :: "nat \<Rightarrow> message list \<Rightarrow> string option" where
  "lastAnswerFrom 0 h = None"
| "lastAnswerFrom (Suc i) h = (if mRole (h ! i) = ''assistant'' then Some (mContent (h ! i)) else lastAnswerFrom i h)"

definition LastAnswer :: "message list \<Rightarrow> string option" where
  "LastAnswer h = lastAnswerFrom (length h) h"

definition json_of_message :: "message \<Rightarrow> json" where
  "json_of_message m = JObj [(''role'', JStr (mRole m)), (''content'', JStr (mContent m))]"

definition ContextFor :: "(string \<Rightarrow> string) option \<Rightarrow> string \<Rightarrow> message list \<Rightarrow> string \<Rightarrow> string" where
  "ContextFor userContext prompt h queryText =
     (let userCtx = (case userContext of None \<Rightarrow> '''' | Some f \<Rightarrow> f queryText);
          msgs = [\<lparr>mRole = ''system'', mContent = prompt\<rparr>]
            @ (if userCtx \<noteq> '''' then [\<lparr>mRole = ''system'', mContent = userCtx\<rparr>] else [])
            @ h
      in json_print (JArr (map json_of_message msgs)))"

text \<open>Taking back what was just remembered restores the history, and the last answer is the newest one remembered.\<close>

lemma Forget_Remember: "Forget (Remember role content h) = h"
  by (simp add: Forget_def Remember_def)

lemma lastAnswerFrom_append: "i \<le> length h \<Longrightarrow> lastAnswerFrom i (h @ g) = lastAnswerFrom i h"
  by (induction i) (auto simp: nth_append)

lemma LastAnswer_Remember:
  "LastAnswer (Remember role content h) = (if role = ''assistant'' then Some content else LastAnswer h)"
  by (simp add: LastAnswer_def Remember_def lastAnswerFrom_append)

section \<open>The system prompt\<close>

record promptFile =
  pfPath :: string
  pfDef :: string
  pfModt :: int
  pfText :: string
  pfLoaded :: bool
  pfLastErr :: string

definition FilePrompt :: "string \<Rightarrow> string \<Rightarrow> promptFile" where
  "FilePrompt path defaultText =
     \<lparr>pfPath = path, pfDef = defaultText, pfModt = 0, pfText = '''', pfLoaded = False, pfLastErr = ''''\<rparr>"

text \<open>\<open>%q\<close> of a string whose runes beyond ASCII are printable, which it leaves alone.\<close>

definition quote_char :: "char \<Rightarrow> string" where
  "quote_char c =
     (let n = of_char c :: nat; bs = CHR 0x5C in
      if n = 34 \<or> n = 92 then [bs, c]
      else if n = 7 then [bs, CHR ''a'']
      else if n = 8 then [bs, CHR ''b'']
      else if n = 9 then [bs, CHR ''t'']
      else if n = 10 then [bs, CHR ''n'']
      else if n = 11 then [bs, CHR ''v'']
      else if n = 12 then [bs, CHR ''f'']
      else if n = 13 then [bs, CHR ''r'']
      else if n < 32 \<or> n = 127 then [bs, CHR ''x'', hex_digit (n div 16), hex_digit (n mod 16)]
      else [c])"

definition goQuote :: "string \<Rightarrow> string" where
  "goQuote s = [CHR 0x22] @ concat (map quote_char s) @ [CHR 0x22]"

definition promptMessage :: "promptFile \<Rightarrow> string \<Rightarrow> string" where
  "promptMessage p err = ''system prompt: attempted to load '' @ goQuote (pfPath p) @ '', failed: '' @ err"

text \<open>\<open>fail\<close>: the prompt, the file's state and the line it prints, if any.\<close>

definition prompt_fail :: "string \<Rightarrow> promptFile \<Rightarrow> string \<times> promptFile \<times> string option" where
  "prompt_fail err p =
     (let msg = promptMessage p err;
          fallback = (if pfLoaded p then ''last successfully loaded prompt'' else ''built-in default prompt'')
      in (if pfLoaded p then pfText p else pfDef p,
          if msg \<noteq> pfLastErr p then p\<lparr>pfLastErr := msg\<rparr> else p,
          if msg \<noteq> pfLastErr p then Some (msg @ '' '' @ [CHR 0xE2, CHR 0x80, CHR 0x94] @ '' using '' @ fallback) else None))"

text \<open>What the file system answers in one turn: the time of the file, and its bytes if they are read.\<close>

record promptWorld =
  pwStat :: "string + int"
  pwRead :: "string + string"

definition prompt_get :: "promptWorld \<Rightarrow> promptFile \<Rightarrow> string \<times> promptFile \<times> string option" where
  "prompt_get w p =
     (case pwStat w of
        Inl err \<Rightarrow> prompt_fail err p
      | Inr modt \<Rightarrow>
          if pfLoaded p \<and> modt = pfModt p then (pfText p, p, None)
          else
            (case pwRead w of
               Inl err \<Rightarrow> prompt_fail err p
             | Inr b \<Rightarrow>
                 (trimSpace b, p\<lparr>pfText := trimSpace b, pfModt := modt, pfLoaded := True, pfLastErr := ''''\<rparr>, None)))"

text \<open>The prompts of a run of turns, and the state after it.\<close>

fun prompt_run :: "promptWorld list \<Rightarrow> promptFile \<Rightarrow> string list \<times> promptFile" where
  "prompt_run [] p = ([], p)"
| "prompt_run (w # ws) p = (let (t, p1, _) = prompt_get w p; (ts, p2) = prompt_run ws p1 in (t # ts, p2))"

text \<open>
  What a turn should see: the text of the last turn in which the file could be read, the default before the first.  A turn
  whose file has the time of the last one read is taken not to have changed it.
\<close>

fun prompt_spec :: "string \<Rightarrow> int option \<Rightarrow> promptWorld list \<Rightarrow> string list" where
  "prompt_spec cur t [] = []"
| "prompt_spec cur t (w # ws) =
     (case (pwStat w, pwRead w) of
        (Inr m, Inr b) \<Rightarrow>
          if t = Some m then cur # prompt_spec cur t ws else trimSpace b # prompt_spec (trimSpace b) (Some m) ws
      | _ \<Rightarrow> cur # prompt_spec cur t ws)"

lemma prompt_run_Cons:
  "fst (prompt_run (w # ws) p) = fst (prompt_get w p) # fst (prompt_run ws (fst (snd (prompt_get w p))))"
  by (simp add: Let_def split: prod.splits)

lemma prompt_run_spec:
  "fst (prompt_run ws p)
     = prompt_spec (if pfLoaded p then pfText p else pfDef p) (if pfLoaded p then Some (pfModt p) else None) ws"
proof (induction ws arbitrary: p)
  case Nil
  then show ?case by simp
next
  case (Cons w ws)
  show ?case
    by (auto simp: prompt_run_Cons Cons.IH prompt_get_def prompt_fail_def Let_def split: sum.splits
        simp del: prompt_run.simps)
qed

text \<open>
  A prompt file in every turn gives the text of the last successful read, or the default while there was none: an error of
  the file system never empties it.
\<close>

lemma file_prompt_keeps_last_good:
  "fst (prompt_run ws (FilePrompt path def)) = prompt_spec def None ws"
  by (simp add: prompt_run_spec FilePrompt_def)

text \<open>
  A failure that repeats after the file was back with the time it had is not reported again: the early return of an
  unchanged file leaves the last error in place.
\<close>

lemma prompt_failure_not_reported_again:
  "\<exists>p p1 p2 out. prompt_get \<lparr>pwStat = Inl ''gone'', pwRead = Inl ''''\<rparr> p = (''t'', p1, Some out)
     \<and> prompt_get \<lparr>pwStat = Inr 7, pwRead = Inr ''t''\<rparr> p1 = (''t'', p2, None)
     \<and> prompt_get \<lparr>pwStat = Inl ''gone'', pwRead = Inl ''''\<rparr> p2 = (''t'', p2, None)"
  by (rule exI [of _ "\<lparr>pfPath = ''f'', pfDef = '''', pfModt = 7, pfText = ''t'', pfLoaded = True, pfLastErr = ''''\<rparr>"])
     (simp add: prompt_get_def prompt_fail_def promptMessage_def Let_def)

section \<open>Clips\<close>

record TTSConfig =
  ttsURL :: string
  ttsLang :: string
  ttsFormat :: string

datatype tts_error = TTSUnencodable | TTSBadURL | TTSNoAnswer | TTSStatus int string

text \<open>The answer of the speech server: no request, no answer, or a status and a body.\<close>

datatype tts_answer = TTSNoRequest | TTSNone | TTSAnswer int string

definition ttsBody :: "TTSConfig \<Rightarrow> string \<Rightarrow> string \<Rightarrow> speed \<Rightarrow> json option" where
  "ttsBody cfg text voice spd =
     map_option (\<lambda>n. JObj [(''lang'', JStr (ttsLang cfg)), (''response_format'', JStr (ttsFormat cfg)), (''speed'', JNum n),
       (''text'', JStr text), (''voice'', JStr voice)]) spd"

definition SynthesizeWAV :: "TTSConfig \<Rightarrow> string \<Rightarrow> string \<Rightarrow> speed \<Rightarrow> tts_answer \<Rightarrow> tts_error + string" where
  "SynthesizeWAV cfg text voice spd ans =
     (case ttsBody cfg text voice spd of
        None \<Rightarrow> Inl TTSUnencodable
      | Some _ \<Rightarrow>
          (case ans of
             TTSNoRequest \<Rightarrow> Inl TTSBadURL
           | TTSNone \<Rightarrow> Inl TTSNoAnswer
           | TTSAnswer code audio \<Rightarrow> if code \<noteq> 200 then Inl (TTSStatus code audio) else Inr audio))"

definition padVisit :: "bytes \<Rightarrow> bytes \<Rightarrow> nat \<Rightarrow> nat \<Rightarrow> int \<times> (nat \<times> nat) option \<Rightarrow> bool \<times> int \<times> (nat \<times> nat) option" where
  "padVisit wav cid body sz st =
     (if cid = ascii ''fmt '' then
        (True, if body + 16 \<le> length wav then leUint (slice wav (body + 8) (body + 12)) else fst st, snd st)
      else if cid = ascii ''data'' then (False, fst st, Some (body - 4, body + sz))
      else (True, st))"

definition putAt :: "nat \<Rightarrow> 'a list \<Rightarrow> 'a list \<Rightarrow> 'a list" where
  "putAt i b xs = take i xs @ b @ drop (i + length b) xs"

text \<open>The pad: one second, and as much as makes the clip four seconds long; both products are exact in \<open>float64\<close>.\<close>

definition padLength :: "int \<Rightarrow> int \<Rightarrow> int" where
  "padLength byteRate dataBytes = (let floor = byteRate * 4 - dataBytes in if floor > byteRate then floor else byteRate)"

definition padWAVSilence :: "bytes \<Rightarrow> bytes" where
  "padWAVSilence wav =
     (if length wav < 12 \<or> slice wav 0 4 \<noteq> ascii ''RIFF'' \<or> slice wav 8 12 \<noteq> ascii ''WAVE'' then wav
      else
        (case WalkWAVChunks wav (padVisit wav) (0, None) of
           (byteRate, None) \<Rightarrow> wav
         | (byteRate, Some (dataSizeOff, dataEnd)) \<Rightarrow>
             if byteRate \<le> 0 \<or> dataEnd < dataSizeOff + 4 \<or> dataEnd > length wav then wav
             else
               let dataBytes = int dataEnd - int (dataSizeOff + 4);
                   padBytes = padLength byteRate dataBytes;
                   out = take dataEnd wav @ replicate (nat padBytes) 0
               in putAt 4 (putUint32 (int (length out) - 8)) (putAt dataSizeOff (putUint32 (dataBytes + padBytes)) out)))"

lemma putAt_field: "length a = i \<Longrightarrow> length b = length b' \<Longrightarrow> putAt i b' (a @ b @ c) = a @ b' @ c"
  by (simp add: putAt_def)

lemma mulawToWAV_split:
  "mulawToWAV m rate =
     ascii ''RIFF'' @ putUint32 (36 + int (length m) * 2)
     @ (ascii ''WAVE'' @ ascii ''fmt '' @ putUint32 16 @ putUint16 1 @ putUint16 1 @ putUint32 rate @
        putUint32 (rate * 1 * 2) @ putUint16 2 @ putUint16 16 @ ascii ''data'')
     @ putUint32 (int (length m) * 2) @ concat (map (\<lambda>b. putUint16 (uint (muLawToLinear b))) m)"
  by (simp add: mulawToWAV_def Let_def)

lemma mulaw_silence_samples:
  "concat (replicate k (putUint16 (uint (muLawToLinear 0xFF)))) = replicate (k * 2) 0"
proof -
  have "putUint16 (uint (muLawToLinear 0xFF)) = [0, 0]" by code_simp
  then show ?thesis by (induction k) simp_all
qed

lemma walk_pad:
  assumes "2 * length m < 2 ^ 32" "0 \<le> rate" "rate * 2 < 2 ^ 32"
  shows "WalkWAVChunks (mulawToWAV m rate) (padVisit (mulawToWAV m rate)) (0, None) = (rate * 2, Some (40, 44 + 2 * length m))"
proof -
  have ne: "ascii ''fmt '' \<noteq> ascii ''data''" "ascii ''data'' \<noteq> ascii ''fmt ''"
    by (simp_all add: ascii_def)
  have m: "int (length m) * 2 mod 4294967296 = int (length m) * 2"
    using assms by simp
  have br: "slice (mulawToWAV m rate) 28 32 = putUint32 (rate * 2)"
    by (simp add: mulawToWAV_def slice_def Let_def)
  show ?thesis
    unfolding WalkWAVChunks_def
    apply (subst walkChunksFrom.simps)
    apply (simp add: length_mulawToWAV mulawToWAV_fields padVisit_def ne br Let_def)
    apply (subst walkChunksFrom.simps)
    using assms apply (simp add: length_mulawToWAV mulawToWAV_fields padVisit_def ne m Let_def)
    done
qed

text \<open>C35: Padding a clip with silence is writing the clip with silence.  A WAV as the server writes them, of any rate and length
  its header can state, is turned by \<open>padWAVSilence\<close> into the WAV the writer gives for the same samples followed by
  mu-law silence: one second of it, and as much as makes four seconds in all.  Every size field is the one of the longer
  clip.
\<close>

theorem pad_is_longer_clip:
  assumes "2 * length m < 2 ^ 32" "0 < rate" "rate * 2 < 2 ^ 32"
  shows "padWAVSilence (mulawToWAV m rate) = mulawToWAV (m @ replicate (nat (max rate (rate * 4 - int (length m)))) 0xFF) rate"
proof -
  define k where "k = nat (max rate (rate * 4 - int (length m)))"
  have k: "padLength (rate * 2) (2 * int (length m)) = int (2 * k)"
    using assms(2) by (auto simp: padLength_def k_def max_def Let_def)
  have nk: "nat (2 * int k) = 2 * k" by (simp add: nat_mult_distrib)
  let ?A = "ascii ''WAVE'' @ ascii ''fmt '' @ putUint32 16 @ putUint16 1 @ putUint16 1 @ putUint32 rate @
        putUint32 (rate * 1 * 2) @ putUint16 2 @ putUint16 16 @ ascii ''data''"
  let ?S = "concat (map (\<lambda>b. putUint16 (uint (muLawToLinear b))) m)"
  have "padWAVSilence (mulawToWAV m rate)
      = putAt 4 (putUint32 (int (36 + 2 * length m + 2 * k)))
          (putAt 40 (putUint32 (int (2 * length m + 2 * k)))
            ((ascii ''RIFF'' @ putUint32 (36 + int (length m) * 2) @ ?A) @ putUint32 (int (length m) * 2)
             @ ?S @ replicate (2 * k) 0))"
    using assms k by (simp add: padWAVSilence_def walk_pad mulawToWAV_fields length_mulawToWAV Let_def)
       (simp add: mulawToWAV_split nk add.assoc)
  also have "\<dots> = ascii ''RIFF'' @ putUint32 (int (36 + 2 * length m + 2 * k)) @ ?A
      @ putUint32 (int (2 * length m + 2 * k)) @ ?S @ replicate (2 * k) 0"
    by (simp add: putAt_field putAt_def)
  also have "\<dots> = mulawToWAV (m @ replicate k 0xFF) rate"
    by (simp add: mulawToWAV_split mulaw_silence_samples algebra_simps)
  finally show ?thesis by (simp add: k_def)
qed

theorem pad_is_longer_clip_witness:
  "padWAVSilence (mulawToWAV [0x12, 0x34] 1) = mulawToWAV [0x12, 0x34, 0xFF, 0xFF] 1"
proof -
  have "nat (max 1 (1 * 4 - int (length [0x12, 0x34 :: byte]))) = 2" by simp
  moreover have "replicate 2 (0xFF :: byte) = [0xFF, 0xFF]" by (simp add: numeral_2_eq_2)
  ultimately show ?thesis
    using pad_is_longer_clip [of "[0x12, 0x34]" 1] by simp
qed

section \<open>Environment and flags\<close>

definition EnvOr :: "(string \<Rightarrow> string) \<Rightarrow> string \<Rightarrow> string \<Rightarrow> string" where
  "EnvOr getenv k def = (let v = getenv k in if v \<noteq> '''' then v else def)"

definition EnvBool :: "(string \<Rightarrow> string) \<Rightarrow> string \<Rightarrow> bool" where
  "EnvBool getenv k = (toLower (getenv k) \<in> {''1'', ''true'', ''yes'', ''on''})"

definition EnvFloatOr :: "(string \<Rightarrow> 'f option) \<Rightarrow> (string \<Rightarrow> string) \<Rightarrow> string \<Rightarrow> 'f \<Rightarrow> 'f" where
  "EnvFloatOr parseFloat getenv k def =
     (let v = getenv k in if v \<noteq> '''' then (case parseFloat v of Some f \<Rightarrow> f | None \<Rightarrow> def) else def)"

datatype flag_error = BadFlagSyntax string | HelpRequested | UndefinedFlag string | NeedsArgument string | InvalidScheme string

text \<open>The value after the first \<open>=\<close>, which is not looked for at the start of a name.\<close>

definition split_flag :: "string \<Rightarrow> string \<times> string option" where
  "split_flag name =
     (let n = takeWhile (\<lambda>c. c \<noteq> CHR ''='') (tl name) in
      if length n < length (tl name) then (hd name # n, Some (drop (length n + 1) (tl name))) else (name, None))"

text \<open>\<open>FlagSet.Parse\<close> of the standard library for the one flag \<open>stream-scheme\<close>, whose values are strings.\<close>

function parseFlags :: "string list \<Rightarrow> string \<Rightarrow> flag_error + string" where
  "parseFlags [] scheme = Inr scheme"
| "parseFlags (s # args) scheme =
     (if length s < 2 \<or> hd s \<noteq> CHR ''-'' then Inr scheme
      else if s = ''--'' then Inr scheme
      else
        let name = (if s ! 1 = CHR ''-'' then drop 2 s else drop 1 s) in
        if name = '''' \<or> hd name = CHR ''-'' \<or> hd name = CHR ''='' then Inl (BadFlagSyntax s)
        else
          let (n, v) = split_flag name in
          if n \<noteq> ''stream-scheme'' then (if n = ''help'' \<or> n = ''h'' then Inl HelpRequested else Inl (UndefinedFlag n))
          else
            (case v of
               Some x \<Rightarrow> parseFlags args x
             | None \<Rightarrow> (case args of x # rest \<Rightarrow> parseFlags rest x | [] \<Rightarrow> Inl (NeedsArgument n))))"
  by pat_completeness auto
termination
  by (relation "measure (\<lambda>(args, scheme). length args)") auto

definition ParseStreamScheme :: "string list \<Rightarrow> flag_error + string" where
  "ParseStreamScheme args =
     (case parseFlags args ''wss'' of
        Inl e \<Rightarrow> Inl e
      | Inr scheme \<Rightarrow> if scheme \<noteq> ''ws'' \<and> scheme \<noteq> ''wss'' then Inl (InvalidScheme scheme) else Inr scheme)"

text \<open>No scheme but the two reaches the server, and without the flag it is the secure one.\<close>

lemma ParseStreamScheme_sound: "ParseStreamScheme args = Inr s \<Longrightarrow> s = ''ws'' \<or> s = ''wss''"
  by (auto simp: ParseStreamScheme_def split: sum.splits if_splits)

lemma ParseStreamScheme_forms:
  "ParseStreamScheme [] = Inr ''wss''"
  "ParseStreamScheme [''-stream-scheme'', ''ws''] = Inr ''ws''"
  "ParseStreamScheme [''--stream-scheme=ws''] = Inr ''ws''"
  "ParseStreamScheme [''-stream-scheme=http''] = Inl (InvalidScheme ''http'')"
  by code_simp+

section \<open>Routes and input\<close>

definition healthzHandler :: "int \<times> string" where
  "healthzHandler = (200, ''ok'')"

definition newHTTPMux :: "(string \<times> int \<times> string) list" where
  "newHTTPMux = [(''/healthz'', healthzHandler)]"

text \<open>The options of the Twilio routes: each sets the wrapper, the last one wins, one without a wrapper included.\<close>

type_synonym 'h wrapper = "(string \<Rightarrow> 'h \<Rightarrow> 'h) option"

definition WithHandlerWrapper :: "'h wrapper \<Rightarrow> 'h wrapper \<Rightarrow> 'h wrapper" where
  "WithHandlerWrapper wrap cfg = wrap"

definition resolveTwilioServerConfig :: "('h wrapper \<Rightarrow> 'h wrapper) list \<Rightarrow> 'h wrapper" where
  "resolveTwilioServerConfig opts = fold (\<lambda>opt cfg. opt cfg) opts None"

record 'h twilioHandlers =
  hServeHTTP :: 'h
  hServeStreams :: 'h
  hServeSMS :: 'h
  hServeSMSStatus :: 'h

definition newTwilioMux :: "'h twilioHandlers \<Rightarrow> ('h wrapper \<Rightarrow> 'h wrapper) list \<Rightarrow> (string \<times> 'h) list" where
  "newTwilioMux s opts =
     (let cfg = resolveTwilioServerConfig opts in
      map (\<lambda>(path, h). (path, case cfg of Some wrap \<Rightarrow> wrap path h | None \<Rightarrow> h))
        [(''/webhook'', hServeHTTP s), (''/streams'', hServeStreams s), (''/sms/inbound'', hServeSMS s),
         (''/sms/status'', hServeSMSStatus s)])"

text \<open>Every route is mounted once, under the path its wrapper is handed, and the last wrapper given wins.\<close>

lemma newTwilioMux_routes:
  "map fst (newTwilioMux s opts) = [''/webhook'', ''/streams'', ''/sms/inbound'', ''/sms/status'']"
  by (simp add: newTwilioMux_def Let_def)

lemma newTwilioMux_last_wrapper:
  "newTwilioMux s (opts @ [WithHandlerWrapper wrap]) = newTwilioMux s [WithHandlerWrapper wrap]"
  by (simp add: newTwilioMux_def resolveTwilioServerConfig_def WithHandlerWrapper_def)

text \<open>A turn of typed input: the next line, trimmed; \<open>None\<close> at the end.\<close>

fun stdin_Next :: "string list \<Rightarrow> string option \<times> string list" where
  "stdin_Next [] = (None, [])"
| "stdin_Next (x # xs) = (Some (trimSpace x), xs)"

end
