(* ===== verification/Tap.thy ===== *)
theory Tap
  imports Vad Filler
begin

text \<open>
  The audio tap (\<open>telephony/twilio/tap.go\<close>): the recording of a call's audio in two files and a sidecar.  A tap that carries
  both directions queues what is sent in a ring and moves one frame to the file for each frame that is received, so that the
  two files keep time; a tap of the outbound direction alone is paced by the clock.

  The disk is a parameter: whether a file can be opened, and what the \<open>k\<close>-th write of a tap takes of a buffer.  A file holds what
  the tap appended to it.  Times are in nanoseconds.
\<close>

section \<open>The tap\<close>

definition maxOutQueueFrames :: nat where
  "maxOutQueueFrames = nat (5 * 60 * 1000 div MuLawFrameMS)"

definition silenceChunkFrames :: nat where
  "silenceChunkFrames = 100"

definition duplexAlignment :: string where
  "duplexAlignment = ''inbound-frame-clock, 20ms/frame, silence=0xFF''"

definition outboundWallClockAlignment :: string where
  "outboundWallClockAlignment = ''wall-clock, 20ms/frame, silence=0xFF, t0=first outbound frame''"

definition inboundArrivalAlignment :: string where
  "inboundArrivalAlignment = ''inbound-frame-arrival, 20ms/frame''"

type_synonym Channel = string

definition ChannelIn :: Channel where "ChannelIn = ''in''"
definition ChannelOut :: Channel where "ChannelOut = ''out''"

record tapSidecar =
  scStreamSID :: string
  scCallSID :: string
  scLabel :: string
  scStartedAt :: int
  scFrames :: nat
  scBytes :: nat
  scVADConfig :: vadConfig
  scAlignment :: string
  scChannels :: "string list"
  scOutTruncated :: bool
  scOutDroppedFrames :: nat

text \<open>
  \<open>w\<close> and \<open>wOut\<close> tell whether the writers are open; the files and the sidecar are what is on the disk.  An empty \<open>outQueue\<close> is
  the array that was not allocated yet.
\<close>

record Tap =
  tpStreamSID :: string
  tpCallSID :: string
  tpLabel :: string
  tpStartedAt :: int
  tpW :: bool
  tpWOut :: bool
  inUlaw :: "bytes option"
  outUlaw :: "bytes option"
  tpSidecar :: "tapSidecar option"
  tpWrites :: nat
  outQueue :: "bytes list"
  outHead :: nat
  outCount :: nat
  lastInFrameN :: nat
  tpChannels :: "Channel list"
  fedThrough :: "int option"
  inOpenFailed :: bool
  outOpenFailed :: bool
  tpClosed :: bool
  tpFrames :: nat
  tpBytes :: nat
  outFrames :: nat
  outBytes :: nat
  outDrops :: nat
  tpLogged :: bool
  dropLogged :: bool

record disk =
  dkOpenIn :: bool
  dkOpenOut :: bool
  dkWrite :: "nat \<Rightarrow> nat \<Rightarrow> nat \<times> bool"
  dkSidecar :: bool

text \<open>\<open>WithChannels\<close>: unknown names and repeats are dropped, an empty set changes nothing.\<close>

fun channelSet :: "Channel list \<Rightarrow> Channel list \<Rightarrow> Channel list" where
  "channelSet [] cs = cs"
| "channelSet (ch # rest) cs =
     (if ch \<noteq> ChannelIn \<and> ch \<noteq> ChannelOut then channelSet rest cs
      else if ch \<in> set cs then channelSet rest cs
      else channelSet rest (cs @ [ch]))"

definition WithChannels :: "Channel list \<Rightarrow> Tap \<Rightarrow> Tap" where
  "WithChannels chs t = (let cs = channelSet chs [] in if cs \<noteq> [] then t\<lparr>tpChannels := cs\<rparr> else t)"

definition NewTap :: "string \<Rightarrow> string \<Rightarrow> string \<Rightarrow> string \<Rightarrow> int \<Rightarrow> (Tap \<Rightarrow> Tap) list \<Rightarrow> Tap option" where
  "NewTap dir streamSID callSID label startedAt opts =
     (if dir = '''' then None
      else Some (fold (\<lambda>opt t. opt t) opts
        \<lparr>tpStreamSID = streamSID, tpCallSID = callSID, tpLabel = label, tpStartedAt = startedAt, tpW = False, tpWOut = False,
         inUlaw = None, outUlaw = None, tpSidecar = None, tpWrites = 0, outQueue = [], outHead = 0, outCount = 0,
         lastInFrameN = 0, tpChannels = [ChannelIn, ChannelOut], fedThrough = None, inOpenFailed = False, outOpenFailed = False,
         tpClosed = False, tpFrames = 0, tpBytes = 0, outFrames = 0, outBytes = 0, outDrops = 0, tpLogged = False,
         dropLogged = False\<rparr>))"

definition hasChannel :: "Channel \<Rightarrow> Tap \<Rightarrow> bool" where
  "hasChannel ch t = list_ex (\<lambda>c. c = ch) (tpChannels t)"

definition duplex :: "Tap \<Rightarrow> bool" where
  "duplex t = (hasChannel ChannelIn t \<and> hasChannel ChannelOut t)"

definition logOnce :: "Tap \<Rightarrow> Tap" where
  "logOnce t = t\<lparr>tpLogged := True\<rparr>"

definition logDropOnce :: "Tap \<Rightarrow> Tap" where
  "logDropOnce t = t\<lparr>dropLogged := True\<rparr>"

text \<open>One \<open>Write\<close>: how many bytes of the buffer were taken, and whether it failed; a writer never takes more than it is given.\<close>

definition diskWrite :: "disk \<Rightarrow> nat \<Rightarrow> Tap \<Rightarrow> nat \<times> bool \<times> Tap" where
  "diskWrite dk len t =
     (let (n, err) = dkWrite dk (tpWrites t) len;
          t1 = t\<lparr>tpWrites := tpWrites t + 1\<rparr>
      in (min n len, err, if err then logOnce t1 else t1))"

definition grow :: "bytes option \<Rightarrow> bytes \<Rightarrow> bytes option" where
  "grow f b = Some ((case f of None \<Rightarrow> [] | Some x \<Rightarrow> x) @ b)"

section \<open>Recording\<close>

definition openIn :: "disk \<Rightarrow> Tap \<Rightarrow> Tap" where
  "openIn dk t =
     (if tpW t then t
      else if dkOpenIn dk then t\<lparr>tpW := True, inUlaw := grow (inUlaw t) []\<rparr>
      else logOnce (t\<lparr>inOpenFailed := True\<rparr>))"

definition WriteIn :: "disk \<Rightarrow> bytes \<Rightarrow> Tap \<Rightarrow> Tap" where
  "WriteIn dk payload t =
     (if payload = [] then t
      else if tpClosed t \<or> inOpenFailed t \<or> \<not> hasChannel ChannelIn t then t
      else
        let t1 = openIn dk t in
        if inOpenFailed t1 then t1
        else
          let (n, _, t2) = diskWrite dk (length payload) t1;
              t3 = t2\<lparr>inUlaw := grow (inUlaw t2) (take n payload)\<rparr>
          in if n > 0 then t3\<lparr>tpFrames := tpFrames t3 + 1, tpBytes := tpBytes t3 + n, lastInFrameN := length payload\<rparr> else t3)"

definition ensureOutWriter :: "disk \<Rightarrow> Tap \<Rightarrow> bool \<times> Tap" where
  "ensureOutWriter dk t =
     (if outOpenFailed t then (False, t)
      else if tpWOut t then (True, t)
      else if dkOpenOut dk then (True, t\<lparr>tpWOut := True, outUlaw := grow (outUlaw t) []\<rparr>)
      else (False, logOnce (t\<lparr>outOpenFailed := True\<rparr>)))"

definition appendOutFrames :: "disk \<Rightarrow> bytes \<Rightarrow> nat \<Rightarrow> Tap \<Rightarrow> Tap" where
  "appendOutFrames dk buf nframes t =
     (let (n, _, t1) = diskWrite dk (length buf) t;
          t2 = t1\<lparr>outUlaw := grow (outUlaw t1) (take n buf)\<rparr>
      in if n > 0 then t2\<lparr>outFrames := outFrames t2 + nframes, outBytes := outBytes t2 + n\<rparr> else t2)"

definition appendOut :: "disk \<Rightarrow> bytes \<Rightarrow> Tap \<Rightarrow> Tap" where
  "appendOut dk frame t = appendOutFrames dk frame 1 t"

definition tapSilence :: "nat \<Rightarrow> bytes" where
  "tapSilence n = replicate n 0xFF"

definition advance :: "duration \<Rightarrow> Tap \<Rightarrow> Tap" where
  "advance d t = t\<lparr>fedThrough := map_option (\<lambda>x. x + d) (fedThrough t)\<rparr>"

function fillLoop :: "disk \<Rightarrow> nat \<Rightarrow> nat \<Rightarrow> Tap \<Rightarrow> Tap" where
  "fillLoop dk chunk k t =
     (if k = 0 \<or> chunk = 0 then t
      else let n = min k chunk in
        fillLoop dk chunk (k - n)
          (advance (int n * MuLawDuration (int defaultFrameBytes))
            (appendOutFrames dk (tapSilence (n * defaultFrameBytes)) n t)))"
  by pat_completeness auto
termination
  by (relation "measure (\<lambda>(dk, chunk, k, t). k)") auto

declare fillLoop.simps [simp del]

definition fillOutGap :: "disk \<Rightarrow> int \<Rightarrow> Tap \<Rightarrow> Tap" where
  "fillOutGap dk now t =
     (case fedThrough t of
        None \<Rightarrow> t\<lparr>fedThrough := Some now\<rparr>
      | Some fed \<Rightarrow>
          let nframes = (now - fed) sdiv MuLawDuration (int defaultFrameBytes) in
          if nframes \<le> 0 then t
          else let chunk = (if nframes > int silenceChunkFrames then silenceChunkFrames else nat nframes)
               in fillLoop dk chunk (nat nframes) t)"

definition WriteOut :: "disk \<Rightarrow> int \<Rightarrow> bytes \<Rightarrow> Tap \<Rightarrow> Tap" where
  "WriteOut dk now payload t =
     (if payload = [] then t
      else if tpClosed t \<or> \<not> hasChannel ChannelOut t then t
      else if \<not> duplex t then
        let (ok, t1) = ensureOutWriter dk t in
        if \<not> ok then t1
        else advance (MuLawDuration (int (length payload))) (appendOut dk payload (fillOutGap dk now t1))
      else
        let t1 = (if outQueue t = [] then t\<lparr>outQueue := replicate maxOutQueueFrames []\<rparr> else t) in
        if outCount t1 = maxOutQueueFrames then
          logDropOnce (t1\<lparr>outQueue := (outQueue t1)[outHead t1 := payload],
                          outHead := (outHead t1 + 1) mod maxOutQueueFrames, outDrops := outDrops t1 + 1\<rparr>)
        else
          t1\<lparr>outQueue := (outQueue t1)[(outHead t1 + outCount t1) mod maxOutQueueFrames := payload],
             outCount := outCount t1 + 1\<rparr>)"

definition nextOutFrame :: "Tap \<Rightarrow> bytes \<times> Tap" where
  "nextOutFrame t =
     (if outCount t > 0 then
        (outQueue t ! outHead t,
         t\<lparr>outQueue := (outQueue t)[outHead t := []], outHead := (outHead t + 1) mod maxOutQueueFrames, outCount := outCount t - 1\<rparr>)
      else (tapSilence (if lastInFrameN t = 0 then defaultFrameBytes else lastInFrameN t), t))"

definition DrainOut :: "disk \<Rightarrow> Tap \<Rightarrow> Tap" where
  "DrainOut dk t =
     (if tpClosed t \<or> \<not> duplex t then t
      else
        let (ok, t1) = ensureOutWriter dk t in
        if \<not> ok then t1 else (let (frame, t2) = nextOutFrame t1 in appendOut dk frame t2))"

section \<open>Closing\<close>

definition closeWriters :: "bool \<Rightarrow> Tap \<Rightarrow> Tap" where
  "closeWriters err t = (if (tpW t \<or> tpWOut t) \<and> err then logOnce t else t)"

definition removeEmptyRecordings :: "Tap \<Rightarrow> Tap" where
  "removeEmptyRecordings t =
     (let t1 = (if tpW t \<and> tpFrames t = 0 then t\<lparr>inUlaw := None\<rparr> else t)
      in if tpWOut t1 \<and> outFrames t1 = 0 then t1\<lparr>outUlaw := None\<rparr> else t1)"

definition alignment :: "Tap \<Rightarrow> string" where
  "alignment t =
     (if duplex t then duplexAlignment
      else if hasChannel ChannelOut t then outboundWallClockAlignment
      else inboundArrivalAlignment)"

definition declaredChannels :: "Tap \<Rightarrow> string list" where
  "declaredChannels t = tpChannels t"

definition writeSidecar :: "disk \<Rightarrow> Tap \<Rightarrow> Tap" where
  "writeSidecar dk t =
     (if \<not> dkSidecar dk then logOnce t
      else t\<lparr>tpSidecar := Some
        \<lparr>scStreamSID = tpStreamSID t, scCallSID = tpCallSID t, scLabel = tpLabel t, scStartedAt = tpStartedAt t,
         scFrames = tpFrames t, scBytes = tpBytes t, scVADConfig = defaultVADConfig, scAlignment = alignment t,
         scChannels = declaredChannels t, scOutTruncated = (outCount t > 0), scOutDroppedFrames = outDrops t\<rparr>\<rparr>)"

definition CloseTap :: "disk \<Rightarrow> bool \<Rightarrow> int \<Rightarrow> Tap \<Rightarrow> Tap" where
  "CloseTap dk closeErr now t =
     (if tpClosed t then t
      else
        let t0 = t\<lparr>tpClosed := True\<rparr>;
            t1 = (if \<not> duplex t0 \<and> hasChannel ChannelOut t0 \<and> fedThrough t0 \<noteq> None
                  then (let (ok, x) = ensureOutWriter dk t0 in if ok then fillOutGap dk now x else x)
                  else t0);
            t2 = removeEmptyRecordings (closeWriters closeErr t1)
        in if tpFrames t2 = 0 \<and> outFrames t2 = 0 then t2 else writeSidecar dk t2)"

end
