(* ===== verification/TapProps.thy ===== *)
theory TapProps
  imports Tap Session
begin

text \<open>
  What a tap records.  The ring is a queue that loses its oldest frame when it is full; the two files of a duplex tap are the
  frames received and the frames sent, with silence where none was waiting; and the file of an outbound tap follows the
  clock.  All on a disk that works, and for every interleaving of the frames sent with those received.
\<close>

section \<open>The ring\<close>

lemma maxOutQueueFrames_eq [simp]: "maxOutQueueFrames = 15000"
  by (simp add: maxOutQueueFrames_def MuLawFrameMS_def)

declare defaultFrameBytes_eq [simp]

definition window :: "nat \<Rightarrow> 'a list \<Rightarrow> nat \<Rightarrow> nat \<Rightarrow> 'a list" where
  "window n ring h c = map (\<lambda>i. ring ! ((h + i) mod n)) [0..<c]"

lemma ring_slot_inj:
  assumes "i < n" "j < n" "(h + i) mod n = (h + j) mod n"
  shows "i = (j :: nat)"
proof -
  have "i \<le> j \<Longrightarrow> i = j" if "i < n" "j < n" "(h + i) mod n = (h + j) mod n" for i j
  proof -
    assume "i \<le> j"
    then have "n dvd (h + j) - (h + i)" using that(3) mod_eq_dvd_iff_nat [of "h + i" "h + j" n] by simp
    then have "n dvd j - i" by simp
    moreover have "j - i < n" using that by linarith
    ultimately have "j - i = 0" using dvd_imp_le not_less by blast
    then show ?thesis using \<open>i \<le> j\<close> by simp
  qed
  from this [OF assms] this [OF assms(2,1) assms(3) [symmetric]] show ?thesis by linarith
qed

lemma window_push:
  assumes "length ring = n" "c < n" "0 < n"
  shows "window n (ring[(h + c) mod n := p]) h (Suc c) = window n ring h c @ [p]"
proof -
  have "ring[(h + c) mod n := p] ! ((h + i) mod n) = ring ! ((h + i) mod n)" if "i < c" for i
    using ring_slot_inj [of i n c h] that assms by (intro nth_list_update_neq) auto
  then show ?thesis using assms by (simp add: window_def)
qed

lemma window_pop:
  assumes "length ring = n" "0 < c" "c \<le> n"
  shows "window n ring h c = ring ! (h mod n) # window n (ring[h mod n := x]) (Suc h mod n) (c - 1)"
proof -
  have slot: "(Suc h mod n + i) mod n = (h + Suc i) mod n" for i by (simp add: mod_simps)
  have "ring[h mod n := x] ! ((h + Suc i) mod n) = ring ! ((h + Suc i) mod n)" if "i < c - 1" for i
  proof (rule nth_list_update_neq)
    have "Suc i < n" using that assms by linarith
    then show "h mod n \<noteq> (h + Suc i) mod n" using ring_slot_inj [of "Suc i" n 0 h] assms by auto
  qed
  then have "window n (ring[h mod n := x]) (Suc h mod n) (c - 1) = map (\<lambda>i. ring ! ((h + Suc i) mod n)) [0..<c - 1]"
    by (simp add: window_def slot)
  moreover have "[0..<c] = 0 # map Suc [0..<c - 1]" using assms by (cases c) (simp_all add: map_Suc_upt upt_conv_Cons)
  ultimately show ?thesis by (simp add: window_def)
qed

lemma window_overwrite:
  assumes "length ring = n" "0 < n"
  shows "window n (ring[h mod n := p]) (Suc h mod n) n = tl (window n ring h n) @ [p]"
proof -
  have last: "(Suc h mod n + (n - 1)) mod n = h mod n"
    using assms by (metis Suc_pred' add_Suc_shift mod_add_left_eq mod_add_self2)
  have "window n (ring[h mod n := p]) (Suc h mod n) (Suc (n - 1))
      = window n (ring[h mod n := p]) (Suc h mod n) (n - 1) @ [ring[h mod n := p] ! (h mod n)]"
    by (simp add: window_def last [simplified])
  moreover have "tl (window n ring h n) = window n (ring[h mod n := p]) (Suc h mod n) (n - 1)"
    using window_pop [OF assms(1) _ order_refl, of h p] assms by simp
  ultimately show ?thesis using assms by simp
qed

section \<open>A duplex tap\<close>

definition healthy :: "disk \<Rightarrow> bool" where
  "healthy dk \<longleftrightarrow> dkOpenIn dk \<and> dkOpenOut dk \<and> dkSidecar dk \<and> (\<forall>k n. dkWrite dk k n = (n, False))"

definition fileBytes :: "bytes option \<Rightarrow> bytes" where
  "fileBytes f = (case f of None \<Rightarrow> [] | Some b \<Rightarrow> b)"

lemma fileBytes_grow [simp]: "fileBytes (grow f b) = fileBytes f @ b"
  by (simp add: fileBytes_def grow_def split: option.splits)

text \<open>The calls a duplex tap gets: a frame received, a frame sent at a time, and a drain.\<close>

datatype tapOp = OpIn bytes | OpOut int bytes | OpDrain

fun tapOp_run :: "disk \<Rightarrow> tapOp \<Rightarrow> Tap \<Rightarrow> Tap" where
  "tapOp_run dk (OpIn p) t = WriteIn dk p t"
| "tapOp_run dk (OpOut now p) t = WriteOut dk now p t"
| "tapOp_run dk OpDrain t = DrainOut dk t"

definition tapRun :: "disk \<Rightarrow> tapOp list \<Rightarrow> Tap \<Rightarrow> Tap" where
  "tapRun dk ops t = fold (tapOp_run dk) ops t"

text \<open>The frames received, and the tape of a machine that queues the frames sent and plays one at each drain.\<close>

fun heardFrames :: "tapOp list \<Rightarrow> bytes list" where
  "heardFrames [] = []"
| "heardFrames (OpIn p # ops) = p # heardFrames ops"
| "heardFrames (x # ops) = heardFrames ops"

definition enqueueFrame :: "bytes \<Rightarrow> bytes list \<Rightarrow> bytes list" where
  "enqueueFrame p q = (if p = [] then q else if length q = maxOutQueueFrames then tl q @ [p] else q @ [p])"

fun tape :: "nat \<Rightarrow> bytes list \<Rightarrow> tapOp list \<Rightarrow> bytes list" where
  "tape lastN q [] = []"
| "tape lastN q (OpIn p # ops) = tape (if p = [] then lastN else length p) q ops"
| "tape lastN q (OpOut now p # ops) = tape lastN (enqueueFrame p q) ops"
| "tape lastN q (OpDrain # ops) =
     (case q of
        [] \<Rightarrow> tapSilence (if lastN = 0 then defaultFrameBytes else lastN) # tape lastN [] ops
      | f # fs \<Rightarrow> f # tape lastN fs ops)"

definition duplex_state :: "Tap \<Rightarrow> nat \<Rightarrow> bytes list \<Rightarrow> bool" where
  "duplex_state t lastN q \<longleftrightarrow>
     duplex t \<and> \<not> tpClosed t \<and> \<not> inOpenFailed t \<and> \<not> outOpenFailed t \<and> lastInFrameN t = lastN
     \<and> (outQueue t = [] \<and> outCount t = 0 \<or> length (outQueue t) = maxOutQueueFrames)
     \<and> outHead t < maxOutQueueFrames \<and> outCount t \<le> maxOutQueueFrames
     \<and> window maxOutQueueFrames (outQueue t) (outHead t) (outCount t) = q"

lemma diskWrite_healthy: "healthy dk \<Longrightarrow> diskWrite dk len t = (len, False, t\<lparr>tpWrites := tpWrites t + 1\<rparr>)"
  by (simp add: diskWrite_def healthy_def)

lemma duplex_channels: "duplex t \<Longrightarrow> hasChannel ChannelIn t \<and> hasChannel ChannelOut t"
  by (simp add: duplex_def)

lemma channels_cong: "tpChannels t' = tpChannels t \<Longrightarrow> duplex t' = duplex t"
  by (simp add: duplex_def hasChannel_def)

lemma WriteIn_duplex:
  assumes "healthy dk" "duplex_state t lastN q"
  shows "duplex_state (WriteIn dk p t) (if p = [] then lastN else length p) q"
    "fileBytes (inUlaw (WriteIn dk p t)) = fileBytes (inUlaw t) @ p" "outUlaw (WriteIn dk p t) = outUlaw t"
proof -
  have op: "openIn dk t = t \<or> openIn dk t = t\<lparr>tpW := True, inUlaw := grow (inUlaw t) []\<rparr>" "\<not> inOpenFailed (openIn dk t)"
    using assms by (auto simp: openIn_def healthy_def duplex_state_def)
  show "duplex_state (WriteIn dk p t) (if p = [] then lastN else length p) q"
    "fileBytes (inUlaw (WriteIn dk p t)) = fileBytes (inUlaw t) @ p" "outUlaw (WriteIn dk p t) = outUlaw t"
    using assms(2) op duplex_channels [of t]
    by (auto simp: WriteIn_def diskWrite_healthy [OF assms(1)] duplex_state_def Let_def duplex_def hasChannel_def)
qed

lemma WriteOut_duplex:
  assumes "duplex_state t lastN q"
  shows "duplex_state (WriteOut dk now p t) lastN (enqueueFrame p q)"
    "inUlaw (WriteOut dk now p t) = inUlaw t" "outUlaw (WriteOut dk now p t) = outUlaw t"
proof -
  let ?n = maxOutQueueFrames
  define t1 where "t1 = (if outQueue t = [] then t\<lparr>outQueue := replicate ?n []\<rparr> else t)"
  have st: "duplex_state t1 lastN q" "length (outQueue t1) = ?n" and same: "inUlaw t1 = inUlaw t" "outUlaw t1 = outUlaw t"
    using assms by (auto simp: t1_def duplex_state_def duplex_def hasChannel_def window_def)
  have open_t: "\<not> tpClosed t" "hasChannel ChannelOut t" "duplex t"
    using assms by (auto simp: duplex_state_def duplex_def)
  have hd: "outHead t1 mod ?n = outHead t1" and len: "length q = outCount t1"
    using st by (auto simp: duplex_state_def window_def)
  show "duplex_state (WriteOut dk now p t) lastN (enqueueFrame p q)"
  proof (cases "outCount t1 = ?n")
    case True
    then show ?thesis
      using assms st window_overwrite [OF st(2), of "outHead t1" p] len hd open_t
      by (simp add: WriteOut_def t1_def [symmetric] enqueueFrame_def logDropOnce_def)
         (simp add: duplex_state_def duplex_def hasChannel_def)
  next
    case False
    then show ?thesis
      using assms st window_push [OF st(2), of "outCount t1" "outHead t1" p] len open_t
      by (simp add: WriteOut_def t1_def [symmetric] enqueueFrame_def)
         (simp add: duplex_state_def duplex_def hasChannel_def)
  qed
  show "inUlaw (WriteOut dk now p t) = inUlaw t" "outUlaw (WriteOut dk now p t) = outUlaw t"
    using same open_t by (simp_all add: WriteOut_def t1_def [symmetric] logDropOnce_def)
qed

lemma DrainOut_duplex:
  assumes "healthy dk" "duplex_state t lastN q"
  shows "duplex_state (DrainOut dk t) lastN (tl q)" "inUlaw (DrainOut dk t) = inUlaw t"
    "fileBytes (outUlaw (DrainOut dk t)) = fileBytes (outUlaw t)
       @ (case q of [] \<Rightarrow> tapSilence (if lastN = 0 then defaultFrameBytes else lastN) | f # _ \<Rightarrow> f)"
proof -
  let ?n = maxOutQueueFrames
  define t1 where "t1 = snd (ensureOutWriter dk t)"
  have en: "ensureOutWriter dk t = (True, t1)"
    and st: "duplex_state t1 lastN q" "inUlaw t1 = inUlaw t" "fileBytes (outUlaw t1) = fileBytes (outUlaw t)"
    using assms by (auto simp: t1_def ensureOutWriter_def healthy_def duplex_state_def duplex_def hasChannel_def)
  obtain frame t2 where nx: "nextOutFrame t1 = (frame, t2)" by fastforce
  have len: "length q = outCount t1" using st(1) by (auto simp: duplex_state_def window_def)
  have "duplex_state t2 lastN (tl q) \<and> inUlaw t2 = inUlaw t1 \<and> outUlaw t2 = outUlaw t1
      \<and> frame = (case q of [] \<Rightarrow> tapSilence (if lastN = 0 then defaultFrameBytes else lastN) | f # _ \<Rightarrow> f)"
  proof (cases q)
    case Nil
    then show ?thesis
      using nx st(1) len by (auto simp: nextOutFrame_def duplex_state_def)
  next
    case (Cons f fs)
    then have c: "0 < outCount t1" "length (outQueue t1) = ?n" "outCount t1 \<le> ?n" "outHead t1 mod ?n = outHead t1"
      using len st(1) by (auto simp: duplex_state_def)
    show ?thesis
      using window_pop [OF c(2,1,3), of "outHead t1" "[]"] nx st(1) c Cons
      by (auto simp: nextOutFrame_def duplex_state_def duplex_def hasChannel_def)
  qed
  then have t2: "duplex_state t2 lastN (tl q)" "inUlaw t2 = inUlaw t1" "outUlaw t2 = outUlaw t1"
    "frame = (case q of [] \<Rightarrow> tapSilence (if lastN = 0 then defaultFrameBytes else lastN) | f # _ \<Rightarrow> f)" by blast+
  have dr: "DrainOut dk t = appendOut dk frame t2"
    using assms en nx by (simp add: DrainOut_def duplex_state_def)
  show "duplex_state (DrainOut dk t) lastN (tl q)"
    using t2(1) by (auto simp: dr appendOut_def appendOutFrames_def diskWrite_healthy [OF assms(1)] Let_def
        duplex_state_def duplex_def hasChannel_def)
  show "inUlaw (DrainOut dk t) = inUlaw t"
    "fileBytes (outUlaw (DrainOut dk t)) = fileBytes (outUlaw t)
       @ (case q of [] \<Rightarrow> tapSilence (if lastN = 0 then defaultFrameBytes else lastN) | f # _ \<Rightarrow> f)"
    using st t2(2-4) by (auto simp: dr appendOut_def appendOutFrames_def diskWrite_healthy [OF assms(1)] Let_def)
qed

lemma duplex_run:
  assumes "healthy dk" "duplex_state t lastN q"
  shows "fileBytes (inUlaw (tapRun dk ops t)) = fileBytes (inUlaw t) @ concat (heardFrames ops)"
    "fileBytes (outUlaw (tapRun dk ops t)) = fileBytes (outUlaw t) @ concat (tape lastN q ops)"
  using assms(2)
proof (induction ops arbitrary: t lastN q)
  case Nil
  { case 1 then show ?case by (simp add: tapRun_def) next case 2 then show ?case by (simp add: tapRun_def) }
next
  case (Cons x ops)
  {
    case 1
    then show ?case
    proof (cases x)
      case (OpIn p)
      then show ?thesis using Cons.IH(1) WriteIn_duplex [OF assms(1) 1, of p] by (simp add: tapRun_def)
    next
      case (OpOut now p)
      then show ?thesis using Cons.IH(1) WriteOut_duplex [OF 1, of dk now p] by (simp add: tapRun_def)
    next
      case OpDrain
      then show ?thesis using Cons.IH(1) DrainOut_duplex [OF assms(1) 1] by (simp add: tapRun_def)
    qed
  next
    case 2
    then show ?case
    proof (cases x)
      case (OpIn p)
      then show ?thesis using Cons.IH(2) WriteIn_duplex [OF assms(1) 2, of p] by (simp add: tapRun_def)
    next
      case (OpOut now p)
      then show ?thesis using Cons.IH(2) WriteOut_duplex [OF 2, of dk now p] by (simp add: tapRun_def)
    next
      case OpDrain
      then show ?thesis using Cons.IH(2) DrainOut_duplex [OF assms(1) 2] by (cases q) (simp_all add: tapRun_def)
    qed
  }
qed

lemma NewTap_duplex: "NewTap dir s c l at' [] = Some t \<Longrightarrow> duplex_state t 0 [] \<and> inUlaw t = None \<and> outUlaw t = None"
  by (auto simp: NewTap_def duplex_state_def duplex_def hasChannel_def window_def split: if_splits)

text \<open>
  The order of the pump: a frame received, then a drain, with frames sent anywhere; the flag says that a drain is due.  And
  frames of one length.
\<close>

fun pumped :: "bool \<Rightarrow> tapOp list \<Rightarrow> bool" where
  "pumped due [] = (\<not> due)"
| "pumped due (OpOut now p # ops) = pumped due ops"
| "pumped due (OpIn p # ops) = (\<not> due \<and> pumped True ops)"
| "pumped due (OpDrain # ops) = (due \<and> pumped False ops)"

fun frame_length :: "nat \<Rightarrow> tapOp \<Rightarrow> bool" where
  "frame_length n (OpIn p) = (length p = n)"
| "frame_length n (OpOut now p) = (length p = n)"
| "frame_length n OpDrain = True"

lemma tape_length:
  assumes "pumped due ops" "list_all (frame_length n) ops" "0 < n" "list_all (\<lambda>f. length f = n) q" "due \<Longrightarrow> lastN = n"
  shows "length (concat (tape lastN q ops)) = length (concat (heardFrames ops)) + (if due then n else 0)"
  using assms(1,2,4,5)
proof (induction lastN q ops arbitrary: due rule: tape.induct)
  case (3 lastN q now p ops)
  have "list_all (\<lambda>f. length f = n) (enqueueFrame p q)"
    using 3 by (auto simp: enqueueFrame_def list_all_iff dest: list.set_sel(2) [rotated])
  then show ?case using 3 by simp
next
  case (4 lastN q ops)
  then show ?case using assms(3) by (cases q) (auto simp: tapSilence_def)
qed (use assms(3) in auto)

text \<open>C36: A duplex recording keeps time.  On a disk that works, for every order in which frames are received, frames are sent and
  the queue is drained: the inbound file is the frames received, and the outbound file is the tape of a machine that queues
  the frames sent, loses the oldest when 15000 wait, and at each drain plays the next one or silence as long as the last frame
  received.  When the pump drains once per frame received and all frames have one length, the two files are equally long,
  whatever was sent in between.\<close>

theorem duplex_recording_exact:
  assumes "NewTap dir streamSID callSID label startedAt [] = Some t" "healthy dk"
  shows "fileBytes (inUlaw (tapRun dk ops t)) = concat (heardFrames ops)
    \<and> fileBytes (outUlaw (tapRun dk ops t)) = concat (tape 0 [] ops)
    \<and> (pumped False ops \<and> list_all (frame_length n) ops \<and> 0 < n \<longrightarrow>
        length (fileBytes (outUlaw (tapRun dk ops t))) = length (fileBytes (inUlaw (tapRun dk ops t))))"
  using NewTap_duplex [OF assms(1)] duplex_run [OF assms(2), of t 0 "[]" ops] tape_length [of False ops n "[]" 0]
  by (auto simp: fileBytes_def)

definition goodDisk :: disk where
  "goodDisk = \<lparr>dkOpenIn = True, dkOpenOut = True, dkWrite = (\<lambda>k n. (n, False)), dkSidecar = True\<rparr>"

theorem duplex_recording_exact_witness:
  "fileBytes (outUlaw (tapRun goodDisk [OpOut 5 [1, 2], OpIn [8, 9], OpDrain, OpIn [7, 7], OpDrain]
     (the (NewTap ''d'' ''s'' ''c'' '''' 0 [])))) = [1, 2, 0xFF, 0xFF]"
proof -
  have "healthy goodDisk" by (simp add: healthy_def goodDisk_def)
  moreover have "NewTap ''d'' ''s'' ''c'' '''' 0 [] = Some (the (NewTap ''d'' ''s'' ''c'' '''' 0 []))"
    by (simp add: NewTap_def)
  moreover have "concat (tape 0 [] [OpOut 5 [1, 2], OpIn [8, 9], OpDrain, OpIn [7, 7], OpDrain]) = [1, 2, 0xFF, 0xFF]"
    by (simp add: enqueueFrame_def tapSilence_def numeral_2_eq_2)
  ultimately show ?thesis
    using duplex_recording_exact [of "''d''" "''s''" "''c''" "''''" 0 "the (NewTap ''d'' ''s'' ''c'' '''' 0 [])" goodDisk
        "[OpOut 5 [1, 2], OpIn [8, 9], OpDrain, OpIn [7, 7], OpDrain]" 2]
    by simp
qed

lemma bed_chunk_length: "bedChunkBytes = 1600"
  by code_simp

text \<open>C37: The bed breaks the time of a duplex recording.  A chunk of the bed is 1600 bytes, ten frames of audio, in one send, and
  the tap plays it as one frame: after the ten frames of 160 bytes that the caller sent in those 200 milliseconds the inbound
  file has 1600 bytes and the outbound file 3040.\<close>

theorem bed_breaks_alignment:
  assumes "NewTap dir streamSID callSID label startedAt [] = Some t" "healthy dk"
    "length chunk = bedChunkBytes" "length frames = 10" "list_all (\<lambda>f. length f = 160) frames"
  shows "length (fileBytes (inUlaw (tapRun dk (OpOut now chunk # concat (map (\<lambda>f. [OpIn f, OpDrain]) frames)) t))) = 1600
    \<and> length (fileBytes (outUlaw (tapRun dk (OpOut now chunk # concat (map (\<lambda>f. [OpIn f, OpDrain]) frames)) t))) = 3040"
proof -
  have quiet: "length (concat (tape lastN [] (concat (map (\<lambda>f. [OpIn f, OpDrain]) fs)))) = 160 * length fs"
    if "list_all (\<lambda>f. length f = 160) fs" for fs :: "bytes list" and lastN
    using that by (induction fs arbitrary: lastN) (auto simp: tapSilence_def)
  have h: "length (concat (heardFrames (concat (map (\<lambda>f. [OpIn f, OpDrain]) fs)))) = 160 * length fs"
    if "list_all (\<lambda>f. length f = 160) fs" for fs :: "bytes list"
    using that by (induction fs) auto
  obtain f fs where "frames = f # fs" "length fs = 9" "length f = 160" "list_all (\<lambda>f. length f = 160) fs"
    using assms(4,5) by (cases frames) auto
  then show ?thesis
    using NewTap_duplex [OF assms(1)] duplex_run [OF assms(2), of t 0 "[]"] assms(3,4) quiet [of fs] h [of frames] assms(5)
      bed_chunk_length
    by (auto simp: fileBytes_def enqueueFrame_def)
qed

theorem bed_breaks_alignment_witness:
  "length (fileBytes (outUlaw (tapRun goodDisk
     (OpOut 0 (replicate 1600 0) # concat (map (\<lambda>f. [OpIn f, OpDrain]) (replicate 10 (replicate 160 1))))
     (the (NewTap ''d'' ''s'' ''c'' '''' 0 []))))) = 3040"
proof -
  have "healthy goodDisk" by (simp add: healthy_def goodDisk_def)
  moreover have "NewTap ''d'' ''s'' ''c'' '''' 0 [] = Some (the (NewTap ''d'' ''s'' ''c'' '''' 0 []))"
    by (simp add: NewTap_def)
  ultimately show ?thesis
    using bed_breaks_alignment [of "''d''" "''s''" "''c''" "''''" 0 "the (NewTap ''d'' ''s'' ''c'' '''' 0 [])" goodDisk
        "replicate 1600 0" "replicate 10 (replicate 160 1)" 0]
    by (simp add: list_all_iff bed_chunk_length)
qed

section \<open>An outbound tap\<close>

lemma MuLawDuration_nat: "MuLawDuration (int n) = 125000 * int n"
  by (cases "n = 0") (simp_all add: MuLawDuration_def second_def SampleRateHz_def signed_divide_int_def sgn_if)

lemma append_healthy:
  assumes "healthy dk"
  shows "fileBytes (outUlaw (appendOutFrames dk b k t)) = fileBytes (outUlaw t) @ b"
    "fedThrough (appendOutFrames dk b k t) = fedThrough t" "tpClosed (appendOutFrames dk b k t) = tpClosed t"
    "tpChannels (appendOutFrames dk b k t) = tpChannels t" "outOpenFailed (appendOutFrames dk b k t) = outOpenFailed t"
  by (simp_all add: appendOutFrames_def diskWrite_healthy [OF assms] Let_def)

lemma advance_fields [simp]:
  "fedThrough (advance d t) = map_option (\<lambda>x. x + d) (fedThrough t)" "outUlaw (advance d t) = outUlaw t"
  "tpClosed (advance d t) = tpClosed t" "tpChannels (advance d t) = tpChannels t" "outOpenFailed (advance d t) = outOpenFailed t"
  by (simp_all add: advance_def)

lemma tapSilence_append: "tapSilence a @ tapSilence b = tapSilence (a + b)"
  by (simp add: tapSilence_def replicate_add)

lemma fillLoop_fills:
  assumes "healthy dk" "0 < chunk" "fedThrough t = Some fed"
  shows "fileBytes (outUlaw (fillLoop dk chunk k t)) = fileBytes (outUlaw t) @ tapSilence (160 * k)
    \<and> fedThrough (fillLoop dk chunk k t) = Some (fed + 20000000 * int k)
    \<and> tpClosed (fillLoop dk chunk k t) = tpClosed t \<and> tpChannels (fillLoop dk chunk k t) = tpChannels t
    \<and> outOpenFailed (fillLoop dk chunk k t) = outOpenFailed t"
  using assms(3)
proof (induction k arbitrary: t fed rule: less_induct)
  case (less k)
  show ?case
  proof (cases "k = 0")
    case True
    then show ?thesis using less.prems by (simp add: fillLoop.simps [of dk chunk 0] tapSilence_def)
  next
    case False
    define n where "n = min k chunk"
    have n: "0 < n" "n \<le> k" using False assms(2) by (auto simp: n_def)
    let ?t = "advance (int n * MuLawDuration (int defaultFrameBytes)) (appendOutFrames dk (tapSilence (n * defaultFrameBytes)) n t)"
    have "fillLoop dk chunk k t = fillLoop dk chunk (k - n) ?t"
      using False assms(2) by (simp add: fillLoop.simps [of dk chunk k] n_def Let_def)
    moreover have "fedThrough ?t = Some (fed + 20000000 * int n)"
      using less.prems append_healthy [OF assms(1)] MuLawDuration_nat [of 160] by (simp add: mult.commute)
    moreover have "160 * n + 160 * (k - n) = 160 * k" using n by simp
    ultimately show ?thesis
      using less.IH [of "k - n" ?t] n append_healthy [OF assms(1)]
      by (simp add: tapSilence_append mult.commute of_nat_diff algebra_simps)
  qed
qed

lemma sdiv_frame: "(0 \<le> a \<longrightarrow> a sdiv 20000000 = a div 20000000) \<and> (a < 0 \<longrightarrow> a sdiv 20000000 \<le> 0)" for a :: int
  by (auto simp: signed_divide_int_def sgn_if pos_imp_zdiv_nonneg_iff)

text \<open>A gap is filled with whole frames, up to less than a frame before the time it is filled to.\<close>

lemma fillOutGap_fills:
  assumes "healthy dk" "fedThrough t = Some fed"
  shows "\<exists>g. fileBytes (outUlaw (fillOutGap dk now t)) = fileBytes (outUlaw t) @ tapSilence (160 * g)
    \<and> fedThrough (fillOutGap dk now t) = Some (fed + 20000000 * int g)
    \<and> now - 20000000 < fed + 20000000 * int g \<and> (0 < g \<longrightarrow> fed + 20000000 * int g \<le> now)
    \<and> tpClosed (fillOutGap dk now t) = tpClosed t \<and> tpChannels (fillOutGap dk now t) = tpChannels t
    \<and> outOpenFailed (fillOutGap dk now t) = outOpenFailed t"
proof -
  have dur: "MuLawDuration 160 = 20000000" using MuLawDuration_nat [of 160] by simp
  define k where "k = (now - fed) sdiv 20000000"
  show ?thesis
  proof (cases "k \<le> 0")
    case True
    then have "now - fed < 20000000"
      using sdiv_frame [of "now - fed"] pos_imp_zdiv_pos_iff [of 20000000 "now - fed"] by (fastforce simp: k_def)
    then show ?thesis using True assms
      by (intro exI [of _ 0]) (simp add: fillOutGap_def dur k_def [symmetric] tapSilence_def)
  next
    case False
    then have k: "k = (now - fed) div 20000000"
      using sdiv_frame [of "now - fed"] by (fastforce simp: k_def)
    have b: "20000000 * k \<le> now - fed" "now - fed < 20000000 * k + 20000000"
      using mult_div_mod_eq [of 20000000 "now - fed"] pos_mod_sign [of 20000000 "now - fed"]
        pos_mod_bound [of 20000000 "now - fed"] unfolding k by linarith+
    have "0 < (if k > int silenceChunkFrames then silenceChunkFrames else nat k)"
      using False by (auto simp: silenceChunkFrames_def)
    then show ?thesis
      using fillLoop_fills [OF assms(1) _ assms(2), of "if k > int silenceChunkFrames then silenceChunkFrames else nat k" "nat k"]
        False b assms(2)
      by (intro exI [of _ "nat k"]) (simp add: fillOutGap_def dur k_def [symmetric] Let_def)
  qed
qed

text \<open>The frames sent to a tap, each at its time; the first time is where the recording starts.\<close>

definition outRun :: "disk \<Rightarrow> (int \<times> bytes) list \<Rightarrow> Tap \<Rightarrow> Tap" where
  "outRun dk xs t = fold (\<lambda>(now, p) t. WriteOut dk now p t) xs t"

definition outbound_state :: "int option \<Rightarrow> Tap \<Rightarrow> bool" where
  "outbound_state t0 t \<longleftrightarrow>
     tpChannels t = [ChannelOut] \<and> \<not> tpClosed t \<and> \<not> outOpenFailed t
     \<and> fedThrough t = map_option (\<lambda>z. z + 125000 * int (length (fileBytes (outUlaw t)))) t0
     \<and> (t0 = None \<longrightarrow> fileBytes (outUlaw t) = [])"

lemma outbound_channels:
  "tpChannels t = [ChannelOut] \<Longrightarrow> hasChannel ChannelOut t \<and> \<not> duplex t"
  by (auto simp: hasChannel_def duplex_def ChannelIn_def ChannelOut_def)

lemma ensureOut_healthy:
  assumes "healthy dk" "\<not> outOpenFailed t"
  obtains t1 where "ensureOutWriter dk t = (True, t1)" "fileBytes (outUlaw t1) = fileBytes (outUlaw t)"
    "fedThrough t1 = fedThrough t" "tpClosed t1 = tpClosed t" "tpChannels t1 = tpChannels t" "\<not> outOpenFailed t1"
  using assms by (cases "tpWOut t") (auto simp: ensureOutWriter_def healthy_def)

lemma WriteOut_outbound:
  fixes now :: int
  assumes "healthy dk" "outbound_state t0 t" "p \<noteq> []"
  defines "z \<equiv> (case t0 of None \<Rightarrow> now | Some x \<Rightarrow> x)"
  shows "\<exists>g. fileBytes (outUlaw (WriteOut dk now p t)) = fileBytes (outUlaw t) @ tapSilence (160 * g) @ p
    \<and> now - 20000000 < z + 125000 * int (length (fileBytes (outUlaw t)) + 160 * g)
    \<and> (0 < g \<longrightarrow> z + 125000 * int (length (fileBytes (outUlaw t)) + 160 * g) \<le> now)
    \<and> outbound_state (Some z) (WriteOut dk now p t)"
proof -
  obtain t1 where t1: "ensureOutWriter dk t = (True, t1)" "fileBytes (outUlaw t1) = fileBytes (outUlaw t)"
    "fedThrough t1 = fedThrough t" "tpClosed t1 = tpClosed t" "tpChannels t1 = tpChannels t" "\<not> outOpenFailed t1"
    using ensureOut_healthy assms(1,2) unfolding outbound_state_def by metis
  have w: "WriteOut dk now p t = advance (MuLawDuration (int (length p))) (appendOut dk p (fillOutGap dk now t1))"
    using assms(2,3) t1(1) outbound_channels [of t] by (simp add: WriteOut_def outbound_state_def)
  note ap = append_healthy [OF assms(1)]
  show ?thesis
  proof (cases t0)
    case None
    then show ?thesis using assms(2) t1 w ap MuLawDuration_nat [of "length p"]
      by (intro exI [of _ 0])
         (auto simp: outbound_state_def z_def fillOutGap_def appendOut_def tapSilence_def fileBytes_def)
  next
    case (Some x)
    let ?L = "length (fileBytes (outUlaw t))"
    have "fedThrough t1 = Some (x + 125000 * int ?L)" using assms(2) Some t1(3) by (simp add: outbound_state_def)
    from fillOutGap_fills [OF assms(1) this, of now] obtain g where
      g: "fileBytes (outUlaw (fillOutGap dk now t1)) = fileBytes (outUlaw t1) @ tapSilence (160 * g)"
        "fedThrough (fillOutGap dk now t1) = Some (x + 125000 * int ?L + 20000000 * int g)"
        "now - 20000000 < x + 125000 * int ?L + 20000000 * int g"
        "0 < g \<longrightarrow> x + 125000 * int ?L + 20000000 * int g \<le> now"
        "tpClosed (fillOutGap dk now t1) = tpClosed t1" "tpChannels (fillOutGap dk now t1) = tpChannels t1"
        "outOpenFailed (fillOutGap dk now t1) = outOpenFailed t1"
      by blast
    then show ?thesis using assms(2) t1 w ap MuLawDuration_nat [of "length p"] Some
      by (intro exI [of _ g]) (auto simp: outbound_state_def z_def appendOut_def tapSilence_def algebra_simps)
  qed
qed

lemma outRun_outbound:
  assumes "healthy dk" "list_all (\<lambda>(now, p). p \<noteq> []) xs" "outbound_state t0 t"
  shows "\<exists>t1. outbound_state t1 (outRun dk xs t) \<and> t1 = (case t0 of Some z \<Rightarrow> Some z | None \<Rightarrow> map_option fst (List.find (\<lambda>_. True) xs))"
  using assms(2,3)
proof (induction xs arbitrary: t t0)
  case Nil
  then show ?case by (auto simp: outRun_def split: option.splits)
next
  case (Cons x xs)
  obtain now p where x: "x = (now, p)" by fastforce
  then have "outbound_state (Some (case t0 of None \<Rightarrow> now | Some z \<Rightarrow> z)) (WriteOut dk now p t)"
    using WriteOut_outbound [OF assms(1) Cons.prems(2), of p now] Cons.prems(1) by auto
  from Cons.IH [OF _ this] show ?case using Cons.prems(1) x by (auto simp: outRun_def split: option.splits)
qed

text \<open>C38: An outbound recording follows the clock.  On a disk that works, after any frames sent to a tap of the outbound direction
  alone, the next frame is recorded after as much silence as puts its first byte within one frame of its time: bytes are
  counted 125 microseconds each from the time of the first frame, the gap is filled with whole frames of silence, and it is
  never filled past the time; only a recording that is ahead already gets no silence.\<close>

theorem outbound_follows_clock:
  assumes "NewTap dir streamSID callSID label startedAt [WithChannels [ChannelOut]] = Some t" "healthy dk"
    "list_all (\<lambda>(now, p). p \<noteq> []) xs" "payload \<noteq> []"
  shows "let before = fileBytes (outUlaw (outRun dk xs t));
             start = (case xs of [] \<Rightarrow> now | (first, _) # _ \<Rightarrow> first)
    in \<exists>g. fileBytes (outUlaw (outRun dk (xs @ [(now, payload)]) t)) = before @ tapSilence (160 * g) @ payload
        \<and> now - 20000000 < start + 125000 * int (length before + 160 * g)
        \<and> (0 < g \<longrightarrow> start + 125000 * int (length before + 160 * g) \<le> now)"
proof -
  have "outbound_state None t"
    using assms(1)
    by (auto simp: NewTap_def WithChannels_def outbound_state_def ChannelOut_def ChannelIn_def fileBytes_def split: if_splits)
  then obtain t1 where st: "outbound_state t1 (outRun dk xs t)" "t1 = map_option fst (List.find (\<lambda>_. True) xs)"
    using outRun_outbound [OF assms(2,3)] by fastforce
  moreover have "(case t1 of None \<Rightarrow> now | Some x \<Rightarrow> x) = (case xs of [] \<Rightarrow> now | (first, _) # _ \<Rightarrow> first)"
    using st(2) by (cases xs) auto
  ultimately show ?thesis
    using WriteOut_outbound [OF assms(2) st(1) assms(4), of now] by (auto simp: outRun_def Let_def)
qed

theorem outbound_follows_clock_witness:
  "\<exists>g. fileBytes (outUlaw (outRun goodDisk [(1000000000, replicate 160 1), (1100000000, [2])]
      (the (NewTap ''d'' ''s'' ''c'' '''' 0 [WithChannels [ChannelOut]]))))
     = fileBytes (outUlaw (outRun goodDisk [(1000000000, replicate 160 1)]
        (the (NewTap ''d'' ''s'' ''c'' '''' 0 [WithChannels [ChannelOut]])))) @ tapSilence (160 * g) @ [2]"
proof -
  have "healthy goodDisk" by (simp add: healthy_def goodDisk_def)
  moreover have "NewTap ''d'' ''s'' ''c'' '''' 0 [WithChannels [ChannelOut]]
      = Some (the (NewTap ''d'' ''s'' ''c'' '''' 0 [WithChannels [ChannelOut]]))"
    by (simp add: NewTap_def)
  ultimately show ?thesis
    using outbound_follows_clock [of "''d''" "''s''" "''c''" "''''" 0
        "the (NewTap ''d'' ''s'' ''c'' '''' 0 [WithChannels [ChannelOut]])" goodDisk
        "[(1000000000, replicate 160 1)]" "[2]" 1100000000]
    by (auto simp: Let_def)
qed

section \<open>Closing\<close>

text \<open>Closing is final: no later call changes a closed tap, a second close included.\<close>

lemma closed_tap_final:
  assumes "tpClosed t"
  shows "tapOp_run dk op t = t \<and> CloseTap dk err now t = t"
  using assms by (cases op) (simp_all add: WriteIn_def WriteOut_def DrainOut_def CloseTap_def)

lemma closing_keeps_closed:
  "tpClosed (writeSidecar dk t) = tpClosed t" "tpClosed (removeEmptyRecordings t) = tpClosed t"
  "tpClosed (closeWriters err t) = tpClosed t" "tpClosed (snd (ensureOutWriter dk t)) = tpClosed t"
  by (simp_all add: writeSidecar_def removeEmptyRecordings_def closeWriters_def ensureOutWriter_def logOnce_def Let_def)

lemma fillOutGap_closed: "healthy dk \<Longrightarrow> tpClosed (fillOutGap dk now t) = tpClosed t"
  using fillOutGap_fills [of dk t _ now] by (cases "fedThrough t") (auto simp: fillOutGap_def)

lemma CloseTap_closed:
  assumes "healthy dk"
  shows "tpClosed (CloseTap dk err now t)"
proof (cases "tpClosed t")
  case False
  define t0 where "t0 = t\<lparr>tpClosed := True\<rparr>"
  define t1 where "t1 = (if \<not> duplex t0 \<and> hasChannel ChannelOut t0 \<and> fedThrough t0 \<noteq> None
    then (let (ok, x) = ensureOutWriter dk t0 in if ok then fillOutGap dk now x else x) else t0)"
  have "tpClosed t1"
    using closing_keeps_closed(4) [of dk t0]
    by (auto simp: t1_def t0_def fillOutGap_closed [OF assms] split: prod.splits)
  moreover have "CloseTap dk err now t = (let t2 = removeEmptyRecordings (closeWriters err t1)
      in if tpFrames t2 = 0 \<and> outFrames t2 = 0 then t2 else writeSidecar dk t2)"
    unfolding CloseTap_def t1_def t0_def Let_def using False by (simp only: if_False)
  ultimately show ?thesis by (simp add: closing_keeps_closed Let_def)
qed (simp add: CloseTap_def)

text \<open>A duplex tap that closes keeps both files as they are when each received something, and says so in its sidecar.\<close>

lemma CloseTap_duplex:
  assumes "healthy dk" "duplex t" "\<not> tpClosed t" "0 < tpFrames t" "0 < outFrames t"
  shows "inUlaw (CloseTap dk err now t) = inUlaw t" "outUlaw (CloseTap dk err now t) = outUlaw t"
    "\<exists>sc. tpSidecar (CloseTap dk err now t) = Some sc \<and> scAlignment sc = duplexAlignment \<and> scFrames sc = tpFrames t
      \<and> scOutTruncated sc = (0 < outCount t) \<and> scOutDroppedFrames sc = outDrops t"
proof -
  let ?t = "t\<lparr>tpClosed := True, tpLogged := (tpLogged t \<or> (tpW t \<or> tpWOut t) \<and> err)\<rparr>"
  have "duplex (t\<lparr>tpClosed := True\<rparr>)" "duplex ?t" using assms(2) by (simp_all add: duplex_def hasChannel_def)
  then have "CloseTap dk err now t = writeSidecar dk ?t" and al: "alignment ?t = duplexAlignment"
    using assms(3-5) by (simp_all add: CloseTap_def Let_def removeEmptyRecordings_def closeWriters_def logOnce_def alignment_def)
  then show "inUlaw (CloseTap dk err now t) = inUlaw t" "outUlaw (CloseTap dk err now t) = outUlaw t"
    "\<exists>sc. tpSidecar (CloseTap dk err now t) = Some sc \<and> scAlignment sc = duplexAlignment \<and> scFrames sc = tpFrames t
      \<and> scOutTruncated sc = (0 < outCount t) \<and> scOutDroppedFrames sc = outDrops t"
    using assms(1) by (simp_all add: writeSidecar_def healthy_def)
qed

end
