(* ===== verification/Sidecars.thy ===== *)
theory Sidecars
  imports Vad Wav Wire
begin

text \<open>
  The clients of two sidecars: the detector of speech that posts windows to the VAD sidecar and threads its recurrent state
  (\<open>telephony/silero.go\<close>, \<open>silero_http.go\<close>) with the self-test of a start (\<open>validate.go\<close>), and the extraction client
  (\<open>extract/extract.go\<close>, \<open>extract/http.go\<close>).

  A \<open>float32\<close> is its 32 bits, which is all the code moves; the numbers they stand for are parameters.  What a sidecar answers
  is a parameter of each call.
\<close>

section \<open>Floating point numbers on the wire\<close>

definition putFloat32sLE :: "32 word list \<Rightarrow> bytes" where
  "putFloat32sLE xs = concat (map (\<lambda>x. putUint32 (uint x)) xs)"

definition float32sFromLE :: "bytes \<Rightarrow> 32 word list" where
  "float32sFromLE b = map (\<lambda>i. word_of_int (leUint (slice b (i * 4) (i * 4 + 4)))) [0..<length b div 4]"

section \<open>The detector\<close>

definition sileroWindowSize :: nat where "sileroWindowSize = 256"
definition sileroContextSize :: nat where "sileroContextSize = 64"
definition sileroStateShape :: "nat list" where "sileroStateShape = [2, 1, 128]"

definition sileroStateElems :: nat where
  "sileroStateElems = sileroStateShape ! 0 * sileroStateShape ! 1 * sileroStateShape ! 2"

definition vadInferenceDeadline :: duration where
  "vadInferenceDeadline = (DataPlaneBufferMS - 20) * millisecond"

definition vadRetryBackoff :: duration where
  "vadRetryBackoff = 5 * millisecond"

text \<open>One exchange with the sidecar: no request, no answer, or a status and a body.\<close>

datatype vad_answer = VNoRequest | VNoAnswer | VAnswer int bytes

datatype vad_error = InputLength nat | VBadURL | VCallFailed | VStatus int bytes | ResponseLength nat | WindowLength nat
  | InferenceFailed vad_error

definition inferRequest :: "32 word list \<Rightarrow> 32 word list \<Rightarrow> bytes" where
  "inferRequest input state = putFloat32sLE input @ putFloat32sLE state"

definition infer :: "vad_answer \<Rightarrow> 32 word list \<Rightarrow> 32 word list \<Rightarrow> vad_error + 32 word \<times> 32 word list" where
  "infer ans input state =
     (if length input \<noteq> sileroContextSize + sileroWindowSize then Inl (InputLength (length input))
      else
        (case ans of
           VNoRequest \<Rightarrow> Inl VBadURL
         | VNoAnswer \<Rightarrow> Inl VCallFailed
         | VAnswer code raw \<Rightarrow>
             if code \<noteq> 200 then Inl (VStatus code raw)
             else if length raw \<noteq> 4 + length state * 4 then Inl (ResponseLength (length raw))
             else Inr (word_of_int (leUint (take 4 raw)), float32sFromLE (drop 4 raw))))"

record httpSileroDetector =
  hdState :: "32 word list"
  hdContext :: "32 word list"

definition hd_Reset :: httpSileroDetector where
  "hd_Reset = \<lparr>hdState = replicate sileroStateElems 0, hdContext = replicate sileroContextSize 0\<rparr>"

text \<open>The factory of \<open>Detector\<close> gives each session a detector of its own.\<close>

definition Detector :: httpSileroDetector where
  "Detector = hd_Reset"

text \<open>
  The attempts of one \<open>Detect\<close>: what the sidecar answers to each before the deadline, the first and the later ones.  A failed
  attempt is repeated with the same input while there is time.
\<close>

fun attempts :: "vad_answer \<Rightarrow> vad_answer list \<Rightarrow> 32 word list \<Rightarrow> 32 word list \<Rightarrow> vad_error + 32 word \<times> 32 word list" where
  "attempts a [] input state = infer a input state"
| "attempts a (b # later) input state =
     (case infer a input state of Inr r \<Rightarrow> Inr r | Inl _ \<Rightarrow> attempts b later input state)"

definition Detect :: "vad_answer \<Rightarrow> vad_answer list \<Rightarrow> 32 word list \<Rightarrow> httpSileroDetector
    \<Rightarrow> (vad_error + 32 word) \<times> httpSileroDetector" where
  "Detect a later win d =
     (if length win \<noteq> sileroWindowSize then (Inl (WindowLength (length win)), d)
      else
        (case attempts a later (hdContext d @ win) (hdState d) of
           Inl e \<Rightarrow> (Inl (InferenceFailed e), d)
         | Inr (prob, newState) \<Rightarrow>
             (Inr prob, \<lparr>hdState = newState, hdContext = drop (length win - sileroContextSize) win\<rparr>)))"

section \<open>The self-test\<close>

text \<open>
  The bits of a plausible probability: not NaN, not infinite, not below 0 and not above 1.  For numbers without a sign the
  order is that of their bits, and the only number with a sign that is not below 0 is the negative zero.
\<close>

definition plausible :: "32 word \<Rightarrow> bool" where
  "plausible b =
     (let e = (uint b div 2 ^ 23) mod 256 in
      e \<noteq> 255 \<and> (if uint b < 2 ^ 31 then uint b \<le> 0x3F800000 else uint b = 0x80000000))"

datatype selftest_error = NoDetector | Inference vad_error | Implausible "32 word"

definition validateVAD :: "httpSileroDetector option \<Rightarrow> vad_answer \<Rightarrow> vad_answer list \<Rightarrow> selftest_error option" where
  "validateVAD factory a later =
     (case factory of
        None \<Rightarrow> Some NoDetector
      | Some det \<Rightarrow>
          (case fst (Detect a later (replicate sileroWindowSize 0) det) of
             Inl e \<Rightarrow> Some (Inference e)
           | Inr prob \<Rightarrow> if plausible prob then None else Some (Implausible prob)))"

section \<open>Extraction\<close>

definition extractPath :: string where "extractPath = ''/extract''"

text \<open>A \<open>float64\<close>: NaN, or a number with the numeral that is written for it.\<close>

datatype f64 = F64NaN | F64 rat string

record extractRequest =
  rqText :: string
  rqLabels :: "string list"
  rqThreshold :: f64

record extractSpan =
  spText :: string
  spLabel :: string
  spStart :: int
  spEnd :: int
  spScore :: string

datatype extract_error = LabelsRequired | BadThreshold | Unmarshalable | ExBadURL | ExCallFailed | ExStatus int | ExDecode

datatype extract_answer = ExNoRequest | ExNoAnswer | ExAnswer int "json option"

definition extractBody :: "extractRequest \<Rightarrow> json option" where
  "extractBody r =
     (case rqThreshold r of
        F64NaN \<Rightarrow> None
      | F64 _ num \<Rightarrow> Some (JObj [(''text'', JStr (rqText r)), (''labels'', JArr (map JStr (rqLabels r))),
                              (''threshold'', JNum num)]))"

fun span_int :: "int \<Rightarrow> json list \<Rightarrow> json_error + int" where
  "span_int cur [] = Inr cur"
| "span_int cur (JInt i # vs) = (if int64_ok i then span_int i vs else Inl BadType)"
| "span_int cur (JNull # vs) = span_int cur vs"
| "span_int cur (v # vs) = Inl BadType"

fun span_num :: "string \<Rightarrow> json list \<Rightarrow> json_error + string" where
  "span_num cur [] = Inr cur"
| "span_num cur (JInt i # vs) = span_num (itoa i) vs"
| "span_num cur (JNum n # vs) = span_num n vs"
| "span_num cur (JNull # vs) = span_num cur vs"
| "span_num cur (v # vs) = Inl BadType"

definition decodeSpan :: "json \<Rightarrow> json_error + extractSpan" where
  "decodeSpan j =
     (case store_struct [j] of
        Inl e \<Rightarrow> Inl e
      | Inr kvs \<Rightarrow>
          (case (string_field ''text'' kvs, string_field ''label'' kvs, span_int 0 (members ''start'' kvs),
                 span_int 0 (members ''end'' kvs), span_num ''0'' (members ''score'' kvs)) of
             (Inr t, Inr l, Inr s, Inr e, Inr sc) \<Rightarrow>
               Inr \<lparr>spText = t, spLabel = l, spStart = s, spEnd = e, spScore = sc\<rparr>
           | _ \<Rightarrow> Inl BadType))"

fun decodeSpans :: "json list \<Rightarrow> json_error + extractSpan list" where
  "decodeSpans [] = Inr []"
| "decodeSpans (j # js) =
     (case decodeSpan j of
        Inl e \<Rightarrow> Inl e
      | Inr s \<Rightarrow> (case decodeSpans js of Inl e \<Rightarrow> Inl e | Inr ss \<Rightarrow> Inr (s # ss)))"

text \<open>A nil slice of spans is \<open>None\<close>.  A member that is given twice is not modelled: the answer has one list of spans.\<close>

definition Extract :: "extract_answer \<Rightarrow> extractRequest \<Rightarrow> extract_error + extractSpan list option" where
  "Extract ans r =
     (if rqText r = '''' then Inr None
      else if rqLabels r = [] then Inl LabelsRequired
      else if (case rqThreshold r of F64 x _ \<Rightarrow> x < 0 \<or> x > 1 | F64NaN \<Rightarrow> False) then Inl BadThreshold
      else
        (case extractBody r of
           None \<Rightarrow> Inl Unmarshalable
         | Some _ \<Rightarrow>
             (case ans of
                ExNoRequest \<Rightarrow> Inl ExBadURL
              | ExNoAnswer \<Rightarrow> Inl ExCallFailed
              | ExAnswer code body \<Rightarrow>
                  if code \<noteq> 200 then Inl (ExStatus code)
                  else
                    (case doc_members body of
                       Inl _ \<Rightarrow> Inl ExDecode
                     | Inr kvs \<Rightarrow>
                         (case raw_field ''spans'' kvs of
                            None \<Rightarrow> Inr None
                          | Some JNull \<Rightarrow> Inr None
                          | Some (JArr js) \<Rightarrow> (case decodeSpans js of Inl _ \<Rightarrow> Inl ExDecode | Inr ss \<Rightarrow> Inr (Some ss))
                          | Some _ \<Rightarrow> Inl ExDecode)))))"

text \<open>Nothing is asked of the sidecar for an empty text, and a threshold out of range or not a number is never sent.\<close>

lemma Extract_guards:
  "rqText r = '''' \<Longrightarrow> Extract ans r = Inr None"
  "rqText r \<noteq> '''' \<Longrightarrow> rqThreshold r = F64NaN \<Longrightarrow> Extract ans r \<in> {Inl LabelsRequired, Inl Unmarshalable}"
  by (auto simp: Extract_def extractBody_def)

section \<open>What the detector keeps\<close>

lemma length_putFloat32sLE: "length (putFloat32sLE xs) = 4 * length xs"
  by (induction xs) (simp_all add: putFloat32sLE_def)

lemma slice_uint32s:
  "i < length xs \<Longrightarrow> slice (putFloat32sLE xs @ ys) (i * 4) (i * 4 + 4) = putUint32 (uint (xs ! i))"
proof (induction xs arbitrary: i)
  case (Cons x xs)
  then show ?case by (cases i) (simp_all add: slice_def putFloat32sLE_def)
qed simp

text \<open>Bits that are written are read back.\<close>

lemma float32s_roundtrip: "float32sFromLE (putFloat32sLE xs) = xs"
proof (rule nth_equalityI)
  fix i assume "i < length (float32sFromLE (putFloat32sLE xs))"
  then have "i < length xs" by (simp add: float32sFromLE_def length_putFloat32sLE)
  then show "float32sFromLE (putFloat32sLE xs) ! i = xs ! i"
    using slice_uint32s [of i xs "[]"] uint_lt2p [of "xs ! i"]
    by (simp add: float32sFromLE_def length_putFloat32sLE)
qed (simp add: float32sFromLE_def length_putFloat32sLE)

definition detector_ok :: "httpSileroDetector \<Rightarrow> bool" where
  "detector_ok d \<longleftrightarrow> length (hdState d) = sileroStateElems \<and> length (hdContext d) = sileroContextSize"

lemma detector_ok_Reset: "detector_ok hd_Reset"
  by (simp add: detector_ok_def hd_Reset_def)

lemma infer_state_length: "infer a input state = Inr (p, s) \<Longrightarrow> length s = length state"
  by (auto simp: infer_def float32sFromLE_def split: if_splits vad_answer.splits)

lemma attempts_state_length: "attempts a later input state = Inr (p, s) \<Longrightarrow> length s = length state"
  by (induction a later input state rule: attempts.induct) (auto split: sum.splits dest: infer_state_length)

text \<open>Every call keeps the sizes of state and context, and a call that fails keeps the detector, so that a retry sends the same
  window again.\<close>

lemma Detect_keeps:
  assumes "detector_ok d" "Detect a later win d = (res, d')"
  shows "detector_ok d'" "(\<exists>e. res = Inl e) \<Longrightarrow> d' = d"
  using assms by (auto simp: Detect_def detector_ok_def sileroWindowSize_def sileroContextSize_def
      split: if_splits sum.splits dest!: attempts_state_length)

text \<open>The last attempt that answers gives the state, the earlier ones leave no trace.\<close>

lemma attempts_retry:
  "infer a input state = Inl e \<Longrightarrow> attempts a (b # later) input state = attempts b later input state"
  by simp

end
