(* ===== verification/Replay.thy ===== *)
theory Replay
  imports Vad Service
begin

text \<open>
  The replay harness (\<open>telephony/replay.go\<close>): the gate that keeps the feeding of a recording within reach of the detector, the
  feeding itself, the rows of a data set and their score.

  A replay drives a production session; that session is the one of \<open>Session\<close> and \<open>State\<close>, and starting and stopping it is not
  repeated here.  The reader is the list of the pieces it returns and whether it ends with an error; the verifier is a
  parameter.
\<close>

definition replayTimerBoundMS :: int where "replayTimerBoundMS = 10 * 60 * 1000"
definition replayFrameBytes :: nat where "replayFrameBytes = 256"
definition replaySilenceByte :: byte where "replaySilenceByte = 0x80"
definition silencePaddingMargin :: int where "silencePaddingMargin = 4"
definition replayLookahead :: nat where "replayLookahead = 4"
definition replayWindowMS :: int where "replayWindowMS = (int replayFrameBytes * 1000) sdiv SampleRateHz"

section \<open>The gate\<close>

text \<open>The tokens in the gate and its size; a release into a full gate is dropped.\<close>

record vadProgressGate =
  gTokens :: nat
  gCap :: nat

definition newVADProgressGate :: "nat \<Rightarrow> vadProgressGate" where
  "newVADProgressGate n = \<lparr>gTokens = n, gCap = n\<rparr>"

definition gate_acquire :: "vadProgressGate \<Rightarrow> vadProgressGate option" where
  "gate_acquire g = (if gTokens g > 0 then Some (g\<lparr>gTokens := gTokens g - 1\<rparr>) else None)"

definition gate_release :: "vadProgressGate \<Rightarrow> vadProgressGate" where
  "gate_release g = (if gTokens g < gCap g then g\<lparr>gTokens := gTokens g + 1\<rparr> else g)"

section \<open>Feeding\<close>

text \<open>The chunks \<open>feedReplayAudio\<close> sends for the pieces a reader returns: those that are not empty.\<close>

definition audioChunks :: "bytes list \<Rightarrow> bytes list" where
  "audioChunks reads = filter (\<lambda>c. c \<noteq> []) reads"

definition paddingWindows :: "vadConfig \<Rightarrow> nat" where
  "paddingWindows cfg0 =
     (let cfg = withDefaults cfg0 in nat (windowsToCross (EndSilenceMS cfg) (windowMS cfg) + silencePaddingMargin))"

definition paddingChunks :: "vadConfig \<Rightarrow> bytes list" where
  "paddingChunks cfg = replicate (paddingWindows cfg) (replicate replayFrameBytes replaySilenceByte)"

text \<open>
  The feeding as a step relation: each send takes a token first, and waits for one; the detector settles a window that was
  sent and returns a token.  What is left to send, what was sent, how many windows were settled.
\<close>

record feed =
  fdGate :: vadProgressGate
  fdLeft :: "bytes list"
  fdSent :: "bytes list"
  fdSettled :: nat

definition newFeed :: "bytes list \<Rightarrow> vadConfig \<Rightarrow> feed" where
  "newFeed reads cfg = \<lparr>fdGate = newVADProgressGate replayLookahead, fdLeft = audioChunks reads @ paddingChunks cfg,
     fdSent = [], fdSettled = 0\<rparr>"

inductive feed_step :: "feed \<Rightarrow> feed \<Rightarrow> bool" where
  feed_send: "fdLeft f = c # rest \<Longrightarrow> gate_acquire (fdGate f) = Some g \<Longrightarrow>
     feed_step f (f\<lparr>fdGate := g, fdLeft := rest, fdSent := fdSent f @ [c]\<rparr>)"
| feed_settle: "fdSettled f < length (fdSent f) \<Longrightarrow>
     feed_step f (f\<lparr>fdGate := gate_release (fdGate f), fdSettled := fdSettled f + 1\<rparr>)"

section \<open>Recorder\<close>

record utteranceRecorder =
  urTexts :: "string list"
  urPending :: int

definition recorder_observe :: "VADEvent \<Rightarrow> bool \<Rightarrow> utteranceRecorder \<Rightarrow> utteranceRecorder" where
  "recorder_observe ev emitted u =
     (if emitted \<and> evKind ev = VADEndOfUtterance then u\<lparr>urPending := urPending u + 1\<rparr> else u)"

definition recorder_Send :: "string \<Rightarrow> utteranceRecorder \<Rightarrow> utteranceRecorder" where
  "recorder_Send text u = u\<lparr>urTexts := urTexts u @ [text], urPending := urPending u - 1\<rparr>"

definition recorder_results :: "utteranceRecorder \<Rightarrow> string list" where
  "recorder_results u = urTexts u"

section \<open>Rows and scores\<close>

definition LabelTruncated :: string where "LabelTruncated = ''truncated''"

datatype RowLabel = RowIncomplete | RowComplete

definition HarnessVersion :: string where "HarnessVersion = ''replay-harness-v1''"

record DatasetRow =
  drRecordingID :: string
  drUtterances :: "string list"
  drLabel :: RowLabel
  drEndSilenceMS :: int
  drHarnessVersion :: string

definition RowsFromUtterances :: "string \<Rightarrow> string \<Rightarrow> string list \<Rightarrow> int \<Rightarrow> DatasetRow list" where
  "RowsFromUtterances recordingID recLabel utterances endSilenceMS =
     map (\<lambda>i. \<lparr>drRecordingID = recordingID, drUtterances = take (i + 1) utterances,
               drLabel = (if i = length utterances - 1 \<and> recLabel \<noteq> LabelTruncated then RowComplete else RowIncomplete),
               drEndSilenceMS = endSilenceMS, drHarnessVersion = HarnessVersion\<rparr>)
       [0..<length utterances]"

datatype VerifierOutcome = OutcomeProceed | OutcomeSpuriousRepair | OutcomeRepairFires | OutcomePartialAccepted | OtherOutcome string

record ScoreReport =
  srPromptFile :: string
  srEndSilenceMS :: int
  srRowCount :: nat
  srOutcomes :: "VerifierOutcome \<Rightarrow> nat"

fun score_rows ::
    "(string \<Rightarrow> DatasetRow \<Rightarrow> 'e + VerifierOutcome) \<Rightarrow> string \<Rightarrow> DatasetRow list \<Rightarrow> ScoreReport \<Rightarrow> ('e \<times> string) option \<times> ScoreReport" where
  "score_rows verify promptFile [] r = (None, r)"
| "score_rows verify promptFile (row # rows) r =
     (case verify promptFile row of
        Inl e \<Rightarrow> (Some (e, drRecordingID row), r)
      | Inr k \<Rightarrow> score_rows verify promptFile rows (r\<lparr>srOutcomes := (srOutcomes r)(k := srOutcomes r k + 1)\<rparr>))"

definition Score ::
    "(string \<Rightarrow> DatasetRow \<Rightarrow> 'e + VerifierOutcome) \<Rightarrow> string \<Rightarrow> DatasetRow list \<Rightarrow> int \<Rightarrow> ('e \<times> string) option \<times> ScoreReport" where
  "Score verify promptFile rows endSilenceMS =
     score_rows verify promptFile rows
       \<lparr>srPromptFile = promptFile, srEndSilenceMS = endSilenceMS, srRowCount = length rows, srOutcomes = (\<lambda>_. 0)\<rparr>"

section \<open>What the harness keeps\<close>

text \<open>The gate holds what is not on its way, and the sent chunks are a prefix of the recording and its padding.\<close>

definition feed_inv :: "bytes list \<Rightarrow> feed \<Rightarrow> bool" where
  "feed_inv all f \<longleftrightarrow>
     gCap (fdGate f) = replayLookahead \<and> fdSettled f \<le> length (fdSent f)
     \<and> gTokens (fdGate f) + (length (fdSent f) - fdSettled f) = replayLookahead
     \<and> fdSent f @ fdLeft f = all"

lemma feed_inv_new: "feed_inv (audioChunks reads @ paddingChunks cfg) (newFeed reads cfg)"
  by (simp add: feed_inv_def newFeed_def newVADProgressGate_def)

lemma feed_inv_step: "feed_step f f' \<Longrightarrow> feed_inv all f \<Longrightarrow> feed_inv all f'"
  by (induction rule: feed_step.induct)
     (auto simp: feed_inv_def gate_acquire_def gate_release_def replayLookahead_def split: if_splits)

lemma feed_inv_run: "feed_step\<^sup>*\<^sup>* f f' \<Longrightarrow> feed_inv all f \<Longrightarrow> feed_inv all f'"
  by (induction rule: rtranclp_induct) (auto dest: feed_inv_step)

definition feed_todo :: "feed \<Rightarrow> nat" where
  "feed_todo f = 2 * length (fdLeft f) + (length (fdSent f) - fdSettled f)"

lemma feed_progress:
  assumes "feed_inv all f" "fdLeft f \<noteq> [] \<or> fdSettled f < length (fdSent f)"
  shows "\<exists>f'. feed_step f f' \<and> feed_todo f' < feed_todo f"
proof (cases "fdSettled f < length (fdSent f)")
  case True
  from feed_settle [OF this] show ?thesis
    by (intro exI conjI) (assumption, use True in \<open>simp add: feed_todo_def\<close>)
next
  case False
  then obtain c rest where c: "fdLeft f = c # rest" using assms(2) by (cases "fdLeft f") auto
  have "gTokens (fdGate f) = replayLookahead" using assms(1) False by (simp add: feed_inv_def)
  then have "gate_acquire (fdGate f) = Some ((fdGate f)\<lparr>gTokens := gTokens (fdGate f) - 1\<rparr>)"
    by (simp add: gate_acquire_def replayLookahead_def)
  from feed_send [OF c this] show ?thesis
    by (intro exI conjI) (assumption, use assms(1) False c in \<open>auto simp: feed_todo_def feed_inv_def\<close>)
qed

lemma feed_completes:
  "feed_inv all f \<Longrightarrow> \<exists>f'. feed_step\<^sup>*\<^sup>* f f' \<and> fdSent f' = all \<and> fdSettled f' = length all"
proof (induction "feed_todo f" arbitrary: f rule: less_induct)
  case less
  show ?case
  proof (cases "fdLeft f \<noteq> [] \<or> fdSettled f < length (fdSent f)")
    case True
    then obtain f1 where "feed_step f f1" "feed_todo f1 < feed_todo f" using feed_progress [OF less.prems] by blast
    then show ?thesis using less.hyps [of f1] feed_inv_step [OF _ less.prems] by (metis converse_rtranclp_into_rtranclp)
  next
    case False
    then show ?thesis using less.prems by (intro exI [of _ f]) (auto simp: feed_inv_def)
  qed
qed

lemma audioChunks_concat: "concat (audioChunks reads) = concat reads"
  by (induction reads) (auto simp: audioChunks_def)




text \<open>One row per utterance, each a longer prefix; only the whole recording is complete, and not when it is marked truncated.\<close>

lemma RowsFromUtterances_prefixes:
  "map drUtterances (RowsFromUtterances rid lbl us e) = map (\<lambda>i. take (Suc i) us) [0..<length us]
   \<and> (\<forall>row \<in> set (RowsFromUtterances rid lbl us e).
        drLabel row = RowComplete \<longrightarrow> drUtterances row = us \<and> lbl \<noteq> LabelTruncated)"
  by (auto simp: RowsFromUtterances_def split: if_splits)

text \<open>A score that succeeds counts every row once.\<close>

definition allOutcomes :: "VerifierOutcome list" where
  "allOutcomes = [OutcomeProceed, OutcomeSpuriousRepair, OutcomeRepairFires, OutcomePartialAccepted]"

lemma score_rows_total:
  assumes "\<And>f row k. verify f row = Inr k \<Longrightarrow> k \<in> set allOutcomes" "score_rows verify f rows r = (None, r')"
  shows "(\<Sum>k \<leftarrow> allOutcomes. srOutcomes r' k) = (\<Sum>k \<leftarrow> allOutcomes. srOutcomes r k) + length rows"
  using assms(2)
proof (induction rows arbitrary: r)
  case (Cons row rows)
  then obtain k where k: "verify f row = Inr k" by (auto split: sum.splits)
  then show ?case
    using Cons assms(1) [OF k] by (fastforce simp: allOutcomes_def)
qed simp

end
