(* ===== verification/Spec2Isabelle.thy ===== *)
theory Spec2Isabelle
  imports TurnProps Server RelayProps ReplProps DriverProps DriverHost TapProps Sidecars Replay
begin

text \<open>
  A verification development of aatoolkit, an engine for telephone agents written in Go.

  \<^bold>\<open>The program.\<close>  A call reaches the engine through two doors.  The webhook server
  (\<open>src/telephony/twilio/server.go\<close>) answers Twilio's HTTP requests after it has checked their
  signatures and remembers the call; then Twilio opens a media stream, a WebSocket of JSON frames
  (\<open>twilio/stream.go\<close>).  From there a call takes one of two paths.

  \<^item> The engine's own pipeline.  The demultiplexer (\<open>twilio/demux.go\<close>) splits the socket into a lossy data
    plane of mu-law audio and a lossless control plane.  A sequencer (\<open>telephony/session.go\<close>) takes one
    event at a time and runs a transition table (\<open>telephony/state.go\<close>); it feeds audio to the
    voice-activity detector (\<open>telephony/vad.go\<close>), utterances to the recogniser (\<open>telephony/stt.go\<close>, with
    \<open>wav.go\<close> and \<open>mulaw.go\<close>) and completed turns to the agent, whose replies come back through the
    routers (\<open>sttrouter.go\<close>, \<open>reply_router.go\<close>).  Named timers (\<open>telephony/timer.go\<close>) bound every wait,
    and every decision is recorded (\<open>telephony/decision.go\<close>).
  \<^item> The realtime relay (\<open>twilio/realtime*.go\<close> over \<open>telephony/realtime\<close>).  Audio passes untranscoded to a
    speech-to-speech backend and back.  A call is a dozen goroutines that share a write slot on the
    carrier socket, a playout clock, a tracker of marks, a filler loop and a bound on the caller's silence.

  Beside the calls stand the driver and the supervisor.  The driver (\<open>src/driver\<close>) is the host an agent talks through: it sends
  the conversation to a model, hands the answer on in segments while it streams, speaks clips through one queue, keeps the
  history and the prompt, and records a span per request.  The supervisor (\<open>src/cmd/aa-server-status\<close> over \<open>src/config\<close> and
  \<open>src/internal\<close>) starts and stops the servers a machine needs: it reads a validated configuration, observes the listening
  ports of process trees, gates a start on health probes and warm-up, tears process groups down and verifies it, and takes
  commands at a prompt that reloads the configuration when its file changes.

  \<^bold>\<open>Theories, in the order of the code they model.\<close>

  \<^item> \<open>Prelude\<close>: collections of definitions, Go's string helpers, lemmas on lists and sequences.
    \<open>Service\<close>: \<open>service.go\<close>, buffered channels and the constants of audio.
  \<^item> \<open>MuLaw\<close>, \<open>Wav\<close>: the codec and the WAV reader and writer (\<open>mulaw.go\<close>, \<open>wav.go\<close>, \<open>muLawToLinear\<close> of
    \<open>vad.go\<close>), on 8-bit and 16-bit words; the encoder is the nearest code, both round trips hold, and
    exactly one malformed header makes the encoder panic.
  \<^item> \<open>Vad\<close>: configuration, windower, hysteresis machine and frame loop of \<open>vad.go\<close>.  The framed loop
    equals the machine over the windows of the concatenated audio, and the machine's end-of-utterance and
    end-of-turn reports are characterised.
  \<^item> \<open>Timer\<close>: \<open>timer.go\<close> as a step function of the facility's loop and its goroutines, with the client's
    blocking calls; generations are never revived, an active one is alive, and one reachable state is a
    deadlock of loop and client.
  \<^item> \<open>Decision\<close>, \<open>Stt\<close>, \<open>Routers\<close>: the recorder and its totals, the recogniser client and service, and the
    per-session fan-out of results and replies.
  \<^item> \<open>Session\<close>, \<open>State\<close>: the session record with its helpers, every handler, the transition table, dispatch
    and the sequencer.  \<open>CallInv\<close> and \<open>CallTurns\<close> prove the invariants by induction over reachable calls;
    \<open>CallProps\<close> and \<open>TurnProps\<close> read the properties off them.
  \<^item> \<open>Wire\<close>, \<open>Stream\<close>, \<open>Demux\<close>, \<open>Server\<close>: the JSON and base64 the frames use, the frames, both planes with
    sender, receiver and close interleaved, and the webhooks with their signatures, pending calls and TwiML.
  \<^item> \<open>Bridge\<close>: events, handshake and relay loop of \<open>telephony/realtime\<close>.
  \<^item> \<open>Marks\<close>, \<open>Filler\<close>, \<open>CallerSilence\<close>: the three timed machines of the relay, each with the generation
    counter that makes an old callback harmless.  \<open>RelayOptions\<close>, \<open>Sink\<close>: the options, the decisions of the
    select loop, and the write slot as a queue of jobs whose frame is built inside the slot.
    \<open>Relay\<close>: a call as the interleaving of its goroutines.  \<open>RelayInv\<close>, \<open>RelayMarks\<close>, \<open>RelaySilence\<close>,
    \<open>RelayFence\<close> prove the invariants, and \<open>RelayProps\<close> states what a realtime call promises.
  \<^item> \<open>Tap\<close>: the recording of a call's audio (\<open>twilio/tap.go\<close>); \<open>TapProps\<close>: its ring is a queue that loses the oldest frame,
    the files of a duplex recording keep time when frames have one length and do not when the bed plays, and an outbound
    recording follows the clock.  \<open>Sidecars\<close>: the clients of the VAD sidecar (\<open>silero*.go\<close>, \<open>validate.go\<close>) and of extraction
    (\<open>src/extract\<close>).  \<open>Replay\<close>: gate, feeding, rows and scores of the replay harness (\<open>replay.go\<close>).
  \<^item> \<open>DriverStream\<close>, \<open>DriverTrace\<close>, \<open>DriverSend\<close>: \<open>driver.go\<close> and \<open>trace.go\<close>, a model request from its body to its span.
    \<open>DriverProps\<close>: the segments are the pieces of the answer however it was chunked, and a span holds nothing of what was
    said.  \<open>DriverSpeech\<close>: the reduction to prose and the queue of clips with its goroutines.  \<open>DriverHost\<close>: history, prompt
    file, padding of clips, helpers and routes.
  \<^item> \<open>GoText\<close>, \<open>Config\<close>: fields, words and lines of text, and the configuration with its decoders and validators
    (\<open>config/*.go\<close>); \<open>ConfigSpec\<close> states what a valid configuration is and that \<open>Validate\<close> decides it.
  \<^item> \<open>Observe\<close>: \<open>internal/observe\<close>, the walk of a process tree, listen sets with the corroboration of an empty read, and
    classification, each equal to its specification by sets.  \<open>HealthGate\<close>: \<open>internal/health\<close>, probes with capped output,
    warm-up and readiness loops.
  \<^item> \<open>Launch\<close>, \<open>Teardown\<close>: \<open>internal/lifecycle\<close>, commands, environments, builds, logs, and the escalation from TERM to KILL
    with its verification; \<open>TeardownProps\<close> shows that a reported success was observed.
  \<^item> \<open>Engine\<close>: every verb of \<open>engine.go\<close> over a registry of owned processes, with prompts; \<open>EngineProps\<close>, \<open>EngineUp\<close>,
    \<open>EngineVerbs\<close>, \<open>EngineInput\<close> prove what the verbs keep and promise, \<open>LogTail\<close> the backward reading of logs.
    \<open>Console\<close>: the grammar of commands, the burst of interrupts and the table that is printed.  \<open>Repl\<close>: reload, dispatch, the
    session loop and the automatic modes; \<open>ReplProps\<close> shows that every session ends, tears down once, and keeps a valid
    configuration.

  \<^bold>\<open>How the model corresponds to the code.\<close>  A Go struct is a record with the source's field names in a
  model spelling, an enum is a datatype, an operation is a function from the state it reads to the state it
  leaves, with errors and panics as values.  Goroutines are step functions: a step is a critical section or
  a channel operation, and a run is an arbitrary sequence of steps, so a theorem about runs covers every
  interleaving.  Calls to interfaces that the engine does not implement are recorded in a log, and what they
  return is read from the environment, which the theorems quantify over.  Machine integers keep their width
  where the width matters (audio samples, WAV sizes, generation counters are argued not to wrap within
  2^64 steps and are natural numbers).

  \<^bold>\<open>Parameters.\<close>  The detector, the recogniser, the clock, the success of a send, HMAC and the constant-time
  comparison, the JSON text of messages on the realtime side, and the rounding of float64 are arguments of the
  definitions that use them; a law the code relies on is a named hypothesis, with an instance in the
  property's witness.  For the driver these are the parsers of JSON, URLs and floating point numbers, the answer of the
  upstream with its clock readings, and a context as the number of looks that still find it alive.  For the supervisor they
  are the operating system (what a signal, a start, a scan of the process table or a run of a command answers), the file
  system and the decoder of TOML.

  \<^bold>\<open>Bounds.\<close>  Loops are structural or have a termination proof, and nothing runs on fuel.  A loop that polls until a
  deadline runs over the list of its rounds, what each round observes, or their number, which the theorems quantify over.
  The 1024 pending calls, 64 settled timers, 16 results of a route, 32 clips, channel depths and durations are the source's
  constants.  The servers one \<open>up\<close> starts together are started in the order of the list.

  \<^bold>\<open>Not modelled.\<close>  Sockets, files, HTTP transports and log lines; the goroutine teardown order of
  \<open>handleStream\<close>; the lock file, flags and stub engine of the supervisor; the listeners and the audio player of the driver,
  and a segment callback that panics; the wait for outstanding results at the end of a replay; the policy interpreter (a
  third-party interpreter of Go), and the operator tools for audio devices.
\<close>

end
